(* ===== verification/Kv_Store.thy ===== *)
theory Kv_Store
  imports Py_Base
begin

text \<open>
  The interface every keyed store of the application offers its clients: reading a key after a
  write gives the written value, and no other key is touched.  Clients prove their facts here once;
  the variable pool, the task queues, the Redis counters, the todo boards and the file system of
  the patch tool interpret the locale on their own operations.
\<close>

locale kv_store =
  fixes put :: "'k \<Rightarrow> 'v \<Rightarrow> 's \<Rightarrow> 's"
    and look :: "'s \<Rightarrow> 'k \<Rightarrow> 'v option"
  assumes look_put: "look (put k v s) k' = (if k' = k then Some v else look s k')"
begin

lemma look_put_same: "look (put k v s) k = Some v"
  by (simp add: look_put)

lemma look_put_other: "k' \<noteq> k \<Longrightarrow> look (put k v s) k' = look s k'"
  by (simp add: look_put)

lemma look_put_twice: "look (put k v (put k w s)) k' = look (put k v s) k'"
  by (simp add: look_put)

lemma look_put_commute:
  "k1 \<noteq> k2 \<Longrightarrow> look (put k1 v1 (put k2 v2 s)) k = look (put k2 v2 (put k1 v1 s)) k"
  by (auto simp: look_put)

text \<open>A sequence of writes: the last write to a key is the one read.\<close>

lemma look_put_list:
  "look (fold (\<lambda>(k, v). put k v) kvs s) k =
     (case map_of (rev kvs) k of None \<Rightarrow> look s k | Some v \<Rightarrow> Some v)"
proof (induction kvs arbitrary: s)
  case (Cons kv kvs)
  obtain a b where kv: "kv = (a, b)" by (cases kv)
  have "look (fold (\<lambda>(k, v). put k v) (kv # kvs) s) k =
      (case map_of (rev kvs) k of None \<Rightarrow> look (put a b s) k | Some v \<Rightarrow> Some v)"
    by (simp add: kv Cons.IH)
  then show ?case
    by (auto simp: kv look_put map_add_def split: option.splits)
qed simp

lemma look_put_list_frame:
  "k \<notin> fst ` set kvs \<Longrightarrow> look (fold (\<lambda>(k, v). put k v) kvs s) k = look s k"
  by (metis look_put_list map_of_eq_None_iff option.simps(4) set_rev)

text \<open>Writes to distinct keys may be reordered.\<close>

lemma look_put_list_perm:
  assumes "distinct (map fst kvs)" and "set kvs = set kvs'" and "distinct (map fst kvs')"
  shows "look (fold (\<lambda>(k, v). put k v) kvs s) k = look (fold (\<lambda>(k, v). put k v) kvs' s) k"
proof -
  have "map_of (rev kvs) = map_of (rev kvs')"
    using assms by (intro map_of_inject_set [THEN iffD2]) (auto simp: rev_map [symmetric])
  then show ?thesis by (simp add: look_put_list)
qed

end

text \<open>A dictionary is such a store.\<close>

interpretation dict_store: kv_store dset "dget :: ('k \<times> 'v) list \<Rightarrow> 'k \<Rightarrow> 'v option"
  by unfold_locales simp

end
