(* ===== verification/Variable_Pool.thy ===== *)
theory Variable_Pool
  imports Kv_Store
begin

text \<open>
  The variable pool of a workflow run (\<^verbatim>\<open>workflow/variable_pool.py\<close>): system variables, the
  outputs of the nodes, conversation variables, and the references \<open>sys.x\<close>, \<open>conversation.x\<close>,
  \<open>node\<close> and \<open>node.path[0].field\<close> that read them.  The sentinel of the source for a missing field
  is \<^const>\<open>None\<close>, so that a stored Python \<^verbatim>\<open>None\<close> stays distinguishable.
\<close>

section \<open>Field paths\<close>

datatype field_token = Key string | Idx nat

text \<open>
  \<^verbatim>\<open>_FIELD_TOKEN_PATTERN.findall\<close>: an identifier, or digits in square brackets; characters that
  start neither are skipped.
\<close>

lemma dropWhile_Cons_length: "dropWhile P s = d # r \<Longrightarrow> length r < length s"
  by (metis Suc_le_lessD length_Cons length_dropWhile_le)

function field_tokens :: "string \<Rightarrow> field_token list" where
  "field_tokens [] = []"
| "field_tokens (c # s) =
     (if ident_start c then
        Key (c # takeWhile ident_char s) # field_tokens (dropWhile ident_char s)
      else if c = CHR ''['' then
        (case dropWhile is_digit s of
           d # r \<Rightarrow> if d = CHR '']'' \<and> takeWhile is_digit s \<noteq> []
                    then Idx (digits_val (takeWhile is_digit s)) # field_tokens r
                    else field_tokens s
         | [] \<Rightarrow> field_tokens s)
      else field_tokens s)"
  by pat_completeness auto
termination
  by (relation "measure length")
    (auto simp: le_imp_less_Suc length_dropWhile_le dest!: dropWhile_Cons_length)

fun follow_tokens :: "pyval \<Rightarrow> field_token list \<Rightarrow> pyval option" where
  "follow_tokens current [] = Some current"
| "follow_tokens current (Key w # ts) =
     (case current of
        PDict d \<Rightarrow> (case dget d w of Some v \<Rightarrow> follow_tokens v ts | None \<Rightarrow> None)
      | _ \<Rightarrow> None)"
| "follow_tokens current (Idx i # ts) =
     (case current of
        PList xs \<Rightarrow> if i < length xs then follow_tokens (xs ! i) ts else None
      | _ \<Rightarrow> None)"

definition traverse_field :: "pyval \<Rightarrow> string \<Rightarrow> pyval option" where
  "traverse_field data path = (if path = [] then Some data else follow_tokens data (field_tokens path))"

section \<open>The pool\<close>

record var_pool =
  system_variables :: "pyval dict"
  node_outputs :: "pyval dict dict"
  conversation_variables :: "pyval dict"

definition new_pool :: var_pool where
  "new_pool = \<lparr>system_variables = [], node_outputs = [], conversation_variables = []\<rparr>"

definition set_system_variable :: "string \<Rightarrow> pyval \<Rightarrow> var_pool \<Rightarrow> var_pool" where
  "set_system_variable name v p = p\<lparr>system_variables := dset name v (system_variables p)\<rparr>"

definition get_system_variable :: "var_pool \<Rightarrow> string \<Rightarrow> pyval" where
  "get_system_variable p name = opt_none (dget (system_variables p) name)"

definition set_node_output :: "string \<Rightarrow> pyval dict \<Rightarrow> var_pool \<Rightarrow> var_pool" where
  "set_node_output n out p = p\<lparr>node_outputs := dset n out (node_outputs p)\<rparr>"

definition get_node_output :: "var_pool \<Rightarrow> string \<Rightarrow> string option \<Rightarrow> pyval" where
  "get_node_output p n field =
     (case dget (node_outputs p) n of
        None \<Rightarrow> PNone
      | Some out \<Rightarrow> (case field of None \<Rightarrow> PDict out | Some f \<Rightarrow> opt_none (dget out f)))"

definition set_conversation_variable :: "string \<Rightarrow> pyval \<Rightarrow> var_pool \<Rightarrow> var_pool" where
  "set_conversation_variable name v p =
     p\<lparr>conversation_variables := dset name v (conversation_variables p)\<rparr>"

definition get_conversation_variable :: "var_pool \<Rightarrow> string \<Rightarrow> pyval" where
  "get_conversation_variable p name = opt_none (dget (conversation_variables p) name)"

definition get_variable :: "var_pool \<Rightarrow> string \<Rightarrow> pyval" where
  "get_variable p ref =
     (if starts_with ref ''sys.'' then opt_none (dget (system_variables p) (drop 4 ref))
      else if starts_with ref ''conversation.''
        then opt_none (dget (conversation_variables p) (drop 13 ref))
      else (case split_first (CHR ''.'') ref of (node_id, rest) \<Rightarrow>
        (case dget (node_outputs p) node_id of
           None \<Rightarrow> PNone
         | Some out \<Rightarrow>
             (case rest of
                None \<Rightarrow> PDict out
              | Some path \<Rightarrow>
                  (case traverse_field (PDict out) path of None \<Rightarrow> PNone | Some v \<Rightarrow> v)))))"

definition pool_contains :: "var_pool \<Rightarrow> string \<Rightarrow> bool" where
  "pool_contains p ref =
     (if starts_with ref ''sys.'' then drop 4 ref \<in> set (dkeys (system_variables p))
      else if starts_with ref ''conversation.''
        then drop 13 ref \<in> set (dkeys (conversation_variables p))
      else (case split_first (CHR ''.'') ref of (node_id, rest) \<Rightarrow>
        (case dget (node_outputs p) node_id of
           None \<Rightarrow> False
         | Some out \<Rightarrow>
             (case rest of
                None \<Rightarrow> True
              | Some path \<Rightarrow> traverse_field (PDict out) path \<noteq> None))))"

definition pool_to_dict :: "var_pool \<Rightarrow> pyval" where
  "pool_to_dict p = PDict [
     (''system_variables'', PDict (system_variables p)),
     (''node_outputs'', PDict (map (\<lambda>(n, out). (n, PDict out)) (node_outputs p))),
     (''conversation_variables'', PDict (conversation_variables p))]"

definition clear_node_outputs :: "var_pool \<Rightarrow> var_pool" where
  "clear_node_outputs p = p\<lparr>node_outputs := []\<rparr>"

section \<open>The pool is a keyed store three times over\<close>

interpretation node_store: kv_store set_node_output "\<lambda>p. dget (node_outputs p)"
  by unfold_locales (simp add: set_node_output_def)

interpretation sys_store: kv_store set_system_variable "\<lambda>p. dget (system_variables p)"
  by unfold_locales (simp add: set_system_variable_def)

interpretation conv_store: kv_store set_conversation_variable "\<lambda>p. dget (conversation_variables p)"
  by unfold_locales (simp add: set_conversation_variable_def)

text \<open>What a write leaves alone.\<close>

lemma pool_frame [simp, dict_simps]:
  "system_variables (set_node_output n out p) = system_variables p"
  "conversation_variables (set_node_output n out p) = conversation_variables p"
  "node_outputs (set_system_variable x v p) = node_outputs p"
  "conversation_variables (set_system_variable x v p) = conversation_variables p"
  "node_outputs (set_conversation_variable x v p) = node_outputs p"
  "system_variables (set_conversation_variable x v p) = system_variables p"
  by (simp_all add: set_node_output_def set_system_variable_def set_conversation_variable_def)

lemma dget_set_node_output [simp, dict_simps]:
  "dget (node_outputs (set_node_output n out p)) k =
     (if k = n then Some out else dget (node_outputs p) k)"
  by (rule node_store.look_put)

lemma get_node_output_set [simp, dict_simps]:
  "get_node_output (set_node_output n out p) k f =
     (if k = n then (case f of None \<Rightarrow> PDict out | Some x \<Rightarrow> opt_none (dget out x))
      else get_node_output p k f)"
  by (simp add: get_node_output_def)

section \<open>The meaning of a reference\<close>

text \<open>One specification of what a reference denotes; both readers of the pool implement it.\<close>

datatype var_ref = SysRef string | ConvRef string | NodeRef string "string option"

definition parse_ref :: "string \<Rightarrow> var_ref" where
  "parse_ref ref =
     (if starts_with ref ''sys.'' then SysRef (drop 4 ref)
      else if starts_with ref ''conversation.'' then ConvRef (drop 13 ref)
      else (case split_first (CHR ''.'') ref of (n, rest) \<Rightarrow> NodeRef n rest))"

fun ref_denotes :: "var_pool \<Rightarrow> var_ref \<Rightarrow> pyval option" where
  "ref_denotes p (SysRef x) = dget (system_variables p) x"
| "ref_denotes p (ConvRef x) = dget (conversation_variables p) x"
| "ref_denotes p (NodeRef n None) = map_option PDict (dget (node_outputs p) n)"
| "ref_denotes p (NodeRef n (Some path)) =
     (case dget (node_outputs p) n of None \<Rightarrow> None | Some out \<Rightarrow> traverse_field (PDict out) path)"

lemma ref_denotes_NodeRef:
  "ref_denotes p (NodeRef n rest) =
     (case dget (node_outputs p) n of
        None \<Rightarrow> None
      | Some out \<Rightarrow> (case rest of None \<Rightarrow> Some (PDict out) | Some path \<Rightarrow> traverse_field (PDict out) path))"
  by (cases rest) (auto split: option.split)

lemma get_variable_denotes: "get_variable p ref = opt_none (ref_denotes p (parse_ref ref))"
  by (auto simp: get_variable_def parse_ref_def opt_none_def ref_denotes_NodeRef
      simp del: ref_denotes.simps(3,4) split: option.splits prod.splits)

lemma pool_contains_denotes: "pool_contains p ref \<longleftrightarrow> ref_denotes p (parse_ref ref) \<noteq> None"
  unfolding pool_contains_def parse_ref_def in_dkeys
  by (auto simp: ref_denotes_NodeRef simp del: ref_denotes.simps(3,4)
      split: option.splits prod.splits)

lemma split_first_eq:
  "split_first c s = (a, b) \<Longrightarrow> c \<notin> set a \<and> s = a @ (case b of None \<Rightarrow> [] | Some t \<Rightarrow> c # t)"
proof (induction s arbitrary: a b)
  case (Cons x s)
  then show ?case by (cases "split_first c s") (auto split: if_splits)
qed auto

lemma split_first_plain [simp]: "c \<notin> set s \<Longrightarrow> split_first c s = (s, None)"
  by (induction s) auto

lemma split_first_at [simp]: "c \<notin> set a \<Longrightarrow> split_first c (a @ c # b) = (a, Some b)"
  by (induction a) auto

section \<open>Paths compose\<close>

lemma follow_tokens_append:
  "follow_tokens v (ts @ us) =
     (case follow_tokens v ts of None \<Rightarrow> None | Some w \<Rightarrow> follow_tokens w us)"
  by (induction v ts rule: follow_tokens.induct) (auto split: pyval.splits option.splits)

lemma dot_class [simp]:
  "\<not> ident_start (CHR ''.'')" "\<not> ident_char (CHR ''.'')" "\<not> is_digit (CHR ''.'')"
  "\<not> ident_start (CHR ''['')" "\<not> ident_char (CHR ''['')" "\<not> is_digit (CHR '']'')"
  "\<not> ident_start (CHR '']'')"
  by (simp_all add: ident_start_def ident_char_def is_digit_def is_letter_def char_code_def)

lemma takeWhile_stop: "\<not> P c \<Longrightarrow> takeWhile P (s @ c # t) = takeWhile P s"
  by (induction s) auto

lemma dropWhile_stop: "\<not> P c \<Longrightarrow> dropWhile P (s @ c # t) = dropWhile P s @ c # t"
  by (induction s) auto

lemma field_tokens_dot: "field_tokens (a @ CHR ''.'' # b) = field_tokens a @ field_tokens b"
proof (induction a rule: field_tokens.induct)
  case (2 c s)
  show ?case
  proof (cases "ident_start c")
    case True
    with 2 show ?thesis by (simp add: takeWhile_stop dropWhile_stop)
  next
    case no_ident: False
    show ?thesis
    proof (cases "c = CHR ''[''")
      case True
      show ?thesis
      proof (cases "dropWhile is_digit s")
        case Nil
        with no_ident True 2 show ?thesis
          by (auto simp: takeWhile_stop dropWhile_stop split: list.split
              dest!: dropWhile_eq_Nil_conv [THEN iffD2])
      next
        case (Cons d r)
        with no_ident True 2 show ?thesis by (simp add: takeWhile_stop dropWhile_stop)
      qed
    next
      case False
      with no_ident 2 show ?thesis by simp
    qed
  qed
qed simp

lemma traverse_field_tokens: "traverse_field v path = follow_tokens v (field_tokens path)"
  by (simp add: traverse_field_def)

lemma traverse_field_dot:
  "traverse_field v (a @ CHR ''.'' # b) =
     (case traverse_field v a of None \<Rightarrow> None | Some w \<Rightarrow> traverse_field w b)"
  by (simp add: traverse_field_tokens field_tokens_dot follow_tokens_append split: option.split)

section \<open>Printing a path and reading it back\<close>

definition ident :: "string \<Rightarrow> bool" where
  "ident s = (case s of [] \<Rightarrow> False | c # t \<Rightarrow> ident_start c \<and> (\<forall>x \<in> set t. ident_char x))"

definition show_token :: "field_token \<Rightarrow> string" where
  "show_token t = (case t of Key w \<Rightarrow> CHR ''.'' # w | Idx i \<Rightarrow> CHR ''['' # nat_str i @ '']'')"

definition show_path :: "field_token list \<Rightarrow> string" where
  "show_path ts = concat (map show_token ts)"

definition token_ok :: "field_token \<Rightarrow> bool" where
  "token_ok t = (case t of Key w \<Rightarrow> ident w | Idx _ \<Rightarrow> True)"

lemma show_path_simps [simp]:
  "show_path [] = []"
  "show_path (t # ts) = show_token t @ show_path ts"
  by (simp_all add: show_path_def)

lemma show_path_head:
  "show_path ts = [] \<or> hd (show_path ts) = CHR ''.'' \<or> hd (show_path ts) = CHR ''[''"
  by (cases ts) (auto simp: show_token_def split: field_token.splits)

lemma takeWhile_path:
  assumes "\<forall>x \<in> set w. ident_char x"
  shows "takeWhile ident_char (w @ show_path ts) = w \<and> dropWhile ident_char (w @ show_path ts) = show_path ts"
proof (cases "show_path ts")
  case Nil
  with assms show ?thesis by simp
next
  case (Cons c r)
  with show_path_head [of ts] have "\<not> ident_char c" by auto
  with assms Cons show ?thesis by simp
qed

lemma field_tokens_key:
  assumes "ident w"
  shows "field_tokens (w @ show_path ts) = Key w # field_tokens (show_path ts)"
proof -
  from assms obtain c t where w: "w = c # t" "ident_start c" "\<forall>x \<in> set t. ident_char x"
    by (cases w) (auto simp: ident_def)
  with takeWhile_path [of t ts] show ?thesis by simp
qed

lemma digits_stop:
  assumes "\<forall>x \<in> set w. is_digit x"
  shows "takeWhile is_digit (w @ CHR '']'' # r) = w \<and> dropWhile is_digit (w @ CHR '']'' # r) = CHR '']'' # r"
  using assms by simp

lemma field_tokens_show_path: "\<forall>t \<in> set ts. token_ok t \<Longrightarrow> field_tokens (show_path ts) = ts"
proof (induction ts)
  case (Cons t ts)
  then have IH: "field_tokens (show_path ts) = ts" by simp
  show ?case
  proof (cases t)
    case (Key w)
    with Cons.prems have "ident w" by (simp add: token_ok_def)
    then show ?thesis
      by (simp add: Key show_token_def field_tokens_key IH)
  next
    case (Idx i)
    then show ?thesis
      using digits_stop [OF nat_str_digits, of i "show_path ts"]
      by (simp add: show_token_def IH)
  qed
qed simp

section \<open>The properties\<close>

lemma not_special_ref:
  assumes "CHR ''.'' \<notin> set n" and "n \<noteq> ''sys''" and "n \<noteq> ''conversation''"
  shows "\<not> starts_with (n @ CHR ''.'' # path) ''sys.''"
    and "\<not> starts_with (n @ CHR ''.'' # path) ''conversation.''"
proof -
  have split: "split_first (CHR ''.'') (n @ CHR ''.'' # path) = (n, Some path)"
    using assms(1) by simp
  show "\<not> starts_with (n @ CHR ''.'' # path) ''sys.''"
  proof
    assume "starts_with (n @ CHR ''.'' # path) ''sys.''"
    then obtain t where "n @ CHR ''.'' # path = ''sys'' @ CHR ''.'' # t"
      by (auto simp: starts_with_iff)
    with split split_first_at [of "CHR ''.''" "''sys''" t] assms(2) show False by simp
  qed
  show "\<not> starts_with (n @ CHR ''.'' # path) ''conversation.''"
  proof
    assume "starts_with (n @ CHR ''.'' # path) ''conversation.''"
    then obtain t where "n @ CHR ''.'' # path = ''conversation'' @ CHR ''.'' # t"
      by (auto simp: starts_with_iff)
    with split split_first_at [of "CHR ''.''" "''conversation''" t] assms(3) show False by simp
  qed
qed

text \<open>
  C37. Storing a node's output makes every path into it readable under \<open>node.path\<close>, agrees with
  membership, and changes no reference to another node.
\<close>

theorem pool_read_after_write:
  assumes "CHR ''.'' \<notin> set n" and "n \<noteq> ''sys''" and "n \<noteq> ''conversation''"
    and "CHR ''.'' \<notin> set m" and "m \<noteq> ''sys''" and "m \<noteq> ''conversation''" and "m \<noteq> n"
  shows "get_variable (set_node_output n out p) (n @ CHR ''.'' # path) =
      opt_none (traverse_field (PDict out) path) \<and>
    (pool_contains (set_node_output n out p) (n @ CHR ''.'' # path) \<longleftrightarrow>
      traverse_field (PDict out) path \<noteq> None) \<and>
    get_variable (set_node_output n out p) (m @ CHR ''.'' # path) = get_variable p (m @ CHR ''.'' # path)"
proof -
  have ref: "parse_ref (k @ CHR ''.'' # path) = NodeRef k (Some path)"
    if "CHR ''.'' \<notin> set k" "k \<noteq> ''sys''" "k \<noteq> ''conversation''" for k
    using not_special_ref [OF that] that(1) by (simp add: parse_ref_def)
  show ?thesis
    unfolding get_variable_denotes pool_contains_denotes
    using ref [OF assms(1-3)] ref [OF assms(4-6)] assms(7) by simp
qed

theorem pool_read_after_write_witness:
  "get_variable (set_node_output ''a'' [(''b'', PList [PInt 7])] new_pool) (''a'' @ CHR ''.'' # ''b[0]'') =
     opt_none (traverse_field (PDict [(''b'', PList [PInt 7])]) ''b[0]'')"
  using pool_read_after_write [of "''a''" "''c''" "[(''b'', PList [PInt 7])]" new_pool "''b[0]''"]
  by simp

text \<open>
  Printing a field path and reading it back gives the same steps, so a printed path reaches
  exactly the value its steps reach.
\<close>

theorem field_path_roundtrip:
  assumes "\<forall>t \<in> set ts. token_ok t"
  shows "field_tokens (show_path ts) = ts \<and> traverse_field v (show_path ts) = follow_tokens v ts"
  using field_tokens_show_path [OF assms] by (simp add: traverse_field_tokens)

theorem field_path_roundtrip_witness:
  "field_tokens (show_path [Key ''choices'', Idx 12, Key ''text'']) = [Key ''choices'', Idx 12, Key ''text'']"
proof -
  have "\<forall>t \<in> set [Key ''choices'', Idx 12, Key ''text'']. token_ok t" by code_simp
  from field_path_roundtrip [OF this] show ?thesis by simp
qed

text \<open>
  The two readers agree: a reference the pool does not contain reads as \<^verbatim>\<open>None\<close>, and a contained
  one reads as the value it denotes.
\<close>

theorem pool_reads_what_it_contains:
  "get_variable p ref = (if pool_contains p ref then the (ref_denotes p (parse_ref ref)) else PNone)"
  unfolding get_variable_denotes pool_contains_denotes by (cases "ref_denotes p (parse_ref ref)") auto

end
