(* ===== verification/Variable_Parser.thy ===== *)
theory Variable_Parser
  imports Variable_Pool
begin

text \<open>
  The \<open>{{#node.field#}}\<close> reference syntax (\<^verbatim>\<open>workflow/variable_parser.py\<close>).  A text is scanned once
  into literal characters and references; a text that is exactly one reference evaluates to the
  raw value, any other text to a string with every reference replaced.
\<close>

section \<open>Scanning\<close>

datatype seg = Lit char | Ref string

definition open_mark :: string where "open_mark = ''{{#''"

definition close_mark :: string where "close_mark = ''#}}''"

text \<open>One match of \<^verbatim>\<open>REFERENCE_PATTERN\<close> at the head of the text: its name and the rest.\<close>

definition match_ref :: "string \<Rightarrow> (string \<times> string) option" where
  "match_ref s =
     (if starts_with s open_mark then
        (let body = drop 3 s;
             name = takeWhile (\<lambda>c. c \<noteq> CHR ''#'') body;
             rest = dropWhile (\<lambda>c. c \<noteq> CHR ''#'') body
         in if name \<noteq> [] \<and> starts_with rest close_mark then Some (name, drop 3 rest) else None)
      else None)"

lemma match_ref_Some:
  assumes "match_ref s = Some (name, rest)"
  shows "s = open_mark @ name @ close_mark @ rest" "name \<noteq> []" "CHR ''#'' \<notin> set name"
proof -
  define body where "body = drop 3 s"
  define tail where "tail = dropWhile (\<lambda>c. c \<noteq> CHR ''#'') body"
  from assms have s: "s = open_mark @ body" and t: "tail = close_mark @ rest"
    and name: "name = takeWhile (\<lambda>c. c \<noteq> CHR ''#'') body" "name \<noteq> []"
    by (auto simp: match_ref_def Let_def body_def tail_def starts_with_iff open_mark_def
        close_mark_def split: if_splits)
  have "body = name @ tail"
    by (simp add: name tail_def)
  with s t show "s = open_mark @ name @ close_mark @ rest" by simp
  show "name \<noteq> []" by (fact name(2))
  show "CHR ''#'' \<notin> set name"
    using name(1) by (auto dest: set_takeWhileD)
qed

lemma match_ref_length: "match_ref s = Some (name, rest) \<Longrightarrow> length rest < length s"
  by (drule match_ref_Some(1)) (simp add: open_mark_def)

lemma match_ref_I:
  assumes "name \<noteq> []" and "CHR ''#'' \<notin> set name"
  shows "match_ref (open_mark @ name @ close_mark @ rest) = Some (name, rest)"
proof -
  have name: "\<forall>x \<in> set name. x \<noteq> CHR ''#''"
    using assms(2) by auto
  then have "takeWhile (\<lambda>c. c \<noteq> CHR ''#'') (name @ CHR ''#'' # t) = name"
    and "dropWhile (\<lambda>c. c \<noteq> CHR ''#'') (name @ CHR ''#'' # t) = CHR ''#'' # t" for t
    by auto
  with assms(1) show ?thesis
    by (simp add: match_ref_def open_mark_def close_mark_def starts_with_def)
qed

function scan :: "string \<Rightarrow> seg list" where
  "scan [] = []"
| "scan (c # s) =
     (case match_ref (c # s) of
        Some (name, rest) \<Rightarrow> Ref name # scan rest
      | None \<Rightarrow> Lit c # scan s)"
  by pat_completeness auto
termination
  by (relation "measure length") (auto dest: match_ref_length)

fun seg_refs :: "seg list \<Rightarrow> string list" where
  "seg_refs [] = []"
| "seg_refs (Lit c # ss) = seg_refs ss"
| "seg_refs (Ref n # ss) = n # seg_refs ss"

section \<open>The parser\<close>

definition render_seg :: "var_pool \<Rightarrow> seg \<Rightarrow> string" where
  "render_seg pool sg =
     (case sg of
        Lit c \<Rightarrow> [c]
      | Ref n \<Rightarrow> (let v = get_variable pool n in if v = PNone then [] else py_str v))"

definition parse_text :: "var_pool \<Rightarrow> pyval \<Rightarrow> pyval" where
  "parse_text pool v =
     (case v of
        PStr t \<Rightarrow>
          (let segs = scan t in
           if seg_refs segs = [] then v
           else (case segs of
                   [Ref n] \<Rightarrow> get_variable pool n
                 | _ \<Rightarrow> PStr (concat (map (render_seg pool) segs))))
      | _ \<Rightarrow> v)"

fun parse_item :: "var_pool \<Rightarrow> pyval \<Rightarrow> pyval"
  and parse_list :: "var_pool \<Rightarrow> pyval list \<Rightarrow> pyval list"
  and parse_dict :: "var_pool \<Rightarrow> (string \<times> pyval) list \<Rightarrow> (string \<times> pyval) list" where
  "parse_item pool (PStr t) = parse_text pool (PStr t)"
| "parse_item pool (PDict d) = PDict (parse_dict pool d)"
| "parse_item pool (PList xs) = PList (parse_list pool xs)"
| "parse_item pool PNone = PNone"
| "parse_item pool (PBool b) = PBool b"
| "parse_item pool (PInt n) = PInt n"
| "parse_item pool (PObj r) = PObj r"
| "parse_list pool [] = []"
| "parse_list pool (x # xs) = parse_item pool x # parse_list pool xs"
| "parse_dict pool [] = []"
| "parse_dict pool ((k, v) # d) = (k, parse_item pool v) # parse_dict pool d"

definition extract_references :: "pyval \<Rightarrow> string list" where
  "extract_references v = (case v of PStr t \<Rightarrow> seg_refs (scan t) | _ \<Rightarrow> [])"

text \<open>\<^verbatim>\<open>pattern.search\<close>: a match at some position of the text.\<close>

fun search_ref :: "string \<Rightarrow> bool" where
  "search_ref [] = False"
| "search_ref (c # s) = (match_ref (c # s) \<noteq> None \<or> search_ref s)"

definition has_reference :: "pyval \<Rightarrow> bool" where
  "has_reference v = (case v of PStr t \<Rightarrow> search_ref t | _ \<Rightarrow> False)"

section \<open>Facts about scanning\<close>

definition seg_text :: "seg \<Rightarrow> string" where
  "seg_text sg = (case sg of Lit c \<Rightarrow> [c] | Ref n \<Rightarrow> open_mark @ n @ close_mark)"

definition unscan :: "seg list \<Rightarrow> string" where
  "unscan segs = concat (map seg_text segs)"

lemma unscan_simps [simp]:
  "unscan [] = []" "unscan (Lit c # ss) = c # unscan ss"
  "unscan (Ref n # ss) = open_mark @ n @ close_mark @ unscan ss"
  by (simp_all add: unscan_def seg_text_def)

lemma unscan_scan: "unscan (scan s) = s"
proof (induction s rule: scan.induct)
  case (2 c s)
  then show ?case
    by (cases "match_ref (c # s)") (auto dest: match_ref_Some(1))
qed simp

lemma scan_refs_ok: "Ref n \<in> set (scan s) \<Longrightarrow> n \<noteq> [] \<and> CHR ''#'' \<notin> set n"
proof (induction s rule: scan.induct)
  case (2 c s)
  then show ?case
    by (cases "match_ref (c # s)") (auto dest: match_ref_Some)
qed simp

lemma match_ref_not_open: "c \<noteq> CHR ''{'' \<Longrightarrow> match_ref (c # s) = None"
  by (simp add: match_ref_def starts_with_def open_mark_def)

definition seg_ok :: "seg \<Rightarrow> bool" where
  "seg_ok sg = (case sg of Lit c \<Rightarrow> c \<noteq> CHR ''{'' | Ref n \<Rightarrow> n \<noteq> [] \<and> CHR ''#'' \<notin> set n)"

lemma scan_open: "scan (open_mark @ t) =
     (case match_ref (open_mark @ t) of Some (n, rest) \<Rightarrow> Ref n # scan rest
      | None \<Rightarrow> Lit (CHR ''{'') # scan (''{#'' @ t))"
  by (simp add: open_mark_def split: option.split)

lemma scan_unscan: "\<forall>sg \<in> set segs. seg_ok sg \<Longrightarrow> scan (unscan segs) = segs"
proof (induction segs)
  case (Cons sg segs)
  then have IH: "scan (unscan segs) = segs" and ok: "seg_ok sg" by simp_all
  show ?case
  proof (cases sg)
    case (Lit c)
    with ok IH show ?thesis by (simp add: seg_ok_def match_ref_not_open)
  next
    case (Ref n)
    with ok IH show ?thesis by (simp add: seg_ok_def scan_open match_ref_I)
  qed
qed simp

lemma seg_refs_mem: "n \<in> set (seg_refs segs) \<longleftrightarrow> Ref n \<in> set segs"
  by (induction segs rule: seg_refs.induct) auto

lemma search_ref_drop: "search_ref s \<Longrightarrow> \<exists>k. match_ref (drop k s) \<noteq> None"
proof (induction s)
  case (Cons c s)
  then show ?case
    by (metis drop0 drop_Suc_Cons search_ref.simps(2))
qed simp

lemma scan_search: "seg_refs (scan s) \<noteq> [] \<longleftrightarrow> search_ref s"
proof (induction s rule: scan.induct)
  case (2 c s)
  then show ?case by (cases "match_ref (c # s)") auto
qed simp

section \<open>Facts about parsing\<close>

lemma render_seg_cong:
  "(\<And>n. sg = Ref n \<Longrightarrow> get_variable p n = get_variable q n) \<Longrightarrow> render_seg p sg = render_seg q sg"
  by (cases sg) (auto simp: render_seg_def)

lemma parse_text_single: "scan t = [Ref n] \<Longrightarrow> parse_text p (PStr t) = get_variable p n"
  by (simp add: parse_text_def)

lemma parse_text_mixed:
  assumes "\<forall>n. scan t \<noteq> [Ref n]"
  shows "parse_text p (PStr t) =
    (if seg_refs (scan t) = [] then PStr t else PStr (concat (map (render_seg p) (scan t))))"
  using assms by (auto simp: parse_text_def Let_def split: list.split seg.split)

lemma parse_text_cong:
  assumes "\<forall>n \<in> set (extract_references v). get_variable p n = get_variable q n"
  shows "parse_text p v = parse_text q v"
proof (cases v)
  case (PStr t)
  with assms have agree: "Ref n \<in> set (scan t) \<Longrightarrow> get_variable p n = get_variable q n" for n
    by (simp add: extract_references_def seg_refs_mem)
  then have render: "map (render_seg p) (scan t) = map (render_seg q) (scan t)"
    by (intro map_cong render_seg_cong) auto
  show ?thesis
  proof (cases "\<exists>n. scan t = [Ref n]")
    case True
    with agree show ?thesis by (auto simp: PStr parse_text_single)
  next
    case False
    then have "\<forall>n. scan t \<noteq> [Ref n]" by simp
    from parse_text_mixed [OF this] show ?thesis by (simp only: PStr render)
  qed
qed (auto simp: parse_text_def)

lemma parse_text_plain: "\<not> has_reference v \<Longrightarrow> parse_text p v = v"
  by (cases v) (auto simp: parse_text_def has_reference_def scan_search [symmetric])

lemma parse_text_template:
  assumes ok: "\<forall>sg \<in> set segs. seg_ok sg" and two: "\<exists>n. Ref n \<in> set segs" "\<forall>n. segs \<noteq> [Ref n]"
  shows "parse_text p (PStr (unscan segs)) = PStr (concat (map (render_seg p) segs))"
proof -
  from two(1) have "seg_refs segs \<noteq> []"
    by (metis empty_iff list.set(1) seg_refs_mem)
  with two(2) show ?thesis
    by (simp add: parse_text_mixed scan_unscan [OF ok])
qed

lemma parse_keys:
  "dkeys (parse_dict pool d) = dkeys d" "length (parse_list pool xs) = length xs"
proof -
  show "dkeys (parse_dict pool d) = dkeys d"
    by (induction d) auto
  show "length (parse_list pool xs) = length xs"
    by (induction xs) auto
qed

lemma parse_list_map: "parse_list pool xs = map (parse_item pool) xs"
  by (induction xs) auto

lemma parse_dict_map: "parse_dict pool d = map (\<lambda>(k, v). (k, parse_item pool v)) d"
  by (induction d) auto

text \<open>The references of a nested value, and independence from everything else in the pool.\<close>

fun all_refs :: "pyval \<Rightarrow> string set"
  and all_refs_list :: "pyval list \<Rightarrow> string set"
  and all_refs_dict :: "(string \<times> pyval) list \<Rightarrow> string set" where
  "all_refs (PStr t) = set (extract_references (PStr t))"
| "all_refs (PDict d) = all_refs_dict d"
| "all_refs (PList xs) = all_refs_list xs"
| "all_refs PNone = {}"
| "all_refs (PBool b) = {}"
| "all_refs (PInt n) = {}"
| "all_refs (PObj r) = {}"
| "all_refs_list [] = {}"
| "all_refs_list (x # xs) = all_refs x \<union> all_refs_list xs"
| "all_refs_dict [] = {}"
| "all_refs_dict ((k, v) # d) = all_refs v \<union> all_refs_dict d"

lemma parse_item_cong:
  "\<forall>n \<in> all_refs v. get_variable p n = get_variable q n \<Longrightarrow> parse_item p v = parse_item q v"
  "\<forall>n \<in> all_refs_list xs. get_variable p n = get_variable q n \<Longrightarrow> parse_list p xs = parse_list q xs"
  "\<forall>n \<in> all_refs_dict d. get_variable p n = get_variable q n \<Longrightarrow> parse_dict p d = parse_dict q d"
  by (induction v and xs and d rule: all_refs_all_refs_list_all_refs_dict.induct)
    (auto intro: parse_text_cong)

section \<open>The properties\<close>

text \<open>
  Parsing a nested value depends on the pool only through the references that occur in its
  texts.
\<close>

theorem parse_depends_on_references:
  assumes "\<forall>n \<in> all_refs v. get_variable p n = get_variable q n"
  shows "parse_item p v = parse_item q v"
  using parse_item_cong(1) [OF assms] .

theorem parse_depends_on_references_witness:
  "parse_item (set_node_output ''z'' [] new_pool) (PList [PStr ''{{#a.b#}}'', PInt 3]) =
   parse_item new_pool (PList [PStr ''{{#a.b#}}'', PInt 3])"
proof (rule parse_depends_on_references)
  have "all_refs (PList [PStr ''{{#a.b#}}'', PInt 3]) = {''a.b''}" by code_simp
  moreover have "get_variable (set_node_output ''z'' [] new_pool) ''a.b'' = get_variable new_pool ''a.b''"
    by code_simp
  ultimately show "\<forall>n \<in> all_refs (PList [PStr ''{{#a.b#}}'', PInt 3]).
      get_variable (set_node_output ''z'' [] new_pool) n = get_variable new_pool n"
    by simp
qed

text \<open>
  A text with references and other text is rendered piece by piece: literal characters stay,
  each reference becomes the text of its value, and a missing one nothing.
\<close>

theorem parse_renders_templates:
  assumes "\<forall>sg \<in> set segs. seg_ok sg" and "\<exists>n. Ref n \<in> set segs" and "\<forall>n. segs \<noteq> [Ref n]"
  shows "parse_text p (PStr (unscan segs)) = PStr (concat (map (render_seg p) segs))"
  using parse_text_template [OF assms] .

theorem parse_renders_templates_witness:
  "parse_text (set_node_output ''a'' [(''b'', PInt 7)] new_pool) (PStr (unscan [Lit (CHR ''x''), Ref ''a.b''])) =
   PStr (concat (map (render_seg (set_node_output ''a'' [(''b'', PInt 7)] new_pool)) [Lit (CHR ''x''), Ref ''a.b'']))"
  by (rule parse_renders_templates) (auto simp: seg_ok_def)

text \<open>
  A text that is exactly one reference gives the value itself, of whatever type, and a value
  without references is returned unchanged.
\<close>

theorem parse_single_reference:
  assumes "n \<noteq> []" and "CHR ''#'' \<notin> set n"
  shows "parse_text p (PStr (open_mark @ n @ close_mark)) = get_variable p n \<and>
    has_reference (PStr (open_mark @ n @ close_mark)) \<and>
    (has_reference v \<or> parse_text p v = v)"
proof -
  have "scan (unscan [Ref n]) = [Ref n]"
    using assms by (intro scan_unscan) (simp add: seg_ok_def)
  then have s: "scan (open_mark @ n @ close_mark) = [Ref n]" by simp
  then have "has_reference (PStr (open_mark @ n @ close_mark))"
    by (simp add: has_reference_def flip: scan_search)
  with s parse_text_single parse_text_plain show ?thesis by blast
qed

theorem parse_single_reference_witness:
  "parse_text (set_node_output ''a'' [(''b'', PInt 7)] new_pool) (PStr (open_mark @ ''a.b'' @ close_mark)) =
   get_variable (set_node_output ''a'' [(''b'', PInt 7)] new_pool) ''a.b''"
  using parse_single_reference [of "''a.b''" "set_node_output ''a'' [(''b'', PInt 7)] new_pool" PNone] by simp

end
