(* ===== verification/Retry.thy ===== *)
theory Retry
  imports Py_Base Complex_Main
begin

text \<open>
  Exceptions as values, and the node-level retry of the workflow engine
  (\<^verbatim>\<open>workflow/entities/retry_entity.py\<close>, \<^verbatim>\<open>workflow/utils/retry_executor.py\<close>).  The retried function is
  a state transformer that returns a value or raises; sleeping is recorded in a list of intervals.
\<close>

text \<open>
  The exception classes the modelled code raises or lets through; the string is a tag for the
  (Chinese) message.
\<close>

datatype exn =
    ValidateError string
  | FailError string
  | KeyError string
  | TypeError
  | ValueError string
  | AttributeError
  | IndexError
  | UserError string
  | NotFoundError string
  | IntegrityError
  | MultipleResultsFound
  | UnauthorizedError string
  | PermissionError string
  | LookupError string

section \<open>Configuration\<close>

record retry_config =
  retry_on_fail :: bool
  max_tries :: int
  retry_interval :: rat

definition default_retry :: retry_config where
  "default_retry = \<lparr>retry_on_fail = False, max_tries = 3, retry_interval = 1\<rparr>"

definition validate_max_tries :: "int \<Rightarrow> exn + int" where
  "validate_max_tries v =
     (if v < 1 then Inl (ValidateError ''max_tries below 1'')
      else if v > 10 then Inl (ValidateError ''max_tries above 10'')
      else Inr v)"

definition validate_retry_interval :: "rat \<Rightarrow> exn + rat" where
  "validate_retry_interval v =
     (if v < 0 then Inl (ValidateError ''retry_interval negative'')
      else if v > 60 then Inl (ValidateError ''retry_interval above 60'')
      else Inr v)"

definition retry_count :: "retry_config \<Rightarrow> int" where
  "retry_count cfg = (if retry_on_fail cfg then max 0 (max_tries cfg - 1) else 0)"

definition make_retry_config :: "bool \<Rightarrow> int \<Rightarrow> rat \<Rightarrow> exn + retry_config" where
  "make_retry_config on_fail tries interval =
     (case validate_max_tries tries of
        Inl e \<Rightarrow> Inl e
      | Inr t \<Rightarrow> (case validate_retry_interval interval of
          Inl e \<Rightarrow> Inl e
        | Inr i \<Rightarrow> Inr \<lparr>retry_on_fail = on_fail, max_tries = t, retry_interval = i\<rparr>))"

section \<open>The executor\<close>

type_synonym ('s, 'a) action = "'s \<Rightarrow> (exn + 'a) \<times> 's"

text \<open>
  The loop \<^verbatim>\<open>for attempt in range(1, max_tries + 1)\<close>, with \<open>n\<close> iterations left.  Raising
  \<^verbatim>\<open>last_error\<close> when no attempt was made raises a \<^verbatim>\<open>TypeError\<close>, as \<^verbatim>\<open>raise None\<close> does.
\<close>

fun retry_loop :: "('s, 'a) action \<Rightarrow> rat \<Rightarrow> int \<Rightarrow> nat \<Rightarrow> nat \<Rightarrow> exn option \<Rightarrow> rat list \<Rightarrow> 's
    \<Rightarrow> (exn + 'a \<times> nat) \<times> rat list \<times> 's" where
  "retry_loop func interval tries attempt 0 last_error sleeps s =
     (Inl (case last_error of Some e \<Rightarrow> e | None \<Rightarrow> TypeError), sleeps, s)"
| "retry_loop func interval tries attempt (Suc n) last_error sleeps s =
     (case func s of
        (Inr result, s') \<Rightarrow> (Inr (result, attempt), sleeps, s')
      | (Inl e, s') \<Rightarrow>
          retry_loop func interval tries (Suc attempt) n (Some e)
            (if int attempt < tries \<and> interval > 0 then sleeps @ [interval] else sleeps) s')"

definition effective_tries :: "retry_config \<Rightarrow> int" where
  "effective_tries cfg = (if retry_on_fail cfg then max_tries cfg else 1)"

definition execute_with_retry ::
    "('s, 'a) action \<Rightarrow> retry_config \<Rightarrow> 's \<Rightarrow> (exn + 'a \<times> nat) \<times> rat list \<times> 's" where
  "execute_with_retry func cfg s =
     retry_loop func (retry_interval cfg) (effective_tries cfg) 1 (nat (effective_tries cfg)) None [] s"

text \<open>
  The asynchronous version calls the function to get an awaitable and awaits it; either may raise.
\<close>

definition await_call :: "('s, ('s, 'a) action) action \<Rightarrow> ('s, 'a) action" where
  "await_call call s = (case call s of (Inl e, s') \<Rightarrow> (Inl e, s') | (Inr awaitable, s') \<Rightarrow> awaitable s')"

fun retry_loop_async :: "('s, ('s, 'a) action) action \<Rightarrow> rat \<Rightarrow> int \<Rightarrow> nat \<Rightarrow> nat \<Rightarrow> exn option
    \<Rightarrow> rat list \<Rightarrow> 's \<Rightarrow> (exn + 'a \<times> nat) \<times> rat list \<times> 's" where
  "retry_loop_async call interval tries attempt 0 last_error sleeps s =
     (Inl (case last_error of Some e \<Rightarrow> e | None \<Rightarrow> TypeError), sleeps, s)"
| "retry_loop_async call interval tries attempt (Suc n) last_error sleeps s =
     (case await_call call s of
        (Inr result, s') \<Rightarrow> (Inr (result, attempt), sleeps, s')
      | (Inl e, s') \<Rightarrow>
          retry_loop_async call interval tries (Suc attempt) n (Some e)
            (if int attempt < tries \<and> interval > 0 then sleeps @ [interval] else sleeps) s')"

definition execute_with_retry_async ::
    "('s, ('s, 'a) action) action \<Rightarrow> retry_config \<Rightarrow> 's \<Rightarrow> (exn + 'a \<times> nat) \<times> rat list \<times> 's" where
  "execute_with_retry_async call cfg s =
     retry_loop_async call (retry_interval cfg) (effective_tries cfg) 1
       (nat (effective_tries cfg)) None [] s"

lemma retry_loop_async_eq:
  "retry_loop_async call i m a n l sl s = retry_loop (await_call call) i m a n l sl s"
  by (induction n arbitrary: a l sl s) (auto split: sum.split prod.split)

lemma execute_with_retry_async_eq:
  "execute_with_retry_async call cfg s = execute_with_retry (await_call call) cfg s"
  by (simp add: execute_with_retry_async_def execute_with_retry_def retry_loop_async_eq)

section \<open>What the loop does\<close>

text \<open>The state after \<open>k\<close> calls and the outcome of call \<open>k\<close> (from 0), with no retry logic.\<close>

fun after_calls :: "('s, 'a) action \<Rightarrow> nat \<Rightarrow> 's \<Rightarrow> 's" where
  "after_calls func 0 s = s"
| "after_calls func (Suc k) s = after_calls func k (snd (func s))"

definition outcome :: "('s, 'a) action \<Rightarrow> nat \<Rightarrow> 's \<Rightarrow> exn + 'a" where
  "outcome func k s = fst (func (after_calls func k s))"

lemma outcome_simps [simp]:
  "outcome func 0 s = fst (func s)"
  "outcome func (Suc k) s = outcome func k (snd (func s))"
  by (simp_all add: outcome_def)

definition pauses :: "rat \<Rightarrow> nat \<Rightarrow> rat list" where
  "pauses interval k = (if interval > 0 then replicate k interval else [])"

lemma pauses_0 [simp]: "pauses i 0 = []"
  by (simp add: pauses_def)

lemma pauses_Suc: "pauses i (Suc k) = (if i > 0 then [i] else []) @ pauses i k"
  by (simp add: pauses_def)

lemma retry_loop_success:
  assumes "k < n" and "\<forall>j < k. isl (outcome func j s)" and "outcome func k s = Inr r"
    and "int (a + n) = m + 1"
  shows "retry_loop func i m a n l sl s =
    (Inr (r, a + k), sl @ pauses i k, after_calls func (Suc k) s)"
  using assms
proof (induction n arbitrary: a k l sl s)
  case (Suc n)
  obtain out s' where call: "func s = (out, s')" by (cases "func s")
  show ?case
  proof (cases k)
    case 0
    with Suc.prems call show ?thesis by simp
  next
    case (Suc k')
    with Suc.prems call obtain e where out: "out = Inl e"
      by (metis fst_conv isl_def outcome_simps(1) zero_less_Suc)
    have fails: "\<forall>j < k'. isl (outcome func j s')"
      using Suc.prems(2) Suc call by (metis Suc_less_eq outcome_simps(2) snd_conv)
    have "retry_loop func i m (Suc a) n (Some e)
        (if int a < m \<and> i > 0 then sl @ [i] else sl) s' =
      (Inr (r, Suc a + k'), (if int a < m \<and> i > 0 then sl @ [i] else sl) @ pauses i k',
       after_calls func (Suc k') s')"
      using Suc.prems Suc call fails by (intro Suc.IH) auto
    moreover have "int a < m"
      using Suc.prems(1,4) Suc by simp
    ultimately show ?thesis
      using call out Suc by (simp add: pauses_Suc)
  qed
qed simp

lemma retry_loop_failure:
  assumes "\<forall>j < n. isl (outcome func j s)" and "int (a + n) = m + 1"
  shows "retry_loop func i m a n l sl s =
    (Inl (if n = 0 then (case l of Some e \<Rightarrow> e | None \<Rightarrow> TypeError) else projl (outcome func (n - 1) s)),
     sl @ pauses i (n - 1), after_calls func n s)"
  using assms
proof (induction n arbitrary: a l sl s)
  case (Suc n)
  obtain out s' where call: "func s = (out, s')" by (cases "func s")
  with Suc.prems obtain e where out: "out = Inl e"
    by (metis fst_conv isl_def outcome_simps(1) zero_less_Suc)
  have fails: "\<forall>j < n. isl (outcome func j s')"
    using Suc.prems(1) call by (metis Suc_less_eq outcome_simps(2) snd_conv)
  have IH: "retry_loop func i m (Suc a) n (Some e)
      (if int a < m \<and> i > 0 then sl @ [i] else sl) s' =
    (Inl (if n = 0 then e else projl (outcome func (n - 1) s')),
     (if int a < m \<and> i > 0 then sl @ [i] else sl) @ pauses i (n - 1), after_calls func n s')"
    using Suc.IH [of s' "Suc a" "Some e"] fails Suc.prems(2) by simp
  show ?case
  proof (cases n)
    case 0
    with call out IH Suc.prems(2) show ?thesis by simp
  next
    case (Suc n')
    with call out IH Suc.prems(2) show ?thesis by (simp add: pauses_Suc)
  qed
qed simp

lemma effective_tries_pos: "1 \<le> max_tries cfg \<Longrightarrow> 1 \<le> effective_tries cfg"
  by (simp add: effective_tries_def)

lemma effective_tries_count: "1 \<le> max_tries cfg \<Longrightarrow> effective_tries cfg = retry_count cfg + 1"
  by (simp add: effective_tries_def retry_count_def)

lemma first_success:
  fixes n :: nat
  obtains (ok) k where "k < n" "\<forall>j < k. isl (outcome func j s)" "\<not> isl (outcome func k s)"
    | (fail) "\<forall>j < n. isl (outcome func j s)"
proof (cases "\<forall>j < n. isl (outcome func j s)")
  case False
  then obtain j where j: "j < n" "\<not> isl (outcome func j s)" by auto
  define k where "k = (LEAST j. \<not> isl (outcome func j s))"
  have "k \<le> j" unfolding k_def using j(2) by (rule Least_le)
  moreover have "\<not> isl (outcome func k s)" unfolding k_def using j(2) by (rule LeastI)
  moreover have "\<forall>i < k. isl (outcome func i s)" unfolding k_def using not_less_Least by blast
  ultimately show ?thesis
    by (intro ok) (use j(1) in auto)
qed (rule that(2))

lemma execute_with_retry_success:
  assumes "1 \<le> max_tries cfg" "int k \<le> retry_count cfg" "\<forall>j < k. isl (outcome func j s)"
    "outcome func k s = Inr r"
  shows "execute_with_retry func cfg s =
    (Inr (r, k + 1), pauses (retry_interval cfg) k, after_calls func (k + 1) s)"
proof -
  have "k < nat (effective_tries cfg)"
    using assms(1,2) by (simp add: effective_tries_count)
  moreover have "int (1 + nat (effective_tries cfg)) = effective_tries cfg + 1"
    using effective_tries_pos [OF assms(1)] by simp
  ultimately show ?thesis
    using retry_loop_success [of k "nat (effective_tries cfg)" func s r 1 "effective_tries cfg"] assms
    by (simp add: execute_with_retry_def)
qed

lemma execute_with_retry_failure:
  assumes "1 \<le> max_tries cfg" "\<forall>j \<le> nat (retry_count cfg). isl (outcome func j s)"
  shows "execute_with_retry func cfg s =
    (Inl (projl (outcome func (nat (retry_count cfg)) s)),
     pauses (retry_interval cfg) (nat (retry_count cfg)),
     after_calls func (nat (retry_count cfg) + 1) s)"
proof -
  have n: "nat (effective_tries cfg) = nat (retry_count cfg) + 1"
    using assms(1) by (auto simp: effective_tries_count retry_count_def Suc_nat_eq_nat_zadd1)
  moreover have "int (1 + nat (effective_tries cfg)) = effective_tries cfg + 1"
    using effective_tries_pos [OF assms(1)] by simp
  ultimately show ?thesis
    using retry_loop_failure [of "nat (effective_tries cfg)" func s 1 "effective_tries cfg"] assms(2)
    by (simp add: execute_with_retry_def less_Suc_eq_le)
qed

lemma make_retry_config_valid:
  "make_retry_config b t i = Inr cfg \<Longrightarrow>
     1 \<le> max_tries cfg \<and> max_tries cfg \<le> 10 \<and> 0 \<le> retry_interval cfg \<and> retry_interval cfg \<le> 60
     \<and> 0 \<le> retry_count cfg \<and> retry_count cfg \<le> 9"
  by (auto simp: make_retry_config_def validate_max_tries_def validate_retry_interval_def
      retry_count_def split: if_splits)

section \<open>The property\<close>

text \<open>
  C36. A retried call returns the first success among the first \<open>retry_count + 1\<close> calls together with
  its number, having paused between them, or raises the error of the last call; nothing is called
  after a success.
\<close>

theorem retry_first_success_or_last_error:
  assumes "1 \<le> max_tries cfg"
  shows "(\<exists>k r. int k \<le> retry_count cfg \<and> (\<forall>j < k. isl (outcome func j s)) \<and> outcome func k s = Inr r \<and>
      execute_with_retry func cfg s =
        (Inr (r, k + 1), pauses (retry_interval cfg) k, after_calls func (k + 1) s)) \<or>
    (\<exists>n. int n = retry_count cfg \<and> (\<forall>j \<le> n. isl (outcome func j s)) \<and>
      execute_with_retry func cfg s =
        (Inl (projl (outcome func n s)), pauses (retry_interval cfg) n, after_calls func (n + 1) s))"
proof (rule first_success [of "nat (retry_count cfg) + 1" func s])
  fix k
  assume k: "k < nat (retry_count cfg) + 1" "\<forall>j<k. isl (outcome func j s)" "\<not> isl (outcome func k s)"
  then obtain r where "outcome func k s = Inr r" by (cases "outcome func k s") auto
  moreover have "int k \<le> retry_count cfg"
    using k(1) assms by (simp add: retry_count_def split: if_splits)
  ultimately show ?thesis
    using execute_with_retry_success [OF assms _ k(2)] k(2) by blast
next
  assume "\<forall>j<nat (retry_count cfg) + 1. isl (outcome func j s)"
  then have "\<forall>j \<le> nat (retry_count cfg). isl (outcome func j s)" by simp
  moreover have "int (nat (retry_count cfg)) = retry_count cfg" by (simp add: retry_count_def)
  ultimately show ?thesis
    using execute_with_retry_failure [OF assms] by metis
qed

text \<open>Two failures, then success: with three tries the third call's value is returned.\<close>

definition demo_call :: "nat \<Rightarrow> (exn + nat) \<times> nat" where
  "demo_call n = (if n < 2 then Inl TypeError else Inr n, n + 1)"

definition demo_retry :: retry_config where
  "demo_retry = \<lparr>retry_on_fail = True, max_tries = 3, retry_interval = 1\<rparr>"

theorem retry_first_success_or_last_error_witness:
  "execute_with_retry demo_call demo_retry 0 = (Inr (2, 3), [1, 1], 3)"
proof -
  have fails: "isl (outcome demo_call 0 0)" "isl (outcome demo_call 1 0)" "outcome demo_call 2 0 = Inr 2"
    and count: "retry_count demo_retry = 2" "retry_interval demo_retry = 1"
    and calls: "after_calls demo_call 3 0 = 3"
    by (simp_all add: outcome_def demo_call_def retry_count_def demo_retry_def numeral_eq_Suc)
  have tries: "1 \<le> max_tries demo_retry" by (simp add: demo_retry_def)
  from retry_first_success_or_last_error [OF tries, of demo_call 0] show ?thesis
  proof (elim disjE exE conjE)
    fix k r
    assume k: "int k \<le> retry_count demo_retry" "\<forall>j<k. isl (outcome demo_call j 0)"
      "outcome demo_call k 0 = Inr r" and res: "execute_with_retry demo_call demo_retry 0 =
        (Inr (r, k + 1), pauses (retry_interval demo_retry) k, after_calls demo_call (k + 1) 0)"
    from k(1) count have "k = 0 \<or> k = 1 \<or> k = 2" by auto
    with k(3) fails have "k = 2" by (auto simp: isl_def)
    with k(3) fails(3) res count calls show ?thesis
      by (simp add: pauses_def numeral_eq_Suc)
  next
    fix n
    assume "int n = retry_count demo_retry" "\<forall>j\<le>n. isl (outcome demo_call j 0)"
    with count fails(3) show ?thesis by (auto dest!: spec [of _ 2])
  qed
qed

text \<open>
  The asynchronous retry makes the same calls with the same pauses and result as the
  synchronous one applied to calling and awaiting.
\<close>

lemma retry_async_same:
  "execute_with_retry_async call cfg s = execute_with_retry (await_call call) cfg s"
  by (rule execute_with_retry_async_eq)

end
