(* ===== verification/Workflow_Entities.thy ===== *)
theory Workflow_Entities
  imports Retry Variable_Pool
begin

text \<open>
  The data of a workflow graph: node types, variables, nodes and edges
  (\<^verbatim>\<open>workflow/entities/node_entity.py\<close>, \<^verbatim>\<open>variable_entity.py\<close>, \<^verbatim>\<open>edge_entity.py\<close> and the node data
  classes under \<^verbatim>\<open>workflow/nodes/\<close>).  A UUID is its canonical text.  The fields that the graph code
  never reads (position, description, the settings of a node type) are left out of the record.
\<close>

section \<open>Node types\<close>

datatype node_type =
    StartT | LlmT | ToolT | CodeT | DatasetRetrievalT | HttpRequestT | TemplateTransformT
  | TextProcessorT | VariableAssignerT | ParameterExtractorT | IfElseT | IterationT | SubWorkflowT
  | IntentClassifierT | EndT

fun node_type_value :: "node_type \<Rightarrow> string" where
  "node_type_value StartT = ''start''"
| "node_type_value LlmT = ''llm''"
| "node_type_value ToolT = ''tool''"
| "node_type_value CodeT = ''code''"
| "node_type_value DatasetRetrievalT = ''dataset_retrieval''"
| "node_type_value HttpRequestT = ''http_request''"
| "node_type_value TemplateTransformT = ''template_transform''"
| "node_type_value TextProcessorT = ''text_processor''"
| "node_type_value VariableAssignerT = ''variable_assigner''"
| "node_type_value ParameterExtractorT = ''parameter_extractor''"
| "node_type_value IfElseT = ''if_else''"
| "node_type_value IterationT = ''iteration''"
| "node_type_value SubWorkflowT = ''sub_workflow''"
| "node_type_value IntentClassifierT = ''intent_classifier''"
| "node_type_value EndT = ''end''"

definition node_types :: "node_type list" where
  "node_types = [StartT, LlmT, ToolT, CodeT, DatasetRetrievalT, HttpRequestT, TemplateTransformT,
     TextProcessorT, VariableAssignerT, ParameterExtractorT, IfElseT, IterationT, SubWorkflowT,
     IntentClassifierT, EndT]"

text \<open>\<^verbatim>\<open>NodeType(v)\<close>: the member with this value, if any.\<close>

definition node_type_of :: "string \<Rightarrow> node_type option" where
  "node_type_of v = find (\<lambda>t. node_type_value t = v) node_types"

lemma node_types_complete [simp]: "t \<in> set node_types"
  by (cases t) (simp_all add: node_types_def)

lemma node_type_of_value [simp]: "node_type_of (node_type_value t) = Some t"
  by (cases t) (simp_all add: node_type_of_def node_types_def)

lemma node_type_of_Some: "node_type_of v = Some t \<longleftrightarrow> v = node_type_value t"
proof
  assume "node_type_of v = Some t"
  then show "v = node_type_value t" by (auto simp: node_type_of_def find_Some_iff)
qed simp

text \<open>The members in declaration order give the library its linear order on node types.\<close>

fun node_type_ord :: "node_type \<Rightarrow> nat" where
  "node_type_ord t = length (takeWhile (\<lambda>u. u \<noteq> t) node_types)"

lemma node_type_ord_inj: "node_type_ord s = node_type_ord t \<Longrightarrow> s = t"
  by (cases s; cases t) (simp_all add: node_types_def)

instantiation node_type :: linorder
begin

definition less_eq_node_type :: "node_type \<Rightarrow> node_type \<Rightarrow> bool" where
  "less_eq_node_type s t = (node_type_ord s \<le> node_type_ord t)"

definition less_node_type :: "node_type \<Rightarrow> node_type \<Rightarrow> bool" where
  "less_node_type s t = (node_type_ord s < node_type_ord t)"

instance
  by intro_classes
    (auto simp: less_eq_node_type_def less_node_type_def intro: node_type_ord_inj
      simp del: node_type_ord.simps)

end

section \<open>Variables\<close>

datatype variable_type = StringV | IntV | FloatV | BooleanV

fun variable_type_value :: "variable_type \<Rightarrow> string" where
  "variable_type_value StringV = ''string''"
| "variable_type_value IntV = ''int''"
| "variable_type_value FloatV = ''float''"
| "variable_type_value BooleanV = ''boolean''"

text \<open>\<^verbatim>\<open>VARIABLE_TYPE_DEFAULT_VALUE_MAP\<close>; the default of a float is the integer 0.\<close>

fun variable_type_default :: "variable_type \<Rightarrow> pyval" where
  "variable_type_default StringV = PStr []"
| "variable_type_default IntV = PInt 0"
| "variable_type_default FloatV = PInt 0"
| "variable_type_default BooleanV = PBool False"

datatype value_type = RefVT | LiteralVT | GeneratedVT

datatype content =
    ContentRef (ref_node_id: "string option") (ref_var_name: string)
  | ContentVal pyval

record var_entity =
  var_name :: string
  var_description :: string
  var_required :: bool
  var_type :: variable_type
  var_value_type :: value_type
  var_content :: content

text \<open>
  \<^verbatim>\<open>re.match(r'^[A-Za-z_][A-Za-z0-9_]*$', s)\<close>.  The dollar also matches before a final newline.
\<close>

definition match_name :: "string \<Rightarrow> bool" where
  "match_name s =
     (ident s \<or> (s \<noteq> [] \<and> char_code (last s) = 10 \<and> ident (butlast s)))"

definition validate_name :: "string \<Rightarrow> exn + string" where
  "validate_name v = (if match_name v then Inr v else Inl (ValidateError ''variable name''))"

definition validate_description :: "string \<Rightarrow> string" where
  "validate_description v = take 1024 v"

text \<open>\<^verbatim>\<open>validate_ref_node_id\<close>: an empty string means no node.\<close>

definition validate_ref_node_id :: "string option \<Rightarrow> string option" where
  "validate_ref_node_id v = (if v = Some [] then None else v)"

section \<open>Nodes and edges\<close>

record node =
  node_id :: string
  node_ty :: node_type
  title :: string
  inputs_field :: "var_entity list"
  outputs_field :: "var_entity list"
  node_retry :: retry_config

text \<open>
  Which data classes declare \<open>inputs\<close> and \<open>outputs\<close>.  Reading an undeclared field of a pydantic
  model raises \<^verbatim>\<open>AttributeError\<close>.
\<close>

definition has_inputs :: "node_type \<Rightarrow> bool" where
  "has_inputs t = (t \<notin> {EndT, IterationT, IntentClassifierT})"

definition has_outputs :: "node_type \<Rightarrow> bool" where
  "has_outputs t = (t \<noteq> StartT)"

definition inputs_of :: "node \<Rightarrow> exn + var_entity list" where
  "inputs_of n = (if has_inputs (node_ty n) then Inr (inputs_field n) else Inl AttributeError)"

definition outputs_of :: "node \<Rightarrow> exn + var_entity list" where
  "outputs_of n = (if has_outputs (node_ty n) then Inr (outputs_field n) else Inl AttributeError)"

record edge =
  edge_id :: string
  source :: string
  source_type :: node_type
  target :: string
  target_type :: node_type
  source_handle :: "string option"
  target_handle :: "string option"

abbreviation edge_pairs :: "edge list \<Rightarrow> (string \<times> string) list" where
  "edge_pairs es \<equiv> map (\<lambda>e. (source e, target e)) es"

end
