(* ===== verification/Graph_Order.thy ===== *)
theory Graph_Order
  imports Py_Base
begin

text \<open>
  The graph algorithms the workflow code uses, on adjacency dictionaries built from edge lists:
  in-degree tables, the relaxation step of Kahn's algorithm, its layered and its queue form, the
  breadth-first reachability test and the depth-first collection of predecessors.  The lemmas say
  what each computes; the workflow theories instantiate them.
\<close>

section \<open>Adjacency and degrees\<close>

type_synonym 'a adj = "('a \<times> 'a list) list"

definition adj_get :: "'a adj \<Rightarrow> 'a \<Rightarrow> 'a list" where
  "adj_get adj u = dget_or adj u []"

text \<open>\<^verbatim>\<open>adj[source].append(target)\<close> on a \<^verbatim>\<open>defaultdict(list)\<close>, edge by edge.\<close>

fun add_edges :: "('a \<times> 'a) list \<Rightarrow> 'a adj \<Rightarrow> 'a adj" where
  "add_edges [] adj = adj"
| "add_edges ((s, t) # es) adj = add_edges es (dset s (adj_get adj s @ [t]) adj)"

definition deg_of :: "('a \<times> int) list \<Rightarrow> 'a \<Rightarrow> int" where
  "deg_of deg v = dget_or deg v 0"

text \<open>\<^verbatim>\<open>degree[v] += 1\<close> on a \<^verbatim>\<open>defaultdict(int)\<close>.\<close>

fun count_up :: "'a list \<Rightarrow> ('a \<times> int) list \<Rightarrow> ('a \<times> int) list" where
  "count_up [] deg = deg"
| "count_up (v # vs) deg = count_up vs (dset v (deg_of deg v + 1) deg)"

definition succs :: "('a \<times> 'a) list \<Rightarrow> 'a \<Rightarrow> 'a list" where
  "succs es u = map snd (filter (\<lambda>e. fst e = u) es)"

lemma set_succs [simp]: "set (succs es u) = {v. (u, v) \<in> set es}"
  by (force simp: succs_def)

lemma adj_get_dset [simp]: "adj_get (dset k xs adj) u = (if u = k then xs else adj_get adj u)"
  by (simp add: adj_get_def dget_or_def)

lemma deg_of_dset [simp]: "deg_of (dset k d deg) v = (if v = k then d else deg_of deg v)"
  by (simp add: deg_of_def dget_or_def)

lemma adj_get_Nil [simp]: "adj_get [] u = []"
  by (simp add: adj_get_def dget_or_def)

lemma deg_of_Nil [simp]: "deg_of [] v = 0"
  by (simp add: deg_of_def dget_or_def)

lemma adj_get_add_edges: "adj_get (add_edges es adj) u = adj_get adj u @ succs es u"
  by (induction es adj rule: add_edges.induct) (auto simp: succs_def)

lemma keys_add_edges: "fst ` set (add_edges es adj) = fst ` set adj \<union> fst ` set es"
  by (induction es adj rule: add_edges.induct) auto

lemma distinct_add_edges: "distinct (dkeys adj) \<Longrightarrow> distinct (dkeys (add_edges es adj))"
  by (induction es adj rule: add_edges.induct) (simp_all add: distinct_update)

lemma deg_of_count_up: "deg_of (count_up vs deg) v = deg_of deg v + int (count_list vs v)"
  by (induction vs deg rule: count_up.induct) auto

lemma keys_count_up: "fst ` set (count_up vs deg) = fst ` set deg \<union> set vs"
  by (induction vs deg rule: count_up.induct) auto

lemma distinct_count_up: "distinct (dkeys deg) \<Longrightarrow> distinct (dkeys (count_up vs deg))"
  by (induction vs deg rule: count_up.induct) (simp_all add: distinct_update)

section \<open>Kahn's relaxation\<close>

text \<open>
  The inner loop: each neighbour's degree goes down by one, and a neighbour whose degree becomes
  zero is appended.
\<close>

fun relax :: "('a \<times> int) list \<Rightarrow> 'a list \<Rightarrow> 'a list \<Rightarrow> ('a \<times> int) list \<times> 'a list" where
  "relax deg [] nxt = (deg, nxt)"
| "relax deg (v # vs) nxt =
     (let d = deg_of deg v - 1 in
      relax (dset v d deg) vs (if d = 0 then nxt @ [v] else nxt))"

lemma relax_spec:
  "relax deg vs nxt = (deg', nxt') \<Longrightarrow>
     (\<forall>v. deg_of deg' v = deg_of deg v - int (count_list vs v)) \<and>
     (\<exists>new. nxt' = nxt @ new \<and> distinct new \<and>
        set new = {v. 0 < deg_of deg v \<and> deg_of deg v \<le> int (count_list vs v)})"
proof (induction deg vs nxt arbitrary: deg' nxt' rule: relax.induct)
  case (1 deg nxt)
  then show ?case by auto
next
  case (2 deg x xs nxt)
  define d where "d = deg_of deg x - 1"
  define deg1 where "deg1 = dset x d deg"
  from 2(2) have "relax deg1 xs (if d = 0 then nxt @ [x] else nxt) = (deg', nxt')"
    by (simp add: d_def deg1_def Let_def)
  from 2(1) [OF d_def, folded deg1_def, OF this]
  obtain new where deg': "\<And>v. deg_of deg' v = deg_of deg1 v - int (count_list xs v)"
    and new: "nxt' = (if d = 0 then nxt @ [x] else nxt) @ new" "distinct new"
    "set new = {v. 0 < deg_of deg1 v \<and> deg_of deg1 v \<le> int (count_list xs v)}"
    by blast
  have degs: "deg_of deg' v = deg_of deg v - int (count_list (x # xs) v)" for v
    by (simp add: deg' deg1_def d_def)
  define new' where "new' = (if d = 0 then [x] else []) @ new"
  have "nxt' = nxt @ new'"
    using new(1) by (simp add: new'_def)
  moreover have "distinct new'"
    using new(2,3) by (auto simp: new'_def deg1_def)
  moreover have "set new' = {v. 0 < deg_of deg v \<and> deg_of deg v \<le> int (count_list (x # xs) v)}"
  proof (intro set_eqI)
    fix v
    have mem: "v \<in> set new \<longleftrightarrow> 0 < deg_of deg1 v \<and> deg_of deg1 v \<le> int (count_list xs v)"
      using new(3) by blast
    show "v \<in> set new' \<longleftrightarrow> v \<in> {v. 0 < deg_of deg v \<and> deg_of deg v \<le> int (count_list (x # xs) v)}"
      using mem by (cases "v = x") (auto simp: new'_def deg1_def d_def)
  qed
  ultimately show ?case using degs by blast
qed

definition pos_keys :: "('a \<times> int) list \<Rightarrow> 'a set" where
  "pos_keys deg = {v. 0 < deg_of deg v}"

lemma finite_pos_keys [simp]: "finite (pos_keys deg)"
proof (rule finite_subset)
  show "pos_keys deg \<subseteq> fst ` set deg"
    by (auto simp: pos_keys_def deg_of_def dget_or_def rev_image_eqI
        split: option.splits dest!: map_of_SomeD)
qed simp

lemma relax_measure:
  assumes "relax deg vs nxt = (deg', nxt')"
  shows "card (pos_keys deg') + length nxt' \<le> card (pos_keys deg) + length nxt"
proof -
  from relax_spec [OF assms] obtain new where
    deg': "\<And>v. deg_of deg' v = deg_of deg v - int (count_list vs v)"
    and new: "nxt' = nxt @ new" "distinct new"
      "set new = {v. 0 < deg_of deg v \<and> deg_of deg v \<le> int (count_list vs v)}"
    by blast
  have sub: "set new \<subseteq> pos_keys deg" "pos_keys deg' \<subseteq> pos_keys deg - set new"
    using new(3) deg' by (auto simp: pos_keys_def)
  have "card (pos_keys deg') \<le> card (pos_keys deg - set new)"
    using sub(2) by (intro card_mono) auto
  also have "\<dots> = card (pos_keys deg) - length new"
    using sub(1) new(2) by (simp add: card_Diff_subset distinct_card)
  finally show ?thesis
    using new(1) card_mono [OF finite_pos_keys sub(1)] distinct_card [OF new(2)] by simp
qed

text \<open>A whole layer, then the layered loop of the engine.\<close>

fun relax_layer :: "'a adj \<Rightarrow> ('a \<times> int) list \<Rightarrow> 'a list \<Rightarrow> 'a list \<Rightarrow> ('a \<times> int) list \<times> 'a list" where
  "relax_layer adj deg [] nxt = (deg, nxt)"
| "relax_layer adj deg (u # us) nxt =
     (case relax deg (adj_get adj u) nxt of (deg', nxt') \<Rightarrow> relax_layer adj deg' us nxt')"

lemma relax_layer_measure:
  "relax_layer adj deg us nxt = (deg', nxt') \<Longrightarrow>
     card (pos_keys deg') + length nxt' \<le> card (pos_keys deg) + length nxt"
proof (induction us arbitrary: deg nxt)
  case (Cons u us)
  then show ?case
    by (force split: prod.splits dest: relax_measure)
qed simp

function kahn_layers :: "'a adj \<Rightarrow> ('a \<times> int) list \<Rightarrow> 'a list \<Rightarrow> 'a list list" where
  "kahn_layers adj deg current =
     (if current = [] then []
      else (case relax_layer adj deg current [] of (deg', nxt) \<Rightarrow>
              current # kahn_layers adj deg' nxt))"
  by pat_completeness auto
termination
proof (relation "measure (\<lambda>(adj, deg, current). card (pos_keys deg) + length current)", goal_cases)
  case (2 adj deg current deg' nxt)
  then have "card (pos_keys deg') + length nxt \<le> card (pos_keys deg)"
    using relax_layer_measure [of adj deg current "[]" deg' nxt] by simp
  with 2(1) show ?case by (cases current) auto
qed simp

declare kahn_layers.simps [simp del]

text \<open>The queue form: the number of nodes taken from the queue.\<close>

function kahn_queue :: "'a adj \<Rightarrow> ('a \<times> int) list \<Rightarrow> 'a list \<Rightarrow> nat \<Rightarrow> nat" where
  "kahn_queue adj deg [] count = count"
| "kahn_queue adj deg (u # q) count =
     (case relax deg (adj_get adj u) q of (deg', q') \<Rightarrow> kahn_queue adj deg' q' (Suc count))"
  by pat_completeness auto
termination
proof (relation "measure (\<lambda>(adj, deg, q, count). card (pos_keys deg) + length q)", goal_cases)
  case (2 adj deg u q count deg' q')
  then show ?case using relax_measure [of deg "adj_get adj u" q deg' q'] by simp
qed simp

section \<open>Kahn's invariant\<close>

text \<open>Edges into \<open>v\<close> whose source is not yet processed.\<close>

definition indeg :: "('a \<times> 'a) list \<Rightarrow> 'a list \<Rightarrow> 'a \<Rightarrow> nat" where
  "indeg es P v = length (filter (\<lambda>(s, t). t = v \<and> s \<notin> set P) es)"

definition graph_nodes :: "'a list \<Rightarrow> ('a \<times> 'a) list \<Rightarrow> 'a set" where
  "graph_nodes ns es = set ns \<union> snd ` set es"

text \<open>Every edge into an element of \<open>P\<close> comes from an earlier element of \<open>P\<close>.\<close>

definition topo :: "('a \<times> 'a) list \<Rightarrow> 'a list \<Rightarrow> bool" where
  "topo es P = (\<forall>A v B. P = A @ v # B \<longrightarrow> (\<forall>s. (s, v) \<in> set es \<longrightarrow> s \<in> set A))"

definition kahn_inv :: "'a list \<Rightarrow> ('a \<times> 'a) list \<Rightarrow> 'a list \<Rightarrow> 'a list \<Rightarrow> ('a \<times> int) list \<Rightarrow> bool" where
  "kahn_inv ns es P Q deg =
     (distinct (P @ Q) \<and> topo es P \<and> (\<forall>v. deg_of deg v = int (indeg es P v)) \<and>
      set (P @ Q) = {v \<in> graph_nodes ns es. indeg es P v = 0})"

lemma indeg_step: "u \<notin> set P \<Longrightarrow> indeg es P v = indeg es (P @ [u]) v + count_list (succs es u) v"
  by (induction es) (auto simp: indeg_def succs_def)

lemma indeg_pos: "0 < indeg es P v \<longleftrightarrow> (\<exists>s. (s, v) \<in> set es \<and> s \<notin> set P)"
  by (auto simp: indeg_def filter_empty_conv simp flip: length_greater_0_conv)

lemma indeg_0: "indeg es P v = 0 \<longleftrightarrow> (\<forall>s. (s, v) \<in> set es \<longrightarrow> s \<in> set P)"
  using indeg_pos [of es P v] by auto

lemma topo_Nil [simp]: "topo es []"
  by (simp add: topo_def)

lemma topo_snoc: "topo es P \<Longrightarrow> indeg es P u = 0 \<Longrightarrow> topo es (P @ [u])"
proof (unfold topo_def, intro allI impI)
  fix A v B s
  assume topo: "\<forall>A v B. P = A @ v # B \<longrightarrow> (\<forall>s. (s, v) \<in> set es \<longrightarrow> s \<in> set A)"
    and zero: "indeg es P u = 0" and split: "P @ [u] = A @ v # B" and edge: "(s, v) \<in> set es"
  show "s \<in> set A"
  proof (cases B rule: rev_cases)
    case Nil
    with split zero edge show ?thesis by (simp add: indeg_0)
  next
    case (snoc B' x)
    with split have "P = A @ v # B'" by simp
    with topo edge show ?thesis by blast
  qed
qed

lemma kahn_step:
  assumes inv: "kahn_inv ns es P (u # q) deg"
    and adj: "\<And>u. adj_get adj u = succs es u"
    and relax: "relax deg (adj_get adj u) q = (deg', q')"
  shows "kahn_inv ns es (P @ [u]) q' deg'"
proof -
  from inv have u: "u \<notin> set P" "indeg es P u = 0" and topo: "topo es P"
    and deg: "\<And>v. deg_of deg v = int (indeg es P v)"
    and nodes: "set (P @ u # q) = {v \<in> graph_nodes ns es. indeg es P v = 0}"
    and dist: "distinct (P @ u # q)"
    by (auto simp: kahn_inv_def)
  from relax_spec [OF relax] adj obtain new where
    deg': "\<And>v. deg_of deg' v = deg_of deg v - int (count_list (succs es u) v)"
    and new: "q' = q @ new" "distinct new"
      "set new = {v. 0 < deg_of deg v \<and> deg_of deg v \<le> int (count_list (succs es u) v)}"
    by auto
  note step = indeg_step [OF u(1), of es]
  have new_set: "set new = {v. 0 < indeg es P v \<and> indeg es (P @ [u]) v = 0}"
    using new(3) deg step by auto
  have new_nodes: "set new \<subseteq> graph_nodes ns es"
    using new_set by (force simp: indeg_pos graph_nodes_def)
  have "set (P @ u # q) \<inter> set new = {}"
    using new_set nodes by auto
  then have "distinct ((P @ [u]) @ q')"
    using new(1,2) dist by auto
  moreover have "set ((P @ [u]) @ q') = {v \<in> graph_nodes ns es. indeg es (P @ [u]) v = 0}"
  proof -
    have "set ((P @ [u]) @ q') = set (P @ u # q) \<union> set new"
      using new(1) by auto
    also have "\<dots> = {v \<in> graph_nodes ns es. indeg es (P @ [u]) v = 0}"
      using nodes new_set new_nodes step by auto
    finally show ?thesis .
  qed
  ultimately show ?thesis
    using deg' deg step topo_snoc [OF topo u(2)] by (simp add: kahn_inv_def)
qed

lemma kahn_layer_step:
  assumes "kahn_inv ns es P (us @ nxt) deg" and "\<And>u. adj_get adj u = succs es u"
    and "relax_layer adj deg us nxt = (deg', nxt')"
  shows "kahn_inv ns es (P @ us) nxt' deg'"
  using assms(1,3)
proof (induction us arbitrary: P deg nxt)
  case (Cons u us)
  obtain deg1 nxt1 where r: "relax deg (adj_get adj u) nxt = (deg1, nxt1)"
    by (cases "relax deg (adj_get adj u) nxt")
  have "relax deg (adj_get adj u) (us @ nxt) = (deg1, us @ nxt1)"
  proof -
    have shift: "relax d vs (a @ b) = (fst (relax d vs b), a @ snd (relax d vs b))"
      for d vs and a b :: "'a list"
      by (induction d vs b rule: relax.induct) (auto simp: Let_def)
    show ?thesis using shift [of deg "adj_get adj u" us nxt] r by simp
  qed
  with Cons.prems(1) have "kahn_inv ns es (P @ [u]) (us @ nxt1) deg1"
    by (intro kahn_step [OF _ assms(2)]) auto
  with Cons.IH [of "P @ [u]" nxt1 deg1] Cons.prems(2) r show ?case by simp
qed simp

text \<open>Predecessors of a layer's nodes lie in strictly earlier layers.\<close>

fun layered :: "('a \<times> 'a) list \<Rightarrow> 'a list \<Rightarrow> 'a list list \<Rightarrow> bool" where
  "layered es P [] = True"
| "layered es P (L # Ls) =
     ((\<forall>v \<in> set L. \<forall>s. (s, v) \<in> set es \<longrightarrow> s \<in> set P) \<and> layered es (P @ L) Ls)"

lemma kahn_layers_inv:
  assumes "kahn_inv ns es P current deg" and "\<And>u. adj_get adj u = succs es u"
  shows "(\<exists>deg'. kahn_inv ns es (P @ concat (kahn_layers adj deg current)) [] deg') \<and>
    layered es P (kahn_layers adj deg current)"
  using assms
proof (induction adj deg current arbitrary: P rule: kahn_layers.induct)
  case (1 adj deg current)
  show ?case
  proof (cases "current = []")
    case True
    with "1.prems" show ?thesis by (auto simp: kahn_layers.simps)
  next
    case False
    obtain deg1 nxt where r: "relax_layer adj deg current [] = (deg1, nxt)"
      by (cases "relax_layer adj deg current []")
    have layers: "kahn_layers adj deg current = current # kahn_layers adj deg1 nxt"
      using False r by (simp add: kahn_layers.simps [of adj deg current])
    have inv: "kahn_inv ns es (P @ current) nxt deg1"
      using kahn_layer_step [of ns es P current "[]" deg adj deg1 nxt] "1.prems" r by simp
    have "\<forall>v \<in> set current. \<forall>s. (s, v) \<in> set es \<longrightarrow> s \<in> set P"
      using "1.prems"(1) by (auto simp: kahn_inv_def indeg_0)
    with "1.IH" [OF False r [symmetric] inv "1.prems"(2)] layers show ?thesis by simp
  qed
qed

lemma kahn_queue_count:
  assumes "kahn_inv ns es P q deg" and "\<And>u. adj_get adj u = succs es u"
  shows "\<exists>P' deg'. kahn_inv ns es P' [] deg' \<and> kahn_queue adj deg q (length P) = length P'"
  using assms
proof (induction adj deg q "length P" arbitrary: P rule: kahn_queue.induct)
  case (1 adj deg)
  then show ?case by auto
next
  case (2 adj deg u q)
  obtain deg1 q1 where r: "relax deg (adj_get adj u) q = (deg1, q1)"
    by (cases "relax deg (adj_get adj u) q")
  have inv: "kahn_inv ns es (P @ [u]) q1 deg1"
    using kahn_step [OF "2.prems" r] .
  have "Suc (length P) = length (P @ [u])" by simp
  from "2.hyps" [OF r [symmetric] this inv "2.prems"(2)] r show ?case by simp
qed

section \<open>What the invariant says at the end\<close>

lemma length_takeWhile_mem: "x \<in> set A \<Longrightarrow> length (takeWhile (\<lambda>y. y \<noteq> x) A) < length A"
  by (induction A) auto

lemma topo_acyclic:
  assumes "distinct P" and "topo es P" and "snd ` set es \<subseteq> set P"
  shows "acyclic (set es)"
proof -
  define place where "place v = length (takeWhile (\<lambda>x. x \<noteq> v) P)" for v
  have "place s < place t" if edge: "(s, t) \<in> set es" for s t
  proof -
    from edge assms(3) have "t \<in> set P" by force
    then obtain A B where split: "P = A @ t # B" by (meson split_list)
    with assms(1) have "t \<notin> set A" by simp
    with split have "place t = length A"
      by (simp add: place_def takeWhile_append takeWhile_eq_all_conv [THEN iffD2])
    moreover have "s \<in> set A"
      using assms(2) split edge by (auto simp: topo_def)
    then have "place s < length A"
      using split by (simp add: place_def takeWhile_append1 length_takeWhile_mem)
    ultimately show ?thesis by simp
  qed
  then have "set es \<subseteq> measure place" by auto
  then show ?thesis by (meson acyclic_subset wf_acyclic wf_measure)
qed

lemma kahn_end:
  assumes inv: "kahn_inv ns es P [] deg" and src: "fst ` set es \<subseteq> graph_nodes ns es"
  shows "set P = graph_nodes ns es \<longleftrightarrow> acyclic (set es)"
    and "set P \<subseteq> graph_nodes ns es" and "distinct P" and "topo es P"
proof -
  from inv show dist: "distinct P" and topo: "topo es P" by (simp_all add: kahn_inv_def)
  from inv have P: "set P = {v \<in> graph_nodes ns es. indeg es P v = 0}"
    by (simp add: kahn_inv_def)
  then show "set P \<subseteq> graph_nodes ns es" by auto
  show "set P = graph_nodes ns es \<longleftrightarrow> acyclic (set es)"
  proof
    assume "set P = graph_nodes ns es"
    then have "snd ` set es \<subseteq> set P" by (auto simp: graph_nodes_def)
    with dist topo show "acyclic (set es)" by (rule topo_acyclic)
  next
    assume "acyclic (set es)"
    then have wf: "wf (set es)" by (simp add: finite_acyclic_wf)
    have "graph_nodes ns es - set P = {}"
    proof (rule ccontr)
      assume "graph_nodes ns es - set P \<noteq> {}"
      then obtain v where v: "v \<in> graph_nodes ns es - set P"
        and min: "\<And>s. (s, v) \<in> set es \<Longrightarrow> s \<notin> graph_nodes ns es - set P"
        using wfE_min [OF wf] by (metis ex_in_conv)
      from v P have "0 < indeg es P v" by auto
      then obtain s where s: "(s, v) \<in> set es" "s \<notin> set P" by (auto simp: indeg_pos)
      from s(1) src have "s \<in> graph_nodes ns es" by force
      with min [OF s(1)] s(2) show False by simp
    qed
    with \<open>set P \<subseteq> graph_nodes ns es\<close> show "set P = graph_nodes ns es" by blast
  qed
qed

lemma kahn_end_length:
  assumes "kahn_inv ns es P [] deg" and "fst ` set es \<subseteq> graph_nodes ns es"
  shows "length P = card (graph_nodes ns es) \<longleftrightarrow> acyclic (set es)"
proof -
  note fin = kahn_end [OF assms]
  have "finite (graph_nodes ns es)" by (simp add: graph_nodes_def)
  then have "length P = card (graph_nodes ns es) \<longleftrightarrow> set P = graph_nodes ns es"
    using fin(2,3) by (metis card_subset_eq distinct_card)
  with fin(1) show ?thesis by simp
qed

section \<open>Breadth-first reachability\<close>

text \<open>
  \<^verbatim>\<open>adj_list[node_id]\<close> on a \<^verbatim>\<open>defaultdict\<close> creates the missing key: \<open>touch\<close>.  The inner loop adds the
  unvisited neighbours to the visited set and to the end of the queue.
\<close>

definition touch :: "'a adj \<Rightarrow> 'a \<Rightarrow> 'a adj" where
  "touch adj u = (case dget adj u of None \<Rightarrow> dset u [] adj | Some _ \<Rightarrow> adj)"

fun visit_all :: "'a list \<Rightarrow> 'a list \<Rightarrow> 'a list \<Rightarrow> 'a list \<times> 'a list" where
  "visit_all [] visited q = (visited, q)"
| "visit_all (v # vs) visited q =
     (if v \<in> set visited then visit_all vs visited q
      else visit_all vs (visited @ [v]) (q @ [v]))"

definition adj_targets :: "'a adj \<Rightarrow> 'a set" where
  "adj_targets adj = {v. \<exists>u. v \<in> set (adj_get adj u)}"

lemma adj_get_touch [simp]: "adj_get (touch adj u) v = adj_get adj v"
  by (auto simp: touch_def adj_get_def dget_or_def split: option.splits)

lemma keys_touch [simp]: "fst ` set (touch adj u) = insert u (fst ` set adj)"
  by (auto simp: touch_def map_of_eq_None_iff rev_image_eqI split: option.splits dest!: map_of_SomeD)

lemma distinct_touch: "distinct (dkeys adj) \<Longrightarrow> distinct (dkeys (touch adj u))"
  by (simp add: touch_def distinct_update split: option.splits)

lemma adj_targets_touch [simp]: "adj_targets (touch adj u) = adj_targets adj"
  by (simp add: adj_targets_def)

lemma finite_adj_targets [simp]: "finite (adj_targets adj)"
proof (rule finite_subset)
  show "adj_targets adj \<subseteq> (\<Union>p \<in> set adj. set (snd p))"
  proof
    fix v
    assume "v \<in> adj_targets adj"
    then obtain u vs where "dget adj u = Some vs" "v \<in> set vs"
      by (auto simp: adj_targets_def adj_get_def dget_or_def split: option.splits
          dest: sym [of "Some _"])
    then show "v \<in> (\<Union>p \<in> set adj. set (snd p))"
      by (intro UN_I [of "(u, vs)"]) (auto dest: map_of_SomeD)
  qed
qed simp

lemma visit_all_spec:
  "visit_all vs visited q = (visited', q') \<Longrightarrow>
     \<exists>new. visited' = visited @ new \<and> q' = q @ new \<and> distinct new \<and>
       set new = set vs - set visited"
proof (induction vs visited q arbitrary: visited' q' rule: visit_all.induct)
  case (2 v vs visited q)
  show ?case
  proof (cases "v \<in> set visited")
    case True
    with 2 show ?thesis by auto
  next
    case False
    with 2 obtain new where "visited' = (visited @ [v]) @ new" "q' = (q @ [v]) @ new" "distinct new"
      "set new = set vs - set (visited @ [v])" by fastforce
    with False show ?thesis by (intro exI [of _ "v # new"]) auto
  qed
qed simp

function bfs :: "'a adj \<Rightarrow> 'a list \<Rightarrow> 'a list \<Rightarrow> 'a list \<times> 'a adj" where
  "bfs adj [] visited = (visited, adj)"
| "bfs adj (u # q) visited =
     (case visit_all (adj_get adj u) visited q of (visited', q') \<Rightarrow> bfs (touch adj u) q' visited')"
  by pat_completeness auto
termination
proof (relation "measure (\<lambda>(adj, q, visited). card (adj_targets adj - set visited) + length q)",
    goal_cases)
  case (2 adj u q visited visited' q')
  then obtain new where new: "visited' = visited @ new" "q' = q @ new" "distinct new"
    "set new = set (adj_get adj u) - set visited"
    using visit_all_spec by metis
  have sub: "set new \<subseteq> adj_targets adj - set visited"
    using new(4) by (auto simp: adj_targets_def)
  have "card (adj_targets adj - set visited') = card ((adj_targets adj - set visited) - set new)"
    using new(1) by (simp add: Diff_eq Int_ac)
  also have "\<dots> = card (adj_targets adj - set visited) - length new"
    using sub new(3) by (simp add: card_Diff_subset distinct_card)
  finally show ?case
    using new(2) card_mono [OF _ sub] distinct_card [OF new(3)] by simp
qed simp

text \<open>
  The visited nodes are the nodes reachable from those visited at the start, and every visited node
  has been looked up, so it is a key of the adjacency dictionary that is left.
\<close>

definition adj_rel :: "'a adj \<Rightarrow> ('a \<times> 'a) set" where
  "adj_rel adj = {(u, v). v \<in> set (adj_get adj u)}"

lemma adj_rel_touch [simp]: "adj_rel (touch adj u) = adj_rel adj"
  by (simp add: adj_rel_def)

lemma bfs_spec:
  assumes "bfs adj q visited = (visited', adj')" and "distinct visited"
    and "set q \<subseteq> set visited" and "distinct (dkeys adj)"
    and "\<And>u v. u \<in> set visited - set q \<Longrightarrow> (u, v) \<in> adj_rel adj \<Longrightarrow> v \<in> set visited"
    and "set visited - set q \<subseteq> fst ` set adj"
  shows "distinct visited' \<and> set visited' = (adj_rel adj)\<^sup>* `` set visited \<and>
    fst ` set adj' = fst ` set adj \<union> set visited' \<and> distinct (dkeys adj')"
  using assms
proof (induction adj q visited rule: bfs.induct)
  case (1 adj visited)
  have "(adj_rel adj)\<^sup>* `` set visited = set visited"
    by (rule Image_closed_trancl) (use "1.prems"(5) in auto)
  with "1.prems" show ?case by auto
next
  case (2 adj u q visited)
  obtain visited1 q1 where r: "visit_all (adj_get adj u) visited q = (visited1, q1)"
    by (cases "visit_all (adj_get adj u) visited q")
  then obtain new where new: "visited1 = visited @ new" "q1 = q @ new" "distinct new"
    "set new = set (adj_get adj u) - set visited"
    using visit_all_spec by metis
  have u: "u \<in> set visited" using "2.prems"(3) by simp
  have closed: "v \<in> set visited1"
    if "w \<in> set visited1 - set q1" "(w, v) \<in> adj_rel (touch adj u)" for w v
    using that "2.prems"(5) [of w v] new by (cases "w = u") (auto simp: adj_rel_def)
  have "distinct visited' \<and> set visited' = (adj_rel (touch adj u))\<^sup>* `` set visited1 \<and>
    fst ` set adj' = fst ` set (touch adj u) \<union> set visited' \<and> distinct (dkeys adj')"
  proof (rule "2.IH" [OF r [symmetric] _ _ _ _ closed])
    show "bfs (touch adj u) q1 visited1 = (visited', adj')" using "2.prems"(1) r by simp
    show "distinct visited1" using "2.prems"(2) new by auto
    show "set q1 \<subseteq> set visited1" using "2.prems"(3) new by auto
    show "distinct (dkeys (touch adj u))" using "2.prems"(4) by (rule distinct_touch)
    show "set visited1 - set q1 \<subseteq> fst ` set (touch adj u)"
      using "2.prems"(6) new by auto
  qed
  moreover have "(adj_rel adj)\<^sup>* `` set visited1 = (adj_rel adj)\<^sup>* `` set visited"
  proof
    have "v \<in> (adj_rel adj)\<^sup>* `` set visited" if "v \<in> set visited1" for v
      using that new(1,4) u by (auto simp: adj_rel_def)
    then show "(adj_rel adj)\<^sup>* `` set visited1 \<subseteq> (adj_rel adj)\<^sup>* `` set visited"
      by (auto intro: rtrancl_trans)
    show "(adj_rel adj)\<^sup>* `` set visited \<subseteq> (adj_rel adj)\<^sup>* `` set visited1"
      using new(1) by auto
  qed
  moreover have "set visited1 \<subseteq> set visited'"
    using calculation by auto
  ultimately show ?case using u new(1) by auto
qed

section \<open>Depth-first predecessors\<close>

text \<open>
  The recursive \<^verbatim>\<open>dfs\<close> with its pending calls as a worklist: a call on \<open>v\<close> marks it and then
  calls itself on the neighbours before the caller's loop goes on, so the neighbours come first.
\<close>

function dfs :: "'a adj \<Rightarrow> 'a list \<Rightarrow> 'a list \<Rightarrow> 'a list" where
  "dfs adj [] visited = visited"
| "dfs adj (v # vs) visited =
     (if v \<in> set visited then dfs adj vs visited
      else dfs adj (adj_get adj v @ vs) (visited @ [v]))"
  by pat_completeness auto
termination
proof (relation "measures [\<lambda>(adj, vs, visited). card (fst ` set adj - set visited),
    \<lambda>(adj, vs, visited). length vs]", goal_cases)
  case (3 adj v vs visited)
  show ?case
  proof (cases "v \<in> fst ` set adj")
    case True
    with 3 have "fst ` set adj - set (visited @ [v]) \<subset> fst ` set adj - set visited" by auto
    then have "card (fst ` set adj - set (visited @ [v])) < card (fst ` set adj - set visited)"
      by (intro psubset_card_mono) auto
    then show ?thesis by simp
  next
    case False
    then have "adj_get adj v = []"
      by (simp add: adj_get_def dget_or_def map_of_eq_None_iff [THEN iffD2])
    moreover from False have "fst ` set adj - set (visited @ [v]) = fst ` set adj - set visited" by auto
    ultimately show ?thesis by (simp add: Diff_insert0 del: set_append)
  qed
qed simp_all

lemma dfs_spec:
  assumes "distinct visited"
    and "\<And>u v. u \<in> set visited \<Longrightarrow> (u, v) \<in> adj_rel adj \<Longrightarrow> v \<in> set visited \<union> set vs"
  shows "distinct (dfs adj vs visited) \<and>
    set (dfs adj vs visited) = (adj_rel adj)\<^sup>* `` (set visited \<union> set vs)"
  using assms
proof (induction adj vs visited rule: dfs.induct)
  case (1 adj visited)
  have "(adj_rel adj)\<^sup>* `` set visited = set visited"
    by (rule Image_closed_trancl) (use "1.prems"(2) in auto)
  with "1.prems" show ?case by simp
next
  case (2 adj v vs visited)
  show ?case
  proof (cases "v \<in> set visited")
    case True
    with 2 show ?thesis by (auto simp: insert_absorb)
  next
    case False
    have "distinct (dfs adj (adj_get adj v @ vs) (visited @ [v])) \<and>
      set (dfs adj (adj_get adj v @ vs) (visited @ [v])) =
        (adj_rel adj)\<^sup>* `` (set (visited @ [v]) \<union> set (adj_get adj v @ vs))"
      using 2(3,4) False by (intro "2.IH"(2)) (fastforce simp: adj_rel_def)+
    moreover have "(adj_rel adj)\<^sup>* `` (set (visited @ [v]) \<union> set (adj_get adj v @ vs)) =
      (adj_rel adj)\<^sup>* `` (set visited \<union> set (v # vs))"
      by (auto simp: adj_rel_def intro: converse_rtrancl_into_rtrancl)
    ultimately show ?thesis using False by simp
  qed
qed

end
