(* ===== verification/Workflow_Config.thy ===== *)
theory Workflow_Config
  imports Workflow_Entities Graph_Order
begin

text \<open>
  The validator of a workflow configuration (\<^verbatim>\<open>WorkflowConfig.validate_workflow_config\<close> and its
  helpers in \<^verbatim>\<open>workflow/entities/workflow_entity.py\<close>).  Building a node or an edge from its
  dictionary is pydantic's work: the parameters \<open>mk_node\<close> and \<open>mk_edge\<close>, which may raise.
\<close>

section \<open>The graph helpers\<close>

definition process_dict :: "pyval dict option \<Rightarrow> pyval dict option \<Rightarrow> pyval dict" where
  "process_dict left right =
     dmerge (dmerge [] (case left of None \<Rightarrow> [] | Some d \<Rightarrow> d)) (case right of None \<Rightarrow> [] | Some d \<Rightarrow> d)"

definition process_node_results :: "'r list option \<Rightarrow> 'r list option \<Rightarrow> 'r list" where
  "process_node_results left right =
     (case left of None \<Rightarrow> [] | Some l \<Rightarrow> l) @ (case right of None \<Rightarrow> [] | Some r \<Rightarrow> r)"

definition build_adj_list :: "edge list \<Rightarrow> string adj" where
  "build_adj_list es = add_edges (edge_pairs es) []"

definition build_reverse_adj_list :: "edge list \<Rightarrow> string adj" where
  "build_reverse_adj_list es = add_edges (map (\<lambda>e. (target e, source e)) es) []"

definition build_degrees :: "edge list \<Rightarrow> (string \<times> int) list \<times> (string \<times> int) list" where
  "build_degrees es = (count_up (map target es) [], count_up (map source es) [])"

definition is_connected :: "string adj \<Rightarrow> string \<Rightarrow> bool" where
  "is_connected adj start =
     (case bfs adj [start] [start] of (visited, adj') \<Rightarrow> length visited = length adj')"

definition is_cycle :: "node list \<Rightarrow> string adj \<Rightarrow> (string \<times> int) list \<Rightarrow> bool" where
  "is_cycle nodes adj in_degree =
     (kahn_queue adj in_degree (map node_id (filter (\<lambda>n. deg_of in_degree (node_id n) = 0) nodes)) 0
        \<noteq> length nodes)"

definition get_predecessors :: "string adj \<Rightarrow> string \<Rightarrow> string list" where
  "get_predecessors radj t = filter (\<lambda>v. v \<noteq> t) (dfs radj [t] [])"

section \<open>References between nodes\<close>

definition declared_vars :: "node \<Rightarrow> exn + var_entity list" where
  "declared_vars m = (if node_ty m = StartT then inputs_of m else outputs_of m)"

text \<open>One variable of the node \<open>n\<close>; a reference whose content is not a reference object raises.\<close>

definition check_var :: "(string \<times> node) list \<Rightarrow> string list \<Rightarrow> var_entity \<Rightarrow> exn option" where
  "check_var nodes preds v =
     (if var_value_type v \<noteq> RefVT then None
      else if preds = [] then Some (ValidateError ''reference'')
      else (case var_content v of
          ContentVal _ \<Rightarrow> Some AttributeError
        | ContentRef rid rname \<Rightarrow>
            (case rid of
               None \<Rightarrow> Some (ValidateError ''reference'')
             | Some r \<Rightarrow>
                 if r \<notin> set preds then Some (ValidateError ''reference'')
                 else (case dget nodes r of
                     None \<Rightarrow> Some AttributeError
                   | Some m \<Rightarrow>
                       (case declared_vars m of
                          Inl e \<Rightarrow> Some e
                        | Inr vars \<Rightarrow>
                            if \<exists>x \<in> set vars. var_name x = rname then None
                            else Some (ValidateError ''reference variable''))))))"

fun check_vars :: "(string \<times> node) list \<Rightarrow> string list \<Rightarrow> var_entity list \<Rightarrow> exn option" where
  "check_vars nodes preds [] = None"
| "check_vars nodes preds (v # vs) =
     (case check_var nodes preds v of Some e \<Rightarrow> Some e | None \<Rightarrow> check_vars nodes preds vs)"

definition checked_vars :: "node \<Rightarrow> exn + var_entity list" where
  "checked_vars n = (if node_ty n \<noteq> EndT then inputs_of n else outputs_of n)"

fun validate_inputs_ref :: "(string \<times> node) list \<Rightarrow> string adj \<Rightarrow> node list \<Rightarrow> exn option" where
  "validate_inputs_ref nodes radj [] = None"
| "validate_inputs_ref nodes radj (n # ns) =
     (if node_ty n = StartT then validate_inputs_ref nodes radj ns
      else (case checked_vars n of
          Inl e \<Rightarrow> Some e
        | Inr vars \<Rightarrow>
            (case check_vars nodes (get_predecessors radj (node_id n)) vars of
               Some e \<Rightarrow> Some e
             | None \<Rightarrow> validate_inputs_ref nodes radj ns)))"

section \<open>The validator\<close>

text \<open>Name and description; a value of the wrong type raises in \<^verbatim>\<open>re.match\<close> or \<^verbatim>\<open>len\<close>.\<close>

definition check_name :: "pyval \<Rightarrow> exn option" where
  "check_name v =
     (if \<not> truthy v then Some (ValidateError ''name'')
      else (case v of
          PStr s \<Rightarrow> if match_name s then None else Some (ValidateError ''name'')
        | _ \<Rightarrow> Some TypeError))"

definition py_len :: "pyval \<Rightarrow> nat option" where
  "py_len v = (case v of PStr s \<Rightarrow> Some (length s) | PList xs \<Rightarrow> Some (length xs)
     | PDict d \<Rightarrow> Some (length d) | _ \<Rightarrow> None)"

definition check_description :: "pyval \<Rightarrow> exn option" where
  "check_description v =
     (if \<not> truthy v then Some (ValidateError ''description'')
      else (case py_len v of
          None \<Rightarrow> Some TypeError
        | Some n \<Rightarrow> if n > 1024 then Some (ValidateError ''description'') else None))"

definition nonempty_list :: "string \<Rightarrow> pyval \<Rightarrow> exn + pyval list" where
  "nonempty_list what v =
     (case v of PList (x # xs) \<Rightarrow> Inr (x # xs) | _ \<Rightarrow> Inl (ValidateError what))"

text \<open>\<^verbatim>\<open>node_data_classes.get(node_type, None)\<close>; an unhashable key raises.\<close>

definition class_of :: "pyval \<Rightarrow> exn + node_type option" where
  "class_of v = (case v of PStr s \<Rightarrow> Inr (node_type_of s) | PList _ \<Rightarrow> Inl TypeError
     | PDict _ \<Rightarrow> Inl TypeError | _ \<Rightarrow> Inr None)"

text \<open>One round of the node loop: the start and end counters and the nodes collected so far.\<close>

type_synonym node_state = "nat \<times> nat \<times> (string \<times> node) list"

definition add_node :: "node \<Rightarrow> node_state \<Rightarrow> exn + node_state" where
  "add_node n st =
     (case st of (starts, ends, nodes) \<Rightarrow>
      if node_ty n = StartT \<and> starts \<ge> 1 then Inl (ValidateError ''one start node'')
      else if node_ty n = EndT \<and> ends \<ge> 1 then Inl (ValidateError ''one end node'')
      else if node_id n \<in> set (dkeys nodes) then Inl (ValidateError ''node id'')
      else if \<exists>m \<in> set (map snd nodes). strip (title m) = strip (title n)
        then Inl (ValidateError ''node title'')
      else Inr (if node_ty n = StartT then starts + 1 else starts,
                if node_ty n = EndT then ends + 1 else ends,
                dset (node_id n) n nodes))"

fun node_loop :: "(node_type \<Rightarrow> pyval dict \<Rightarrow> exn + node) \<Rightarrow> pyval list \<Rightarrow> node_state
    \<Rightarrow> exn + node_state" where
  "node_loop mk_node [] st = Inr st"
| "node_loop mk_node (v # vs) st =
     (case v of
        PDict d \<Rightarrow>
          (case class_of (dget_or d ''node_type'' (PStr [])) of
             Inl e \<Rightarrow> Inl e
           | Inr None \<Rightarrow> Inl (ValidateError ''node type'')
           | Inr (Some t) \<Rightarrow>
               (case mk_node t d of
                  Inl e \<Rightarrow> Inl e
                | Inr n \<Rightarrow>
                    (case add_node n st of
                       Inl e \<Rightarrow> Inl e
                     | Inr st' \<Rightarrow> node_loop mk_node vs st')))
      | _ \<Rightarrow> Inl (ValidateError ''node data''))"

text \<open>One round of the edge loop.\<close>

definition edge_ends_ok :: "(string \<times> node) list \<Rightarrow> edge \<Rightarrow> bool" where
  "edge_ends_ok nodes e =
     (case dget nodes (source e) of
        None \<Rightarrow> False
      | Some a \<Rightarrow> source_type e = node_ty a \<and>
          (case dget nodes (target e) of None \<Rightarrow> False | Some b \<Rightarrow> target_type e = node_ty b))"

definition handle_ok :: "(string \<times> node) list \<Rightarrow> edge \<Rightarrow> exn option" where
  "handle_ok nodes e =
     (case dget nodes (source e) of
        None \<Rightarrow> Some (KeyError (source e))
      | Some a \<Rightarrow>
          if node_ty a = IfElseT then
            (case source_handle e of
               None \<Rightarrow> Some (ValidateError ''source_handle required'')
             | Some h \<Rightarrow> if h = [] then Some (ValidateError ''source_handle required'')
                 else if h \<notin> {''true'', ''false''} then Some (ValidateError ''source_handle value'')
                 else None)
          else None)"

definition add_edge :: "(string \<times> node) list \<Rightarrow> edge \<Rightarrow> (string \<times> edge) list
    \<Rightarrow> exn + (string \<times> edge) list" where
  "add_edge nodes e edges =
     (if edge_id e \<in> set (dkeys edges) then Inl (ValidateError ''edge id'')
      else if \<not> edge_ends_ok nodes e then Inl (ValidateError ''edge ends'')
      else (case handle_ok nodes e of
          Some err \<Rightarrow> Inl err
        | None \<Rightarrow>
            if \<exists>x \<in> set (map snd edges). source x = source e \<and> target x = target e
                 \<and> source_handle x = source_handle e
            then Inl (ValidateError ''duplicate edge'')
            else Inr (dset (edge_id e) e edges)))"

fun edge_loop :: "(pyval dict \<Rightarrow> exn + edge) \<Rightarrow> (string \<times> node) list \<Rightarrow> pyval list
    \<Rightarrow> (string \<times> edge) list \<Rightarrow> exn + (string \<times> edge) list" where
  "edge_loop mk_edge nodes [] edges = Inr edges"
| "edge_loop mk_edge nodes (v # vs) edges =
     (case v of
        PDict d \<Rightarrow>
          (case mk_edge d of
             Inl e \<Rightarrow> Inl e
           | Inr e \<Rightarrow>
               (case add_edge nodes e edges of
                  Inl err \<Rightarrow> Inl err
                | Inr edges' \<Rightarrow> edge_loop mk_edge nodes vs edges'))
      | _ \<Rightarrow> Inl (ValidateError ''edge data''))"

text \<open>The checks on the graph as a whole.\<close>

definition check_between :: "(string \<times> node) list \<Rightarrow> edge list \<Rightarrow> node \<Rightarrow> node \<Rightarrow> exn option" where
  "check_between nodes es s t =
     (let ns = map snd nodes; adj = build_adj_list es in
      if node_ty s \<noteq> StartT \<or> node_ty t \<noteq> EndT then Some (ValidateError ''start and end'')
      else if \<not> is_connected adj (node_id s) then Some (ValidateError ''not connected'')
      else if is_cycle ns adj (fst (build_degrees es)) then Some (ValidateError ''cycle'')
      else validate_inputs_ref nodes (build_reverse_adj_list es) ns)"

definition check_graph :: "(string \<times> node) list \<Rightarrow> edge list \<Rightarrow> exn option" where
  "check_graph nodes es =
     (case build_degrees es of (in_degree, out_degree) \<Rightarrow>
      (case (filter (\<lambda>n. deg_of in_degree (node_id n) = 0) (map snd nodes),
             filter (\<lambda>n. deg_of out_degree (node_id n) = 0) (map snd nodes)) of
         ([s], [t]) \<Rightarrow> check_between nodes es s t
       | _ \<Rightarrow> Some (ValidateError ''start and end'')))"

record workflow_config =
  wf_nodes :: "node list"
  wf_edges :: "edge list"

definition validate_workflow_config ::
    "(node_type \<Rightarrow> pyval dict \<Rightarrow> exn + node) \<Rightarrow> (pyval dict \<Rightarrow> exn + edge) \<Rightarrow> pyval dict
     \<Rightarrow> exn + workflow_config" where
  "validate_workflow_config mk_node mk_edge values =
     (case check_name (opt_none (dget values ''name'')) of
        Some e \<Rightarrow> Inl e
      | None \<Rightarrow>
     (case check_description (opt_none (dget values ''description'')) of
        Some e \<Rightarrow> Inl e
      | None \<Rightarrow>
     (case nonempty_list ''nodes'' (dget_or values ''nodes'' (PList [])) of
        Inl e \<Rightarrow> Inl e
      | Inr nodes \<Rightarrow>
     (case nonempty_list ''edges'' (dget_or values ''edges'' (PList [])) of
        Inl e \<Rightarrow> Inl e
      | Inr edges \<Rightarrow>
     (case node_loop mk_node nodes (0, 0, []) of
        Inl e \<Rightarrow> Inl e
      | Inr (_, _, node_dict) \<Rightarrow>
     (case edge_loop mk_edge node_dict edges [] of
        Inl e \<Rightarrow> Inl e
      | Inr edge_dict \<Rightarrow>
     (case check_graph node_dict (map snd edge_dict) of
        Some e \<Rightarrow> Inl e
      | None \<Rightarrow> Inr \<lparr>wf_nodes = map snd node_dict, wf_edges = map snd edge_dict\<rparr>)))))))"

section \<open>What the helpers compute\<close>

lemma adj_get_build [simp]: "adj_get (build_adj_list es) u = succs (edge_pairs es) u"
  by (simp add: build_adj_list_def adj_get_add_edges)

lemma adj_rel_build [simp]: "adj_rel (build_adj_list es) = set (edge_pairs es)"
  by (auto simp: adj_rel_def)

lemma adj_rel_reverse [simp]: "adj_rel (build_reverse_adj_list es) = (set (edge_pairs es))\<inverse>"
  by (auto simp: adj_rel_def build_reverse_adj_list_def adj_get_add_edges)

lemma in_degree_count: "deg_of (fst (build_degrees es)) v = int (count_list (map target es) v)"
  by (simp add: build_degrees_def deg_of_count_up)

lemma out_degree_count: "deg_of (snd (build_degrees es)) v = int (count_list (map source es) v)"
  by (simp add: build_degrees_def deg_of_count_up)

lemma count_list_0: "count_list xs v = 0 \<longleftrightarrow> v \<notin> set xs"
  by (simp add: count_list_0_iff)

lemma in_degree_0: "deg_of (fst (build_degrees es)) v = 0 \<longleftrightarrow> v \<notin> target ` set es"
  by (simp add: in_degree_count count_list_0)

lemma out_degree_0: "deg_of (snd (build_degrees es)) v = 0 \<longleftrightarrow> v \<notin> source ` set es"
  by (simp add: out_degree_count count_list_0)

lemma is_connected_iff:
  "is_connected (build_adj_list es) s \<longleftrightarrow> (\<forall>e \<in> set es. (s, source e) \<in> (set (edge_pairs es))\<^sup>*)"
proof -
  obtain visited adj' where r: "bfs (build_adj_list es) [s] [s] = (visited, adj')"
    by (cases "bfs (build_adj_list es) [s] [s]")
  have keys: "fst ` set (build_adj_list es) = source ` set es"
    by (force simp: build_adj_list_def keys_add_edges)
  have dist: "distinct (dkeys (build_adj_list es))"
    by (simp add: build_adj_list_def distinct_add_edges)
  have "distinct visited \<and> set visited = (set (edge_pairs es))\<^sup>* `` {s} \<and>
    fst ` set adj' = source ` set es \<union> set visited \<and> distinct (dkeys adj')"
    using bfs_spec [OF r _ _ dist] keys by simp
  then have vis: "set visited = (set (edge_pairs es))\<^sup>* `` {s}" "distinct visited"
    and keys': "set (dkeys adj') = source ` set es \<union> set visited" "distinct (dkeys adj')"
    by simp_all
  have len: "length visited = card (set visited)"
    using distinct_card [OF vis(2)] by simp
  have adj': "length adj' = card (source ` set es \<union> set visited)"
    using distinct_card [OF keys'(2)] keys'(1) by simp
  have "length visited = length adj' \<longleftrightarrow> source ` set es \<union> set visited = set visited"
    unfolding len adj' by (metis List.finite_set Un_upper2 card_seteq finite_UnI finite_imageI order_refl)
  also have "\<dots> \<longleftrightarrow> (\<forall>e \<in> set es. (s, source e) \<in> (set (edge_pairs es))\<^sup>*)"
    unfolding vis(1) by auto
  finally show ?thesis by (simp add: is_connected_def r del: bfs.simps)
qed

lemma is_cycle_iff:
  assumes "distinct (map node_id ns)"
    and "source ` set es \<subseteq> node_id ` set ns" and "target ` set es \<subseteq> node_id ` set ns"
  shows "is_cycle ns (build_adj_list es) (fst (build_degrees es)) \<longleftrightarrow>
    \<not> acyclic (set (edge_pairs es))"
proof -
  let ?E = "edge_pairs es" and ?V = "map node_id ns"
  have pairs: "fst ` set ?E = source ` set es" "snd ` set ?E = target ` set es"
    by (auto simp: image_image)
  have nodes: "graph_nodes ?V ?E = node_id ` set ns"
    using assms(3) pairs by (auto simp: graph_nodes_def)
  define q where "q = map node_id (filter (\<lambda>n. deg_of (fst (build_degrees es)) (node_id n) = 0) ns)"
  have count: "count_list (map target es) v = indeg ?E [] v" for v
    by (induction es) (auto simp: indeg_def)
  have "kahn_inv ?V ?E [] q (fst (build_degrees es))"
    unfolding kahn_inv_def nodes
    using assms(1) by (auto simp: q_def in_degree_count count distinct_map inj_on_def)
  from kahn_queue_count [OF this adj_get_build] obtain P deg where
    P: "kahn_inv ?V ?E P [] deg" "kahn_queue (build_adj_list es) (fst (build_degrees es)) q 0 = length P"
    by auto
  have "length P = card (node_id ` set ns) \<longleftrightarrow> acyclic (set ?E)"
    using kahn_end_length [OF P(1)] assms(2) pairs nodes by simp
  moreover have "card (node_id ` set ns) = length ns"
    using distinct_card [OF assms(1)] by simp
  ultimately show ?thesis
    using P(2) by (simp add: is_cycle_def q_def)
qed

lemma get_predecessors_set:
  "set (get_predecessors (build_reverse_adj_list es) t) =
     {v. (v, t) \<in> (set (edge_pairs es))\<^sup>* \<and> v \<noteq> t}"
  using dfs_spec [of "[]" "build_reverse_adj_list es" "[t]"]
  by (auto simp: get_predecessors_def rtrancl_converse)

lemma get_predecessors_distinct: "distinct (get_predecessors (build_reverse_adj_list es) t)"
  using dfs_spec [of "[]" "build_reverse_adj_list es" "[t]"] by (simp add: get_predecessors_def)

section \<open>What an accepted configuration is\<close>

text \<open>
  The abstract contract of the graph checks: one node without incoming edges and it is the start
  node, one without outgoing edges and it is the end node, everything reachable from the start, no
  cycle, and every reference names a variable of a proper ancestor.
\<close>

definition declares :: "node \<Rightarrow> string \<Rightarrow> bool" where
  "declares m x =
     (\<exists>vars. declared_vars m = Inr vars \<and> x \<in> var_name ` set vars)"

definition var_ok :: "(string \<times> node) list \<Rightarrow> edge list \<Rightarrow> string \<Rightarrow> var_entity \<Rightarrow> bool" where
  "var_ok nodes es n v =
     (var_value_type v = RefVT \<longrightarrow>
        (\<exists>r x m. var_content v = ContentRef (Some r) x \<and> r \<noteq> n \<and>
           (r, n) \<in> (set (edge_pairs es))\<^sup>* \<and> dget nodes r = Some m \<and> declares m x))"

definition refs_ok :: "(string \<times> node) list \<Rightarrow> edge list \<Rightarrow> node \<Rightarrow> bool" where
  "refs_ok nodes es n =
     (node_ty n \<noteq> StartT \<longrightarrow>
        (\<exists>vars. checked_vars n = Inr vars \<and> (\<forall>v \<in> set vars. var_ok nodes es (node_id n) v)))"

definition wf_graph :: "(string \<times> node) list \<Rightarrow> edge list \<Rightarrow> bool" where
  "wf_graph nodes es =
     (\<exists>s \<in> snd ` set nodes. \<exists>t \<in> snd ` set nodes. node_ty s = StartT \<and> node_ty t = EndT \<and>
        (\<forall>n \<in> snd ` set nodes. node_id n \<notin> target ` set es \<longleftrightarrow> n = s) \<and>
        (\<forall>n \<in> snd ` set nodes. node_id n \<notin> source ` set es \<longleftrightarrow> n = t) \<and>
        (\<forall>n \<in> snd ` set nodes. (node_id s, node_id n) \<in> (set (edge_pairs es))\<^sup>*) \<and>
        acyclic (set (edge_pairs es)) \<and>
        (\<forall>n \<in> snd ` set nodes. refs_ok nodes es n))"

text \<open>What the two loops guarantee about the dictionaries they hand to the graph checks.\<close>

definition keyed :: "('b \<Rightarrow> 'k) \<Rightarrow> ('k \<times> 'b) list \<Rightarrow> bool" where
  "keyed f d = (distinct (dkeys d) \<and> (\<forall>(k, x) \<in> set d. k = f x))"

lemma keyed_dkeys: "keyed f d \<Longrightarrow> dkeys d = map f (map snd d)"
  by (auto simp: keyed_def)

lemma keyed_get: "keyed f d \<Longrightarrow> dget d k = Some x \<longleftrightarrow> k = f x \<and> x \<in> snd ` set d"
  by (force simp: keyed_def dest: map_of_SomeD)

lemma keyed_dset: "keyed f d \<Longrightarrow> f x \<notin> set (dkeys d) \<Longrightarrow> keyed f (dset (f x) x d)"
  by (auto simp: keyed_def dset_new)

lemma check_var_iff:
  assumes "keyed node_id nodes"
  shows "check_var nodes (get_predecessors (build_reverse_adj_list es) n) v = None \<longleftrightarrow>
    var_ok nodes es n v"
proof -
  have preds: "get_predecessors (build_reverse_adj_list es) n \<noteq> []"
    if "r \<in> set (get_predecessors (build_reverse_adj_list es) n)" for r
    using that by auto
  show ?thesis
    using preds
    by (auto simp: check_var_def var_ok_def declares_def get_predecessors_set
        split: content.split option.split sum.split if_splits)
qed

lemma check_vars_iff: "check_vars nodes preds vs = None \<longleftrightarrow> (\<forall>v \<in> set vs. check_var nodes preds v = None)"
  by (induction vs) (auto split: option.split)

lemma validate_inputs_ref_iff:
  assumes "keyed node_id nodes"
  shows "validate_inputs_ref nodes (build_reverse_adj_list es) ns = None \<longleftrightarrow>
    (\<forall>n \<in> set ns. refs_ok nodes es n)"
  by (induction ns)
    (auto simp: refs_ok_def check_vars_iff [THEN sym] check_var_iff [OF assms, symmetric]
      split: sum.split option.split)

text \<open>The invariant of the node loop, on the list of nodes collected so far.\<close>

abbreviation node_dict :: "node list \<Rightarrow> (string \<times> node) list" where
  "node_dict ns \<equiv> map (\<lambda>n. (node_id n, n)) ns"

abbreviation edge_dict :: "edge list \<Rightarrow> (string \<times> edge) list" where
  "edge_dict es \<equiv> map (\<lambda>e. (edge_id e, e)) es"

definition typed :: "node_type \<Rightarrow> node list \<Rightarrow> nat" where
  "typed t ns = length (filter (\<lambda>n. node_ty n = t) ns)"

definition nodes_ok :: "node list \<Rightarrow> bool" where
  "nodes_ok ns = (distinct (map node_id ns) \<and> distinct (map (\<lambda>n. strip (title n)) ns) \<and>
     typed StartT ns \<le> 1 \<and> typed EndT ns \<le> 1)"

definition loop_state :: "node list \<Rightarrow> node_state" where
  "loop_state ns = (typed StartT ns, typed EndT ns, node_dict ns)"

definition node_built :: "(node_type \<Rightarrow> pyval dict \<Rightarrow> exn + node) \<Rightarrow> pyval \<Rightarrow> node \<Rightarrow> bool" where
  "node_built mk_node v n =
     (\<exists>d t. v = PDict d \<and> class_of (dget_or d ''node_type'' (PStr [])) = Inr (Some t) \<and>
        mk_node t d = Inr n)"

lemma typed_snoc: "typed t (ns @ [n]) = typed t ns + (if node_ty n = t then 1 else 0)"
  by (simp add: typed_def)

lemma nodes_ok_prefix: "nodes_ok (ns @ ms) \<Longrightarrow> nodes_ok ns"
  by (auto simp: nodes_ok_def typed_def)

lemma add_node_iff:
  assumes "nodes_ok ns"
  shows "add_node n (loop_state ns) = Inr st \<longleftrightarrow> nodes_ok (ns @ [n]) \<and> st = loop_state (ns @ [n])"
proof -
  have keys: "set (dkeys (node_dict ns)) = node_id ` set ns" by force
  have new: "dset (node_id n) n (node_dict ns) = node_dict (ns @ [n])" if "node_id n \<notin> node_id ` set ns"
    using that keys by (subst dset_new) auto
  have title: "(\<exists>m \<in> set (map snd (node_dict ns)). strip (title m) = strip (title n)) \<longleftrightarrow>
      strip (title n) \<in> (\<lambda>n. strip (title n)) ` set ns"
    by (auto simp: image_image rev_image_eqI)
  show ?thesis
    unfolding add_node_def loop_state_def prod.case keys title
    using assms new
    by (auto simp: nodes_ok_def typed_snoc distinct_map_snoc simp del: map_append split: if_splits)
qed

lemma node_loop_iff:
  assumes "nodes_ok ns"
  shows "node_loop mk_node vs (loop_state ns) = Inr st \<longleftrightarrow>
    (\<exists>ms. list_all2 (node_built mk_node) vs ms \<and> nodes_ok (ns @ ms) \<and> st = loop_state (ns @ ms))"
  using assms
proof (induction vs arbitrary: ns)
  case (Cons v vs)
  show ?case (is "?l \<longleftrightarrow> ?r")
  proof
    assume ?l
    then obtain n st' where built: "node_built mk_node v n" and add: "add_node n (loop_state ns) = Inr st'"
      and rest: "node_loop mk_node vs st' = Inr st"
      by (auto simp: node_built_def split: pyval.splits sum.splits option.splits)
    from add add_node_iff [OF Cons.prems] have n: "nodes_ok (ns @ [n])" "st' = loop_state (ns @ [n])"
      by auto
    from rest Cons.IH [OF n(1)] n(2) obtain ms where "list_all2 (node_built mk_node) vs ms"
      "nodes_ok (ns @ n # ms)" "st = loop_state (ns @ n # ms)" by auto
    with built show ?r by (intro exI [of _ "n # ms"]) simp
  next
    assume ?r
    then obtain n ms where built: "node_built mk_node v n" "list_all2 (node_built mk_node) vs ms"
      and ok: "nodes_ok ((ns @ [n]) @ ms)" "st = loop_state ((ns @ [n]) @ ms)"
      by (auto simp: list_all2_Cons1)
    from nodes_ok_prefix [OF ok(1)] have n: "nodes_ok (ns @ [n])" .
    with add_node_iff [OF Cons.prems] have "add_node n (loop_state ns) = Inr (loop_state (ns @ [n]))"
      by simp
    moreover have "node_loop mk_node vs (loop_state (ns @ [n])) = Inr st"
      using Cons.IH [OF n] built(2) ok by blast
    ultimately show ?l using built(1) by (auto simp: node_built_def)
  qed
qed auto

section \<open>The same for the edges\<close>

definition edge_built :: "(pyval dict \<Rightarrow> exn + edge) \<Rightarrow> pyval \<Rightarrow> edge \<Rightarrow> bool" where
  "edge_built mk_edge v e = (\<exists>d. v = PDict d \<and> mk_edge d = Inr e)"

definition edge_ok :: "(string \<times> node) list \<Rightarrow> edge \<Rightarrow> bool" where
  "edge_ok nodes e =
     (\<exists>a b. dget nodes (source e) = Some a \<and> dget nodes (target e) = Some b \<and>
        source_type e = node_ty a \<and> target_type e = node_ty b \<and>
        (node_ty a = IfElseT \<longrightarrow> source_handle e \<in> {Some ''true'', Some ''false''}))"

definition edges_ok :: "(string \<times> node) list \<Rightarrow> edge list \<Rightarrow> bool" where
  "edges_ok nodes es = (distinct (map edge_id es) \<and> (\<forall>e \<in> set es. edge_ok nodes e) \<and>
     distinct (map (\<lambda>e. (source e, target e, source_handle e)) es))"

lemma edge_ok_iff: "edge_ok nodes e \<longleftrightarrow> edge_ends_ok nodes e \<and> handle_ok nodes e = None"
  by (auto simp: edge_ok_def edge_ends_ok_def handle_ok_def split: option.splits if_splits)

lemma edges_ok_prefix: "edges_ok nodes (es @ fs) \<Longrightarrow> edges_ok nodes es"
  by (auto simp: edges_ok_def)

lemma add_edge_iff:
  assumes "edges_ok nodes es"
  shows "add_edge nodes e (edge_dict es) = Inr d \<longleftrightarrow>
    edges_ok nodes (es @ [e]) \<and> d = edge_dict (es @ [e])"
proof -
  have keys: "set (dkeys (edge_dict es)) = edge_id ` set es" by force
  have new: "dset (edge_id e) e (edge_dict es) = edge_dict (es @ [e])" if "edge_id e \<notin> edge_id ` set es"
    using that keys by (subst dset_new) auto
  have dup: "(\<exists>x \<in> set (map snd (edge_dict es)). source x = source e \<and> target x = target e
      \<and> source_handle x = source_handle e) \<longleftrightarrow>
      (source e, target e, source_handle e) \<in> (\<lambda>e. (source e, target e, source_handle e)) ` set es"
    by (auto simp: image_image rev_image_eqI)
  show ?thesis
    unfolding add_edge_def keys dup
    using assms new
    by (auto simp: edges_ok_def edge_ok_iff distinct_map_snoc simp del: map_append distinct_map
        split: if_splits option.splits)
qed

lemma edge_loop_iff:
  assumes "edges_ok nodes es"
  shows "edge_loop mk_edge nodes vs (edge_dict es) = Inr d \<longleftrightarrow>
    (\<exists>fs. list_all2 (edge_built mk_edge) vs fs \<and> edges_ok nodes (es @ fs) \<and> d = edge_dict (es @ fs))"
  using assms
proof (induction vs arbitrary: es)
  case (Cons v vs)
  show ?case (is "?l \<longleftrightarrow> ?r")
  proof
    assume ?l
    then obtain e d' where built: "edge_built mk_edge v e"
      and add: "add_edge nodes e (edge_dict es) = Inr d'" and rest: "edge_loop mk_edge nodes vs d' = Inr d"
      by (auto simp: edge_built_def split: pyval.splits sum.splits)
    from add add_edge_iff [OF Cons.prems] have e: "edges_ok nodes (es @ [e])" "d' = edge_dict (es @ [e])"
      by auto
    from rest Cons.IH [OF e(1)] e(2) obtain fs where "list_all2 (edge_built mk_edge) vs fs"
      "edges_ok nodes (es @ e # fs)" "d = edge_dict (es @ e # fs)" by auto
    with built show ?r by (intro exI [of _ "e # fs"]) simp
  next
    assume ?r
    then obtain e fs where built: "edge_built mk_edge v e" "list_all2 (edge_built mk_edge) vs fs"
      and ok: "edges_ok nodes ((es @ [e]) @ fs)" "d = edge_dict ((es @ [e]) @ fs)"
      by (auto simp: list_all2_Cons1)
    from edges_ok_prefix [OF ok(1)] have e: "edges_ok nodes (es @ [e])" .
    with add_edge_iff [OF Cons.prems] have "add_edge nodes e (edge_dict es) = Inr (edge_dict (es @ [e]))"
      by simp
    moreover have "edge_loop mk_edge nodes vs (edge_dict (es @ [e])) = Inr d"
      using Cons.IH [OF e] built(2) ok by blast
    ultimately show ?l using built(1) by (auto simp: edge_built_def)
  qed
qed auto

section \<open>The validator accepts the well-formed configurations\<close>

lemma filter_single_iff:
  assumes "distinct xs"
  shows "filter P xs = [x] \<longleftrightarrow> x \<in> set xs \<and> (\<forall>y \<in> set xs. P y \<longleftrightarrow> y = x)"
proof
  assume eq: "filter P xs = [x]"
  then have "set (filter P xs) = {x}" by simp
  then show "x \<in> set xs \<and> (\<forall>y \<in> set xs. P y \<longleftrightarrow> y = x)" by auto
next
  assume "x \<in> set xs \<and> (\<forall>y \<in> set xs. P y \<longleftrightarrow> y = x)"
  then have "filter P xs = filter (\<lambda>y. y = x) xs" "x \<in> set xs" by (auto intro: filter_cong)
  moreover have "filter (\<lambda>y. y = x) xs = [x]" if "distinct xs" "x \<in> set xs" for xs
    using that
  proof (induction xs)
    case (Cons y ys)
    show ?case
    proof (cases "y = x")
      case True
      with Cons.prems have "filter (\<lambda>y. y = x) ys = []" by (auto simp: filter_empty_conv)
      with True show ?thesis by simp
    next
      case False
      with Cons show ?thesis by simp
    qed
  qed simp
  ultimately show "filter P xs = [x]" using assms by metis
qed

lemma keyed_node_dict: "distinct (map node_id ns) \<Longrightarrow> keyed node_id (node_dict ns)"
  by (auto simp: keyed_def comp_def)

lemma dget_node_dict:
  "distinct (map node_id ns) \<Longrightarrow> dget (node_dict ns) k = Some n \<longleftrightarrow> k = node_id n \<and> n \<in> set ns"
  using keyed_get [OF keyed_node_dict] by (auto simp: image_image)

lemma edges_ok_ends:
  assumes "edges_ok (node_dict ns) es"
  shows "source ` set es \<subseteq> node_id ` set ns" "target ` set es \<subseteq> node_id ` set ns"
proof -
  have "source e \<in> node_id ` set ns \<and> target e \<in> node_id ` set ns" if e: "e \<in> set es" for e
  proof -
    from assms e obtain a b where "dget (node_dict ns) (source e) = Some a"
      "dget (node_dict ns) (target e) = Some b"
      by (auto simp: edges_ok_def edge_ok_def)
    from this [THEN map_of_SomeD] show ?thesis by auto
  qed
  then show "source ` set es \<subseteq> node_id ` set ns" "target ` set es \<subseteq> node_id ` set ns" by auto
qed

lemma reachable_all:
  assumes dist: "distinct (map node_id ns)" and edges: "edges_ok (node_dict ns) es"
    and s: "s \<in> set ns" "\<And>n. n \<in> set ns \<Longrightarrow> node_id n \<notin> target ` set es \<longleftrightarrow> n = s"
  shows "(\<forall>e \<in> set es. (node_id s, source e) \<in> (set (edge_pairs es))\<^sup>*) \<longleftrightarrow>
    (\<forall>n \<in> set ns. (node_id s, node_id n) \<in> (set (edge_pairs es))\<^sup>*)" (is "?l \<longleftrightarrow> ?r")
proof
  assume l: ?l
  show ?r
  proof
    fix n
    assume n: "n \<in> set ns"
    show "(node_id s, node_id n) \<in> (set (edge_pairs es))\<^sup>*"
    proof (cases "n = s")
      case False
      with s(2) n obtain e where "e \<in> set es" "node_id n = target e" by auto
      with l have "(node_id s, source e) \<in> (set (edge_pairs es))\<^sup>*"
        "(source e, node_id n) \<in> set (edge_pairs es)" by auto
      then show ?thesis by (rule rtrancl_into_rtrancl)
    qed simp
  qed
next
  assume r: ?r
  show ?l
  proof
    fix e
    assume "e \<in> set es"
    with edges_ok_ends(1) [OF edges] obtain n where "n \<in> set ns" "source e = node_id n" by blast
    with r show "(node_id s, source e) \<in> (set (edge_pairs es))\<^sup>*" by (simp del: set_map)
  qed
qed

lemma case_two_singles:
  "\<nexists>s t. S = [s] \<and> T = [t] \<Longrightarrow> (case (S, T) of ([s], [t]) \<Rightarrow> f s t | _ \<Rightarrow> d) = d"
  by (auto split: list.split)

lemma check_graph_iff:
  assumes dist: "distinct (map node_id ns)" and edges: "edges_ok (node_dict ns) es"
  shows "check_graph (node_dict ns) es = None \<longleftrightarrow> wf_graph (node_dict ns) es"
proof -
  have nodes: "map snd (node_dict ns) = ns" by (simp add: comp_def)
  have img: "snd ` set (node_dict ns) = set ns" by (simp add: image_image)
  have dns: "distinct ns" using dist by (simp add: distinct_map)
  note sources = edges_ok_ends [OF edges]
  let ?S = "filter (\<lambda>n. node_id n \<notin> target ` set es) ns"
  let ?T = "filter (\<lambda>n. node_id n \<notin> source ` set es) ns"
  define rest where "rest s t \<longleftrightarrow> node_ty s = StartT \<and> node_ty t = EndT \<and>
       (\<forall>e \<in> set es. (node_id s, source e) \<in> (set (edge_pairs es))\<^sup>*) \<and>
       acyclic (set (edge_pairs es)) \<and> (\<forall>n \<in> set ns. refs_ok (node_dict ns) es n)" for s t :: node
  have form: "check_graph (node_dict ns) es =
      (case (?S, ?T) of ([s], [t]) \<Rightarrow> check_between (node_dict ns) es s t
       | _ \<Rightarrow> Some (ValidateError ''start and end''))"
    unfolding check_graph_def nodes case_prod_beta in_degree_0 out_degree_0 by (rule refl)
  have between: "check_between (node_dict ns) es s t = None \<longleftrightarrow> rest s t" for s t
    unfolding check_between_def nodes Let_def is_connected_iff is_cycle_iff [OF dist sources] rest_def
    using validate_inputs_ref_iff [OF keyed_node_dict [OF dist], of es ns] by auto
  have single: "check_graph (node_dict ns) es = None \<longleftrightarrow> rest s t" if "?S = [s]" "?T = [t]" for s t
    unfolding form that using between by simp
  have other: "check_graph (node_dict ns) es \<noteq> None" if "\<nexists>s t. ?S = [s] \<and> ?T = [t]"
    unfolding form case_two_singles [OF that] by simp
  have "check_graph (node_dict ns) es = None \<longleftrightarrow> (\<exists>s t. ?S = [s] \<and> ?T = [t] \<and> rest s t)"
  proof (cases "\<exists>s t. ?S = [s] \<and> ?T = [t]")
    case True
    then obtain s t where st: "?S = [s]" "?T = [t]" by blast
    show ?thesis unfolding single [OF st] unfolding st by blast
  next
    case False
    with other [OF this] show ?thesis by blast
  qed
  also have "\<dots> \<longleftrightarrow> (\<exists>s \<in> set ns. \<exists>t \<in> set ns. (\<forall>n \<in> set ns. node_id n \<notin> target ` set es \<longleftrightarrow> n = s) \<and>
      (\<forall>n \<in> set ns. node_id n \<notin> source ` set es \<longleftrightarrow> n = t) \<and> rest s t)"
    unfolding filter_single_iff [OF dns] by blast
  also have "\<dots> \<longleftrightarrow> wf_graph (node_dict ns) es"
    unfolding wf_graph_def img
  proof (intro bex_cong refl)
    fix s t
    assume s: "s \<in> set ns"
    show "(\<forall>n\<in>set ns. node_id n \<notin> target ` set es \<longleftrightarrow> n = s) \<and>
        (\<forall>n\<in>set ns. node_id n \<notin> source ` set es \<longleftrightarrow> n = t) \<and> rest s t \<longleftrightarrow>
      node_ty s = StartT \<and> node_ty t = EndT \<and>
        (\<forall>n\<in>set ns. node_id n \<notin> target ` set es \<longleftrightarrow> n = s) \<and>
        (\<forall>n\<in>set ns. node_id n \<notin> source ` set es \<longleftrightarrow> n = t) \<and>
        (\<forall>n\<in>set ns. (node_id s, node_id n) \<in> (set (edge_pairs es))\<^sup>*) \<and>
        acyclic (set (edge_pairs es)) \<and> (\<forall>n\<in>set ns. refs_ok (node_dict ns) es n)"
    proof (cases "\<forall>n\<in>set ns. node_id n \<notin> target ` set es \<longleftrightarrow> n = s")
      case True
      then have "(\<forall>e \<in> set es. (node_id s, source e) \<in> (set (edge_pairs es))\<^sup>*) \<longleftrightarrow>
          (\<forall>n \<in> set ns. (node_id s, node_id n) \<in> (set (edge_pairs es))\<^sup>*)"
        by (intro reachable_all [OF dist edges s]) blast
      with True show ?thesis unfolding rest_def by argo
    qed blast
  qed
  finally show ?thesis .
qed

definition wf_config :: "workflow_config \<Rightarrow> bool" where
  "wf_config cfg =
     (nodes_ok (wf_nodes cfg) \<and> edges_ok (node_dict (wf_nodes cfg)) (wf_edges cfg) \<and>
      wf_graph (node_dict (wf_nodes cfg)) (wf_edges cfg))"

text \<open>
  Everything the validator checks before the graph, and the lists it hands over.
\<close>

definition header_ok :: "pyval dict \<Rightarrow> bool" where
  "header_ok values =
     (check_name (opt_none (dget values ''name'')) = None \<and>
      check_description (opt_none (dget values ''description'')) = None)"

definition config_of ::
    "(node_type \<Rightarrow> pyval dict \<Rightarrow> exn + node) \<Rightarrow> (pyval dict \<Rightarrow> exn + edge) \<Rightarrow> pyval dict
     \<Rightarrow> workflow_config \<Rightarrow> bool" where
  "config_of mk_node mk_edge values cfg =
     (\<exists>vs us. dget values ''nodes'' = Some (PList vs) \<and> dget values ''edges'' = Some (PList us) \<and>
        vs \<noteq> [] \<and> us \<noteq> [] \<and>
        list_all2 (node_built mk_node) vs (wf_nodes cfg) \<and>
        list_all2 (edge_built mk_edge) us (wf_edges cfg))"

lemma nonempty_list_iff:
  "nonempty_list what (dget_or values k (PList [])) = Inr vs \<longleftrightarrow>
     dget values k = Some (PList vs) \<and> vs \<noteq> []"
  by (auto simp: nonempty_list_def dget_or_def split: pyval.split list.split option.split)

lemma nodes_ok_Nil [simp]: "nodes_ok []"
  by (simp add: nodes_ok_def typed_def)

lemma edges_ok_Nil [simp]: "edges_ok nodes []"
  by (simp add: edges_ok_def)

lemma node_loop_start:
  "node_loop mk_node vs (0, 0, []) = Inr st \<longleftrightarrow>
     (\<exists>ms. list_all2 (node_built mk_node) vs ms \<and> nodes_ok ms \<and> st = loop_state ms)"
  using node_loop_iff [of "[]" mk_node vs st] by (simp add: loop_state_def typed_def)

lemma edge_loop_start:
  "edge_loop mk_edge nodes vs [] = Inr d \<longleftrightarrow>
     (\<exists>fs. list_all2 (edge_built mk_edge) vs fs \<and> edges_ok nodes fs \<and> d = edge_dict fs)"
  using edge_loop_iff [of nodes "[]" mk_edge vs d] by simp

lemma validate_accepts_iff:
  "validate_workflow_config mk_node mk_edge values = Inr cfg \<longleftrightarrow>
     header_ok values \<and> config_of mk_node mk_edge values cfg \<and> wf_config cfg"
proof
  assume "validate_workflow_config mk_node mk_edge values = Inr cfg"
  then obtain vs us a b nd ed where header: "header_ok values"
    and vs: "nonempty_list ''nodes'' (dget_or values ''nodes'' (PList [])) = Inr vs"
    and us: "nonempty_list ''edges'' (dget_or values ''edges'' (PList [])) = Inr us"
    and nd: "node_loop mk_node vs (0, 0, []) = Inr (a, b, nd)"
    and ed: "edge_loop mk_edge nd us [] = Inr ed"
    and graph: "check_graph nd (map snd ed) = None"
    and cfg: "cfg = \<lparr>wf_nodes = map snd nd, wf_edges = map snd ed\<rparr>"
    by (auto simp: validate_workflow_config_def header_ok_def split: option.splits sum.splits prod.splits)
  from nd obtain ms where ms: "list_all2 (node_built mk_node) vs ms" "nodes_ok ms" "nd = node_dict ms"
    by (auto simp: node_loop_start loop_state_def)
  from ed obtain fs where fs: "list_all2 (edge_built mk_edge) us fs" "edges_ok nd fs" "ed = edge_dict fs"
    by (auto simp: edge_loop_start)
  have lists: "map snd nd = ms" "map snd ed = fs" by (simp_all add: ms fs comp_def)
  have "wf_graph nd fs"
    using graph check_graph_iff [of ms fs] ms fs(2) lists by (simp add: nodes_ok_def)
  with ms fs lists cfg vs us header
  show "header_ok values \<and> config_of mk_node mk_edge values cfg \<and> wf_config cfg"
    by (simp add: config_of_def wf_config_def nonempty_list_iff)
next
  assume r: "header_ok values \<and> config_of mk_node mk_edge values cfg \<and> wf_config cfg"
  then obtain vs us where
    vs: "nonempty_list ''nodes'' (dget_or values ''nodes'' (PList [])) = Inr vs"
    and us: "nonempty_list ''edges'' (dget_or values ''edges'' (PList [])) = Inr us"
    and built: "list_all2 (node_built mk_node) vs (wf_nodes cfg)"
      "list_all2 (edge_built mk_edge) us (wf_edges cfg)"
    by (auto simp: config_of_def nonempty_list_iff)
  from r have ok: "nodes_ok (wf_nodes cfg)" "edges_ok (node_dict (wf_nodes cfg)) (wf_edges cfg)"
    "wf_graph (node_dict (wf_nodes cfg)) (wf_edges cfg)"
    by (simp_all add: wf_config_def)
  have nd: "node_loop mk_node vs (0, 0, []) = Inr (loop_state (wf_nodes cfg))"
    using built(1) ok(1) by (auto simp: node_loop_start)
  have ed: "edge_loop mk_edge (node_dict (wf_nodes cfg)) us [] = Inr (edge_dict (wf_edges cfg))"
    using built(2) ok(2) by (auto simp: edge_loop_start)
  have "check_graph (node_dict (wf_nodes cfg)) (wf_edges cfg) = None"
    using check_graph_iff ok by (simp add: nodes_ok_def)
  with r vs us nd ed show "validate_workflow_config mk_node mk_edge values = Inr cfg"
    by (simp add: validate_workflow_config_def header_ok_def loop_state_def comp_def)
qed

text \<open>C1. The validator accepts a configuration exactly when its name and description pass, its
  node and edge dictionaries build, ids, titles and edges are unique and well typed, and the graph
  has one start, one end, no unreachable node, no cycle and no dangling reference.\<close>

theorem validate_workflow_config_iff:
  "validate_workflow_config mk_node mk_edge values = Inr cfg \<longleftrightarrow>
     header_ok values \<and> config_of mk_node mk_edge values cfg \<and> wf_config cfg"
  by (rule validate_accepts_iff)

text \<open>
  No configuration with an iteration or an intent classifier node is accepted: their data
  classes declare no \<open>inputs\<close>, which the reference check reads.
\<close>

theorem iteration_never_validates:
  assumes "validate_workflow_config mk_node mk_edge values = Inr cfg" and "n \<in> set (wf_nodes cfg)"
  shows "node_ty n \<noteq> IterationT \<and> node_ty n \<noteq> IntentClassifierT"
proof -
  from assms(1) have "wf_config cfg" by (simp add: validate_accepts_iff)
  then have "refs_ok (node_dict (wf_nodes cfg)) (wf_edges cfg) n"
    using assms(2) by (auto simp: wf_config_def wf_graph_def image_image)
  then show ?thesis
    by (auto simp: refs_ok_def checked_vars_def inputs_of_def has_inputs_def)
qed

end
