(* ===== verification/Graph_Engine.thy ===== *)
theory Graph_Engine
  imports Workflow_Config
begin

text \<open>
  The graph engine (\<^verbatim>\<open>workflow/graph_engine.py\<close>): it layers the graph, runs the layers in order,
  skips what depends on a failed node and reports everything as a list of events.

  The node executor is a parameter: a state transformer on the variable pool and a state of its own
  that returns the outputs (or Python's \<^verbatim>\<open>None\<close>) or raises.  The nodes of a layer run concurrently;
  the parameter \<open>sched\<close> gives the order in which their executions take effect.  Wall-clock times
  (\<^verbatim>\<open>elapsed_time\<close>) and log output are left out.  An exception that escapes the generator ends the
  event list and is returned beside it.
\<close>

section \<open>The engine\<close>

record engine =
  eng_edges :: "edge list"
  eng_node_map :: "(string \<times> node) list"
  eng_adj_list :: "string adj"
  eng_in_degree :: "(string \<times> int) list"

definition build_graph :: "(string \<times> node) list \<Rightarrow> edge list \<Rightarrow> string adj \<times> (string \<times> int) list" where
  "build_graph node_map es =
     (add_edges (edge_pairs es) [],
      count_up (map target es) (map (\<lambda>(k, n). (k, 0)) node_map))"

definition new_engine :: "workflow_config \<Rightarrow> engine" where
  "new_engine cfg =
     (let node_map = fold (\<lambda>n d. dset (node_id n) n d) (wf_nodes cfg) [];
          (adj, deg) = build_graph node_map (wf_edges cfg)
      in \<lparr>eng_edges = wf_edges cfg, eng_node_map = node_map, eng_adj_list = adj, eng_in_degree = deg\<rparr>)"

definition topological_layers :: "engine \<Rightarrow> exn + string list list" where
  "topological_layers e =
     (let current = map fst (filter (\<lambda>(k, d). d = 0) (eng_in_degree e));
          layers = kahn_layers (eng_adj_list e) (eng_in_degree e) current
      in if length (concat layers) \<noteq> length (eng_node_map e) then Inl (ValueError ''cycle'')
         else Inr layers)"

definition get_dependencies :: "engine \<Rightarrow> string \<Rightarrow> string list" where
  "get_dependencies e n = map source (filter (\<lambda>x. target x = n) (eng_edges e))"

section \<open>Node inputs\<close>

text \<open>\<^verbatim>\<open>str()\<close> of an optional node id.\<close>

definition id_str :: "string option \<Rightarrow> string" where
  "id_str r = (case r of None \<Rightarrow> ''None'' | Some s \<Rightarrow> s)"

text \<open>The value of a literal: its content, where a reference object is passed on as an object.\<close>

definition content_value :: "content \<Rightarrow> pyval" where
  "content_value c = (case c of ContentVal v \<Rightarrow> v | ContentRef _ _ \<Rightarrow> PObj ''Content'')"

definition resolve_input :: "var_pool \<Rightarrow> var_entity \<Rightarrow> exn + pyval" where
  "resolve_input pool v =
     (case var_value_type v of
        RefVT \<Rightarrow>
          (case var_content v of
             ContentRef r x \<Rightarrow> Inr (get_node_output pool (id_str r) (Some x))
           | ContentVal _ \<Rightarrow> Inl AttributeError)
      | LiteralVT \<Rightarrow> Inr (content_value (var_content v))
      | GeneratedVT \<Rightarrow>
          (let sys_inputs = get_system_variable pool ''inputs'' in
           if \<not> truthy sys_inputs then Inr PNone
           else (case sys_inputs of
               PDict d \<Rightarrow> Inr (opt_none (dget d (var_name v)))
             | _ \<Rightarrow> Inl AttributeError)))"

fun resolve_inputs :: "var_pool \<Rightarrow> var_entity list \<Rightarrow> pyval dict \<Rightarrow> exn + pyval dict" where
  "resolve_inputs pool [] result = Inr result"
| "resolve_inputs pool (v # vs) result =
     (case resolve_input pool v of
        Inl e \<Rightarrow> Inl e
      | Inr x \<Rightarrow> resolve_inputs pool vs (dset (var_name v) x result))"

definition input_vars :: "node \<Rightarrow> exn + var_entity list" where
  "input_vars n = (if node_ty n = EndT then outputs_of n else inputs_of n)"

definition build_node_inputs :: "var_pool \<Rightarrow> node \<Rightarrow> exn + pyval dict" where
  "build_node_inputs pool n =
     (case input_vars n of
        Inl e \<Rightarrow> Inl e
      | Inr vars \<Rightarrow> resolve_inputs pool vars [])"

section \<open>Events and the state of a run\<close>

datatype run_status = Succeeded | PartialFailed | AllFailed

datatype event =
    WorkflowStarted "pyval dict" nat
  | NodeStarted string node_type string "pyval dict"
  | NodeFinished string node_type string "pyval dict" "pyval dict"
  | NodeFailed string node_type string "pyval dict" "exn option"
  | NodeSkipped string node_type string
  | WorkflowFinished run_status nat nat
  | WorkflowAborted exn

record 's run =
  run_pool :: var_pool
  run_own :: 's
  run_failed :: "string set"
  run_executed :: nat
  run_failures :: nat
  run_trace :: "event list"

type_synonym 's executor = "node \<Rightarrow> (var_pool \<times> 's, pyval dict option) action"

definition emit :: "event \<Rightarrow> 's run \<Rightarrow> 's run" where
  "emit ev st = st\<lparr>run_trace := run_trace st @ [ev]\<rparr>"

text \<open>Mark a node failed: it counts as a failure and blocks its successors.\<close>

definition mark_failed :: "string \<Rightarrow> 's run \<Rightarrow> 's run" where
  "mark_failed n st = st\<lparr>run_failed := insert n (run_failed st), run_failures := run_failures st + 1\<rparr>"

definition mark_executed :: "'s run \<Rightarrow> 's run" where
  "mark_executed st = st\<lparr>run_executed := run_executed st + 1\<rparr>"

definition in_run :: "(var_pool \<times> 's, 'a) action \<Rightarrow> 's run \<Rightarrow> (exn + 'a) \<times> 's run" where
  "in_run act st =
     (case act (run_pool st, run_own st) of (r, p, x) \<Rightarrow> (r, st\<lparr>run_pool := p, run_own := x\<rparr>))"

section \<open>Executing one node\<close>

definition note_attempts :: "pyval dict option \<Rightarrow> nat \<Rightarrow> exn + pyval dict option" where
  "note_attempts out attempts =
     (if attempts > 1 then
        (case out of None \<Rightarrow> Inl TypeError
         | Some d \<Rightarrow> Inr (Some (dset ''_retry_attempts'' (PInt (int attempts)) d)))
      else Inr out)"

definition execute_node :: "'s executor \<Rightarrow> 's executor" where
  "execute_node exec n s =
     (case execute_with_retry (exec n) (node_retry n) s of
        (Inl e, _, s') \<Rightarrow> (Inl e, s')
      | (Inr (out, attempts), _, s') \<Rightarrow> (note_attempts out attempts, s'))"

type_synonym outcome = "pyval dict option \<times> exn option"

definition execute_node_safe :: "'s executor \<Rightarrow> node \<Rightarrow> 's run \<Rightarrow> outcome \<times> 's run" where
  "execute_node_safe exec n st =
     (case in_run (execute_node exec n) st of
        (Inr out, st') \<Rightarrow> ((out, None), st')
      | (Inl e, st') \<Rightarrow> ((None, Some e), st'))"

text \<open>
  The asynchronous engine takes a plain function, which it runs in a worker thread with the
  synchronous retry, or a coroutine function, which it awaits with the asynchronous retry.
\<close>

datatype 's async_executor =
    PlainFun "'s executor"
  | Coroutine "node \<Rightarrow> (var_pool \<times> 's, (var_pool \<times> 's, pyval dict option) action) action"

fun execute_node_async :: "'s async_executor \<Rightarrow> 's executor" where
  "execute_node_async (PlainFun exec) n s = execute_node exec n s"
| "execute_node_async (Coroutine call) n s =
     (case execute_with_retry_async (call n) (node_retry n) s of
        (Inl e, _, s') \<Rightarrow> (Inl e, s')
      | (Inr (out, attempts), _, s') \<Rightarrow> (note_attempts out attempts, s'))"

definition execute_node_safe_async :: "'s async_executor \<Rightarrow> node \<Rightarrow> 's run \<Rightarrow> outcome \<times> 's run" where
  "execute_node_safe_async exec n st =
     (case in_run (execute_node_async exec n) st of
        (Inr out, st') \<Rightarrow> ((out, None), st')
      | (Inl e, st') \<Rightarrow> ((None, Some e), st'))"

text \<open>
  A layer of one node.  \<^verbatim>\<open>dict(None)\<close> raises inside the \<^verbatim>\<open>try\<close>, so missing outputs are a failure.
  The caller updates the counters as it passes the events on.
\<close>

definition single_outcome :: "node \<Rightarrow> pyval dict \<Rightarrow> exn + pyval dict option \<Rightarrow> 's run \<Rightarrow> 's run" where
  "single_outcome n inputs r st =
     (case r of
        Inr (Some out) \<Rightarrow>
          mark_executed (emit (NodeFinished (node_id n) (node_ty n) (title n) inputs out)
            (st\<lparr>run_pool := set_node_output (node_id n) out (run_pool st)\<rparr>))
      | Inr None \<Rightarrow>
          mark_failed (node_id n)
            (emit (NodeFailed (node_id n) (node_ty n) (title n) inputs (Some TypeError)) st)
      | Inl e \<Rightarrow>
          mark_failed (node_id n)
            (emit (NodeFailed (node_id n) (node_ty n) (title n) inputs (Some e)) st))"

definition execute_single_node :: "'s executor \<Rightarrow> node \<Rightarrow> 's run \<Rightarrow> exn option \<times> 's run" where
  "execute_single_node exec n st =
     (case build_node_inputs (run_pool st) n of
        Inl e \<Rightarrow> (Some e, st)
      | Inr inputs \<Rightarrow>
          (case in_run (execute_node exec n)
               (emit (NodeStarted (node_id n) (node_ty n) (title n) inputs) st) of
             (r, st') \<Rightarrow> (None, single_outcome n inputs r st')))"

definition execute_single_node_async :: "'s async_executor \<Rightarrow> node \<Rightarrow> 's run \<Rightarrow> exn option \<times> 's run" where
  "execute_single_node_async exec n st =
     (case build_node_inputs (run_pool st) n of
        Inl e \<Rightarrow> (Some e, st)
      | Inr inputs \<Rightarrow>
          (case in_run (execute_node_async exec n)
               (emit (NodeStarted (node_id n) (node_ty n) (title n) inputs) st) of
             (r, st') \<Rightarrow> (None, single_outcome n inputs r st')))"

section \<open>A layer of several nodes\<close>

fun start_events :: "engine \<Rightarrow> string list \<Rightarrow> 's run \<Rightarrow> exn option \<times> 's run" where
  "start_events e [] st = (None, st)"
| "start_events e (i # is) st =
     (case dget (eng_node_map e) i of
        None \<Rightarrow> (Some (KeyError i), st)
      | Some n \<Rightarrow>
          (case build_node_inputs (run_pool st) n of
             Inl x \<Rightarrow> (Some x, st)
           | Inr inputs \<Rightarrow> start_events e is (emit (NodeStarted i (node_ty n) (title n) inputs) st)))"

text \<open>
  The thread pool: the executions take effect in the order of the list; each result is stored under
  its node as it completes.  The \<open>KeyError\<close> cannot occur: the start events of the layer have already
  looked every id up.
\<close>

fun run_pooled :: "'s executor \<Rightarrow> engine \<Rightarrow> string list \<Rightarrow> (string \<times> outcome) list \<Rightarrow> 's run
    \<Rightarrow> (string \<times> outcome) list \<times> 's run" where
  "run_pooled exec e [] results st = (results, st)"
| "run_pooled exec e (i # is) results st =
     (case dget (eng_node_map e) i of
        None \<Rightarrow> run_pooled exec e is (dset i (None, Some (KeyError i)) results) st
      | Some n \<Rightarrow>
          (case execute_node_safe exec n st of
             (oc, st') \<Rightarrow> run_pooled exec e is (dset i oc results) st'))"

text \<open>\<^verbatim>\<open>asyncio.gather\<close>: the outcomes in the order of the tasks, whatever order they ran in.\<close>

fun run_tasks :: "'s async_executor \<Rightarrow> engine \<Rightarrow> string list \<Rightarrow> 's run
    \<Rightarrow> (string \<times> outcome) list \<times> 's run" where
  "run_tasks exec e [] st = ([], st)"
| "run_tasks exec e (i # is) st =
     (case (case dget (eng_node_map e) i of
              None \<Rightarrow> ((None, Some (KeyError i)), st)
            | Some n \<Rightarrow> execute_node_safe_async exec n st) of
        (oc, st') \<Rightarrow> (case run_tasks exec e is st' of (ocs, st'') \<Rightarrow> ((i, oc) # ocs, st'')))"

definition gather :: "'s async_executor \<Rightarrow> engine \<Rightarrow> string list \<Rightarrow> string list \<Rightarrow> 's run
    \<Rightarrow> outcome list \<times> 's run" where
  "gather exec e order ids st =
     (case run_tasks exec e order st of
        (done, st') \<Rightarrow> (map (\<lambda>i. dget_or done i (None, None)) ids, st'))"

definition finish_event :: "node \<Rightarrow> string \<Rightarrow> pyval dict \<Rightarrow> outcome \<Rightarrow> 's run \<Rightarrow> 's run" where
  "finish_event n i inputs oc st =
     (case oc of
        (Some out, None) \<Rightarrow>
          mark_executed (emit (NodeFinished i (node_ty n) (title n) inputs out)
            (st\<lparr>run_pool := set_node_output i out (run_pool st)\<rparr>))
      | (_, err) \<Rightarrow>
          emit (NodeFailed i (node_ty n) (title n) inputs err) (mark_failed i st))"

fun finish_events :: "engine \<Rightarrow> (string \<times> outcome) list \<Rightarrow> string list \<Rightarrow> 's run
    \<Rightarrow> exn option \<times> 's run" where
  "finish_events e results [] st = (None, st)"
| "finish_events e results (i # is) st =
     (case dget (eng_node_map e) i of
        None \<Rightarrow> (Some (KeyError i), st)
      | Some n \<Rightarrow>
          (case build_node_inputs (run_pool st) n of
             Inl x \<Rightarrow> (Some x, st)
           | Inr inputs \<Rightarrow>
               finish_events e results is
                 (finish_event n i inputs (dget_or results i (None, None)) st)))"

definition parallel_layer :: "'s executor \<Rightarrow> (string list \<Rightarrow> string list) \<Rightarrow> engine \<Rightarrow> string list
    \<Rightarrow> 's run \<Rightarrow> exn option \<times> 's run" where
  "parallel_layer exec sched e ids st =
     (case start_events e ids st of
        (Some x, st1) \<Rightarrow> (Some x, st1)
      | (None, st1) \<Rightarrow>
          (case run_pooled exec e (sched ids) [] st1 of
             (results, st2) \<Rightarrow> finish_events e results ids st2))"

definition parallel_layer_async :: "'s async_executor \<Rightarrow> (string list \<Rightarrow> string list) \<Rightarrow> engine
    \<Rightarrow> string list \<Rightarrow> 's run \<Rightarrow> exn option \<times> 's run" where
  "parallel_layer_async exec sched e ids st =
     (case start_events e ids st of
        (Some x, st1) \<Rightarrow> (Some x, st1)
      | (None, st1) \<Rightarrow>
          (case gather exec e (sched ids) ids st1 of
             (outcomes, st2) \<Rightarrow> finish_events e (zip ids outcomes) ids st2))"

section \<open>Running all layers\<close>

text \<open>The filter at the head of a layer: nodes behind a failed node are skipped and fail.\<close>

fun filter_layer :: "engine \<Rightarrow> string list \<Rightarrow> string list \<Rightarrow> 's run
    \<Rightarrow> exn option \<times> string list \<times> 's run" where
  "filter_layer e [] exe st = (None, exe, st)"
| "filter_layer e (i # is) exe st =
     (case dget (eng_node_map e) i of
        None \<Rightarrow> (Some (KeyError i), exe, st)
      | Some n \<Rightarrow>
          if \<exists>d \<in> set (get_dependencies e i). d \<in> run_failed st then
            filter_layer e is exe
              (mark_failed i (emit (NodeSkipped i (node_ty n) (title n)) st))
          else filter_layer e is (exe @ [i]) st)"

definition run_layer :: "(node \<Rightarrow> 's run \<Rightarrow> exn option \<times> 's run) \<Rightarrow>
    (engine \<Rightarrow> string list \<Rightarrow> 's run \<Rightarrow> exn option \<times> 's run) \<Rightarrow> engine \<Rightarrow> string list \<Rightarrow> 's run
    \<Rightarrow> exn option \<times> 's run" where
  "run_layer single parallel e layer st =
     (case filter_layer e layer [] st of
        (Some x, _, st') \<Rightarrow> (Some x, st')
      | (None, exe, st') \<Rightarrow>
          (case exe of
             [] \<Rightarrow> (None, st')
           | [i] \<Rightarrow> (case dget (eng_node_map e) i of
                 None \<Rightarrow> (Some (KeyError i), st')
               | Some n \<Rightarrow> single n st')
           | _ \<Rightarrow> parallel e exe st'))"

fun run_layers :: "(node \<Rightarrow> 's run \<Rightarrow> exn option \<times> 's run) \<Rightarrow>
    (engine \<Rightarrow> string list \<Rightarrow> 's run \<Rightarrow> exn option \<times> 's run) \<Rightarrow> engine \<Rightarrow> string list list \<Rightarrow> 's run
    \<Rightarrow> exn option \<times> 's run" where
  "run_layers single parallel e [] st = (None, st)"
| "run_layers single parallel e (l # ls) st =
     (case run_layer single parallel e l st of
        (Some x, st') \<Rightarrow> (Some x, st')
      | (None, st') \<Rightarrow> run_layers single parallel e ls st')"

definition final_status :: "nat \<Rightarrow> nat \<Rightarrow> run_status" where
  "final_status executed failures =
     (if failures = 0 then Succeeded else if executed > 0 then PartialFailed else AllFailed)"

definition start_run :: "engine \<Rightarrow> pyval dict \<Rightarrow> var_pool \<Rightarrow> 's \<Rightarrow> 's run" where
  "start_run e inputs pool x =
     \<lparr>run_pool = set_system_variable ''inputs'' (PDict inputs) pool, run_own = x, run_failed = {},
      run_executed = 0, run_failures = 0,
      run_trace = [WorkflowStarted inputs (length (eng_node_map e))]\<rparr>"

definition end_run :: "exn option \<times> 's run \<Rightarrow> exn option \<times> 's run" where
  "end_run r =
     (case r of
        (Some x, st) \<Rightarrow> (Some x, st)
      | (None, st) \<Rightarrow>
          (None, emit (WorkflowFinished (final_status (run_executed st) (run_failures st))
                  (run_executed st) (run_failures st)) st))"

definition execute :: "'s executor \<Rightarrow> (string list \<Rightarrow> string list) \<Rightarrow> engine \<Rightarrow> pyval dict \<Rightarrow> var_pool
    \<Rightarrow> 's \<Rightarrow> exn option \<times> 's run" where
  "execute exec sched e inputs pool x =
     (case topological_layers e of
        Inl err \<Rightarrow> (None, emit (WorkflowAborted err) (start_run e inputs pool x))
      | Inr layers \<Rightarrow>
          end_run (run_layers (execute_single_node exec) (parallel_layer exec sched) e layers
            (start_run e inputs pool x)))"

definition execute_async :: "'s async_executor \<Rightarrow> (string list \<Rightarrow> string list) \<Rightarrow> engine \<Rightarrow> pyval dict
    \<Rightarrow> var_pool \<Rightarrow> 's \<Rightarrow> exn option \<times> 's run" where
  "execute_async exec sched e inputs pool x =
     (case topological_layers e of
        Inl err \<Rightarrow> (None, emit (WorkflowAborted err) (start_run e inputs pool x))
      | Inr layers \<Rightarrow>
          end_run (run_layers (execute_single_node_async exec) (parallel_layer_async exec sched) e layers
            (start_run e inputs pool x)))"

end
