(* ===== verification/Workflow_Nodes.thy ===== *)
theory Workflow_Nodes
  imports Graph_Engine
begin

text \<open>
  The nodes that compute without a model or a network (\<^verbatim>\<open>workflow/nodes/\<close>): reading variables from
  the run's results (\<^verbatim>\<open>utils/helper.py\<close>), start, end, variable assigner, condition, parameter
  extractor, code, iteration and sub-workflow, and the adapters that tie them to the engine
  (\<^verbatim>\<open>real_node_executor.py\<close>, \<^verbatim>\<open>workflow.py\<close>).  A node returns its results or raises; latencies are
  left out.  Parameters: the conversion to \<^verbatim>\<open>float\<close>, \<^verbatim>\<open>json.loads\<close>, the remote sandbox, and the node
  classes that are not modelled.
\<close>

section \<open>Conversions\<close>

text \<open>The type constructors of \<^verbatim>\<open>VARIABLE_TYPE_MAP\<close>; \<open>to_float\<close> stands for \<^verbatim>\<open>float\<close>.\<close>

definition cast :: "(pyval \<Rightarrow> exn + pyval) \<Rightarrow> variable_type \<Rightarrow> pyval \<Rightarrow> exn + pyval" where
  "cast to_float t v =
     (case t of
        StringV \<Rightarrow> Inr (PStr (py_str v))
      | IntV \<Rightarrow>
          (case v of
             PInt n \<Rightarrow> Inr (PInt n)
           | PBool b \<Rightarrow> Inr (PInt (if b then 1 else 0))
           | PStr s \<Rightarrow>
               (case int_of_text s of Some n \<Rightarrow> Inr (PInt n) | None \<Rightarrow> Inl (ValueError ''int''))
           | _ \<Rightarrow> Inl TypeError)
      | FloatV \<Rightarrow> to_float v
      | BooleanV \<Rightarrow> Inr (PBool (truthy v)))"

section \<open>Reading variables from the results so far\<close>

record node_result =
  nr_node :: node
  nr_inputs :: "pyval dict"
  nr_outputs :: "pyval dict"

record wf_state =
  ws_inputs :: pyval
  ws_results :: "node_result list"

text \<open>The first result of the node; with no results the loop never looks at the reference.\<close>

definition find_result :: "string option \<Rightarrow> node_result list \<Rightarrow> node_result option" where
  "find_result r results = find (\<lambda>x. Some (node_id (nr_node x)) = r) results"

definition extract_variable :: "(pyval \<Rightarrow> exn + pyval) \<Rightarrow> node_result list \<Rightarrow> var_entity \<Rightarrow> exn + pyval" where
  "extract_variable to_float results v =
     (if var_value_type v = LiteralVT then cast to_float (var_type v) (content_value (var_content v))
      else if results = [] then Inr (variable_type_default (var_type v))
      else (case var_content v of
          ContentVal _ \<Rightarrow> Inl AttributeError
        | ContentRef r x \<Rightarrow>
            (case find_result r results of
               None \<Rightarrow> Inr (variable_type_default (var_type v))
             | Some res \<Rightarrow>
                 cast to_float (var_type v) (dget_or (nr_outputs res) x (variable_type_default (var_type v))))))"

fun extract_variables :: "(pyval \<Rightarrow> exn + pyval) \<Rightarrow> node_result list \<Rightarrow> var_entity list \<Rightarrow> pyval dict
    \<Rightarrow> exn + pyval dict" where
  "extract_variables to_float results [] acc = Inr acc"
| "extract_variables to_float results (v # vs) acc =
     (case extract_variable to_float results v of
        Inl e \<Rightarrow> Inl e
      | Inr x \<Rightarrow> extract_variables to_float results vs (dset (var_name v) x acc))"

definition extract_variables_from_state :: "(pyval \<Rightarrow> exn + pyval) \<Rightarrow> var_entity list \<Rightarrow> wf_state
    \<Rightarrow> exn + pyval dict" where
  "extract_variables_from_state to_float vs st = extract_variables to_float (ws_results st) vs []"

text \<open>\<^verbatim>\<open>_resolve_variable\<close> of the newer nodes: no conversion, \<^verbatim>\<open>None\<close> for what is missing.\<close>

definition resolve_variable :: "var_entity \<Rightarrow> wf_state \<Rightarrow> exn + pyval" where
  "resolve_variable v st =
     (if var_value_type v = RefVT then
        (case var_content v of
           ContentVal _ \<Rightarrow> Inl AttributeError
         | ContentRef r x \<Rightarrow>
             (case find_result r (ws_results st) of
                None \<Rightarrow> Inr PNone
              | Some res \<Rightarrow> Inr (opt_none (dget (nr_outputs res) x))))
      else Inr (content_value (var_content v)))"

section \<open>Start, end and assigner\<close>

fun start_outputs :: "pyval dict \<Rightarrow> var_entity list \<Rightarrow> pyval dict \<Rightarrow> exn + pyval dict" where
  "start_outputs given [] acc = Inr acc"
| "start_outputs given (v # vs) acc =
     (let x = opt_none (dget given (var_name v)) in
      if x = PNone \<and> var_required v then Inl (FailError (var_name v))
      else start_outputs given vs
        (dset (var_name v) (if x = PNone then variable_type_default (var_type v) else x) acc))"

definition start_invoke :: "node \<Rightarrow> wf_state \<Rightarrow> exn + node_result list" where
  "start_invoke n st =
     (case inputs_of n of
        Inl e \<Rightarrow> Inl e
      | Inr vars \<Rightarrow>
          (case ws_inputs st of
             PDict given \<Rightarrow>
               (case start_outputs given vars [] of
                  Inl e \<Rightarrow> Inl e
                | Inr out \<Rightarrow> Inr [\<lparr>nr_node = n, nr_inputs = given, nr_outputs = out\<rparr>])
           | _ \<Rightarrow> Inl AttributeError))"

definition end_invoke :: "(pyval \<Rightarrow> exn + pyval) \<Rightarrow> node \<Rightarrow> wf_state \<Rightarrow> exn + node_result list" where
  "end_invoke to_float n st =
     (case outputs_of n of
        Inl e \<Rightarrow> Inl e
      | Inr vars \<Rightarrow>
          (case extract_variables_from_state to_float vars st of
             Inl e \<Rightarrow> Inl e
           | Inr out \<Rightarrow> Inr [\<lparr>nr_node = n, nr_inputs = [], nr_outputs = out\<rparr>]))"

definition variable_assigner_invoke :: "(pyval \<Rightarrow> exn + pyval) \<Rightarrow> node \<Rightarrow> wf_state
    \<Rightarrow> exn + node_result list" where
  "variable_assigner_invoke to_float n st =
     (case inputs_of n of
        Inl e \<Rightarrow> Inl e
      | Inr vars \<Rightarrow>
          (case extract_variables_from_state to_float vars st of
             Inl e \<Rightarrow> Inl e
           | Inr ins \<Rightarrow> Inr [\<lparr>nr_node = n, nr_inputs = ins, nr_outputs = ins\<rparr>]))"

section \<open>The condition node\<close>

datatype condition_operator =
    Equals | NotEquals | Contains | NotContains | StartsWith | EndsWith | IsEmpty | IsNotEmpty
  | GreaterThan | LessThan | GreaterEqual | LessEqual

datatype logical_operator = AndOp | OrOp

record condition =
  cond_variable :: string
  cond_operator :: condition_operator
  cond_compare :: string

text \<open>The values of \<^verbatim>\<open>float\<close> and the comparisons on them.\<close>

datatype flt = Fin rat | PosInf | NegInf | NaN

fun flt_less :: "flt \<Rightarrow> flt \<Rightarrow> bool" where
  "flt_less NaN _ = False"
| "flt_less _ NaN = False"
| "flt_less (Fin a) (Fin b) = (a < b)"
| "flt_less NegInf NegInf = False"
| "flt_less NegInf _ = True"
| "flt_less _ NegInf = False"
| "flt_less PosInf _ = False"
| "flt_less _ PosInf = True"

fun flt_eq :: "flt \<Rightarrow> flt \<Rightarrow> bool" where
  "flt_eq NaN _ = False"
| "flt_eq a b = (a = b)"

definition flt_le :: "flt \<Rightarrow> flt \<Rightarrow> bool" where
  "flt_le a b = (flt_less a b \<or> flt_eq a b)"

definition flt_of :: "(string \<Rightarrow> flt option) \<Rightarrow> string \<Rightarrow> flt option" where
  "flt_of float_of s = (if s = [] then Some (Fin 0) else float_of s)"

definition numeric_condition :: "condition_operator \<Rightarrow> flt \<Rightarrow> flt \<Rightarrow> bool" where
  "numeric_condition op a b =
     (case op of
        GreaterThan \<Rightarrow> flt_less b a
      | LessThan \<Rightarrow> flt_less a b
      | GreaterEqual \<Rightarrow> flt_le b a
      | LessEqual \<Rightarrow> flt_le a b
      | _ \<Rightarrow> False)"

definition evaluate_single_condition :: "(string \<Rightarrow> flt option) \<Rightarrow> pyval \<Rightarrow> condition_operator \<Rightarrow> string
    \<Rightarrow> bool" where
  "evaluate_single_condition float_of v op cmp =
     (let s = (if v = PNone then [] else py_str v) in
      case op of
        Equals \<Rightarrow> s = cmp
      | NotEquals \<Rightarrow> s \<noteq> cmp
      | Contains \<Rightarrow> contains s cmp
      | NotContains \<Rightarrow> \<not> contains s cmp
      | StartsWith \<Rightarrow> starts_with s cmp
      | EndsWith \<Rightarrow> ends_with s cmp
      | IsEmpty \<Rightarrow> strip s = []
      | IsNotEmpty \<Rightarrow> strip s \<noteq> []
      | _ \<Rightarrow>
          (case (flt_of float_of s, flt_of float_of cmp) of
             (Some a, Some b) \<Rightarrow> numeric_condition op a b
           | _ \<Rightarrow> False))"

definition evaluate_conditions :: "(string \<Rightarrow> flt option) \<Rightarrow> condition list \<Rightarrow> logical_operator \<Rightarrow> pyval dict
    \<Rightarrow> bool" where
  "evaluate_conditions float_of conds op ins =
     (if conds = [] then True
      else (let results = map (\<lambda>c. evaluate_single_condition float_of
                  (dget_or ins (cond_variable c) (PStr [])) (cond_operator c) (cond_compare c)) conds
            in if op = AndOp then list_all (\<lambda>b. b) results else list_ex (\<lambda>b. b) results))"

definition if_else_invoke :: "(pyval \<Rightarrow> exn + pyval) \<Rightarrow> (string \<Rightarrow> flt option) \<Rightarrow> condition list
    \<Rightarrow> logical_operator \<Rightarrow> node \<Rightarrow> wf_state \<Rightarrow> exn + node_result list" where
  "if_else_invoke to_float float_of conds op n st =
     (case inputs_of n of
        Inl e \<Rightarrow> Inl e
      | Inr vars \<Rightarrow>
          (case extract_variables_from_state to_float vars st of
             Inl e \<Rightarrow> Inl e
           | Inr ins \<Rightarrow>
               Inr [\<lparr>nr_node = n, nr_inputs = ins,
                     nr_outputs = dmerge [(''result'', PBool (evaluate_conditions float_of conds op ins))] ins\<rparr>]))"

section \<open>The parameter extractor\<close>

datatype extractor_mode = AutoMode | JsonMode | KvMode

text \<open>\<^verbatim>\<open>re.split(r"[&\n;,]+", text)\<close>.\<close>

definition kv_separator :: "char \<Rightarrow> bool" where
  "kv_separator c = (c = CHR ''&'' \<or> char_code c = 10 \<or> c = CHR '';'' \<or> c = CHR '','')"

fun split_seps :: "string \<Rightarrow> string \<Rightarrow> string list" where
  "split_seps cur [] = [cur]"
| "split_seps cur (c # s) =
     (if kv_separator c then
        (if s \<noteq> [] \<and> kv_separator (hd s) then split_seps cur s else cur # split_seps [] s)
      else split_seps (cur @ [c]) s)"

text \<open>\<^verbatim>\<open>s.strip(c)\<close> for one character.\<close>

definition strip_char :: "char \<Rightarrow> string \<Rightarrow> string" where
  "strip_char c s = rev (dropWhile (\<lambda>x. x = c) (rev (dropWhile (\<lambda>x. x = c) s)))"

definition clean_value :: "string \<Rightarrow> string" where
  "clean_value v = strip_char (CHR 0x27) (strip_char (CHR 0x22) (strip v))"

definition parse_segment :: "string \<Rightarrow> (string \<times> string) option" where
  "parse_segment seg =
     (let content = strip seg in
      if content = [] then None
      else if CHR ''='' \<in> set content then
        (case split_first (CHR ''='') content of
           (k, Some v) \<Rightarrow> Some (strip k, clean_value v) | (k, None) \<Rightarrow> None)
      else if CHR '':'' \<in> set content then
        (case split_first (CHR '':'') content of
           (k, Some v) \<Rightarrow> Some (strip k, clean_value v) | (k, None) \<Rightarrow> None)
      else None)"

fun parse_segments :: "string list \<Rightarrow> pyval dict \<Rightarrow> pyval dict" where
  "parse_segments [] m = m"
| "parse_segments (s # ss) m =
     (case parse_segment s of
        None \<Rightarrow> parse_segments ss m
      | Some (k, v) \<Rightarrow> parse_segments ss (dset k (PStr v) m))"

definition parse_key_value :: "string \<Rightarrow> pyval dict" where
  "parse_key_value text = parse_segments (split_seps [] text) []"

definition try_parse_json :: "(string \<Rightarrow> pyval option) \<Rightarrow> string \<Rightarrow> pyval dict" where
  "try_parse_json loads text = (case loads text of Some (PDict d) \<Rightarrow> d | _ \<Rightarrow> [])"

definition extract_mapping :: "(string \<Rightarrow> pyval option) \<Rightarrow> extractor_mode \<Rightarrow> string \<Rightarrow> exn + pyval dict" where
  "extract_mapping loads mode text =
     (case mode of
        KvMode \<Rightarrow> Inr (parse_key_value text)
      | JsonMode \<Rightarrow>
          (let m = try_parse_json loads text in
           if m \<noteq> [] then Inr m else Inl (FailError ''not a JSON object''))
      | AutoMode \<Rightarrow>
          (let m = try_parse_json loads text in
           if m \<noteq> [] then Inr m else Inr (parse_key_value text)))"

definition cast_variable_value :: "(pyval \<Rightarrow> exn + pyval) \<Rightarrow> pyval \<Rightarrow> variable_type \<Rightarrow> exn + pyval" where
  "cast_variable_value to_float raw t =
     (if t = BooleanV then
        (case raw of
           PBool b \<Rightarrow> Inr (PBool b)
         | PStr s \<Rightarrow>
             (let w = map lower_char (strip s) in
              if w \<in> {''true'', ''1'', ''yes'', ''y'', ''on''} then Inr (PBool True)
              else if w \<in> {''false'', ''0'', ''no'', ''n'', ''off''} then Inr (PBool False)
              else Inl (ValueError ''boolean''))
         | PInt n \<Rightarrow> Inr (PBool (n \<noteq> 0))
         | _ \<Rightarrow> Inl (ValueError ''boolean''))
      else cast to_float t raw)"

fun extract_outputs :: "(pyval \<Rightarrow> exn + pyval) \<Rightarrow> pyval dict \<Rightarrow> var_entity list \<Rightarrow> pyval dict
    \<Rightarrow> exn + pyval dict" where
  "extract_outputs to_float m [] acc = Inr acc"
| "extract_outputs to_float m (v # vs) acc =
     (let raw = opt_none (dget m (var_name v));
          default = variable_type_default (var_type v)
      in if raw = PNone then
           (if var_required v then Inl (FailError (var_name v))
            else extract_outputs to_float m vs (dset (var_name v) default acc))
         else (case cast_variable_value to_float raw (var_type v) of
             Inr x \<Rightarrow> extract_outputs to_float m vs (dset (var_name v) x acc)
           | Inl _ \<Rightarrow>
               if var_required v then Inl (FailError (var_name v))
               else extract_outputs to_float m vs (dset (var_name v) default acc)))"

definition parameter_extractor_invoke :: "(pyval \<Rightarrow> exn + pyval) \<Rightarrow> (string \<Rightarrow> pyval option)
    \<Rightarrow> extractor_mode \<Rightarrow> node \<Rightarrow> wf_state \<Rightarrow> exn + node_result list" where
  "parameter_extractor_invoke to_float loads mode n st =
     (case (inputs_of n, outputs_of n) of
        (Inr ins, Inr outs) \<Rightarrow>
          (case extract_variables_from_state to_float ins st of
             Inl e \<Rightarrow> Inl e
           | Inr given \<Rightarrow>
               (case ins of
                  [] \<Rightarrow> Inl IndexError
                | v # _ \<Rightarrow>
                    (case extract_mapping loads mode (py_str (dget_or given (var_name v) (PStr []))) of
                       Inl e \<Rightarrow> Inl e
                     | Inr m \<Rightarrow>
                         (case extract_outputs to_float m outs [] of
                            Inl e \<Rightarrow> Inl e
                          | Inr out \<Rightarrow> Inr [\<lparr>nr_node = n, nr_inputs = given, nr_outputs = out\<rparr>]))))
      | _ \<Rightarrow> Inl AttributeError)"

section \<open>The code node\<close>

text \<open>
  \<open>sandbox\<close> is the remote handle: \<open>None\<close> when none is configured, otherwise a call on the payload
  that answers with a value or raises.
\<close>

definition execute_function :: "(pyval \<Rightarrow> exn + pyval) option \<Rightarrow> string \<Rightarrow> pyval dict \<Rightarrow> exn + pyval" where
  "execute_function sandbox code params =
     (case sandbox of
        None \<Rightarrow> Inl (FailError ''sandbox not configured'')
      | Some call \<Rightarrow>
          (case call (PDict [(''code'', PStr code), (''func_name'', PStr ''main''),
               (''args'', PList [PDict params]), (''kwargs'', PDict [])]) of
             Inl (FailError m) \<Rightarrow> Inl (FailError m)
           | Inl _ \<Rightarrow> Inl (FailError ''code failed'')
           | Inr (PDict d) \<Rightarrow>
               (case dget d ''error'' of
                  Some _ \<Rightarrow> Inl (FailError ''code failed'')
                | None \<Rightarrow>
                    (case dget d ''result'' of
                       Some r \<Rightarrow> Inr r
                     | None \<Rightarrow> Inl (FailError ''bad answer'')))
           | Inr _ \<Rightarrow> Inl (FailError ''bad answer'')))"

fun code_outputs :: "pyval dict \<Rightarrow> var_entity list \<Rightarrow> pyval dict \<Rightarrow> pyval dict" where
  "code_outputs result [] acc = acc"
| "code_outputs result (v # vs) acc =
     code_outputs result vs
       (dset (var_name v) (dget_or result (var_name v) (variable_type_default (var_type v))) acc)"

definition code_invoke :: "(pyval \<Rightarrow> exn + pyval) \<Rightarrow> (pyval \<Rightarrow> exn + pyval) option \<Rightarrow> string \<Rightarrow> node
    \<Rightarrow> wf_state \<Rightarrow> exn + node_result list" where
  "code_invoke to_float sandbox code n st =
     (case (inputs_of n, outputs_of n) of
        (Inr ins, Inr outs) \<Rightarrow>
          (case extract_variables_from_state to_float ins st of
             Inl e \<Rightarrow> Inl e
           | Inr given \<Rightarrow>
               (case execute_function sandbox code given of
                  Inl e \<Rightarrow> Inl e
                | Inr (PDict result) \<Rightarrow>
                    Inr [\<lparr>nr_node = n, nr_inputs = given, nr_outputs = code_outputs result outs []\<rparr>]
                | Inr _ \<Rightarrow> Inl (FailError ''result must be a dict'')))
      | _ \<Rightarrow> Inl AttributeError)"

section \<open>Running a graph inside a node\<close>

text \<open>
  \<^verbatim>\<open>WorkflowConfig(**kwargs)\<close>: the validator on the keyword arguments, then the field the model
  requires.
\<close>

definition construct_config :: "(node_type \<Rightarrow> pyval dict \<Rightarrow> exn + node) \<Rightarrow> (pyval dict \<Rightarrow> exn + edge)
    \<Rightarrow> pyval dict \<Rightarrow> exn + workflow_config" where
  "construct_config mk_node mk_edge kwargs =
     (case validate_workflow_config mk_node mk_edge kwargs of
        Inl e \<Rightarrow> Inl e
      | Inr cfg \<Rightarrow>
          if dget kwargs ''account_id'' = None then Inl (ValueError ''account_id'') else Inr cfg)"

text \<open>The outputs of the finished end node, and of the last finished node.\<close>

fun end_outputs :: "event list \<Rightarrow> pyval dict \<Rightarrow> pyval dict" where
  "end_outputs [] acc = acc"
| "end_outputs (NodeFinished _ t _ _ out # evs) acc = end_outputs evs (if t = EndT then out else acc)"
| "end_outputs (_ # evs) acc = end_outputs evs acc"

fun last_outputs :: "event list \<Rightarrow> pyval dict \<Rightarrow> pyval dict" where
  "last_outputs [] acc = acc"
| "last_outputs (NodeFinished _ _ _ _ out # evs) acc = last_outputs evs out"
| "last_outputs (_ # evs) acc = last_outputs evs acc"

record iteration_data =
  it_iterator :: var_entity
  it_output_name :: string
  it_index_name :: string
  it_sub_nodes :: "pyval list"
  it_sub_edges :: "pyval list"

definition validate_variable_label :: "string \<Rightarrow> exn + string" where
  "validate_variable_label v = (if strip v = [] then Inl (ValidateError ''variable name'') else Inr (strip v))"

definition validate_sub_nodes :: "pyval list \<Rightarrow> exn + pyval list" where
  "validate_sub_nodes v = (if v = [] then Inl (ValidateError ''sub_nodes'') else Inr v)"

text \<open>
  One round of the loop.  Every exception is caught and gives the empty output.  \<open>exec\<close> is the
  executor built for the inner engine, with its own initial state \<open>own\<close>.
\<close>

definition execute_iteration_body :: "(node_type \<Rightarrow> pyval dict \<Rightarrow> exn + node) \<Rightarrow> (pyval dict \<Rightarrow> exn + edge)
    \<Rightarrow> 's executor \<Rightarrow> (string list \<Rightarrow> string list) \<Rightarrow> 's \<Rightarrow> iteration_data \<Rightarrow> pyval \<Rightarrow> nat \<Rightarrow> wf_state
    \<Rightarrow> pyval dict" where
  "execute_iteration_body mk_node mk_edge exec sched own d item index st =
     (if it_sub_nodes d = [] then []
      else (case construct_config mk_node mk_edge
                [(''nodes'', PList (it_sub_nodes d)), (''edges'', PList (it_sub_edges d))] of
          Inl _ \<Rightarrow> []
        | Inr cfg \<Rightarrow>
            (let own_inputs = dset (it_index_name d) (PInt (int index)) [(it_output_name d, item)];
                 sys_inputs = (case ws_inputs st of PDict p \<Rightarrow> dmerge own_inputs p | _ \<Rightarrow> own_inputs);
                 pool = set_system_variable ''inputs'' (PDict sys_inputs) new_pool
             in case execute exec sched (new_engine cfg) sys_inputs pool own of
                  (Some _, _) \<Rightarrow> []
                | (None, run) \<Rightarrow>
                    (let out = end_outputs (run_trace run) [] in
                     if out \<noteq> [] then out else last_outputs (run_trace run) []))))"

definition iteration_invoke :: "(node_type \<Rightarrow> pyval dict \<Rightarrow> exn + node) \<Rightarrow> (pyval dict \<Rightarrow> exn + edge)
    \<Rightarrow> 's executor \<Rightarrow> (string list \<Rightarrow> string list) \<Rightarrow> 's \<Rightarrow> iteration_data \<Rightarrow> node \<Rightarrow> wf_state
    \<Rightarrow> exn + node_result list" where
  "iteration_invoke mk_node mk_edge exec sched own d n st =
     (case resolve_variable (it_iterator d) st of
        Inl e \<Rightarrow> Inl e
      | Inr (PList items) \<Rightarrow>
          Inr [\<lparr>nr_node = n,
                nr_inputs = [(''iterator'', PList items), (''count'', PInt (int (length items)))],
                nr_outputs =
                  dset (it_index_name d) (PList (map (\<lambda>i. PInt (int i)) [0..<length items]))
                    (dset (it_output_name d) (PList items)
                      [(''result'', PList (map (\<lambda>(i, x).
                          PDict (execute_iteration_body mk_node mk_edge exec sched own d x i st))
                        (enumerate 0 items)))])\<rparr>]
      | Inr _ \<Rightarrow> Inl (FailError ''iterator must be a list''))"

text \<open>
  The sub-workflow node.  \<open>graph\<close> is what the database holds for the workflow: \<open>None\<close> when there is
  no such row.
\<close>

definition empty_outputs :: "var_entity list \<Rightarrow> pyval dict" where
  "empty_outputs outs = fold (\<lambda>v d. dset (var_name v) PNone d) outs []"

definition execute_sub_workflow :: "(node_type \<Rightarrow> pyval dict \<Rightarrow> exn + node) \<Rightarrow> (pyval dict \<Rightarrow> exn + edge)
    \<Rightarrow> 's executor \<Rightarrow> (string list \<Rightarrow> string list) \<Rightarrow> 's \<Rightarrow> pyval option \<Rightarrow> var_entity list \<Rightarrow> pyval dict
    \<Rightarrow> pyval dict" where
  "execute_sub_workflow mk_node mk_edge exec sched own graph outs inputs =
     (case graph of
        None \<Rightarrow> empty_outputs outs
      | Some g \<Rightarrow>
          if \<not> truthy g then empty_outputs outs
          else (let gd = (case g of PDict d \<Rightarrow> d | _ \<Rightarrow> []);
                    nodes = dget_or gd ''nodes'' (PList []);
                    edges = dget_or gd ''edges'' (PList [])
                in if \<not> truthy nodes then empty_outputs outs
                   else (case construct_config mk_node mk_edge [(''nodes'', nodes), (''edges'', edges)] of
                       Inl _ \<Rightarrow> empty_outputs outs
                     | Inr cfg \<Rightarrow>
                         (case execute exec sched (new_engine cfg) inputs new_pool own of
                            (Some _, _) \<Rightarrow> empty_outputs outs
                          | (None, run) \<Rightarrow>
                              fold (\<lambda>v d. dset (var_name v)
                                  (opt_none (dget (end_outputs (run_trace run) []) (var_name v))) d) outs []))))"

fun resolve_all :: "var_entity list \<Rightarrow> wf_state \<Rightarrow> pyval dict \<Rightarrow> exn + pyval dict" where
  "resolve_all [] st acc = Inr acc"
| "resolve_all (v # vs) st acc =
     (case resolve_variable v st of
        Inl e \<Rightarrow> Inl e
      | Inr x \<Rightarrow> resolve_all vs st (dset (var_name v) x acc))"

definition sub_workflow_invoke :: "(node_type \<Rightarrow> pyval dict \<Rightarrow> exn + node) \<Rightarrow> (pyval dict \<Rightarrow> exn + edge)
    \<Rightarrow> 's executor \<Rightarrow> (string list \<Rightarrow> string list) \<Rightarrow> 's \<Rightarrow> string option \<Rightarrow> pyval option \<Rightarrow> node
    \<Rightarrow> wf_state \<Rightarrow> exn + node_result list" where
  "sub_workflow_invoke mk_node mk_edge exec sched own workflow_id graph n st =
     (if workflow_id = None then Inl (FailError ''workflow_id'')
      else (case (inputs_of n, outputs_of n) of
          (Inr ins, Inr outs) \<Rightarrow>
            (case resolve_all ins st [] of
               Inl e \<Rightarrow> Inl e
             | Inr given \<Rightarrow>
                 Inr [\<lparr>nr_node = n, nr_inputs = given,
                       nr_outputs = execute_sub_workflow mk_node mk_edge exec sched own graph outs given\<rparr>])
        | _ \<Rightarrow> Inl AttributeError))"

section \<open>The adapters\<close>

text \<open>
  \<^verbatim>\<open>RealNodeExecutor.__call__\<close>: its own state is the list of results so far; \<open>invoke\<close> is the
  node's method.  The outputs are also stored under the node type.
\<close>

definition build_state_from_pool :: "var_pool \<Rightarrow> node_result list \<Rightarrow> wf_state" where
  "build_state_from_pool pool acc =
     (let v = get_system_variable pool ''inputs'' in
      \<lparr>ws_inputs = (if truthy v then v else PDict []), ws_results = acc\<rparr>)"

definition real_node_executor :: "(node \<Rightarrow> wf_state \<Rightarrow> var_pool \<Rightarrow> exn + node_result list)
    \<Rightarrow> node_result list executor" where
  "real_node_executor invoke n s =
     (case s of (pool, acc) \<Rightarrow>
       (case invoke n (build_state_from_pool pool acc) pool of
          Inl e \<Rightarrow> (Inl e, (pool, acc))
        | Inr results \<Rightarrow>
            (if results = [] then (Inr (Some []), (pool, acc))
             else (let out = nr_outputs (last results) in
                   (Inr (Some out),
                    (set_node_output (node_type_value (node_ty n)) out pool, acc @ results))))))"

text \<open>\<^verbatim>\<open>WorkflowToolAdapter\<close>: the argument schema, the end node's outputs, the run.\<close>

definition args_schema :: "workflow_config \<Rightarrow> (string \<times> (variable_type \<times> bool \<times> string)) list" where
  "args_schema cfg =
     (case find (\<lambda>n. node_ty n = StartT) (wf_nodes cfg) of
        None \<Rightarrow> []
      | Some n \<Rightarrow>
          fold (\<lambda>v d. dset (var_name v) (var_type v, var_required v, var_description v) d)
            (inputs_field n) [])"

definition extract_end_outputs :: "workflow_config \<Rightarrow> var_pool \<Rightarrow> pyval dict" where
  "extract_end_outputs cfg pool =
     (case find (\<lambda>n. node_ty n = EndT) (wf_nodes cfg) of
        None \<Rightarrow> []
      | Some n \<Rightarrow> (case get_node_output pool (node_id n) None of PDict d \<Rightarrow> d | _ \<Rightarrow> []))"

definition tool_run :: "(node \<Rightarrow> wf_state \<Rightarrow> var_pool \<Rightarrow> exn + node_result list)
    \<Rightarrow> (string list \<Rightarrow> string list) \<Rightarrow> workflow_config \<Rightarrow> pyval dict \<Rightarrow> exn + pyval dict" where
  "tool_run invoke sched cfg kwargs =
     (case execute (real_node_executor invoke) sched (new_engine cfg) kwargs new_pool [] of
        (Some e, _) \<Rightarrow> Inl e
      | (None, run) \<Rightarrow> Inr (extract_end_outputs cfg (run_pool run)))"

definition tool_stream :: "(node \<Rightarrow> wf_state \<Rightarrow> var_pool \<Rightarrow> exn + node_result list)
    \<Rightarrow> (string list \<Rightarrow> string list) \<Rightarrow> workflow_config \<Rightarrow> pyval \<Rightarrow> event list \<times> exn option" where
  "tool_stream invoke sched cfg inp =
     (let inputs = (case inp of PDict d \<Rightarrow> d | _ \<Rightarrow> []) in
      case execute (real_node_executor invoke) sched (new_engine cfg) inputs new_pool [] of
        (err, run) \<Rightarrow> (run_trace run, err))"

end
