(* ===== verification/Engine_Facts.thy ===== *)
theory Engine_Facts
  imports Graph_Engine "HOL-Library.Multiset"
begin

text \<open>
  What a run of the graph engine does: the layers are a topological order, every node ends in
  exactly one terminal event, nothing starts before its dependencies finished, failures spread
  exactly along the edges, and the asynchronous engine and the thread-pool engine agree.
\<close>

section \<open>Well-formed engines and their layers\<close>

definition engine_ok :: "engine \<Rightarrow> bool" where
  "engine_ok e =
     (keyed node_id (eng_node_map e) \<and>
      source ` set (eng_edges e) \<subseteq> set (dkeys (eng_node_map e)) \<and>
      target ` set (eng_edges e) \<subseteq> set (dkeys (eng_node_map e)) \<and>
      build_graph (eng_node_map e) (eng_edges e) = (eng_adj_list e, eng_in_degree e))"

abbreviation eng_rel :: "engine \<Rightarrow> (string \<times> string) set" where
  "eng_rel e \<equiv> set (edge_pairs (eng_edges e))"

lemma fold_node_map:
  "distinct (dkeys d @ map node_id ns) \<Longrightarrow> fold (\<lambda>n d. dset (node_id n) n d) ns d = d @ node_dict ns"
proof (induction ns arbitrary: d)
  case (Cons n ns)
  then have "node_id n \<notin> set (dkeys d)" by auto
  then have "dset (node_id n) n d = d @ [(node_id n, n)]" by (rule dset_new)
  with Cons show ?case by simp
qed simp

lemma new_engine_ok:
  assumes "nodes_ok (wf_nodes cfg)" and "edges_ok (node_dict (wf_nodes cfg)) (wf_edges cfg)"
  shows "engine_ok (new_engine cfg)" and "eng_node_map (new_engine cfg) = node_dict (wf_nodes cfg)"
    and "eng_edges (new_engine cfg) = wf_edges cfg"
proof -
  have dist: "distinct (map node_id (wf_nodes cfg))"
    using assms(1) by (simp add: nodes_ok_def)
  show nm: "eng_node_map (new_engine cfg) = node_dict (wf_nodes cfg)"
    and es: "eng_edges (new_engine cfg) = wf_edges cfg"
    using fold_node_map [of "[]" "wf_nodes cfg"] dist by (simp_all add: new_engine_def Let_def split: prod.split)
  have keys: "set (dkeys (node_dict (wf_nodes cfg))) = node_id ` set (wf_nodes cfg)" by force
  have "build_graph (node_dict (wf_nodes cfg)) (wf_edges cfg) =
      (eng_adj_list (new_engine cfg), eng_in_degree (new_engine cfg))"
    using fold_node_map [of "[]" "wf_nodes cfg"] dist by (simp add: new_engine_def Let_def split: prod.split)
  with edges_ok_ends [OF assms(2)] keyed_node_dict [OF dist] show "engine_ok (new_engine cfg)"
    by (simp add: engine_ok_def nm es)
qed

lemma dkeys_zero [simp]: "dkeys (map (\<lambda>(k, n). (k, 0)) d) = dkeys d"
  by (simp add: comp_def case_prod_beta)

lemma deg_of_zero [simp]: "deg_of (map (\<lambda>(k, n). (k, 0)) d) v = 0"
  by (induction d) (auto simp: deg_of_def dget_or_def)

lemma deg_of_mem: "distinct (dkeys deg) \<Longrightarrow> (k, d) \<in> set deg \<Longrightarrow> deg_of deg k = d"
  by (simp add: deg_of_def dget_or_def)

lemma keys_filter_zero:
  assumes "distinct (dkeys deg)"
  shows "distinct (map fst (filter (\<lambda>(k, d). d = 0) deg))"
    and "set (map fst (filter (\<lambda>(k, d). d = 0) deg)) = {k \<in> set (dkeys deg). deg_of deg k = 0}"
proof -
  show "distinct (map fst (filter (\<lambda>(k, d). d = 0) deg))"
    using assms by (simp add: distinct_map_filter)
  show "set (map fst (filter (\<lambda>(k, d). d = 0) deg)) = {k \<in> set (dkeys deg). deg_of deg k = 0}"
    using deg_of_mem [OF assms] by (force simp: image_iff)
qed

lemma layers_facts:
  assumes "engine_ok e"
  defines "layers \<equiv> kahn_layers (eng_adj_list e) (eng_in_degree e)
    (map fst (filter (\<lambda>(k, d). d = 0) (eng_in_degree e)))"
  shows "distinct (concat layers)" and "set (concat layers) \<subseteq> set (dkeys (eng_node_map e))"
    and "layered (edge_pairs (eng_edges e)) [] layers"
    and "length (concat layers) = length (eng_node_map e) \<longleftrightarrow> acyclic (eng_rel e)"
    and "acyclic (eng_rel e) \<Longrightarrow> set (concat layers) = set (dkeys (eng_node_map e))"
proof -
  let ?E = "edge_pairs (eng_edges e)" and ?V = "dkeys (eng_node_map e)" and ?D = "eng_in_degree e"
  from assms(1) have adj: "eng_adj_list e = add_edges ?E []"
    and deg: "?D = count_up (map target (eng_edges e)) (map (\<lambda>(k, n). (k, 0)) (eng_node_map e))"
    and dist: "distinct ?V" and src: "source ` set (eng_edges e) \<subseteq> set ?V"
    and tgt: "target ` set (eng_edges e) \<subseteq> set ?V"
    by (simp_all add: engine_ok_def build_graph_def keyed_def)
  have nodes: "graph_nodes ?V ?E = set ?V"
    using tgt by (auto simp: graph_nodes_def image_image)
  have count: "count_list (map target (eng_edges e)) v = indeg ?E [] v" for v
    by (induction "eng_edges e") (auto simp: indeg_def filter_map comp_def count_list_eq_length_filter eq_commute)
  have degs: "deg_of ?D v = int (indeg ?E [] v)" for v
    by (simp only: deg deg_of_count_up count) simp
  have keys: "set (dkeys ?D) = set ?V"
    using tgt keys_count_up [of "map target (eng_edges e)" "map (\<lambda>(k, n). (k, 0::int)) (eng_node_map e)"]
    by (simp add: deg image_image case_prod_beta) blast
  have dD: "distinct (dkeys ?D)"
    unfolding deg by (rule distinct_count_up) (simp only: dkeys_zero dist)
  let ?cur = "map fst (filter (\<lambda>(k, d). d = 0) ?D)"
  have "kahn_inv ?V ?E [] ?cur ?D"
    unfolding kahn_inv_def nodes
    using keys_filter_zero [OF dD] keys degs by (simp del: set_map)
  from kahn_layers_inv [OF this, of "eng_adj_list e"] adj
  obtain deg' where inv: "kahn_inv ?V ?E (concat layers) [] deg'"
    and lay: "layered ?E [] layers"
    by (auto simp: layers_def adj_get_add_edges)
  have ends: "fst ` set ?E \<subseteq> graph_nodes ?V ?E"
    using src nodes by (auto simp: image_image)
  show "distinct (concat layers)" "set (concat layers) \<subseteq> set ?V" "layered ?E [] layers"
    using kahn_end [OF inv ends] nodes lay by simp_all
  show "length (concat layers) = length (eng_node_map e) \<longleftrightarrow> acyclic (eng_rel e)"
    using kahn_end_length [OF inv ends] nodes distinct_card [OF dist] by simp
  show "acyclic (eng_rel e) \<Longrightarrow> set (concat layers) = set ?V"
    using kahn_end(1) [OF inv ends] nodes by simp
qed

lemma topological_layers_acyclic:
  assumes "engine_ok e" and "acyclic (eng_rel e)"
  obtains layers where "topological_layers e = Inr layers" "distinct (concat layers)"
    "set (concat layers) = set (dkeys (eng_node_map e))"
    "layered (edge_pairs (eng_edges e)) [] layers"
proof
  let ?L = "kahn_layers (eng_adj_list e) (eng_in_degree e)
    (map fst (filter (\<lambda>(k, d). d = 0) (eng_in_degree e)))"
  note f = layers_facts [OF assms(1)]
  show "topological_layers e = Inr ?L"
    using f(4) assms(2) by (simp add: topological_layers_def Let_def)
  show "distinct (concat ?L)" "layered (edge_pairs (eng_edges e)) [] ?L" by (rule f)+
  show "set (concat ?L) = set (dkeys (eng_node_map e))" using f(5) assms(2) .
qed

lemma topological_layers_cyclic:
  assumes "engine_ok e" and "\<not> acyclic (eng_rel e)"
  shows "topological_layers e = Inl (ValueError ''cycle'')"
  using layers_facts(4) [OF assms(1)] assms(2) by (simp add: topological_layers_def Let_def)

section \<open>The asynchronous engine\<close>

text \<open>An asynchronous executor as the function the thread-pool engine would call.\<close>

fun sync_of :: "'s async_executor \<Rightarrow> 's executor" where
  "sync_of (PlainFun exec) = exec"
| "sync_of (Coroutine call) = (\<lambda>n. await_call (call n))"

lemma execute_node_async_eq: "execute_node_async x n = execute_node (sync_of x) n"
  by (cases x) (auto simp: execute_node_def execute_with_retry_async_eq)

lemma execute_node_safe_async_eq: "execute_node_safe_async x n = execute_node_safe (sync_of x) n"
  by (rule ext) (simp add: execute_node_safe_async_def execute_node_safe_def execute_node_async_eq)

lemma run_pooled_tasks:
  assumes "set ids \<subseteq> set (dkeys (eng_node_map e))"
  shows "run_pooled (sync_of x) e ids results st =
    (case run_tasks x e ids st of (ocs, st') \<Rightarrow> (dmerge results ocs, st'))"
  using assms
proof (induction ids arbitrary: results st)
  case (Cons i ids)
  then have "i \<in> set (dkeys (eng_node_map e))" by simp
  then obtain n where "dget (eng_node_map e) i = Some n"
    using dget_Some_iff by metis
  with Cons show ?case
    by (auto simp: execute_node_safe_async_eq split: prod.split)
qed simp

lemma dkeys_run_tasks: "run_tasks x e ids st = (ocs, st') \<Longrightarrow> dkeys ocs = ids"
  by (induction ids arbitrary: st ocs st') (auto split: prod.splits)

lemma dget_dmerge_Nil: "distinct (dkeys d) \<Longrightarrow> dget (dmerge [] d) k = dget d k"
proof -
  assume "distinct (dkeys d)"
  then have "dget (rev d) = dget d"
    by (intro map_of_inject_set [THEN iffD2]) (simp_all add: rev_map [symmetric])
  then show ?thesis by (simp add: dget_dmerge split: option.split)
qed

lemma finish_events_cong:
  "(\<And>i. i \<in> set ids \<Longrightarrow> dget_or results i (None, None) = dget_or results' i (None, None)) \<Longrightarrow>
     finish_events e results ids st = finish_events e results' ids st"
  by (induction ids arbitrary: st) (auto split: option.split sum.split)

definition permutes_ids :: "(string list \<Rightarrow> string list) \<Rightarrow> bool" where
  "permutes_ids sched = (\<forall>ids. distinct ids \<longrightarrow> distinct (sched ids) \<and> set (sched ids) = set ids)"

lemma dget_zip_map: "dget (zip ids (map f ids)) i = (if i \<in> set ids then Some (f i) else None)"
  by (induction ids) auto

lemma parallel_layer_async_eq:
  assumes "permutes_ids sched" and "distinct ids" and "set ids \<subseteq> set (dkeys (eng_node_map e))"
  shows "parallel_layer_async x sched e ids st = parallel_layer (sync_of x) sched e ids st"
proof -
  from assms have sched: "distinct (sched ids)" "set (sched ids) \<subseteq> set (dkeys (eng_node_map e))"
    by (auto simp: permutes_ids_def)
  have "finish_events e (zip ids (map (\<lambda>i. dget_or ocs i (None, None)) ids)) ids st2 =
      finish_events e (dmerge [] ocs) ids st2"
    if "run_tasks x e (sched ids) st1 = (ocs, st2)" for st1 ocs st2
    using dkeys_run_tasks [OF that] sched(1)
    by (intro finish_events_cong) (simp add: dget_or_def dget_zip_map dget_dmerge_Nil)
  then show ?thesis
    by (auto simp: parallel_layer_async_def parallel_layer_def gather_def
        run_pooled_tasks [OF sched(2)] split: prod.split option.split)
qed

lemma execute_single_node_async_eq: "execute_single_node_async x = execute_single_node (sync_of x)"
  by (intro ext)
    (simp only: execute_single_node_async_def execute_single_node_def execute_node_async_eq)

section \<open>Reading a trace\<close>

fun ev_started :: "event \<Rightarrow> string list" where
  "ev_started (NodeStarted i _ _ _) = [i]"
| "ev_started _ = []"

fun ev_finished :: "event \<Rightarrow> string list" where
  "ev_finished (NodeFinished i _ _ _ _) = [i]"
| "ev_finished _ = []"

fun ev_failed :: "event \<Rightarrow> string list" where
  "ev_failed (NodeFailed i _ _ _ _) = [i]"
| "ev_failed _ = []"

fun ev_skipped :: "event \<Rightarrow> string list" where
  "ev_skipped (NodeSkipped i _ _) = [i]"
| "ev_skipped _ = []"

definition started_ids :: "event list \<Rightarrow> string list" where
  "started_ids tr = concat (map ev_started tr)"

definition finished_ids :: "event list \<Rightarrow> string list" where
  "finished_ids tr = concat (map ev_finished tr)"

definition failed_ids :: "event list \<Rightarrow> string list" where
  "failed_ids tr = concat (map ev_failed tr)"

definition skipped_ids :: "event list \<Rightarrow> string list" where
  "skipped_ids tr = concat (map ev_skipped tr)"

lemmas ids_defs = started_ids_def finished_ids_def failed_ids_def skipped_ids_def

lemma ids_append [simp]:
  "started_ids (a @ b) = started_ids a @ started_ids b"
  "finished_ids (a @ b) = finished_ids a @ finished_ids b"
  "failed_ids (a @ b) = failed_ids a @ failed_ids b"
  "skipped_ids (a @ b) = skipped_ids a @ skipped_ids b"
  by (simp_all add: ids_defs)

lemma ids_Cons [simp]:
  "started_ids (x # b) = ev_started x @ started_ids b"
  "finished_ids (x # b) = ev_finished x @ finished_ids b"
  "failed_ids (x # b) = ev_failed x @ failed_ids b"
  "skipped_ids (x # b) = ev_skipped x @ skipped_ids b"
  by (simp_all add: ids_defs)

lemma ids_Nil [simp]:
  "started_ids [] = []" "finished_ids [] = []" "failed_ids [] = []" "skipped_ids [] = []"
  by (simp_all add: ids_defs)

text \<open>A stretch of the run: the events it adds and the counters it moves accordingly.\<close>

definition adds :: "event list \<Rightarrow> 's run \<Rightarrow> 's run \<Rightarrow> bool" where
  "adds evs st st' =
     (run_trace st' = run_trace st @ evs \<and>
      run_failed st' = run_failed st \<union> set (failed_ids evs @ skipped_ids evs) \<and>
      run_executed st' = run_executed st + length (finished_ids evs) \<and>
      run_failures st' = run_failures st + length (failed_ids evs @ skipped_ids evs))"

lemma adds_refl [simp]: "adds [] st st"
  by (simp add: adds_def)

lemma adds_trans: "adds a st st1 \<Longrightarrow> adds b st1 st2 \<Longrightarrow> adds (a @ b) st st2"
  by (auto simp: adds_def)

text \<open>The variable that the run keeps for generated inputs.\<close>

definition sys_in :: "var_pool \<Rightarrow> pyval option" where
  "sys_in p = dget (system_variables p) ''inputs''"

lemma sys_in_node_output [simp]: "sys_in (set_node_output i out p) = sys_in p"
  by (simp add: sys_in_def)

definition blocked :: "engine \<Rightarrow> string set \<Rightarrow> string \<Rightarrow> bool" where
  "blocked e F i = (\<exists>d \<in> set (get_dependencies e i). d \<in> F)"

lemma set_get_dependencies [simp]: "set (get_dependencies e i) = {s. (s, i) \<in> eng_rel e}"
  by (auto simp: get_dependencies_def rev_image_eqI)

lemma in_keys: "i \<in> set (dkeys (eng_node_map e)) \<Longrightarrow> \<exists>n. dget (eng_node_map e) i = Some n"
  by (metis dget_Some_iff)

lemma filter_layer_spec:
  assumes "\<forall>i \<in> L. \<forall>d. (d, i) \<in> eng_rel e \<longrightarrow> d \<notin> L"
    and "set ids \<subseteq> L" and "L \<subseteq> set (dkeys (eng_node_map e))"
  shows "\<exists>evs st'. filter_layer e ids exe st =
      (None, exe @ filter (\<lambda>i. \<not> blocked e (run_failed st) i) ids, st') \<and> adds evs st st' \<and>
      skipped_ids evs = filter (blocked e (run_failed st)) ids \<and> started_ids evs = [] \<and>
      finished_ids evs = [] \<and> failed_ids evs = [] \<and> run_pool st' = run_pool st"
  using assms(2)
proof (induction ids arbitrary: exe st)
  case (Cons i ids)
  then have i: "i \<in> L" by simp
  with assms(3) in_keys [of i e] obtain n where n: "dget (eng_node_map e) i = Some n" by auto
  show ?case
  proof (cases "blocked e (run_failed st) i")
    case True
    let ?ev = "NodeSkipped i (node_ty n) (title n)"
    let ?st1 = "mark_failed i (emit ?ev st)"
    have same: "blocked e (run_failed ?st1) j = blocked e (run_failed st) j" if "j \<in> L" for j
      using assms(1) that i by (auto simp: blocked_def mark_failed_def emit_def)
    have filt: "filter (\<lambda>j. \<not> blocked e (run_failed ?st1) j) ids = filter (\<lambda>j. \<not> blocked e (run_failed st) j) ids"
      "filter (blocked e (run_failed ?st1)) ids = filter (blocked e (run_failed st)) ids"
      using same Cons.prems by (auto intro!: filter_cong)
    from Cons.IH [of exe ?st1] Cons.prems filt obtain evs st' where
      r: "filter_layer e ids exe ?st1 = (None, exe @ filter (\<lambda>i. \<not> blocked e (run_failed st) i) ids, st')"
      "adds evs ?st1 st'" "skipped_ids evs = filter (blocked e (run_failed st)) ids"
      "started_ids evs = []" "finished_ids evs = []" "failed_ids evs = []" "run_pool st' = run_pool ?st1"
      by auto
    have "adds [?ev] st ?st1" by (simp add: adds_def mark_failed_def emit_def)
    from adds_trans [OF this r(2)] r True n show ?thesis
      by (intro exI [of _ "?ev # evs"] exI [of _ st'])
        (simp add: blocked_def [of e "run_failed st" i] mark_failed_def emit_def)
  next
    case False
    from Cons.IH [of "exe @ [i]" st] Cons.prems n False show ?thesis
      by (simp add: blocked_def [of e "run_failed st" i])
  qed
qed (auto intro: exI [of _ "[]"])

section \<open>Building inputs does not raise\<close>

text \<open>
  A node whose class declares the variables that are read and whose references are reference
  objects; the run keeps a dictionary under \<open>inputs\<close>.
\<close>

definition var_static_ok :: "var_entity \<Rightarrow> bool" where
  "var_static_ok v =
     (var_value_type v = RefVT \<longrightarrow> (case var_content v of ContentRef _ _ \<Rightarrow> True | _ \<Rightarrow> False))"

definition static_ok :: "node \<Rightarrow> bool" where
  "static_ok n =
     (case input_vars n of
        Inl _ \<Rightarrow> False | Inr vars \<Rightarrow> list_all var_static_ok vars)"

definition has_inputs_dict :: "var_pool \<Rightarrow> bool" where
  "has_inputs_dict p = (case sys_in p of Some (PDict _) \<Rightarrow> True | _ \<Rightarrow> False)"

lemma has_inputs_dict_cong: "sys_in p' = sys_in p \<Longrightarrow> has_inputs_dict p' = has_inputs_dict p"
  by (simp add: has_inputs_dict_def)

lemma resolve_input_ok:
  "var_static_ok v \<Longrightarrow> has_inputs_dict p \<Longrightarrow> \<exists>x. resolve_input p v = Inr x"
  by (auto simp: var_static_ok_def resolve_input_def has_inputs_dict_def sys_in_def
      get_system_variable_def Let_def split: value_type.split content.splits option.splits pyval.splits)

lemma resolve_inputs_ok:
  "list_all var_static_ok vs \<Longrightarrow> has_inputs_dict p \<Longrightarrow> \<exists>d. resolve_inputs p vs acc = Inr d"
proof (induction vs arbitrary: acc)
  case (Cons v vs)
  with resolve_input_ok [of v p] show ?case by auto
qed simp

lemma build_node_inputs_ok:
  "static_ok n \<Longrightarrow> has_inputs_dict p \<Longrightarrow> \<exists>d. build_node_inputs p n = Inr d"
  by (auto simp: static_ok_def build_node_inputs_def intro: resolve_inputs_ok split: sum.splits)

text \<open>Executors that leave the run's inputs alone, and that this survives retries.\<close>

definition keeps_inputs :: "'s executor \<Rightarrow> bool" where
  "keeps_inputs exec = (\<forall>n p x. sys_in (fst (snd (exec n (p, x)))) = sys_in p)"

lemma retry_loop_keeps:
  assumes "\<And>s. I (snd (f s)) = I s"
  shows "I (snd (snd (retry_loop f i m a n l sl s))) = I s"
proof (induction n arbitrary: a l sl s)
  case (Suc n)
  have "I (snd (f s)) = I s" by (rule assms)
  then show ?case using Suc.IH by (auto split: prod.splits sum.splits)
qed simp

lemma execute_node_keeps:
  assumes "keeps_inputs exec"
  shows "keeps_inputs (execute_node exec)"
proof -
  have "sys_in (fst (snd (exec n s))) = sys_in (fst s)" for n s
    using assms by (cases s) (simp add: keeps_inputs_def)
  then have retry: "sys_in (fst (snd (snd (execute_with_retry (exec n) c s)))) = sys_in (fst s)" for n c s
    unfolding execute_with_retry_def by (intro retry_loop_keeps [of "\<lambda>s. sys_in (fst s)"])
  show ?thesis
    unfolding keeps_inputs_def
  proof (intro allI)
    fix n p x
    show "sys_in (fst (snd (execute_node exec n (p, x)))) = sys_in p"
      using retry [of n "node_retry n" "(p, x)"]
      by (auto simp: execute_node_def split: prod.splits sum.splits)
  qed
qed

lemma in_run_frame:
  assumes "in_run act st = (r, st')"
  shows "adds [] st st'"
  using assms by (auto simp: in_run_def adds_def split: prod.splits)

lemma in_run_keeps:
  assumes "keeps_inputs exec" and "in_run (execute_node exec n) st = (r, st')"
  shows "sys_in (run_pool st') = sys_in (run_pool st)"
  using execute_node_keeps [OF assms(1)] assms(2)
  by (auto simp: in_run_def keeps_inputs_def split: prod.splits) (metis fst_conv snd_conv)

section \<open>One layer\<close>

lemma emit_adds:
  "adds [NodeStarted i t ti inp] st (emit (NodeStarted i t ti inp) st)"
  by (simp add: adds_def emit_def)

lemma emit_pool [simp]:
  "run_pool (emit ev st) = run_pool st" "run_pool (mark_failed i st) = run_pool st"
  "run_pool (mark_executed st) = run_pool st"
  by (simp_all add: emit_def mark_failed_def mark_executed_def)

lemma start_events_spec:
  assumes "\<And>i. i \<in> set ids \<Longrightarrow> \<exists>n. dget (eng_node_map e) i = Some n \<and> static_ok n"
    and "has_inputs_dict (run_pool st)"
  shows "\<exists>evs st'. start_events e ids st = (None, st') \<and> adds evs st st' \<and> started_ids evs = ids \<and>
    finished_ids evs = [] \<and> failed_ids evs = [] \<and> skipped_ids evs = [] \<and> run_pool st' = run_pool st"
  using assms
proof (induction ids arbitrary: st)
  case Nil
  show ?case by (auto intro: exI [of _ "[]"])
next
  case (Cons i ids)
  obtain n where n: "dget (eng_node_map e) i = Some n" "static_ok n"
    using Cons.prems(1) [of i] by auto
  from build_node_inputs_ok [OF n(2) Cons.prems(2)] obtain inp where
    inp: "build_node_inputs (run_pool st) n = Inr inp" by blast
  let ?ev = "NodeStarted i (node_ty n) (title n) inp"
  from Cons.IH [of "emit ?ev st"] Cons.prems obtain evs st' where
    r: "start_events e ids (emit ?ev st) = (None, st')" "adds evs (emit ?ev st) st'"
    "started_ids evs = ids" "finished_ids evs = []" "failed_ids evs = []" "skipped_ids evs = []"
    "run_pool st' = run_pool st"
    by auto
  from adds_trans [OF emit_adds r(2)] n inp r show ?case
    by (intro exI [of _ "?ev # evs"] exI [of _ st']) simp
qed

lemma run_pooled_frame:
  assumes "keeps_inputs exec" and "run_pooled exec e ids results st = (results', st')"
  shows "adds [] st st' \<and> sys_in (run_pool st') = sys_in (run_pool st)"
  using assms(2)
proof (induction ids arbitrary: results st)
  case (Cons i ids)
  have step: "adds [] st st1 \<and> sys_in (run_pool st1) = sys_in (run_pool st)"
    if "execute_node_safe exec n st = (oc, st1)" for n oc st1
    using that in_run_frame in_run_keeps [OF assms(1)]
    by (auto simp: execute_node_safe_def split: prod.splits sum.splits)
  show ?case
  proof (cases "dget (eng_node_map e) i")
    case None
    with Cons show ?thesis by auto
  next
    case (Some n)
    obtain oc st1 where r: "execute_node_safe exec n st = (oc, st1)"
      by (cases "execute_node_safe exec n st")
    with Cons.prems Some Cons.IH [of "dset i oc results" st1] step [OF r] adds_trans show ?thesis
      by fastforce
  qed
qed simp

lemma finish_event_adds:
  "\<exists>ev. adds [ev] st (finish_event n i inp oc st) \<and> ev_finished ev @ ev_failed ev = [i] \<and>
     ev_started ev = [] \<and> ev_skipped ev = [] \<and>
     sys_in (run_pool (finish_event n i inp oc st)) = sys_in (run_pool st)"
  by (cases oc)
    (auto simp: finish_event_def adds_def emit_def mark_failed_def mark_executed_def
      split: option.split)

lemma finish_events_spec:
  assumes "\<And>i. i \<in> set ids \<Longrightarrow> \<exists>n. dget (eng_node_map e) i = Some n \<and> static_ok n"
    and "has_inputs_dict (run_pool st)"
  shows "\<exists>evs st'. finish_events e results ids st = (None, st') \<and> adds evs st st' \<and>
    started_ids evs = [] \<and> skipped_ids evs = [] \<and>
    mset (finished_ids evs @ failed_ids evs) = mset ids \<and> sys_in (run_pool st') = sys_in (run_pool st)"
  using assms
proof (induction ids arbitrary: st)
  case Nil
  show ?case by (auto intro: exI [of _ "[]"])
next
  case (Cons i ids)
  obtain n where n: "dget (eng_node_map e) i = Some n" "static_ok n"
    using Cons.prems(1) [of i] by auto
  from build_node_inputs_ok [OF n(2) Cons.prems(2)] obtain inp where
    inp: "build_node_inputs (run_pool st) n = Inr inp" by blast
  define st1 where "st1 = finish_event n i inp (dget_or results i (None, None)) st"
  obtain ev where ev: "adds [ev] st st1" "ev_finished ev @ ev_failed ev = [i]"
    "ev_started ev = []" "ev_skipped ev = []" "sys_in (run_pool st1) = sys_in (run_pool st)"
    using finish_event_adds unfolding st1_def by blast
  with Cons.prems(2) have "has_inputs_dict (run_pool st1)" by (simp add: has_inputs_dict_def)
  with Cons.IH [of st1] Cons.prems obtain evs st' where
    r: "finish_events e results ids st1 = (None, st')" "adds evs st1 st'" "started_ids evs = []"
    "skipped_ids evs = []" "mset (finished_ids evs @ failed_ids evs) = mset ids"
    "sys_in (run_pool st') = sys_in (run_pool st1)"
    by auto
  have "mset (finished_ids (ev # evs) @ failed_ids (ev # evs)) =
      mset (ev_finished ev @ ev_failed ev) + mset (finished_ids evs @ failed_ids evs)"
    by simp
  with ev(2) r(5) have "mset (finished_ids (ev # evs) @ failed_ids (ev # evs)) = mset (i # ids)"
    by simp
  with adds_trans [OF ev(1) r(2)] n inp r ev st1_def show ?case
    by (intro exI [of _ "ev # evs"] exI [of _ st']) simp
qed

lemma execute_single_node_spec:
  assumes "keeps_inputs exec" and "static_ok n" and "has_inputs_dict (run_pool st)"
  shows "\<exists>evs st'. execute_single_node exec n st = (None, st') \<and> adds evs st st' \<and>
    started_ids evs = [node_id n] \<and> skipped_ids evs = [] \<and>
    finished_ids evs @ failed_ids evs = [node_id n] \<and> sys_in (run_pool st') = sys_in (run_pool st)"
proof -
  from build_node_inputs_ok [OF assms(2,3)] obtain inp where
    inp: "build_node_inputs (run_pool st) n = Inr inp" by blast
  let ?ev = "NodeStarted (node_id n) (node_ty n) (title n) inp"
  obtain r st1 where r: "in_run (execute_node exec n) (emit ?ev st) = (r, st1)"
    by (cases "in_run (execute_node exec n) (emit ?ev st)")
  have "\<exists>ev. adds [ev] st1 (single_outcome n inp r st1) \<and> ev_finished ev @ ev_failed ev = [node_id n] \<and>
      ev_started ev = [] \<and> ev_skipped ev = [] \<and>
      sys_in (run_pool (single_outcome n inp r st1)) = sys_in (run_pool st1)"
    by (auto simp: single_outcome_def adds_def emit_def mark_failed_def mark_executed_def
        split: sum.split option.split)
  then obtain ev where ev: "adds [ev] st1 (single_outcome n inp r st1)"
    "ev_finished ev @ ev_failed ev = [node_id n]" "ev_started ev = []" "ev_skipped ev = []"
    "sys_in (run_pool (single_outcome n inp r st1)) = sys_in (run_pool st1)" by blast
  from adds_trans [OF adds_trans [OF emit_adds in_run_frame [OF r]] ev(1)]
    in_run_keeps [OF assms(1) r] inp r ev show ?thesis
    by (intro exI [of _ "[?ev, ev]"] exI [of _ "single_outcome n inp r st1"])
      (simp add: execute_single_node_def)
qed

definition ready :: "engine \<Rightarrow> bool" where
  "ready e = (engine_ok e \<and> list_all (\<lambda>(k, n). static_ok n) (eng_node_map e))"

lemma ready_get:
  assumes "ready e" and "i \<in> set (dkeys (eng_node_map e))"
  shows "\<exists>n. dget (eng_node_map e) i = Some n \<and> static_ok n \<and> node_id n = i"
proof -
  from in_keys [OF assms(2)] obtain n where n: "dget (eng_node_map e) i = Some n" ..
  then have "(i, n) \<in> set (eng_node_map e)" by (rule map_of_SomeD)
  with assms(1) n show ?thesis by (auto simp: ready_def engine_ok_def keyed_def list_all_iff)
qed

lemma parallel_layer_spec:
  assumes "ready e" and "keeps_inputs exec" and "set ids \<subseteq> set (dkeys (eng_node_map e))"
    and "has_inputs_dict (run_pool st)"
  shows "\<exists>evs st'. parallel_layer exec sched e ids st = (None, st') \<and> adds evs st st' \<and>
    started_ids evs = ids \<and> skipped_ids evs = [] \<and>
    mset (finished_ids evs @ failed_ids evs) = mset ids \<and> sys_in (run_pool st') = sys_in (run_pool st)"
proof -
  have get: "\<exists>n. dget (eng_node_map e) i = Some n \<and> static_ok n" if "i \<in> set ids" for i
    using ready_get [OF assms(1)] that assms(3) by blast
  from start_events_spec [of ids e st, OF get assms(4)] obtain evs1 st1 where
    1: "start_events e ids st = (None, st1)" "adds evs1 st st1" "started_ids evs1 = ids"
      "finished_ids evs1 = []" "failed_ids evs1 = []" "skipped_ids evs1 = []"
      "run_pool st1 = run_pool st" by blast
  obtain results st2 where 2: "run_pooled exec e (sched ids) [] st1 = (results, st2)"
    by (cases "run_pooled exec e (sched ids) [] st1")
  note frame = run_pooled_frame [OF assms(2) 2]
  then have "has_inputs_dict (run_pool st2)"
    using assms(4) 1(7) by (simp add: has_inputs_dict_def)
  from finish_events_spec [of ids e st2 results, OF get this] obtain evs3 st3 where
    3: "finish_events e results ids st2 = (None, st3)" "adds evs3 st2 st3" "started_ids evs3 = []"
      "skipped_ids evs3 = []" "mset (finished_ids evs3 @ failed_ids evs3) = mset ids"
      "sys_in (run_pool st3) = sys_in (run_pool st2)" by blast
  from adds_trans [OF adds_trans [OF 1(2) conjunct1 [OF frame]] 3(2)] 1 2 3 frame show ?thesis
    by (intro exI [of _ "evs1 @ evs3"] exI [of _ st3]) (simp add: parallel_layer_def)
qed

text \<open>What one layer contributes, given the failures so far.\<close>

definition layer_events :: "engine \<Rightarrow> string set \<Rightarrow> string list \<Rightarrow> event list \<Rightarrow> bool" where
  "layer_events e F L evs =
     (skipped_ids evs = filter (blocked e F) L \<and>
      started_ids evs = filter (\<lambda>i. \<not> blocked e F i) L \<and>
      mset (finished_ids evs @ failed_ids evs) = mset (filter (\<lambda>i. \<not> blocked e F i) L))"

lemma run_layer_spec:
  assumes "ready e" and "keeps_inputs exec" and "has_inputs_dict (run_pool st)"
    and "set L \<subseteq> set (dkeys (eng_node_map e))"
    and "\<forall>i \<in> set L. \<forall>d. (d, i) \<in> eng_rel e \<longrightarrow> d \<notin> set L"
  shows "\<exists>evs st'. run_layer (execute_single_node exec) (parallel_layer exec sched) e L st = (None, st') \<and>
    adds evs st st' \<and> layer_events e (run_failed st) L evs \<and> sys_in (run_pool st') = sys_in (run_pool st)"
proof -
  let ?go = "filter (\<lambda>i. \<not> blocked e (run_failed st) i) L"
  from filter_layer_spec [OF assms(5) subset_refl assms(4), where exe = "[]" and st = st] obtain evs1 st1 where
    1: "filter_layer e L [] st = (None, ?go, st1)" "adds evs1 st st1"
      "skipped_ids evs1 = filter (blocked e (run_failed st)) L" "started_ids evs1 = []"
      "finished_ids evs1 = []" "failed_ids evs1 = []" "run_pool st1 = run_pool st"
    by auto
  have go: "set ?go \<subseteq> set (dkeys (eng_node_map e))" using assms(4) by auto
  have pool: "has_inputs_dict (run_pool st1)" using assms(3) 1(7) by simp
  have "\<exists>evs st'. run_layer (execute_single_node exec) (parallel_layer exec sched) e L st = (None, st') \<and>
      adds evs st1 st' \<and> skipped_ids evs = [] \<and> started_ids evs = ?go \<and>
      mset (finished_ids evs @ failed_ids evs) = mset ?go \<and> sys_in (run_pool st') = sys_in (run_pool st1)"
  proof (cases ?go)
    case Nil
    with 1 show ?thesis by (intro exI [of _ "[]"] exI [of _ st1]) (simp add: run_layer_def)
  next
    case (Cons i rest)
    show ?thesis
    proof (cases rest)
      case Nil
      from ready_get [OF assms(1), of i] go Cons obtain n where
        n: "dget (eng_node_map e) i = Some n" "static_ok n" "node_id n = i" by auto
      from execute_single_node_spec [OF assms(2) n(2) pool] obtain evs st2 where
        "execute_single_node exec n st1 = (None, st2)" "adds evs st1 st2" "started_ids evs = [i]"
        "skipped_ids evs = []" "finished_ids evs @ failed_ids evs = [i]"
        "sys_in (run_pool st2) = sys_in (run_pool st1)"
        using n(3) by blast
      with 1 n Cons Nil show ?thesis
        by (intro exI [of _ evs] exI [of _ st2]) (simp add: run_layer_def flip: mset_append)
    next
      case (Cons j rest')
      with \<open>?go = i # rest\<close> 1 have "run_layer (execute_single_node exec) (parallel_layer exec sched) e L st =
          parallel_layer exec sched e ?go st1"
        by (simp add: run_layer_def)
      with parallel_layer_spec [OF assms(1,2) go pool, of sched] show ?thesis by auto
    qed
  qed
  then obtain evs2 st2 where
    2: "run_layer (execute_single_node exec) (parallel_layer exec sched) e L st = (None, st2)"
      "adds evs2 st1 st2" "skipped_ids evs2 = []" "started_ids evs2 = ?go"
      "mset (finished_ids evs2 @ failed_ids evs2) = mset ?go"
      "sys_in (run_pool st2) = sys_in (run_pool st1)"
    by blast
  from 1 2 have "layer_events e (run_failed st) L (evs1 @ evs2)"
    by (simp add: layer_events_def)
  with adds_trans [OF 1(2) 2(2)] 1 2 show ?thesis by auto
qed

section \<open>The whole run\<close>

text \<open>Nothing starts before everything it depends on has finished.\<close>

definition ordered :: "(string \<times> string) set \<Rightarrow> event list \<Rightarrow> bool" where
  "ordered R tr =
     (\<forall>A x B. tr = A @ x # B \<longrightarrow>
        (\<forall>v \<in> set (ev_started x). \<forall>s. (s, v) \<in> R \<longrightarrow> s \<in> set (finished_ids A)))"

lemma ordered_append:
  assumes "ordered R tr"
    and "\<And>v s. v \<in> set (started_ids evs) \<Longrightarrow> (s, v) \<in> R \<Longrightarrow> s \<in> set (finished_ids tr)"
  shows "ordered R (tr @ evs)"
  unfolding ordered_def
proof (intro allI impI ballI)
  fix A x B v s
  assume split: "tr @ evs = A @ x # B" and v: "v \<in> set (ev_started x)" and e: "(s, v) \<in> R"
  from split consider (left) C where "tr = A @ x # C" | (right) C where "A = tr @ C" "evs = C @ x # B"
    by (auto simp: append_eq_append_conv2 append_eq_Cons_conv Cons_eq_append_conv)
  then show "s \<in> set (finished_ids A)"
  proof cases
    case left
    with assms(1) v e show ?thesis by (auto simp: ordered_def)
  next
    case right
    with v have "v \<in> set (started_ids evs)" by simp
    from assms(2) [OF this e] right show ?thesis by simp
  qed
qed

definition run_inv :: "engine \<Rightarrow> string list \<Rightarrow> 's run \<Rightarrow> bool" where
  "run_inv e P st =
     (let tr = run_trace st in
      mset (finished_ids tr @ failed_ids tr @ skipped_ids tr) = mset P \<and>
      mset (started_ids tr) = mset (finished_ids tr @ failed_ids tr) \<and>
      run_failed st = set (failed_ids tr @ skipped_ids tr) \<and>
      run_executed st = length (finished_ids tr) \<and>
      run_failures st = length (failed_ids tr @ skipped_ids tr) \<and>
      (\<forall>v \<in> set P. v \<in> set (skipped_ids tr) \<longleftrightarrow> blocked e (run_failed st) v) \<and>
      ordered (eng_rel e) tr \<and> has_inputs_dict (run_pool st))"

lemma run_inv_layer:
  assumes inv: "run_inv e P st" and dist: "distinct (P @ L)"
    and deps: "\<And>i d. i \<in> set (P @ L) \<Longrightarrow> (d, i) \<in> eng_rel e \<Longrightarrow> d \<in> set P"
    and add: "adds evs st st'" and lay: "layer_events e (run_failed st) L evs"
    and pool: "sys_in (run_pool st') = sys_in (run_pool st)"
  shows "run_inv e (P @ L) st'"
proof -
  let ?t = "run_trace st" and ?F = "run_failed st"
  have t': "run_trace st' = ?t @ evs" using add by (simp add: adds_def)
  have skip: "skipped_ids evs = filter (blocked e ?F) L"
    and start: "started_ids evs = filter (\<lambda>i. \<not> blocked e ?F i) L"
    and done': "mset (finished_ids evs @ failed_ids evs) = mset (filter (\<lambda>i. \<not> blocked e ?F i) L)"
    using lay by (simp_all add: layer_events_def)
  have tm: "mset (finished_ids ?t @ failed_ids ?t @ skipped_ids ?t) = mset P"
    and sm: "mset (started_ids ?t) = mset (finished_ids ?t @ failed_ids ?t)"
    and F: "?F = set (failed_ids ?t @ skipped_ids ?t)"
    and blk: "\<And>v. v \<in> set P \<Longrightarrow> v \<in> set (skipped_ids ?t) \<longleftrightarrow> blocked e ?F v"
    and ord: "ordered (eng_rel e) ?t"
    using inv by (simp_all add: run_inv_def Let_def)
  have inP: "set (finished_ids ?t @ failed_ids ?t @ skipped_ids ?t) = set P"
    using tm by (metis set_mset_mset)
  have evL: "set (finished_ids evs @ failed_ids evs) = set (filter (\<lambda>i. \<not> blocked e ?F i) L)"
    using done' by (metis set_mset_mset)
  have F': "run_failed st' = ?F \<union> set (failed_ids evs @ skipped_ids evs)"
    using add by (simp add: adds_def)
  have newL: "set (failed_ids evs @ skipped_ids evs) \<subseteq> set L"
    using evL skip by auto
  have same: "blocked e (run_failed st') v \<longleftrightarrow> blocked e ?F v" if "v \<in> set (P @ L)" for v
    using deps [OF that] newL dist unfolding blocked_def F' by fastforce
  have "mset (finished_ids (?t @ evs) @ failed_ids (?t @ evs) @ skipped_ids (?t @ evs)) = mset (P @ L)"
  proof -
    have "mset (filter (\<lambda>i. \<not> blocked e ?F i) L) + mset (filter (blocked e ?F) L) = mset L"
      using multiset_partition [of "mset L" "blocked e ?F"] by (simp add: union_commute)
    then have "mset (finished_ids evs) + mset (failed_ids evs) + mset (skipped_ids evs) = mset L"
      using done' skip by simp
    then show ?thesis using tm by (simp add: ac_simps)
  qed
  moreover have "mset (started_ids (?t @ evs)) = mset (finished_ids (?t @ evs) @ failed_ids (?t @ evs))"
    using sm done' start by simp
  moreover have "v \<in> set (skipped_ids (?t @ evs)) \<longleftrightarrow> blocked e (run_failed st') v" if "v \<in> set (P @ L)" for v
  proof (cases "v \<in> set P")
    case True
    with dist have "v \<notin> set L" by auto
    with True blk [OF True] same [OF that] skip show ?thesis by auto
  next
    case False
    with that have "v \<in> set L" by simp
    with False inP same [OF that] skip show ?thesis by auto
  qed
  moreover have "ordered (eng_rel e) (?t @ evs)"
  proof (rule ordered_append [OF ord])
    fix v s
    assume v: "v \<in> set (started_ids evs)" and e: "(s, v) \<in> eng_rel e"
    with start have L: "v \<in> set L" and nb: "\<not> blocked e ?F v" by auto
    from deps [of v s] L e have "s \<in> set P" by simp
    moreover from nb e F have "s \<notin> set (failed_ids ?t @ skipped_ids ?t)"
      by (auto simp: blocked_def)
    ultimately show "s \<in> set (finished_ids ?t)" using inP by auto
  qed
  moreover have "has_inputs_dict (run_pool st')"
    using inv pool by (simp add: run_inv_def Let_def has_inputs_dict_def)
  moreover have "run_failed st' = set (failed_ids (?t @ evs) @ skipped_ids (?t @ evs))"
    unfolding F' F by auto
  moreover have "run_executed st' = length (finished_ids (?t @ evs))"
    "run_failures st' = length (failed_ids (?t @ evs) @ skipped_ids (?t @ evs))"
    using inv add by (simp_all add: run_inv_def adds_def Let_def)
  ultimately show ?thesis unfolding run_inv_def Let_def t' by blast
qed

lemma run_layers_spec:
  assumes "ready e" and "keeps_inputs exec" and "run_inv e P st"
    and "distinct (P @ concat Ls)" and "set (concat Ls) \<subseteq> set (dkeys (eng_node_map e))"
    and "layered (edge_pairs (eng_edges e)) P Ls"
    and "\<And>i d. i \<in> set P \<Longrightarrow> (d, i) \<in> eng_rel e \<Longrightarrow> d \<in> set P"
  shows "\<exists>st'. run_layers (execute_single_node exec) (parallel_layer exec sched) e Ls st = (None, st') \<and>
    run_inv e (P @ concat Ls) st'"
  using assms(3-)
proof (induction Ls arbitrary: P st)
  case (Cons L Ls)
  have depsL: "d \<in> set P" if "i \<in> set L" "(d, i) \<in> eng_rel e" for i d
    using Cons.prems(4) that by auto
  have disj: "\<forall>i \<in> set L. \<forall>d. (d, i) \<in> eng_rel e \<longrightarrow> d \<notin> set L"
  proof (intro ballI allI impI)
    fix i d
    assume "i \<in> set L" "(d, i) \<in> eng_rel e"
    then have "d \<in> set P" by (rule depsL)
    with Cons.prems(2) show "d \<notin> set L" by auto
  qed
  have deps: "d \<in> set P" if "i \<in> set (P @ L)" "(d, i) \<in> eng_rel e" for i d
    using that depsL Cons.prems(5) by auto
  have pool: "has_inputs_dict (run_pool st)"
    using Cons.prems(1) by (simp add: run_inv_def Let_def)
  have keys: "set L \<subseteq> set (dkeys (eng_node_map e))" using Cons.prems(3) by auto
  from run_layer_spec [OF assms(1,2) pool keys disj, where sched = sched] obtain evs st1 where
    1: "run_layer (execute_single_node exec) (parallel_layer exec sched) e L st = (None, st1)"
      "adds evs st st1" "layer_events e (run_failed st) L evs"
      "sys_in (run_pool st1) = sys_in (run_pool st)" by blast
  have "distinct (P @ L)" using Cons.prems(2) by auto
  from run_inv_layer [OF Cons.prems(1) this deps 1(2-4)] have inv: "run_inv e (P @ L) st1" .
  have "\<exists>st'. run_layers (execute_single_node exec) (parallel_layer exec sched) e Ls st1 = (None, st') \<and>
      run_inv e ((P @ L) @ concat Ls) st'"
  proof (rule Cons.IH [OF inv])
    show "distinct ((P @ L) @ concat Ls)" using Cons.prems(2) by simp
    show "set (concat Ls) \<subseteq> set (dkeys (eng_node_map e))" using Cons.prems(3) by simp
    show "layered (edge_pairs (eng_edges e)) (P @ L) Ls" using Cons.prems(4) by simp
    show "d \<in> set (P @ L)" if "i \<in> set (P @ L)" "(d, i) \<in> eng_rel e" for i d
      using deps [OF that] by simp
  qed
  with 1(1) show ?case by simp
qed simp

end
