(* ===== verification/Engine_Props.thy ===== *)
theory Engine_Props
  imports Engine_Facts
begin

text \<open>
  The properties of the graph engine, for configurations the validator accepts, and a small
  configuration on which each is exercised.
\<close>

section \<open>Accepted configurations make runnable engines\<close>

text \<open>
  The validator never looks at the variables of the start node; that they are not malformed
  references is a condition of its own.
\<close>

definition start_ok :: "workflow_config \<Rightarrow> bool" where
  "start_ok cfg =
     list_all (\<lambda>n. node_ty n = StartT \<longrightarrow> list_all var_static_ok (inputs_field n)) (wf_nodes cfg)"

lemma refs_ok_static:
  assumes "refs_ok nodes es n" and "node_ty n \<noteq> StartT"
  shows "static_ok n"
proof -
  from assms obtain vars where vars: "checked_vars n = Inr vars"
    "\<forall>v \<in> set vars. var_ok nodes es (node_id n) v" by (auto simp: refs_ok_def)
  have "list_all var_static_ok vars"
    using vars(2) by (auto simp: list_all_iff var_ok_def var_static_ok_def)
  moreover have "input_vars n = Inr vars"
    using vars(1) by (simp add: input_vars_def checked_vars_def split: if_splits)
  ultimately show ?thesis by (simp add: static_ok_def)
qed

lemma wf_config_runs:
  assumes "wf_config cfg" and "start_ok cfg"
  shows "ready (new_engine cfg)" and "acyclic (set (edge_pairs (wf_edges cfg)))"
proof -
  from assms(1) have ok: "nodes_ok (wf_nodes cfg)" "edges_ok (node_dict (wf_nodes cfg)) (wf_edges cfg)"
    and graph: "wf_graph (node_dict (wf_nodes cfg)) (wf_edges cfg)"
    by (simp_all add: wf_config_def)
  from graph show "acyclic (set (edge_pairs (wf_edges cfg)))"
    unfolding wf_graph_def by blast
  have "static_ok n" if n: "n \<in> set (wf_nodes cfg)" for n
  proof (cases "node_ty n = StartT")
    case True
    with assms(2) n show ?thesis
      by (simp add: start_ok_def list_all_iff static_ok_def input_vars_def inputs_of_def has_inputs_def)
  next
    case False
    moreover from graph n have "refs_ok (node_dict (wf_nodes cfg)) (wf_edges cfg) n"
      by (auto simp: wf_graph_def image_image)
    ultimately show ?thesis by (metis refs_ok_static)
  qed
  with new_engine_ok [OF ok] show "ready (new_engine cfg)"
    by (simp add: ready_def list_all_iff)
qed

lemma execute_inv:
  assumes "ready e" and "acyclic (eng_rel e)" and "keeps_inputs exec"
  obtains P st where "execute exec sched e inputs pool x = end_run (None, st)"
    "run_inv e P st" "mset P = mset (dkeys (eng_node_map e))"
proof -
  from assms(1) have ok: "engine_ok e" by (simp add: ready_def)
  obtain layers where l: "topological_layers e = Inr layers" "distinct (concat layers)"
    "set (concat layers) = set (dkeys (eng_node_map e))"
    "layered (edge_pairs (eng_edges e)) [] layers"
    using topological_layers_acyclic [OF ok assms(2)] .
  let ?st = "start_run e inputs pool x"
  have "run_inv e [] ?st"
    by (auto simp: run_inv_def start_run_def ordered_def has_inputs_dict_def sys_in_def
        set_system_variable_def Cons_eq_append_conv)
  from run_layers_spec [OF assms(1,3) this, of layers sched] l obtain st where
    "run_layers (execute_single_node exec) (parallel_layer exec sched) e layers ?st = (None, st)"
    "run_inv e (concat layers) st" by auto
  moreover have "mset (concat layers) = mset (dkeys (eng_node_map e))"
    using set_eq_iff_mset_eq_distinct [OF l(2)] l(3) ok by (metis engine_ok_def keyed_def)
  ultimately show ?thesis using l(1) that by (simp add: execute_def)
qed

lemma end_run_trace [simp]:
  "fst (end_run (None, st)) = None"
  "run_trace (snd (end_run (None, st))) =
     run_trace st @ [WorkflowFinished (final_status (run_executed st) (run_failures st))
       (run_executed st) (run_failures st)]"
  by (simp_all add: end_run_def emit_def)

text \<open>The run of an accepted configuration, with the invariant at its end.\<close>

lemma execute_config:
  assumes "wf_config cfg" and "start_ok cfg" and "keeps_inputs exec"
  obtains st P where "execute exec sched (new_engine cfg) inputs pool x = end_run (None, st)"
    "run_inv (new_engine cfg) P st" "mset P = mset (map node_id (wf_nodes cfg))"
proof -
  note runs = wf_config_runs [OF assms(1,2)]
  have eng: "eng_edges (new_engine cfg) = wf_edges cfg"
    "eng_node_map (new_engine cfg) = node_dict (wf_nodes cfg)"
    using new_engine_ok assms(1) by (simp_all add: wf_config_def)
  have "acyclic (eng_rel (new_engine cfg))" using runs(2) eng(1) by simp
  from execute_inv [OF runs(1) this assms(3)] obtain P st where
    r: "execute exec sched (new_engine cfg) inputs pool x = end_run (None, st)"
    "run_inv (new_engine cfg) P st" "mset P = mset (dkeys (eng_node_map (new_engine cfg)))" .
  have "dkeys (eng_node_map (new_engine cfg)) = map node_id (wf_nodes cfg)"
    by (simp add: eng(2) comp_def)
  with r that show ?thesis by metis
qed

text \<open>The two engines agree layer by layer.\<close>

lemma filter_layer_exe:
  "filter_layer e ids exe st = (None, exe', st') \<Longrightarrow> distinct (exe @ ids) \<Longrightarrow>
     distinct exe' \<and> set exe' \<subseteq> set exe \<union> set ids"
proof (induction ids arbitrary: exe st)
  case (Cons i ids)
  from Cons.prems obtain exe1 st1 where r: "filter_layer e ids exe1 st1 = (None, exe', st')"
    and exe1: "exe1 = exe \<or> exe1 = exe @ [i]"
    by (auto split: option.splits if_splits)
  from exe1 Cons.prems(2) have "distinct (exe1 @ ids)" by auto
  from Cons.IH [OF r this] exe1 show ?case by auto
qed simp

lemma run_layer_cong:
  assumes "\<And>ids st. distinct ids \<Longrightarrow> set ids \<subseteq> set (dkeys (eng_node_map e)) \<Longrightarrow>
      par e ids st = par' e ids st"
    and "distinct L" and "set L \<subseteq> set (dkeys (eng_node_map e))"
  shows "run_layer single par e L st = run_layer single par' e L st"
proof -
  obtain err exe st1 where f: "filter_layer e L [] st = (err, exe, st1)"
    by (cases "filter_layer e L [] st")
  show ?thesis
  proof (cases err)
    case None
    with filter_layer_exe f assms(2,3) have "distinct exe" "set exe \<subseteq> set (dkeys (eng_node_map e))"
      by fastforce+
    from assms(1) [OF this] f None show ?thesis
      by (cases exe; cases "tl exe") (simp_all add: run_layer_def)
  next
    case (Some err)
    with f show ?thesis by (simp add: run_layer_def)
  qed
qed

lemma run_layers_cong:
  assumes "\<And>ids st. distinct ids \<Longrightarrow> set ids \<subseteq> set (dkeys (eng_node_map e)) \<Longrightarrow>
      par e ids st = par' e ids st"
    and "distinct (concat Ls)" and "set (concat Ls) \<subseteq> set (dkeys (eng_node_map e))"
  shows "run_layers single par e Ls st = run_layers single par' e Ls st"
  using assms(2,3)
proof (induction Ls arbitrary: st)
  case (Cons L Ls)
  then have "distinct L" "set L \<subseteq> set (dkeys (eng_node_map e))"
    "distinct (concat Ls)" "set (concat Ls) \<subseteq> set (dkeys (eng_node_map e))" by auto
  then have "run_layers single par e Ls st = run_layers single par' e Ls st" for st
    using Cons.IH by blast
  moreover have "run_layer single par e L st = run_layer single par' e L st"
    using assms(1) \<open>distinct L\<close> \<open>set L \<subseteq> _\<close> by (rule run_layer_cong)
  ultimately show ?case by (simp split: prod.split option.split)
qed simp

lemma layers_distinct:
  assumes "engine_ok e" and "topological_layers e = Inr layers"
  shows "distinct (concat layers)" and "set (concat layers) \<subseteq> set (dkeys (eng_node_map e))"
  using layers_facts(1,2) [OF assms(1)] assms(2)
  by (auto simp: topological_layers_def Let_def split: if_splits)

text \<open>
  An executor that changes neither the pool nor a state of its own: then the pool is the same for
  all nodes of a layer, and the schedule cannot matter.
\<close>

definition stateless :: "'s executor \<Rightarrow> bool" where
  "stateless exec = (\<forall>n s. snd (exec n s) = s)"

lemma stateless_node_safe:
  assumes "stateless exec"
  shows "snd (execute_node_safe exec n st) = st"
proof -
  have "snd (exec n s) = s" for n s using assms unfolding stateless_def by blast
  then have "snd (snd (execute_with_retry (exec n) c s)) = s" for c s
    unfolding execute_with_retry_def by (intro retry_loop_keeps [of "\<lambda>s. s"])
  then have "snd (execute_node exec n s) = s" for s
  proof -
    assume retry: "\<And>c s. snd (snd (execute_with_retry (exec n) c s)) = s"
    obtain r sl s' where e: "execute_with_retry (exec n) (node_retry n) s = (r, sl, s')"
      by (cases "execute_with_retry (exec n) (node_retry n) s")
    with retry [of "node_retry n" s] have "s' = s" by simp
    with e show ?thesis by (cases r) (auto simp: execute_node_def split: prod.split)
  qed
  then have "execute_node exec n (run_pool st, run_own st) =
      (fst (execute_node exec n (run_pool st, run_own st)), run_pool st, run_own st)"
    by (metis prod.collapse)
  then obtain r where "execute_node exec n (run_pool st, run_own st) = (r, run_pool st, run_own st)" ..
  then show ?thesis by (cases r) (simp_all add: execute_node_safe_def in_run_def)
qed

definition outcome_at :: "'s executor \<Rightarrow> engine \<Rightarrow> 's run \<Rightarrow> string \<Rightarrow> outcome" where
  "outcome_at exec e st i =
     (case dget (eng_node_map e) i of
        None \<Rightarrow> (None, Some (KeyError i)) | Some n \<Rightarrow> fst (execute_node_safe exec n st))"

lemma run_pooled_stateless:
  assumes "stateless exec"
  shows "snd (run_pooled exec e ids results st) = st \<and>
    dget (fst (run_pooled exec e ids results st)) i =
      (if i \<in> set ids then Some (outcome_at exec e st i) else dget results i)"
proof (induction ids arbitrary: results)
  case (Cons j ids)
  show ?case
  proof (cases "dget (eng_node_map e) j")
    case None
    with Cons show ?thesis by (simp add: outcome_at_def)
  next
    case (Some n)
    obtain oc where "execute_node_safe exec n st = (oc, st)"
      using stateless_node_safe [OF assms, of n st] by (metis prod.collapse)
    with Some Cons show ?thesis by (simp add: outcome_at_def)
  qed
qed simp

lemma parallel_layer_schedules:
  assumes "stateless exec" and "set (sched ids) = set (sched' ids)"
  shows "parallel_layer exec sched e ids st = parallel_layer exec sched' e ids st"
proof -
  have "run_pooled exec e (s ids) [] st1 = (fst (run_pooled exec e (s ids) [] st1), st1)" for s st1
    using run_pooled_stateless [OF assms(1)] by (metis prod.collapse)
  moreover have "finish_events e (fst (run_pooled exec e (sched ids) [] st1)) ids st1 =
      finish_events e (fst (run_pooled exec e (sched' ids) [] st1)) ids st1" for st1
    using run_pooled_stateless [OF assms(1)] assms(2)
    by (intro finish_events_cong) (simp add: dget_or_def)
  ultimately show ?thesis
    by (simp add: parallel_layer_def split: prod.split option.split)
      (metis prod.case_eq_if fst_conv snd_conv)
qed

text \<open>Engines that differ only in the handles of their edges.\<close>

definition same_graph :: "engine \<Rightarrow> engine \<Rightarrow> bool" where
  "same_graph e e' =
     (eng_node_map e = eng_node_map e' \<and> eng_adj_list e = eng_adj_list e' \<and>
      eng_in_degree e = eng_in_degree e' \<and> get_dependencies e = get_dependencies e')"

lemma same_graph_helpers:
  assumes "same_graph e e'"
  shows "filter_layer e ids exe st = filter_layer e' ids exe st"
    and "start_events e ids st1 = start_events e' ids st1"
    and "run_pooled exec e ids results st2 = run_pooled exec e' ids results st2"
    and "finish_events e results ids st3 = finish_events e' results ids st3"
proof -
  have nm: "eng_node_map e = eng_node_map e'" and deps: "get_dependencies e = get_dependencies e'"
    using assms by (simp_all add: same_graph_def)
  show "filter_layer e ids exe st = filter_layer e' ids exe st"
    by (induction ids arbitrary: exe st)
      (simp_all add: nm deps del: set_get_dependencies split: option.split)
  show "start_events e ids st1 = start_events e' ids st1"
    by (induction ids arbitrary: st1) (simp_all add: nm split: option.split sum.split)
  show "run_pooled exec e ids results st2 = run_pooled exec e' ids results st2"
    by (induction ids arbitrary: results st2) (simp_all add: nm split: option.split prod.split)
  show "finish_events e results ids st3 = finish_events e' results ids st3"
    by (induction ids arbitrary: st3) (simp_all add: nm split: option.split sum.split)
qed

lemma same_graph_layers:
  assumes "same_graph e e'"
  shows "run_layers single (parallel_layer exec sched) e Ls st =
    run_layers single (parallel_layer exec sched) e' Ls st"
proof -
  have par: "parallel_layer exec sched e ids st = parallel_layer exec sched e' ids st" for ids st
    unfolding parallel_layer_def same_graph_helpers [OF assms] ..
  have "run_layer single (parallel_layer exec sched) e L st =
      run_layer single (parallel_layer exec sched) e' L st" for L st
    using assms unfolding run_layer_def same_graph_helpers(1) [OF assms] par same_graph_def by metis
  then show ?thesis
    by (induction Ls arbitrary: st) (simp_all split: prod.split option.split)
qed

section \<open>The properties\<close>


text \<open>
  C2. Failures spread exactly along the edges: a node is skipped if and only if one of its direct
  dependencies failed or was skipped.
\<close>

theorem engine_skips_exactly_downstream:
  assumes "wf_config cfg" and "start_ok cfg" and "keeps_inputs exec" and "n \<in> set (wf_nodes cfg)"
  shows "let tr = run_trace (snd (execute exec sched (new_engine cfg) inputs pool x)) in
    node_id n \<in> set (skipped_ids tr) \<longleftrightarrow>
      (\<exists>e \<in> set (wf_edges cfg). target e = node_id n \<and>
         source e \<in> set (failed_ids tr) \<union> set (skipped_ids tr))"
proof -
  obtain st P where r: "execute exec sched (new_engine cfg) inputs pool x = end_run (None, st)"
    "run_inv (new_engine cfg) P st" "mset P = mset (map node_id (wf_nodes cfg))"
    using execute_config [OF assms(1-3)] .
  have eng: "eng_edges (new_engine cfg) = wf_edges cfg"
    using new_engine_ok assms(1) by (simp add: wf_config_def)
  have "node_id n \<in> set P" using assms(4) mset_eq_setD [OF r(3)] by simp
  with r(2) have "node_id n \<in> set (skipped_ids (run_trace st)) \<longleftrightarrow>
      blocked (new_engine cfg) (set (failed_ids (run_trace st) @ skipped_ids (run_trace st))) (node_id n)"
    by (simp add: run_inv_def Let_def)
  moreover have "blocked (new_engine cfg) F (node_id n) \<longleftrightarrow>
      (\<exists>e \<in> set (wf_edges cfg). target e = node_id n \<and> source e \<in> F)" for F
    by (auto simp: blocked_def eng get_dependencies_def simp del: set_get_dependencies)
  ultimately show ?thesis by (simp add: Let_def r(1))
qed

text \<open>
  C13. A node starts only after every node it depends on has finished successfully.
\<close>

theorem engine_starts_after_dependencies:
  assumes "wf_config cfg" and "start_ok cfg" and "keeps_inputs exec"
    and "run_trace (snd (execute exec sched (new_engine cfg) inputs pool x)) =
           before @ NodeStarted v t ti inp # after"
    and "e \<in> set (wf_edges cfg)" and "target e = v"
  shows "source e \<in> set (finished_ids before)"
proof -
  obtain st P where r: "execute exec sched (new_engine cfg) inputs pool x = end_run (None, st)"
    "run_inv (new_engine cfg) P st"
    using execute_config [OF assms(1-3)] .
  have eng: "eng_edges (new_engine cfg) = wf_edges cfg"
    using new_engine_ok assms(1) by (simp add: wf_config_def)
  from r(2) have "ordered (eng_rel (new_engine cfg)) (run_trace st)"
    by (simp add: run_inv_def Let_def)
  then have "ordered (eng_rel (new_engine cfg)) (run_trace (snd (end_run (None, st))))"
    unfolding end_run_trace by (rule ordered_append) simp
  with assms(4) r(1) have "\<forall>s. (s, v) \<in> eng_rel (new_engine cfg) \<longrightarrow> s \<in> set (finished_ids before)"
    unfolding ordered_def by fastforce
  with assms(5,6) eng show ?thesis by auto
qed

text \<open>
  On a graph with a cycle the engine reports the failure and runs nothing.
\<close>

theorem engine_rejects_cycles:
  assumes "nodes_ok (wf_nodes cfg)" and "edges_ok (node_dict (wf_nodes cfg)) (wf_edges cfg)"
    and "\<not> acyclic (set (edge_pairs (wf_edges cfg)))"
  shows "fst (execute exec sched (new_engine cfg) inputs pool x) = None \<and>
    run_trace (snd (execute exec sched (new_engine cfg) inputs pool x)) =
      [WorkflowStarted inputs (length (wf_nodes cfg)), WorkflowAborted (ValueError ''cycle'')] \<and>
    run_own (snd (execute exec sched (new_engine cfg) inputs pool x)) = x"
proof -
  note ok = new_engine_ok [OF assms(1,2)]
  from topological_layers_cyclic [OF ok(1)] assms(3) ok(2,3) show ?thesis
    by (simp add: execute_def start_run_def emit_def)
qed

text \<open>
  The asynchronous engine does exactly what the thread-pool engine does with the same executor
  and the same schedule.
\<close>

theorem engine_async_same:
  assumes "wf_config cfg" and "permutes_ids sched"
  shows "execute_async exec sched (new_engine cfg) inputs pool x =
    execute (sync_of exec) sched (new_engine cfg) inputs pool x"
proof -
  from assms(1) have ok: "engine_ok (new_engine cfg)"
    by (intro new_engine_ok) (simp_all add: wf_config_def)
  show ?thesis
  proof (cases "topological_layers (new_engine cfg)")
    case (Inl err)
    then show ?thesis by (simp add: execute_def execute_async_def)
  next
    case (Inr layers)
    have par: "parallel_layer_async exec sched (new_engine cfg) ids st =
        parallel_layer (sync_of exec) sched (new_engine cfg) ids st"
      if "distinct ids" "set ids \<subseteq> set (dkeys (eng_node_map (new_engine cfg)))" for ids st
      by (rule parallel_layer_async_eq [OF assms(2) that])
    have cong: "run_layers single (parallel_layer_async exec sched) (new_engine cfg) layers st =
        run_layers single (parallel_layer (sync_of exec) sched) (new_engine cfg) layers st" for single st
      by (rule run_layers_cong) (rule par layers_distinct [OF ok Inr]; assumption?)+
    from Inr show ?thesis
      by (simp add: execute_def execute_async_def execute_single_node_async_eq cong)
  qed
qed

text \<open>
  C38. With an executor that does not change shared state, the order in which the threads of a
  layer take effect is invisible: events, results and final state are the same.
\<close>

theorem engine_schedule_irrelevant:
  assumes "wf_config cfg" and "stateless exec" and "permutes_ids sched" and "permutes_ids sched'"
  shows "execute exec sched (new_engine cfg) inputs pool x =
    execute exec sched' (new_engine cfg) inputs pool x"
proof -
  from assms(1) have ok: "engine_ok (new_engine cfg)"
    by (intro new_engine_ok) (simp_all add: wf_config_def)
  show ?thesis
  proof (cases "topological_layers (new_engine cfg)")
    case (Inl err)
    then show ?thesis by (simp add: execute_def)
  next
    case (Inr layers)
    have par: "parallel_layer exec sched (new_engine cfg) ids st =
        parallel_layer exec sched' (new_engine cfg) ids st"
      if "distinct ids" "set ids \<subseteq> set (dkeys (eng_node_map (new_engine cfg)))" for ids st
      using assms(3,4) that(1) by (intro parallel_layer_schedules [OF assms(2)]) (auto simp: permutes_ids_def)
    have cong: "run_layers single (parallel_layer exec sched) (new_engine cfg) layers st =
        run_layers single (parallel_layer exec sched') (new_engine cfg) layers st" for single st
      by (rule run_layers_cong) (rule par layers_distinct [OF ok Inr]; assumption?)+
    from Inr show ?thesis
      by (simp add: execute_def cong)
  qed
qed

text \<open>
  The engine never reads the handle of an edge: relabelling the branches of the condition nodes
  in any way changes nothing, so both branches of a condition run.
\<close>

theorem engine_ignores_source_handle:
  "execute exec sched (new_engine (cfg\<lparr>wf_edges := map (\<lambda>e. e\<lparr>source_handle := h e\<rparr>) (wf_edges cfg)\<rparr>))
     inputs pool x =
   execute exec sched (new_engine cfg) inputs pool x"
proof -
  let ?e = "new_engine (cfg\<lparr>wf_edges := map (\<lambda>e. e\<lparr>source_handle := h e\<rparr>) (wf_edges cfg)\<rparr>)"
  have same: "same_graph ?e (new_engine cfg)"
    by (simp add: same_graph_def new_engine_def build_graph_def Let_def get_dependencies_def fun_eq_iff
        filter_map comp_def)
  then have layers: "topological_layers ?e = topological_layers (new_engine cfg)"
    and start: "start_run ?e inputs pool x = start_run (new_engine cfg) inputs pool x"
    by (simp_all add: topological_layers_def start_run_def same_graph_def)
  show ?thesis
    unfolding execute_def layers start same_graph_layers [OF same] ..
qed

section \<open>A configuration to try them on\<close>

definition demo_node :: "string \<Rightarrow> node_type \<Rightarrow> var_entity list \<Rightarrow> var_entity list \<Rightarrow> node" where
  "demo_node i t ins outs =
     \<lparr>node_id = i, node_ty = t, title = i, inputs_field = ins, outputs_field = outs,
      node_retry = default_retry\<rparr>"

definition demo_edge :: "string \<Rightarrow> string \<Rightarrow> node_type \<Rightarrow> string \<Rightarrow> node_type \<Rightarrow> edge" where
  "demo_edge i a ta b tb =
     \<lparr>edge_id = i, source = a, source_type = ta, target = b, target_type = tb,
      source_handle = None, target_handle = None\<rparr>"

definition demo_var :: "string \<Rightarrow> value_type \<Rightarrow> content \<Rightarrow> var_entity" where
  "demo_var x vt c =
     \<lparr>var_name = x, var_description = [], var_required = True, var_type = StringV,
      var_value_type = vt, var_content = c\<rparr>"

text \<open>Start, two tools side by side, end; the end node reads a variable of the first tool.\<close>

definition demo_cfg :: workflow_config where
  "demo_cfg =
     \<lparr>wf_nodes =
        [demo_node ''s'' StartT [demo_var ''q'' GeneratedVT (ContentVal (PStr []))] [],
         demo_node ''a'' ToolT [] [demo_var ''o'' GeneratedVT (ContentVal (PStr []))],
         demo_node ''b'' ToolT [] [],
         demo_node ''t'' EndT [] [demo_var ''r'' RefVT (ContentRef (Some ''a'') ''o'')]],
      wf_edges =
        [demo_edge ''1'' ''s'' StartT ''a'' ToolT, demo_edge ''2'' ''s'' StartT ''b'' ToolT,
         demo_edge ''3'' ''a'' ToolT ''t'' EndT, demo_edge ''4'' ''b'' ToolT ''t'' EndT]\<rparr>"

text \<open>An executor that fails on the node \<open>b\<close>.\<close>

definition demo_exec :: "unit executor" where
  "demo_exec n s =
     (if node_id n = ''b'' then Inl (UserError ''boom'') else Inr (Some [(''o'', PInt 1)]), s)"

lemmas demo_defs = demo_cfg_def demo_node_def demo_edge_def demo_var_def

lemma demo_ok: "nodes_ok (wf_nodes demo_cfg)" "edges_ok (node_dict (wf_nodes demo_cfg)) (wf_edges demo_cfg)"
  by code_simp (simp add: edges_ok_def edge_ok_iff edge_ends_ok_def handle_ok_def demo_defs)

lemma demo_check: "check_graph (node_dict (wf_nodes demo_cfg)) (wf_edges demo_cfg) = None"
  by code_simp

lemma demo_wf: "wf_config demo_cfg"
  using demo_ok demo_check check_graph_iff [OF _ demo_ok(2)]
  by (simp add: wf_config_def nodes_ok_def)

lemma demo_start: "start_ok demo_cfg"
  by code_simp

lemma demo_keeps: "keeps_inputs demo_exec"
  by (simp add: keeps_inputs_def demo_exec_def)

lemma demo_trace:
  "run_trace (snd (execute demo_exec (\<lambda>ids. ids) (new_engine demo_cfg) [] new_pool ())) =
     [WorkflowStarted [] 4,
      NodeStarted ''s'' StartT ''s'' [(''q'', PNone)],
      NodeFinished ''s'' StartT ''s'' [(''q'', PNone)] [(''o'', PInt 1)],
      NodeStarted ''a'' ToolT ''a'' [], NodeStarted ''b'' ToolT ''b'' [],
      NodeFinished ''a'' ToolT ''a'' [] [(''o'', PInt 1)],
      NodeFailed ''b'' ToolT ''b'' [] (Some (UserError ''boom'')),
      NodeSkipped ''t'' EndT ''t'',
      WorkflowFinished PartialFailed 2 2]"
  by code_simp

definition demo_cyclic :: workflow_config where
  "demo_cyclic =
     \<lparr>wf_nodes = [demo_node ''a'' ToolT [] [], demo_node ''b'' ToolT [] []],
      wf_edges = [demo_edge ''1'' ''a'' ToolT ''b'' ToolT, demo_edge ''2'' ''b'' ToolT ''a'' ToolT]\<rparr>"

lemma demo_cyclic_ok:
  "nodes_ok (wf_nodes demo_cyclic)" "edges_ok (node_dict (wf_nodes demo_cyclic)) (wf_edges demo_cyclic)"
  by code_simp (simp add: edges_ok_def edge_ok_iff edge_ends_ok_def handle_ok_def demo_defs demo_cyclic_def)

lemma demo_cyclic_cycle: "\<not> acyclic (set (edge_pairs (wf_edges demo_cyclic)))"
proof -
  have "(''a'', ''b'') \<in> set (edge_pairs (wf_edges demo_cyclic))"
    "(''b'', ''a'') \<in> set (edge_pairs (wf_edges demo_cyclic))"
    by (simp_all add: demo_cyclic_def demo_node_def demo_edge_def)
  then have "(''a'', ''a'') \<in> (set (edge_pairs (wf_edges demo_cyclic)))\<^sup>+"
    by (meson r_into_trancl trancl_trans)
  then show ?thesis by (auto simp: acyclic_def)
qed

section \<open>The properties at these configurations\<close>


theorem engine_skips_exactly_downstream_witness:
  "''b'' \<in> set (failed_ids (run_trace (snd (execute demo_exec (\<lambda>ids. ids) (new_engine demo_cfg) [] new_pool ()))))
   \<and> ''t'' \<in> set (skipped_ids (run_trace (snd (execute demo_exec (\<lambda>ids. ids) (new_engine demo_cfg) [] new_pool ()))))"
proof -
  let ?t = "run_trace (snd (execute demo_exec (\<lambda>ids. ids) (new_engine demo_cfg) [] new_pool ()))"
  let ?n = "demo_node ''t'' EndT [] [demo_var ''r'' RefVT (ContentRef (Some ''a'') ''o'')]"
  have "?n \<in> set (wf_nodes demo_cfg)" by (simp add: demo_cfg_def)
  from engine_skips_exactly_downstream [OF demo_wf demo_start demo_keeps this]
  have "node_id ?n \<in> set (skipped_ids ?t) \<longleftrightarrow>
    (\<exists>e \<in> set (wf_edges demo_cfg). target e = node_id ?n \<and>
       source e \<in> set (failed_ids ?t) \<union> set (skipped_ids ?t))"
    unfolding Let_def .
  then show ?thesis unfolding demo_trace by (simp add: demo_defs)
qed

theorem engine_starts_after_dependencies_witness:
  "''s'' \<in> set (finished_ids
     [WorkflowStarted [] 4, NodeStarted ''s'' StartT ''s'' [(''q'', PNone)],
      NodeFinished ''s'' StartT ''s'' [(''q'', PNone)] [(''o'', PInt 1)]])"
proof -
  let ?e = "demo_edge ''1'' ''s'' StartT ''a'' ToolT"
  have "run_trace (snd (execute demo_exec (\<lambda>ids. ids) (new_engine demo_cfg) [] new_pool ())) =
      [WorkflowStarted [] 4, NodeStarted ''s'' StartT ''s'' [(''q'', PNone)],
       NodeFinished ''s'' StartT ''s'' [(''q'', PNone)] [(''o'', PInt 1)]] @
      NodeStarted ''a'' ToolT ''a'' [] #
      [NodeStarted ''b'' ToolT ''b'' [], NodeFinished ''a'' ToolT ''a'' [] [(''o'', PInt 1)],
       NodeFailed ''b'' ToolT ''b'' [] (Some (UserError ''boom'')), NodeSkipped ''t'' EndT ''t'',
       WorkflowFinished PartialFailed 2 2]"
    unfolding demo_trace by simp
  moreover have "?e \<in> set (wf_edges demo_cfg)" "target ?e = ''a''" by (simp_all add: demo_defs)
  ultimately have "source ?e \<in> set (finished_ids
     [WorkflowStarted [] 4, NodeStarted ''s'' StartT ''s'' [(''q'', PNone)],
      NodeFinished ''s'' StartT ''s'' [(''q'', PNone)] [(''o'', PInt 1)]])"
    by (rule engine_starts_after_dependencies [OF demo_wf demo_start demo_keeps])
  then show ?thesis by (simp add: demo_edge_def)
qed

theorem engine_rejects_cycles_witness:
  "fst (execute demo_exec (\<lambda>ids. ids) (new_engine demo_cyclic) [] new_pool ()) = None \<and>
   run_trace (snd (execute demo_exec (\<lambda>ids. ids) (new_engine demo_cyclic) [] new_pool ())) =
     [WorkflowStarted [] (length (wf_nodes demo_cyclic)), WorkflowAborted (ValueError ''cycle'')] \<and>
   run_own (snd (execute demo_exec (\<lambda>ids. ids) (new_engine demo_cyclic) [] new_pool ())) = ()"
  by (rule engine_rejects_cycles [OF demo_cyclic_ok demo_cyclic_cycle])

lemma permutes_id: "permutes_ids (\<lambda>ids. ids)" and permutes_rev: "permutes_ids rev"
  by (simp_all add: permutes_ids_def)

theorem engine_async_same_witness:
  "execute_async (PlainFun demo_exec) rev (new_engine demo_cfg) [] new_pool () =
   execute (sync_of (PlainFun demo_exec)) rev (new_engine demo_cfg) [] new_pool ()"
  by (rule engine_async_same [OF demo_wf permutes_rev])

theorem engine_schedule_irrelevant_witness:
  "execute demo_exec rev (new_engine demo_cfg) [] new_pool () =
   execute demo_exec (\<lambda>ids. ids) (new_engine demo_cfg) [] new_pool ()"
proof (rule engine_schedule_irrelevant [OF demo_wf _ permutes_rev permutes_id])
  show "stateless demo_exec" by (simp add: stateless_def demo_exec_def)
qed

text \<open>The same configuration as the validator receives it.\<close>

definition demo_mk_node :: "node_type \<Rightarrow> pyval dict \<Rightarrow> exn + node" where
  "demo_mk_node t d =
     (case find (\<lambda>n. PStr (node_id n) = opt_none (dget d ''id'')) (wf_nodes demo_cfg) of
        None \<Rightarrow> Inl (ValidateError ''id'') | Some n \<Rightarrow> Inr n)"

definition demo_mk_edge :: "pyval dict \<Rightarrow> exn + edge" where
  "demo_mk_edge d =
     (case find (\<lambda>e. PStr (edge_id e) = opt_none (dget d ''id'')) (wf_edges demo_cfg) of
        None \<Rightarrow> Inl (ValidateError ''id'') | Some e \<Rightarrow> Inr e)"

definition demo_values :: "pyval dict" where
  "demo_values =
     [(''name'', PStr ''demo''), (''description'', PStr ''a demo''),
      (''nodes'', PList (map (\<lambda>n. PDict [(''id'', PStr (node_id n)),
         (''node_type'', PStr (node_type_value (node_ty n)))]) (wf_nodes demo_cfg))),
      (''edges'', PList (map (\<lambda>e. PDict [(''id'', PStr (edge_id e))]) (wf_edges demo_cfg)))]"

lemma demo_validates: "validate_workflow_config demo_mk_node demo_mk_edge demo_values = Inr demo_cfg"
  by code_simp

theorem iteration_never_validates_witness:
  "validate_workflow_config demo_mk_node demo_mk_edge demo_values = Inr demo_cfg \<and>
   node_ty (hd (wf_nodes demo_cfg)) \<noteq> IterationT"
  using demo_validates iteration_never_validates [OF demo_validates, of "hd (wf_nodes demo_cfg)"]
  by (simp add: demo_cfg_def)

end
