(* ===== verification/Node_Props.thy ===== *)
theory Node_Props
  imports Workflow_Nodes Engine_Props
begin

text \<open>
  Properties of the workflow nodes and of the tool adapter that runs a published workflow.
\<close>

section \<open>Reading variables\<close>

lemma extract_variables_keys:
  "extract_variables tf res vs acc = Inr d \<Longrightarrow> set (dkeys d) = set (dkeys acc) \<union> var_name ` set vs"
  by (induction vs arbitrary: acc) (auto split: sum.splits)

lemma extract_variables_get:
  assumes "extract_variables tf res vs acc = Inr d" and "distinct (map var_name vs)"
    and "v \<in> set vs"
  shows "\<exists>x. extract_variable tf res v = Inr x \<and> dget d (var_name v) = Some x"
  using assms
proof (induction vs arbitrary: acc)
  case (Cons u vs)
  from Cons.prems(1) obtain x where x: "extract_variable tf res u = Inr x"
    "extract_variables tf res vs (dset (var_name u) x acc) = Inr d" by (auto split: sum.splits)
  have keep: "dget d k = dget acc' k"
    if "extract_variables tf res vs acc' = Inr d" "k \<notin> var_name ` set vs" for acc' k
    using that by (induction vs arbitrary: acc') (auto split: sum.splits)
  show ?case
  proof (cases "v = u")
    case True
    with keep [OF x(2), of "var_name u"] Cons.prems(2) x show ?thesis by auto
  next
    case False
    with Cons.IH [OF x(2)] Cons.prems show ?thesis by simp
  qed
qed simp

section \<open>The start node\<close>

lemma start_outputs_missing:
  "(\<exists>v \<in> set vs. var_required v \<and> opt_none (dget given (var_name v)) = PNone) \<longleftrightarrow>
     (\<exists>e. start_outputs given vs acc = Inl e)"
  by (induction vs arbitrary: acc) (auto simp: Let_def)

definition given_or_default :: "pyval dict \<Rightarrow> var_entity \<Rightarrow> pyval" where
  "given_or_default given v =
     (let x = opt_none (dget given (var_name v)) in
      if x = PNone then variable_type_default (var_type v) else x)"

lemma start_outputs_Cons:
  "start_outputs given (v # vs) acc = Inr out \<Longrightarrow>
     start_outputs given vs (dset (var_name v) (given_or_default given v) acc) = Inr out"
  by (simp add: Let_def given_or_default_def split: if_splits)

lemma start_outputs_keep:
  "start_outputs given vs acc = Inr out \<Longrightarrow> k \<notin> var_name ` set vs \<Longrightarrow> dget out k = dget acc k"
proof (induction vs arbitrary: acc)
  case (Cons v vs)
  from Cons.IH [OF start_outputs_Cons [OF Cons.prems(1)]] Cons.prems(2) show ?case by simp
qed simp

lemma start_outputs_get:
  "start_outputs given vs acc = Inr out \<Longrightarrow> distinct (map var_name vs) \<Longrightarrow> v \<in> set vs \<Longrightarrow>
     dget out (var_name v) = Some (given_or_default given v)"
proof (induction vs arbitrary: acc)
  case (Cons u vs)
  note step = start_outputs_Cons [OF Cons.prems(1)]
  from Cons.IH [OF step] start_outputs_keep [OF step, of "var_name u"] Cons.prems(2,3)
  show ?case by auto
qed simp

text \<open>
  The start node fails exactly when a required input is missing or \<^verbatim>\<open>None\<close>; otherwise every
  declared variable has its given value or the default of its type.
\<close>

theorem start_node_spec:
  assumes "node_ty n = StartT" and "distinct (map var_name (inputs_field n))"
  shows "case start_invoke n \<lparr>ws_inputs = PDict given, ws_results = rs\<rparr> of
      Inl _ \<Rightarrow> \<exists>v \<in> set (inputs_field n). var_required v \<and> opt_none (dget given (var_name v)) = PNone
    | Inr res \<Rightarrow> (\<exists>r. res = [r] \<and> nr_node r = n \<and> (\<forall>v \<in> set (inputs_field n).
        dget (nr_outputs r) (var_name v) = Some (given_or_default given v)))"
proof -
  have ins: "inputs_of n = Inr (inputs_field n)"
    using assms(1) by (simp add: inputs_of_def has_inputs_def)
  show ?thesis
  proof (cases "start_outputs given (inputs_field n) []")
    case (Inl e)
    with start_outputs_missing [of "inputs_field n" given "[]"] ins show ?thesis
      by (auto simp: start_invoke_def)
  next
    case (Inr out)
    then show ?thesis
      using start_outputs_get [OF Inr assms(2)] ins by (simp add: start_invoke_def)
  qed
qed

section \<open>Conditions\<close>

text \<open>
  The negated text operators are the negations of the plain ones on every value, the two
  emptiness tests exclude each other, and a condition list is the conjunction or disjunction of its
  members, with the empty list true under both.
\<close>

lemma condition_operators:
  "evaluate_single_condition fo v NotEquals c = (\<not> evaluate_single_condition fo v Equals c) \<and>
   evaluate_single_condition fo v NotContains c = (\<not> evaluate_single_condition fo v Contains c) \<and>
   evaluate_single_condition fo v IsNotEmpty c = (\<not> evaluate_single_condition fo v IsEmpty c) \<and>
   evaluate_conditions fo [] op ins \<and>
   evaluate_conditions fo (d # ds) AndOp ins =
     (evaluate_conditions fo [d] AndOp ins \<and> evaluate_conditions fo ds AndOp ins) \<and>
   evaluate_conditions fo (d # d' # ds) OrOp ins =
     (evaluate_conditions fo [d] OrOp ins \<or> evaluate_conditions fo (d' # ds) OrOp ins)"
  by (simp add: evaluate_single_condition_def evaluate_conditions_def Let_def)

section \<open>Nested graphs\<close>

lemma construct_config_no_name:
  "dget kwargs ''name'' = None \<Longrightarrow> construct_config mk_node mk_edge kwargs = Inl (ValidateError ''name'')"
  by (simp add: construct_config_def validate_workflow_config_def check_name_def)

text \<open>
  The body of an iteration never runs: the inner configuration is built without a name, its
  validation fails, and every round yields the empty output.
\<close>

theorem iteration_body_never_runs:
  "execute_iteration_body mk_node mk_edge exec sched own d item index st = []"
  by (simp add: execute_iteration_body_def construct_config_no_name)

text \<open>
  A sub-workflow node never returns a value of the workflow it calls: whatever graph is stored,
  each declared output is \<^verbatim>\<open>None\<close>.
\<close>

theorem sub_workflow_always_empty:
  "execute_sub_workflow mk_node mk_edge exec sched own graph outs inputs = empty_outputs outs"
  by (auto simp: execute_sub_workflow_def construct_config_no_name Let_def split: option.split)

section \<open>Key-value text\<close>

definition kv_clean :: "string \<Rightarrow> bool" where
  "kv_clean s = (s \<noteq> [] \<and> list_all (\<lambda>c. ident_char c) s)"

definition render_kv :: "(string \<times> string) list \<Rightarrow> string" where
  "render_kv kvs = join ''&'' (map (\<lambda>(k, v). k @ ''='' @ v) kvs)"

lemma ident_char_not:
  assumes "ident_char c"
  shows "\<not> kv_separator c" "c \<noteq> CHR ''=''" "c \<noteq> CHR '':''" "\<not> py_space c" "c \<noteq> CHR 0x22" "c \<noteq> CHR 0x27"
proof -
  from assms have "char_code c \<in> {48..57} \<union> {65..90} \<union> {97..122} \<union> {95}"
    by (auto simp: ident_char_def ident_start_def is_letter_def is_digit_def char_code_def)
  moreover have "c = char_of (char_code c)" by (simp add: char_code_def)
  ultimately show "\<not> kv_separator c" "c \<noteq> CHR ''=''" "c \<noteq> CHR '':''" "\<not> py_space c"
    "c \<noteq> CHR 0x22" "c \<noteq> CHR 0x27"
    by (auto simp: kv_separator_def py_space_def char_code_def Let_def)
qed

lemma strip_clean:
  assumes "list_all (\<lambda>c. \<not> py_space c) s"
  shows "strip s = s"
proof (cases "s = []")
  case False
  then have "\<not> py_space (hd s)" "\<not> py_space (last s)"
    using assms by (simp_all add: list_all_iff)
  then show ?thesis
    by (simp add: strip_def lstrip_def rstrip_def dropWhile_hd hd_rev)
qed (simp add: strip_def lstrip_def rstrip_def)

lemma strip_char_clean: "list_all (\<lambda>c. c \<noteq> q) s \<Longrightarrow> strip_char q s = s"
proof (cases "s = []")
  case False
  assume "list_all (\<lambda>c. c \<noteq> q) s"
  with False have "hd s \<noteq> q" "last s \<noteq> q" by (simp_all add: list_all_iff)
  then show ?thesis by (simp add: strip_char_def dropWhile_hd hd_rev)
qed (simp add: strip_char_def)

lemma split_seps_plain:
  "list_all (\<lambda>c. \<not> kv_separator c) s \<Longrightarrow> split_seps cur s = [cur @ s]"
  by (induction s arbitrary: cur) auto

lemma split_seps_amp:
  assumes "list_all (\<lambda>c. \<not> kv_separator c) s" and "r \<noteq> []" and "\<not> kv_separator (hd r)"
  shows "split_seps cur (s @ CHR ''&'' # r) = (cur @ s) # split_seps [] r"
  using assms(1)
proof (induction s arbitrary: cur)
  case Nil
  with assms(2,3) show ?case by (simp add: kv_separator_def)
qed auto

lemma parse_segment_kv:
  assumes "kv_clean k" and "kv_clean v"
  shows "parse_segment (k @ ''='' @ v) = Some (k, v)"
proof -
  note cl = assms [unfolded kv_clean_def list_all_iff]
  have "\<not> py_space (CHR ''='')" by (simp add: py_space_def char_code_def)
  then have "strip (k @ ''='' @ v) = k @ CHR ''='' # v"
    using cl ident_char_not(4) by (subst strip_clean) (auto simp: list_all_iff)
  moreover have "strip k = k" "strip v = v"
    using cl ident_char_not(4) by (auto intro!: strip_clean simp: list_all_iff)
  moreover have "strip_char (CHR 0x22) v = v" "strip_char (CHR 0x27) v = v"
    using cl ident_char_not(5,6) by (auto intro!: strip_char_clean simp: list_all_iff)
  moreover have "CHR ''='' \<notin> set k" using cl ident_char_not(2) by blast
  ultimately show ?thesis by (simp add: parse_segment_def clean_value_def Let_def)
qed

lemma parse_segments_kvs:
  "list_all (\<lambda>(k, v). kv_clean k \<and> kv_clean v) kvs \<Longrightarrow>
     parse_segments (map (\<lambda>(k, v). k @ ''='' @ v) kvs) m =
       fold (\<lambda>(k, v). dset k (PStr v)) kvs m"
proof (induction kvs arbitrary: m)
  case (Cons kv kvs)
  then show ?case by (cases kv) (simp add: parse_segment_kv [simplified])
qed simp

lemma split_seps_kvs:
  assumes "kvs \<noteq> []" and "list_all (\<lambda>(k, v). kv_clean k \<and> kv_clean v) kvs"
  shows "split_seps [] (render_kv kvs) = map (\<lambda>(k, v). k @ ''='' @ v) kvs"
  using assms
proof (induction kvs)
  case (Cons kv kvs)
  obtain k v where kv: "kv = (k, v)" by (cases kv)
  with Cons.prems have clean: "kv_clean k" "kv_clean v" by simp_all
  have seg: "list_all (\<lambda>c. \<not> kv_separator c) (k @ ''='' @ v)"
    using clean ident_char_not(1)
    by (auto simp: kv_clean_def list_all_iff kv_separator_def char_code_def)
  show ?case
  proof (cases kvs)
    case Nil
    with kv split_seps_plain [OF seg, of "[]"] show ?thesis by (simp add: render_kv_def)
  next
    case (Cons kv' kvs')
    obtain k' v' where kv': "kv' = (k', v')" by (cases kv')
    with Cons Cons.prems have "kv_clean k'" by simp
    then have head: "render_kv kvs \<noteq> []" "\<not> kv_separator (hd (render_kv kvs))"
      using Cons kv' ident_char_not(1)
      by (cases kvs'; cases k'; auto simp: render_kv_def kv_clean_def)+
    have "render_kv (kv # kvs) = (k @ ''='' @ v) @ CHR ''&'' # render_kv kvs"
      using Cons kv by (simp add: render_kv_def)
    with split_seps_amp [OF seg head, of "[]"] Cons.IH Cons.prems Cons kv show ?thesis by simp
  qed
qed simp

text \<open>
  Printing pairs as \<open>key=value&...\<close> and parsing them back gives the dictionary with the pairs
  written in order, for keys and values made of letters, digits and underscores.
\<close>

theorem parse_key_value_roundtrip:
  assumes "kvs \<noteq> []" and "list_all (\<lambda>(k, v). kv_clean k \<and> kv_clean v) kvs"
  shows "parse_key_value (render_kv kvs) = fold (\<lambda>(k, v). dset k (PStr v)) kvs []"
  using split_seps_kvs [OF assms] parse_segments_kvs [OF assms(2)]
  by (simp add: parse_key_value_def)

theorem parse_key_value_roundtrip_witness:
  "parse_key_value (render_kv [(''a'', ''1''), (''b_2'', ''xy''), (''a'', ''3'')]) =
     [(''a'', PStr ''3''), (''b_2'', PStr ''xy'')]"
proof -
  have "list_all (\<lambda>(k, v). kv_clean k \<and> kv_clean v) [(''a'', ''1''), (''b_2'', ''xy''), (''a'', ''3'')]"
    by code_simp
  from parse_key_value_roundtrip [OF _ this] show ?thesis by simp
qed

theorem start_node_spec_witness:
  "\<exists>r. start_invoke (demo_node ''s'' StartT [demo_var ''q'' GeneratedVT (ContentVal PNone)] [])
      \<lparr>ws_inputs = PDict [(''q'', PStr ''hi'')], ws_results = []\<rparr> = Inr [r] \<and>
    dget (nr_outputs r) ''q'' = Some (PStr ''hi'')"
  using start_node_spec [of "demo_node ''s'' StartT [demo_var ''q'' GeneratedVT (ContentVal PNone)] []"
      "[(''q'', PStr ''hi'')]" "[]"]
  by (auto simp: demo_node_def demo_var_def given_or_default_def Let_def split: sum.splits)

section \<open>The tool adapter\<close>

lemma real_executor_keeps: "keeps_inputs (real_node_executor invoke)"
  by (auto simp: keeps_inputs_def real_node_executor_def Let_def split: sum.split)

text \<open>
  Running an accepted workflow as a tool always returns a dictionary, whatever its nodes do:
  no exception of a node reaches the caller.
\<close>

theorem tool_run_total:
  assumes "wf_config cfg" and "start_ok cfg"
  shows "\<exists>out. tool_run invoke sched cfg kwargs = Inr out"
proof -
  obtain st P where "execute (real_node_executor invoke) sched (new_engine cfg) kwargs new_pool [] =
      end_run (None, st)" "run_inv (new_engine cfg) P st"
    using execute_config [OF assms real_executor_keeps] by metis
  then show ?thesis by (simp add: tool_run_def end_run_def)
qed

definition demo_invoke :: "node \<Rightarrow> wf_state \<Rightarrow> var_pool \<Rightarrow> exn + node_result list" where
  "demo_invoke n st pool =
     (if node_ty n = StartT then start_invoke n st
      else if node_ty n = EndT then end_invoke (\<lambda>v. Inr v) n st
      else if node_id n = ''b'' then Inl (UserError ''boom'')
      else Inr [\<lparr>nr_node = n, nr_inputs = [], nr_outputs = [(''o'', PStr ''ok'')]\<rparr>])"

theorem tool_run_total_witness:
  "\<exists>out. tool_run demo_invoke (\<lambda>ids. ids) demo_cfg [(''q'', PStr ''hi'')] = Inr out"
  by (rule tool_run_total [OF demo_wf demo_start])

end
