(* ===== verification/Py_Float.thy ===== *)
theory Py_Float
  imports Complex_Main
begin

text \<open>
  Python's floats as the rationals they denote: every operation gives the exact result rounded to
  the nearest multiple of the unit in the last place, ties to even (IEEE 754 binary64).  Overflow
  to infinity, signed zero and NaN are not represented; the billing code stays far below
  \<open>2 ^ 1024\<close>.  The billing proofs use only the laws of the locale \<open>rounding\<close>, which the concrete
  \<open>rnd\<close> is shown to satisfy.
\<close>

section \<open>Rounding to an integer, ties to even\<close>

definition round_half_even :: "rat \<Rightarrow> int" where
  "round_half_even x =
     (let f = \<lfloor>x\<rfloor>; d = x - of_int f in
      if d < 1 / 2 then f else if d > 1 / 2 then f + 1 else if even f then f else f + 1)"

lemma round_half_even_int [simp]: "round_half_even (of_int n) = n"
  by (simp add: round_half_even_def Let_def)

lemma round_half_even_bounds:
  "of_int (round_half_even x) \<le> x + 1 / 2" "x - 1 / 2 \<le> of_int (round_half_even x)"
  by (auto simp: round_half_even_def Let_def) linarith+

lemma round_half_even_ge: "of_int n \<le> x \<Longrightarrow> n \<le> round_half_even x"
proof -
  assume "of_int n \<le> x"
  then have "n \<le> \<lfloor>x\<rfloor>" by (simp add: le_floor_iff)
  then show ?thesis by (auto simp: round_half_even_def Let_def)
qed

lemma round_half_even_le: "x \<le> of_int n \<Longrightarrow> round_half_even x \<le> n"
proof -
  assume x: "x \<le> of_int n"
  then have f: "\<lfloor>x\<rfloor> \<le> n" by linarith
  show ?thesis
  proof (cases "\<lfloor>x\<rfloor> = n")
    case True
    with x have "x = of_int n" by linarith
    then show ?thesis by simp
  next
    case False
    with f show ?thesis by (auto simp: round_half_even_def Let_def)
  qed
qed

lemma round_half_even_mono: "x \<le> y \<Longrightarrow> round_half_even x \<le> round_half_even y"
proof -
  assume xy: "x \<le> y"
  then have f: "\<lfloor>x\<rfloor> \<le> \<lfloor>y\<rfloor>" by (rule floor_mono)
  show ?thesis
  proof (cases "\<lfloor>x\<rfloor> = \<lfloor>y\<rfloor>")
    case True
    with xy show ?thesis by (auto simp: round_half_even_def Let_def)
  next
    case False
    with f have "x \<le> of_int \<lfloor>y\<rfloor>" by linarith
    then have "round_half_even x \<le> \<lfloor>y\<rfloor>" by (rule round_half_even_le)
    also have "\<dots> \<le> round_half_even y" by (rule round_half_even_ge) simp
    finally show ?thesis .
  qed
qed

section \<open>The exponent\<close>

text \<open>The number of binary digits, and the exponent \<open>k\<close> with \<open>2 ^ k \<le> x < 2 ^ (k + 1)\<close>.\<close>

lemma powi_2_Ints: "0 \<le> k \<Longrightarrow> \<exists>n::int. (2::rat) powi k = of_int n"
  by (metis of_int_numeral of_int_power power_int_def)

function bits :: "int \<Rightarrow> int" where
  "bits n = (if n \<le> 0 then 0 else 1 + bits (n div 2))"
  by pat_completeness auto

termination
  by (relation "measure nat") auto

declare bits.simps [simp del]

lemma bits_bounds:
  "0 < n \<Longrightarrow> 2 powi (bits n - 1) \<le> (of_int n :: rat) \<and> of_int n < (2 powi (bits n) :: rat) \<and> 0 < bits n"
proof (induction n rule: bits.induct)
  case (1 n)
  show ?case
  proof (cases "n = 1")
    case True
    then show ?thesis by (simp add: bits.simps [of 1] bits.simps [of 0])
  next
    case False
    with 1 have h: "\<not> n \<le> 0" "0 < n div 2" by simp_all
    note IH = 1(1) [OF h]
    have b: "bits n = 1 + bits (n div 2)" using h(1) bits.simps [of n] by metis
    have two: "(2::rat) powi (bits n - 1) = 2 * 2 powi (bits (n div 2) - 1)"
      "(2::rat) powi (bits n) = 2 * 2 powi (bits (n div 2))"
      using power_int_add [of "2::rat" 1 "bits (n div 2) - 1"] power_int_add [of "2::rat" 1 "bits (n div 2)"]
      by (simp_all add: b)
    have n: "2 * (n div 2) \<le> n" "n \<le> 2 * (n div 2) + 1" by simp_all
    obtain k where k: "(2::rat) powi (bits (n div 2)) = of_int k"
      using IH powi_2_Ints [of "bits (n div 2)"] by auto
    have "n div 2 < k" using IH by (simp add: k)
    then have "n < 2 * k" using n(2) by linarith
    then have u: "(of_int n :: rat) < 2 * of_int k" by linarith
    have l: "2 * (of_int (n div 2) :: rat) \<le> of_int n" using n(1) by linarith
    show ?thesis
      using IH u l two(1) unfolding two(2) k by (intro conjI) (linarith | simp add: b)+
  qed
qed

definition expo :: "rat \<Rightarrow> int" where
  "expo x =
     (case quotient_of x of (p, q) \<Rightarrow>
       (let e = bits p - bits q in
        if 2 powi e \<le> x then e else e - 1))"

lemma expo_bounds:
  assumes "0 < x"
  shows "2 powi (expo x) \<le> x" and "x < 2 powi (expo x + 1)"
proof -
  obtain p q where pq: "quotient_of x = (p, q)" by (cases "quotient_of x")
  have q: "0 < q" using quotient_of_denom_pos [OF pq] .
  have x: "x = of_int p / of_int q" using quotient_of_div [OF pq] .
  with assms q have p: "0 < p" by (simp add: zero_less_divide_iff)
  define a b where "a = bits p" and "b = bits q"
  note pa = bits_bounds [OF p, folded a_def] and qb = bits_bounds [OF q, folded b_def]
  have q0: "(0::rat) < of_int q" using q by simp
  let ?e = "a - b"
  have up: "x < 2 powi (?e + 1)"
  proof -
    have "2 powi a = 2 powi (?e + 1) * (2 powi (b - 1) :: rat)"
      by (simp flip: power_int_add)
    also have "\<dots> \<le> 2 powi (?e + 1) * of_int q"
      using qb by (intro mult_left_mono) simp_all
    finally have "of_int p < 2 powi (?e + 1) * (of_int q :: rat)" using pa by linarith
    then show ?thesis using q0 by (simp add: x divide_less_eq)
  qed
  have low: "2 powi (?e - 1) \<le> x"
  proof -
    have "2 powi (?e - 1) * of_int q \<le> 2 powi (?e - 1) * (2 powi b :: rat)"
      using qb by (intro mult_left_mono) simp_all
    also have "\<dots> = 2 powi (a - 1)"
      using power_int_add [of "2 :: rat" "?e - 1" b] by simp
    finally have "2 powi (?e - 1) * of_int q \<le> (of_int p :: rat)" using pa by linarith
    then show ?thesis using q0 by (simp add: x le_divide_eq)
  qed
  have e: "expo x = (if 2 powi ?e \<le> x then ?e else ?e - 1)"
    by (simp add: expo_def pq a_def b_def Let_def)
  show "2 powi (expo x) \<le> x" using e low by simp
  show "x < 2 powi (expo x + 1)" using e up by simp
qed

lemma expo_mono: "0 < x \<Longrightarrow> x \<le> y \<Longrightarrow> expo x \<le> expo y"
proof (rule ccontr)
  assume xy: "0 < x" "x \<le> y" and "\<not> expo x \<le> expo y"
  then have "(2::rat) powi (expo y + 1) \<le> 2 powi (expo x)"
    by (intro power_int_increasing) simp_all
  with expo_bounds [of x] expo_bounds [of y] xy show False by linarith
qed

section \<open>Rounding to a float\<close>

definition ulp_exp :: "rat \<Rightarrow> int" where
  "ulp_exp x = max (expo x - 52) (-1074)"

definition rnd_pos :: "rat \<Rightarrow> rat" where
  "rnd_pos x = of_int (round_half_even (x / 2 powi (ulp_exp x))) * 2 powi (ulp_exp x)"

definition rnd :: "rat \<Rightarrow> rat" where
  "rnd x = (if x = 0 then 0 else if x < 0 then - rnd_pos (- x) else rnd_pos x)"

lemma rnd_0 [simp]: "rnd 0 = 0"
  by (simp add: rnd_def)

lemma rnd_pos_ge_0: "0 < x \<Longrightarrow> 0 \<le> rnd_pos x"
proof -
  assume "0 < x"
  then have "0 \<le> round_half_even (x / 2 powi (ulp_exp x))"
    by (intro round_half_even_ge) simp
  then show ?thesis by (simp add: rnd_pos_def)
qed

lemma rnd_pos_mono:
  assumes "0 < x" and "x \<le> y"
  shows "rnd_pos x \<le> rnd_pos y"
proof (cases "ulp_exp x = ulp_exp y")
  case True
  then show ?thesis
    using round_half_even_mono [of "x / 2 powi ulp_exp y" "y / 2 powi ulp_exp y"] assms(2)
    by (simp add: rnd_pos_def divide_right_mono)
next
  case False
  have ex: "expo x \<le> expo y" using expo_mono assms by blast
  with False have lt: "ulp_exp x < ulp_exp y" "expo x < expo y"
    by (auto simp: ulp_exp_def split: if_splits)
  let ?k = "expo y"
  have y0: "0 < y" using assms by simp
  have "x < 2 powi (expo x + 1)" using expo_bounds(2) [OF assms(1)] .
  also have "\<dots> \<le> (2::rat) powi ?k" using lt(2) by (intro power_int_increasing) simp_all
  finally have xk: "x \<le> 2 powi ?k" by simp
  have uy: "ulp_exp y \<le> ?k" "ulp_exp x \<le> ?k"
    using lt by (auto simp: ulp_exp_def)
  obtain n where n: "(2::rat) powi (?k - ulp_exp x) = of_int n" using powi_2_Ints uy by (metis diff_ge_0_iff_ge)
  have "x / 2 powi ulp_exp x \<le> of_int n"
    using xk by (simp add: n [symmetric] power_int_diff divide_right_mono)
  then have "round_half_even (x / 2 powi ulp_exp x) \<le> n" by (rule round_half_even_le)
  then have "rnd_pos x \<le> of_int n * 2 powi ulp_exp x"
    by (simp add: rnd_pos_def)
  also have "\<dots> = 2 powi ?k" by (simp flip: n power_int_add)
  finally have 1: "rnd_pos x \<le> 2 powi ?k" .
  obtain m where m: "(2::rat) powi (?k - ulp_exp y) = of_int m" using powi_2_Ints uy by (metis diff_ge_0_iff_ge)
  have "of_int m \<le> y / 2 powi ulp_exp y"
    using expo_bounds(1) [OF y0] by (simp add: m [symmetric] power_int_diff divide_right_mono)
  then have "m \<le> round_half_even (y / 2 powi ulp_exp y)" by (rule round_half_even_ge)
  then have "of_int m * 2 powi ulp_exp y \<le> rnd_pos y"
    by (simp add: rnd_pos_def)
  moreover have "of_int m * 2 powi ulp_exp y = (2::rat) powi ?k" by (simp flip: m power_int_add)
  ultimately show ?thesis using 1 by linarith
qed

lemma rnd_mono: "x \<le> y \<Longrightarrow> rnd x \<le> rnd y"
proof -
  assume xy: "x \<le> y"
  consider "x < 0" "y < 0" | "x \<le> 0" "0 \<le> y" | "0 < x" "0 < y" using xy by linarith
  then show ?thesis
  proof cases
    case 1
    then show ?thesis using rnd_pos_mono [of "- y" "- x"] xy by (simp add: rnd_def)
  next
    case 2
    then show ?thesis
      using rnd_pos_ge_0 [of "- x"] rnd_pos_ge_0 [of y] by (auto simp: rnd_def)
  next
    case 3
    then show ?thesis using rnd_pos_mono xy by (simp add: rnd_def)
  qed
qed

lemma rnd_pos_int:
  assumes "0 < k" and "k < 2 ^ 53"
  shows "rnd_pos (of_int k) = of_int k"
proof -
  have k: "(of_int k :: rat) < 2 powi 53"
    using assms(2) by (metis of_int_less_iff of_int_numeral of_int_power power_int_numeral)
  have "expo (of_int k) \<le> 52"
  proof (rule ccontr)
    assume "\<not> expo (of_int k) \<le> 52"
    then have "(2::rat) powi 53 \<le> 2 powi expo (of_int k)"
      by (intro power_int_increasing) simp_all
    moreover have "2 powi expo (of_int k) \<le> (of_int k :: rat)"
      using assms(1) by (intro expo_bounds) simp
    ultimately show False using k by linarith
  qed
  then have u: "ulp_exp (of_int k) \<le> 0" by (simp add: ulp_exp_def)
  let ?u = "ulp_exp (of_int k)"
  obtain m where m: "(2::rat) powi (- ?u) = of_int m"
    using powi_2_Ints u by (metis neg_0_le_iff_le)
  have inv: "(2::rat) powi (- ?u) * 2 powi ?u = 1"
    by (simp add: power_int_minus)
  have "(of_int k :: rat) / 2 powi ?u = of_int (k * m)"
    using m by (simp add: power_int_minus divide_inverse)
  then have "rnd_pos (of_int k) = of_int (k * m) * 2 powi ?u"
    unfolding rnd_pos_def by (metis round_half_even_int)
  also have "\<dots> = of_int k * (2 powi (- ?u) * 2 powi ?u)" by (simp add: m)
  finally show ?thesis by (simp add: inv)
qed

lemma rnd_int: "\<bar>n\<bar> < 2 ^ 53 \<Longrightarrow> rnd (of_int n) = of_int n"
  using rnd_pos_int [of n] rnd_pos_int [of "- n"] by (auto simp: rnd_def)

text \<open>Rounding does not cross a power of two that is a float.\<close>

lemma rnd_ge_power:
  assumes "- 1074 \<le> k" and "2 powi k \<le> x"
  shows "2 powi k \<le> rnd x"
proof -
  have "(0::rat) < 2 powi k" by simp
  with assms(2) have x0: "0 < x" by linarith
  let ?u = "ulp_exp x"
  have "(2::rat) powi k < 2 powi (expo x + 1)"
    using assms expo_bounds(2) [OF x0] by linarith
  then have k: "k \<le> expo x"
    using power_int_increasing [of "expo x + 1" k "2::rat"] by linarith
  with assms(1) have u: "0 \<le> expo x - ?u" by (auto simp: ulp_exp_def)
  obtain n where n: "(2::rat) powi (expo x - ?u) = of_int n" using powi_2_Ints u by metis
  have "of_int n \<le> x / 2 powi ?u"
    using expo_bounds(1) [OF x0] by (simp add: n [symmetric] power_int_diff divide_right_mono)
  then have "n \<le> round_half_even (x / 2 powi ?u)" by (rule round_half_even_ge)
  then have "of_int n * 2 powi ?u \<le> rnd_pos x" by (simp add: rnd_pos_def)
  moreover have "of_int n * 2 powi ?u = (2::rat) powi expo x" by (simp flip: n power_int_add)
  moreover have "(2::rat) powi k \<le> 2 powi expo x" using k by (intro power_int_increasing) simp_all
  ultimately show ?thesis using x0 by (simp add: rnd_def)
qed

lemma rnd_1 [simp]: "rnd 1 = 1"
  using rnd_int [of 1] by simp

section \<open>The laws of rounding\<close>

text \<open>
  What the billing proofs rely on: rounding is monotone and fixes the integers a float can hold.
\<close>

locale rounding =
  fixes fl :: "rat \<Rightarrow> rat"
  assumes fl_mono: "\<forall>x y. x \<le> y \<longrightarrow> fl x \<le> fl y"
    and fl_int: "\<forall>n. \<bar>n\<bar> < 2 ^ 53 \<longrightarrow> fl (of_int n) = of_int n"
    and fl_power: "\<forall>k x. - 1074 \<le> k \<and> 2 powi k \<le> x \<longrightarrow> 2 powi k \<le> fl x"
begin

lemma fl_le [intro]: "x \<le> y \<Longrightarrow> fl x \<le> fl y"
  using fl_mono by blast

lemma fl_zero [simp]: "fl 0 = 0"
  using fl_int [rule_format, of 0] by simp

lemma fl_nonneg [intro]: "0 \<le> x \<Longrightarrow> 0 \<le> fl x"
  using fl_le [of 0 x] by simp

lemma fl_nonpos [intro]: "x \<le> 0 \<Longrightarrow> fl x \<le> 0"
  using fl_le [of x 0] by simp

text \<open>The smallest positive amount of a database column stays positive.\<close>

lemma fl_micro: "1 / 1000000 \<le> x \<Longrightarrow> 2 powi (- 20) \<le> fl x"
proof -
  assume x: "1 / 1000000 \<le> x"
  have "(2::rat) powi (- 20) \<le> 1 / 1000000" by (simp add: power_int_minus)
  with x have "(2::rat) powi (- 20) \<le> x" by linarith
  then show ?thesis using fl_power [rule_format, of "- 20" x] by simp
qed

lemma fl_mult_mono:
  "a \<le> a' \<Longrightarrow> b \<le> b' \<Longrightarrow> 0 \<le> b \<Longrightarrow> 0 \<le> a' \<Longrightarrow> fl (a * b) \<le> fl (a' * b')"
  by (rule fl_le) (rule mult_mono)

lemma fl_add_mono: "a \<le> a' \<Longrightarrow> b \<le> b' \<Longrightarrow> fl (a + b) \<le> fl (a' + b')"
  by (rule fl_le) (rule add_mono)

end

interpretation ieee: rounding rnd
  by unfold_locales (use rnd_mono rnd_int rnd_ge_power in blast)+

end
