(* ===== verification/Pricing_Engine.thy ===== *)
theory Pricing_Engine
  imports Retry Py_Float "HOL-Library.List_Lexorder" "HOL-Library.Char_ord"
begin

text \<open>
  The pricing engine (\<^verbatim>\<open>core/billing/pricing_engine.py\<close>): peak and valley tiers from a list of time
  windows, the price columns of a model, and the credits one use of the model costs.  Columns are
  \<^verbatim>\<open>Numeric\<close> in the database, that is exact rationals; the engine converts them to floats and rounds
  after every operation.  Parameters: the local time of an instant in a time zone, the text of a
  number, and the answers of the database.
\<close>

section \<open>Numbers\<close>

text \<open>A Python number; an operation on two ints is exact, any other goes through floats.\<close>

datatype pynum = NInt int | NFloat rat

fun to_float :: "pynum \<Rightarrow> rat" where
  "to_float (NInt n) = rnd (of_int n)"
| "to_float (NFloat x) = x"

fun num_mult :: "pynum \<Rightarrow> pynum \<Rightarrow> pynum" where
  "num_mult (NInt a) (NInt b) = NInt (a * b)"
| "num_mult a b = NFloat (rnd (to_float a * to_float b))"

text \<open>True division of two ints is the correctly rounded quotient.\<close>

fun num_div :: "pynum \<Rightarrow> int \<Rightarrow> pynum" where
  "num_div (NInt a) n = NFloat (rnd (of_int a / of_int n))"
| "num_div (NFloat x) n = NFloat (rnd (x / rnd (of_int n)))"

fun num_ceil :: "pynum \<Rightarrow> int" where
  "num_ceil (NInt a) = a"
| "num_ceil (NFloat x) = \<lceil>x\<rceil>"

fun num_zero :: "pynum \<Rightarrow> bool" where
  "num_zero (NInt a) = (a = 0)"
| "num_zero (NFloat x) = (x = 0)"

section \<open>Days and tiers\<close>

definition in_days_part :: "string \<Rightarrow> string \<Rightarrow> bool" where
  "in_days_part weekday p =
     (let part = strip p in
      if CHR ''-'' \<in> set part then
        (case split_first CHR ''-'' part of
           (a, Some b) \<Rightarrow>
             (case (int_of_text a, int_of_text weekday, int_of_text b) of
                (Some x, Some w, Some y) \<Rightarrow> x \<le> w \<and> w \<le> y
              | _ \<Rightarrow> False)
         | (_, None) \<Rightarrow> False)
      else part = weekday)"

definition in_days :: "string \<Rightarrow> string \<Rightarrow> bool" where
  "in_days spec weekday = list_ex (in_days_part weekday) (split_on CHR '','' spec)"

text \<open>\<open>f"{n:02d}"\<close> for a number below 100, and \<open>str(win.get(key, "") or "")\<close>.\<close>

definition two_digits :: "nat \<Rightarrow> string" where
  "two_digits n = [digit_char (n div 10), digit_char (n mod 10)]"

definition window_text :: "pyval dict \<Rightarrow> string \<Rightarrow> string" where
  "window_text win key =
     (let v = dget_or win key (PStr []) in if truthy v then py_str v else [])"

definition window_hit :: "string \<Rightarrow> string \<Rightarrow> pyval \<Rightarrow> bool" where
  "window_hit hhmm weekday win =
     (case win of
        PDict d \<Rightarrow>
          (let days = window_text d ''days'';
               start = window_text d ''start'';
               end_text = window_text d ''end'' in
           if days = [] \<or> start = [] \<or> end_text = [] then False
           else if \<not> in_days days weekday then False
           else if start \<le> end_text then start \<le> hhmm \<and> hhmm \<le> end_text
           else start \<le> hhmm \<or> hhmm \<le> end_text)
      | _ \<Rightarrow> False)"

datatype tier = Peak | Valley

text \<open>
  \<open>local_time tz moment\<close> is the hour, minute and weekday of the instant in the zone, or \<open>None\<close> when
  the conversion raises (an unknown zone).
\<close>

type_synonym clock = "string \<Rightarrow> int \<Rightarrow> (nat \<times> nat \<times> nat) option"

definition resolve_price_tier ::
  "clock \<Rightarrow> int \<Rightarrow> int option \<Rightarrow> pyval list \<Rightarrow> string \<Rightarrow> bool \<Rightarrow> tier option" where
  "resolve_price_tier local_time now moment windows tz_name enabled =
     (if \<not> enabled \<or> windows = [] then None
      else
        (let m = (case moment of None \<Rightarrow> now | Some m \<Rightarrow> m);
             tz = (if tz_name = [] then ''Asia/Shanghai'' else tz_name) in
         case local_time tz m of
           None \<Rightarrow> None
         | Some (hour, minute, weekday) \<Rightarrow>
             (let hhmm = two_digits hour @ '':'' @ two_digits minute in
              if list_ex (window_hit hhmm (nat_str weekday)) windows then Some Peak
              else Some Valley)))"

section \<open>The database\<close>

record model_row =
  peak_valley_enabled :: bool
  cache_pricing_enabled :: bool
  peak_windows :: "pyval list"
  columns :: "(string \<times> rat) list"

record config_row =
  value_numeric :: "rat option"
  value_text :: "string option"

datatype model_key = ById int | ByName string

text \<open>
  What opening a savepoint does: the session has none, opening raises, or it opens and closing it
  succeeds or raises.
\<close>

datatype savepoint = NoSavepoint | BeginRaises | Nested bool

record pricing_db =
  db_savepoint :: savepoint
  config_query :: "string \<Rightarrow> exn + config_row option"
  model_query :: "model_key \<Rightarrow> exn + model_row option"

definition query_within_savepoint :: "savepoint \<Rightarrow> exn + 'r option \<Rightarrow> 'r option" where
  "query_within_savepoint sp answer =
     (let found = (case answer of Inl _ \<Rightarrow> None | Inr r \<Rightarrow> r) in
      case sp of
        NoSavepoint \<Rightarrow> found
      | BeginRaises \<Rightarrow> found
      | Nested released \<Rightarrow> (if released then found else None))"

text \<open>The engine; \<open>session\<close> is \<open>None\<close> when no session can be bound.\<close>

record pricing_engine =
  session :: "pricing_db option"
  configs :: "(string \<times> pynum) list"

definition read_config_row :: "pricing_db \<Rightarrow> string \<Rightarrow> config_row option" where
  "read_config_row db code = query_within_savepoint (db_savepoint db) (config_query db code)"

definition config :: "pricing_engine \<Rightarrow> string \<Rightarrow> int \<Rightarrow> pynum" where
  "config e code dflt =
     (case dget (configs e) code of
        Some v \<Rightarrow> NFloat (to_float (if num_zero v then NInt dflt else v))
      | None \<Rightarrow>
          (case session e of
             None \<Rightarrow> NInt dflt
           | Some db \<Rightarrow>
               (case read_config_row db code of
                  None \<Rightarrow> NInt dflt
                | Some row \<Rightarrow>
                    (case value_numeric row of
                       None \<Rightarrow> NInt dflt
                     | Some x \<Rightarrow> if x = 0 then NInt dflt else NFloat (rnd x)))))"

definition row_text :: "(rat \<Rightarrow> string) \<Rightarrow> string \<Rightarrow> config_row \<Rightarrow> string" where
  "row_text decimal_text dflt row =
     (case value_text row of
        Some (c # cs) \<Rightarrow> c # cs
      | _ \<Rightarrow>
          (case value_numeric row of
             None \<Rightarrow> dflt
           | Some x \<Rightarrow> if x = 0 then dflt else decimal_text x))"

definition config_text ::
  "(pynum \<Rightarrow> string) \<Rightarrow> (rat \<Rightarrow> string) \<Rightarrow> pricing_engine \<Rightarrow> string \<Rightarrow> string \<Rightarrow> string" where
  "config_text num_text decimal_text e code dflt =
     (case dget (configs e) code of
        Some v \<Rightarrow> if num_zero v then dflt else num_text v
      | None \<Rightarrow>
          (case session e of
             None \<Rightarrow> dflt
           | Some db \<Rightarrow>
               (case read_config_row db code of
                  None \<Rightarrow> dflt
                | Some row \<Rightarrow> row_text decimal_text dflt row)))"

subsection \<open>The model of an id\<close>

text \<open>
  \<^verbatim>\<open>uuid.UUID(text)\<close>: the markers, braces and hyphens are dropped, and 32 hexadecimal digits must
  remain.  (\<^verbatim>\<open>int(text, 16)\<close> also lets blanks, a sign, a prefix and underscores through.)
\<close>

function remove_all :: "string \<Rightarrow> string \<Rightarrow> string" where
  "remove_all p s =
     (case s of
        [] \<Rightarrow> []
      | c # t \<Rightarrow> if p \<noteq> [] \<and> starts_with s p then remove_all p (drop (length p) s) else c # remove_all p t)"
  by pat_completeness auto

termination
  by (relation "measure (\<lambda>(p, s). length s)") (auto split: list.splits)

declare remove_all.simps [simp del]

definition strip_chars :: "char set \<Rightarrow> string \<Rightarrow> string" where
  "strip_chars cs s = rev (dropWhile (\<lambda>c. c \<in> cs) (rev (dropWhile (\<lambda>c. c \<in> cs) s)))"

definition hex_value :: "char \<Rightarrow> nat option" where
  "hex_value c =
     (let n = char_code c in
      if 48 \<le> n \<and> n \<le> 57 then Some (n - 48)
      else if 65 \<le> n \<and> n \<le> 70 then Some (n - 55)
      else if 97 \<le> n \<and> n \<le> 102 then Some (n - 87)
      else None)"

fun hex_digits :: "string \<Rightarrow> nat \<Rightarrow> bool \<Rightarrow> nat option" where
  "hex_digits [] acc after_digit = (if after_digit then Some acc else None)"
| "hex_digits (c # s) acc after_digit =
     (if c = CHR ''_'' then (if after_digit then hex_digits s acc False else None)
      else (case hex_value c of None \<Rightarrow> None | Some v \<Rightarrow> hex_digits s (16 * acc + v) True))"

definition hex_int :: "string \<Rightarrow> int option" where
  "hex_int s =
     (let t = strip s;
          neg = (t \<noteq> [] \<and> hd t = CHR ''-'');
          u = (if t \<noteq> [] \<and> hd t \<in> {CHR ''-'', CHR ''+''} then tl t else t);
          v = (if starts_with u ''0x'' \<or> starts_with u ''0X'' then
                 (let w = drop 2 u in if w \<noteq> [] \<and> hd w = CHR ''_'' then tl w else w)
               else u)
      in map_option (\<lambda>n. if neg then - int n else int n) (hex_digits v 0 False))"

definition uuid_of_text :: "string \<Rightarrow> int option" where
  "uuid_of_text s =
     (let h = remove_all ''-''
               (strip_chars (set ''{}'') (remove_all ''uuid:'' (remove_all ''urn:'' s))) in
      if length h \<noteq> 32 then None
      else (case hex_int h of
          None \<Rightarrow> None
        | Some n \<Rightarrow> if 0 \<le> n \<and> n < 2 ^ 128 then Some n else None))"

definition query_model :: "pricing_db \<Rightarrow> model_key \<Rightarrow> model_row option" where
  "query_model db key = query_within_savepoint (db_savepoint db) (model_query db key)"

definition load_model :: "pricing_engine \<Rightarrow> string option \<Rightarrow> model_row option" where
  "load_model e model_id =
     (case model_id of
        None \<Rightarrow> None
      | Some i \<Rightarrow>
          if i = [] then None
          else (case session e of
             None \<Rightarrow> None
           | Some db \<Rightarrow>
               (case uuid_of_text i of
                  None \<Rightarrow> query_model db (ByName i)
                | Some n \<Rightarrow> query_model db (ById n))))"

section \<open>The plan of one use\<close>

datatype basis = GlobalRate | ModelPrice | ModelPriceTier

record billing_plan =
  sell_credits :: int
  cost_credits :: int
  margin_credits :: int
  billing_basis :: basis
  plan_input_tokens :: int
  plan_output_tokens :: int
  plan_cached_tokens :: int
  price_tier :: "tier option"
  sell_input :: rat
  sell_output :: rat
  sell_cached :: rat
  cost_input :: rat
  cost_output :: rat
  cost_cached :: rat

definition ceil_credits :: "int \<Rightarrow> pynum \<Rightarrow> int" where
  "ceil_credits total_tokens credits_per_1k =
     (if total_tokens \<le> 0 then 0
      else num_ceil (num_div (num_mult (NInt total_tokens) credits_per_1k) 1000))"

definition decimal_float :: "rat \<Rightarrow> rat" where
  "decimal_float x = rnd x"

definition column :: "model_row \<Rightarrow> string \<Rightarrow> rat" where
  "column m name = decimal_float (dget_or (columns m) name 0)"

definition or_else :: "rat \<Rightarrow> rat \<Rightarrow> rat" where
  "or_else a b = (if a \<noteq> 0 then a else b)"

text \<open>The columns of a model carry the tier as a prefix, \<open>side\<close> is \<open>price\<close> or \<open>cost\<close>.\<close>

definition column_name :: "string \<Rightarrow> string \<Rightarrow> string \<Rightarrow> string" where
  "column_name prefix axis side = prefix @ axis @ ''_'' @ side @ ''_per_1k_tokens''"

definition col_for_tier :: "model_row \<Rightarrow> bool \<Rightarrow> tier option \<Rightarrow> string \<Rightarrow> string \<Rightarrow> string \<Rightarrow> rat" where
  "col_for_tier m enabled_pv tier name_peak name_valley name_flat =
     (let flat = column m name_flat in
      if enabled_pv \<and> tier = Some Peak then or_else (column m name_peak) flat
      else if enabled_pv \<and> tier = Some Valley then or_else (column m name_valley) flat
      else flat)"

definition tier_column :: "model_row \<Rightarrow> tier option \<Rightarrow> string \<Rightarrow> string \<Rightarrow> rat" where
  "tier_column m tier axis side =
     col_for_tier m (peak_valley_enabled m) tier
       (column_name ''peak_'' axis side) (column_name ''valley_'' axis side) (column_name '''' axis side)"

text \<open>The three prices and the three costs a use is charged by, before the fallback test.\<close>

definition sell_prices :: "model_row \<Rightarrow> tier option \<Rightarrow> rat \<times> rat \<times> rat" where
  "sell_prices m tier =
     (let sell_in = tier_column m tier ''input'' ''price'';
          sell_out = tier_column m tier ''output'' ''price'';
          sell_c = tier_column m tier ''input_cached'' ''price'';
          base = column m ''price_per_1k_tokens'';
          sell_in = (if sell_in = 0 then base else sell_in);
          sell_out = (if sell_out = 0 then base else sell_out);
          sell_c = (if cache_pricing_enabled m \<and> sell_c \<le> 0 then sell_in else sell_c)
      in (sell_in, sell_out, sell_c))"

definition cost_prices :: "model_row \<Rightarrow> tier option \<Rightarrow> rat \<times> rat \<times> rat" where
  "cost_prices m tier =
     (let cost_in = tier_column m tier ''input'' ''cost'';
          cost_out = tier_column m tier ''output'' ''cost'';
          cost_c = tier_column m tier ''input_cached'' ''cost'';
          cost_c = (if cache_pricing_enabled m \<and> cost_c \<le> 0 then cost_in else cost_c)
      in (cost_in, cost_out, cost_c))"

text \<open>\<open>(i * p + c * q + o * r) / 1000\<close> on floats, then the credits it is worth.\<close>

definition amount_rmb :: "int \<Rightarrow> int \<Rightarrow> int \<Rightarrow> rat \<times> rat \<times> rat \<Rightarrow> rat" where
  "amount_rmb i c out prices =
     (case prices of (p_in, p_out, p_cached) \<Rightarrow>
       rnd (rnd (rnd (rnd (rnd (of_int i) * p_in) + rnd (rnd (of_int c) * p_cached))
             + rnd (rnd (of_int out) * p_out)) / 1000))"

definition charge :: "pynum \<Rightarrow> int \<Rightarrow> int \<Rightarrow> int \<Rightarrow> rat \<times> rat \<times> rat \<Rightarrow> int" where
  "charge credits_per_yuan i c out prices =
     num_ceil (num_mult (NFloat (amount_rmb i c out prices)) credits_per_yuan)"

definition fallback_plan :: "int \<Rightarrow> int \<Rightarrow> int \<Rightarrow> tier option \<Rightarrow> int \<Rightarrow> billing_plan" where
  "fallback_plan i c out tier credits =
     \<lparr>sell_credits = credits, cost_credits = 0, margin_credits = 0, billing_basis = GlobalRate,
      plan_input_tokens = i, plan_output_tokens = out, plan_cached_tokens = c, price_tier = tier,
      sell_input = 0, sell_output = 0, sell_cached = 0, cost_input = 0, cost_output = 0, cost_cached = 0\<rparr>"

definition priced_plan :: "model_row \<Rightarrow> pynum \<Rightarrow> int \<Rightarrow> int \<Rightarrow> int \<Rightarrow> tier option \<Rightarrow> billing_plan" where
  "priced_plan m credits_per_yuan i c out tier =
     (let sells = sell_prices m tier;
          costs = cost_prices m tier;
          sell = charge credits_per_yuan i c out sells;
          cost = charge credits_per_yuan i c out costs in
      \<lparr>sell_credits = max sell 0, cost_credits = max cost 0, margin_credits = sell - cost,
       billing_basis = (if \<not> (peak_valley_enabled m \<or> cache_pricing_enabled m) then ModelPrice else ModelPriceTier),
       plan_input_tokens = i, plan_output_tokens = out, plan_cached_tokens = c, price_tier = tier,
       sell_input = fst sells, sell_output = fst (snd sells), sell_cached = snd (snd sells),
       cost_input = fst costs, cost_output = fst (snd costs), cost_cached = snd (snd costs)\<rparr>)"

definition plan_usage ::
  "clock \<Rightarrow> int \<Rightarrow> (pynum \<Rightarrow> string) \<Rightarrow> (rat \<Rightarrow> string) \<Rightarrow> pricing_engine \<Rightarrow> string option
    \<Rightarrow> int \<Rightarrow> int \<Rightarrow> int \<Rightarrow> int option \<Rightarrow> billing_plan" where
  "plan_usage local_time now num_text decimal_text e model_id input output cached moment =
     (let input = max input 0;
          out = max output 0;
          cached = max cached 0;
          model = load_model e model_id;
          credits_per_1k = config e ''credits_per_1k_tokens'' 1;
          credits_per_yuan = config e ''credits_per_yuan'' 100;
          enabled_pv = (case model of None \<Rightarrow> False | Some m \<Rightarrow> peak_valley_enabled m);
          enabled_cache = (case model of None \<Rightarrow> False | Some m \<Rightarrow> cache_pricing_enabled m);
          cached = (if enabled_cache then cached else 0);
          input = max (input - cached) 0;
          windows = (case model of None \<Rightarrow> [] | Some m \<Rightarrow> peak_windows m);
          tz_name = (if enabled_pv \<and> windows \<noteq> []
                     then config_text num_text decimal_text e ''peak_valley_timezone'' ''Asia/Shanghai''
                     else ''Asia/Shanghai'');
          tier = resolve_price_tier local_time now moment windows tz_name enabled_pv
      in case model of
           None \<Rightarrow> fallback_plan input cached out tier (ceil_credits (input + out) credits_per_1k)
         | Some m \<Rightarrow>
             (case sell_prices m tier of (sell_in, sell_out, _) \<Rightarrow>
                if sell_in \<le> 0 \<and> sell_out \<le> 0
                then fallback_plan input cached out tier
                       (ceil_credits (input + cached + out) credits_per_1k)
                else priced_plan m credits_per_yuan input cached out tier))"

end
