(* ===== verification/Pricing_Guard.thy ===== *)
theory Pricing_Guard
  imports Pricing_Engine
begin

text \<open>
  The checks on a model's prices before they are saved (\<^verbatim>\<open>core/billing/pricing_guard.py\<close>): both
  bounds on the selling prices, the well-formedness of the peak windows, and the suggested prices.
  Decimals are exact rationals: the products of two 12-digit columns stay within the 28 digits of
  the decimal context.  Infinities and NaNs are not numbers here.  Messages are constructors.
\<close>

section \<open>Decimals and their text\<close>

text \<open>A form field: absent, a text of the payload, or a number already converted.\<close>

datatype field_value = FNone | FText string | FNum rat

definition digits_or_empty :: "string \<Rightarrow> bool" where
  "digits_or_empty s = list_all is_digit s"

text \<open>\<open>123\<close>, \<open>12.5\<close>, \<open>.5\<close> or \<open>5.\<close>, as an exact rational.\<close>

definition mantissa :: "string \<Rightarrow> rat option" where
  "mantissa s =
     (case split_first CHR ''.'' s of
        (a, b) \<Rightarrow>
          (let f = (case b of None \<Rightarrow> [] | Some r \<Rightarrow> r) in
           if digits_or_empty a \<and> digits_or_empty f \<and> (a \<noteq> [] \<or> f \<noteq> [])
           then Some (of_nat (digits_val (a @ f)) / 10 ^ length f)
           else None))"

definition signed :: "string \<Rightarrow> bool \<times> string" where
  "signed s =
     (case s of
        c # t \<Rightarrow> if c = CHR ''-'' then (True, t) else if c = CHR ''+'' then (False, t) else (False, s)
      | [] \<Rightarrow> (False, []))"

definition exponent_text :: "string \<Rightarrow> int option" where
  "exponent_text s =
     (case signed s of
        (neg, t) \<Rightarrow>
          if t \<noteq> [] \<and> list_all is_digit t
          then Some (if neg then - int (digits_val t) else int (digits_val t)) else None)"

text \<open>\<open>Decimal(text)\<close> for a finite number.\<close>

definition decimal_of_text :: "string \<Rightarrow> rat option" where
  "decimal_of_text s =
     (case signed (filter (\<lambda>c. c \<noteq> CHR ''_'') (strip s)) of
        (neg, t) \<Rightarrow>
          (let m = takeWhile (\<lambda>c. c \<noteq> CHR ''e'' \<and> c \<noteq> CHR ''E'') t;
               r = dropWhile (\<lambda>c. c \<noteq> CHR ''e'' \<and> c \<noteq> CHR ''E'') t;
               e = (case r of [] \<Rightarrow> Some 0 | _ # u \<Rightarrow> exponent_text u) in
           case (mantissa m, e) of
             (Some x, Some k) \<Rightarrow> Some ((if neg then - x else x) * 10 powi k)
           | _ \<Rightarrow> None))"

definition as_decimal :: "field_value \<Rightarrow> rat \<Rightarrow> rat" where
  "as_decimal v dflt =
     (case v of
        FNone \<Rightarrow> dflt
      | FNum x \<Rightarrow> x
      | FText s \<Rightarrow> (case decimal_of_text s of Some x \<Rightarrow> x | None \<Rightarrow> dflt))"

definition field :: "(string \<times> field_value) list \<Rightarrow> string \<Rightarrow> rat" where
  "field form key = as_decimal (dget_or form key FNone) 0"

section \<open>Tiers and dimensions\<close>

definition tier_prefix :: "tier option \<Rightarrow> string" where
  "tier_prefix t = (case t of None \<Rightarrow> '''' | Some Peak \<Rightarrow> ''peak_'' | Some Valley \<Rightarrow> ''valley_'')"

definition price_key_for :: "tier option \<Rightarrow> string \<Rightarrow> string" where
  "price_key_for t d = tier_prefix t @ d @ ''_price_per_1k_tokens''"

definition cost_key_for :: "tier option \<Rightarrow> string \<Rightarrow> string" where
  "cost_key_for t d = tier_prefix t @ d @ ''_cost_per_1k_tokens''"

definition tier_pairs :: "bool \<Rightarrow> tier option list" where
  "tier_pairs peak_valley = (if peak_valley then [Some Peak, Some Valley] else [None])"

definition dimensions :: "bool \<Rightarrow> string list" where
  "dimensions cache =
     (if cache then [''input'', ''output'', ''input_cached''] else [''input'', ''output''])"

definition official_value :: "(string \<times> field_value) list option \<Rightarrow> tier option \<Rightarrow> string \<Rightarrow> field_value" where
  "official_value official t d =
     (case official of
        None \<Rightarrow> FNone
      | Some o' \<Rightarrow>
          if o' = [] then FNone
          else (case dget o' d of
             Some v \<Rightarrow> v
           | None \<Rightarrow>
               if t \<noteq> None then dget_or o' (tier_prefix t @ d) FNone
               else dget_or o' (''regular_'' @ d) FNone))"

section \<open>Both bounds\<close>

datatype bound_error =
    BelowCost "tier option" string rat rat
  | AboveOfficial "tier option" string rat

definition ratio_or :: "field_value \<Rightarrow> rat \<Rightarrow> rat" where
  "ratio_or v dflt = or_else (as_decimal v dflt) dflt"

definition bounds_of ::
  "(string \<times> field_value) list \<Rightarrow> rat \<Rightarrow> rat \<Rightarrow> (string \<times> field_value) list option
    \<Rightarrow> tier option \<times> string \<Rightarrow> bound_error list" where
  "bounds_of form margin cap official td =
     (case td of (t, d) \<Rightarrow>
       let sell = field form (price_key_for t d);
           cost_rmb = field form (cost_key_for t d) in
       if cost_rmb \<le> 0 then []
       else
         (if sell < cost_rmb * (1 + margin) then [BelowCost t d sell cost_rmb] else []) @
         (case official_value official t d of
            FNone \<Rightarrow> []
          | v \<Rightarrow> if sell > as_decimal v 0 * cap then [AboveOfficial t d sell] else []))"

definition checked_pairs :: "bool \<Rightarrow> bool \<Rightarrow> (tier option \<times> string) list" where
  "checked_pairs peak_valley cache = List.product (tier_pairs peak_valley) (dimensions cache)"

definition validate_pricing_bounds ::
  "(string \<times> field_value) list \<Rightarrow> field_value \<Rightarrow> bool \<Rightarrow> bool
    \<Rightarrow> (string \<times> field_value) list option \<Rightarrow> field_value \<Rightarrow> bound_error list" where
  "validate_pricing_bounds form min_margin_ratio peak_valley cache official cap_ratio =
     (let margin = ratio_or min_margin_ratio (1 / 10);
          cap = ratio_or cap_ratio (11 / 10) in
      concat (map (bounds_of form margin cap official) (checked_pairs peak_valley cache)))"

section \<open>Peak windows\<close>

definition parse_time_text :: "string \<Rightarrow> (nat \<times> nat) option" where
  "parse_time_text s =
     (case s of
        [a, b, c, d, e] \<Rightarrow>
          if is_digit a \<and> is_digit b \<and> c = CHR '':'' \<and> is_digit d \<and> is_digit e then
            (let hour = digits_val [a, b]; minute = digits_val [d, e] in
             if hour = 24 then (if minute = 0 then Some (24, 0) else None)
             else if hour \<le> 23 \<and> minute \<le> 59 then Some (hour, minute)
             else None)
          else None
      | _ \<Rightarrow> None)"

definition segments :: "nat \<Rightarrow> nat \<Rightarrow> (nat \<times> nat) list" where
  "segments s e = (if s \<le> e then [(s, e)] else [(s, 24 * 60), (0, e)])"

definition windows_overlap :: "nat \<Rightarrow> nat \<Rightarrow> nat \<Rightarrow> nat \<Rightarrow> bool" where
  "windows_overlap a_start a_end b_start b_end =
     list_ex (\<lambda>(al, ar). list_ex (\<lambda>(bl, br). max al bl < min ar br) (segments b_start b_end))
       (segments a_start a_end)"

definition day_number :: "string \<Rightarrow> bool" where
  "day_number s = ((length s = 1 \<or> length s = 2) \<and> list_all is_digit s)"

text \<open>One piece of the day list; the ends of a range are compared as texts.\<close>

definition parse_day :: "string \<Rightarrow> nat list option" where
  "parse_day piece =
     (let p = strip piece in
      case split_first CHR ''-'' p of
        (a, None) \<Rightarrow>
          if day_number a then (if digits_val a > 6 then None else Some [digits_val a]) else None
      | (a, Some b) \<Rightarrow>
          if day_number a \<and> day_number b then
            (if a > b then None
             else if digits_val a > 6 \<or> digits_val b > 6 then None
             else Some [digits_val a ..< digits_val b + 1])
          else None)"

fun parse_day_list :: "string list \<Rightarrow> nat list \<Rightarrow> nat list option" where
  "parse_day_list [] out = Some out"
| "parse_day_list (p # ps) out =
     (case parse_day p of None \<Rightarrow> None | Some ds \<Rightarrow> parse_day_list ps (out @ ds))"

definition parse_days :: "string \<Rightarrow> nat list option" where
  "parse_days s =
     (let t = strip s in if t = [] then None else parse_day_list (split_on CHR '','' t) [])"

datatype row_error = NotAnObject | EmptyField | BadStart | BadEnd | EmptyRange | BadDays

datatype window_error = NotAList | InRow nat row_error | Overlapping nat nat

type_synonym window = "nat \<times> nat list \<times> nat \<times> nat"

definition window_field :: "pyval dict \<Rightarrow> string \<Rightarrow> string option" where
  "window_field d key =
     (case dget d key of
        None \<Rightarrow> None
      | Some v \<Rightarrow> if truthy v then (let s = strip (py_str v) in if s = [] then None else Some s) else None)"

definition times_and_days :: "nat \<Rightarrow> string \<Rightarrow> string \<Rightarrow> string \<Rightarrow> window_error list \<times> window option" where
  "times_and_days idx days_text start_text end_text =
     (let st = parse_time_text start_text;
          en = parse_time_text end_text;
          ds = parse_days days_text in
      ((if st = None then [InRow idx BadStart] else []) @
       (if en = None then [InRow idx BadEnd] else []) @
       (if st = Some (0, 0) \<and> en = Some (0, 0) then [InRow idx EmptyRange] else []) @
       (if ds = None then [InRow idx BadDays] else []),
       (case (st, en, ds) of
          (Some (sh, sm), Some (eh, em), Some days) \<Rightarrow> Some (idx, days, sh * 60 + sm, eh * 60 + em)
        | _ \<Rightarrow> None)))"

definition check_window :: "nat \<Rightarrow> pyval \<Rightarrow> window_error list \<times> window option" where
  "check_window idx win =
     (case win of
        PDict d \<Rightarrow>
          (case (window_field d ''days'', window_field d ''start'', window_field d ''end'') of
             (Some days_text, Some start_text, Some end_text) \<Rightarrow>
               times_and_days idx days_text start_text end_text
           | _ \<Rightarrow> ([InRow idx EmptyField], None))
      | _ \<Rightarrow> ([InRow idx NotAnObject], None))"

fun check_windows :: "nat \<Rightarrow> pyval list \<Rightarrow> window_error list \<times> window list" where
  "check_windows idx [] = ([], [])"
| "check_windows idx (win # wins) =
     (case (check_window idx win, check_windows (idx + 1) wins) of
        ((errs, parsed), (errs2, rest)) \<Rightarrow>
          (errs @ errs2, (case parsed of None \<Rightarrow> rest | Some w \<Rightarrow> w # rest)))"

definition clash :: "window \<Rightarrow> window \<Rightarrow> window_error list" where
  "clash w v =
     (case (w, v) of
        ((i_idx, i_days, i_s, i_e), (j_idx, j_days, j_s, j_e)) \<Rightarrow>
          if \<not> list_ex (\<lambda>d. d \<in> set j_days) i_days then []
          else if windows_overlap i_s i_e j_s j_e then [Overlapping i_idx j_idx] else [])"

fun clashes :: "window list \<Rightarrow> window_error list" where
  "clashes [] = []"
| "clashes (w # ws) = concat (map (clash w) ws) @ clashes ws"

definition validate_peak_windows :: "pyval \<Rightarrow> window_error list" where
  "validate_peak_windows windows =
     (case windows of
        PList ws \<Rightarrow> (case check_windows 1 ws of (errs, parsed) \<Rightarrow> errs @ clashes parsed)
      | _ \<Rightarrow> [NotAList])"

section \<open>Suggested prices\<close>

text \<open>\<open>f"{x:.6f}"\<close>: six decimals, ties to even.\<close>

fun padded :: "nat \<Rightarrow> nat \<Rightarrow> string" where
  "padded 0 n = []"
| "padded (Suc k) n = padded k (n div 10) @ [digit_char (n mod 10)]"

definition fixed6 :: "rat \<Rightarrow> string" where
  "fixed6 x =
     (let n = nat (round_half_even (\<bar>x\<bar> * 1000000)) in
      (if x < 0 then ''-'' else '''') @ nat_str (n div 1000000) @ ''.'' @ padded 6 (n mod 1000000))"

definition suggestion :: "(string \<times> field_value) list \<Rightarrow> rat \<Rightarrow> tier option \<times> string \<Rightarrow> (string \<times> string) list" where
  "suggestion form margin td =
     (case td of (t, d) \<Rightarrow>
       let cost_rmb = field form (cost_key_for t d) in
       if cost_rmb \<le> 0 then [] else [(price_key_for t d, fixed6 (cost_rmb * (1 + margin)))])"

definition suggest_sell_prices :: "(string \<times> field_value) list \<Rightarrow> field_value \<Rightarrow> bool \<Rightarrow> bool \<Rightarrow> (string \<times> string) list" where
  "suggest_sell_prices form margin_ratio peak_valley cache =
     (let margin = ratio_or margin_ratio (3 / 10) in
      concat (map (suggestion form margin) (checked_pairs peak_valley cache)))"

record pricing_preview =
  suggestions :: "(string \<times> string) list"
  applied :: bool
  preview_warnings :: "bound_error list"

definition build_pricing_preview ::
  "(string \<times> field_value) list \<Rightarrow> field_value \<Rightarrow> bool \<Rightarrow> bool \<Rightarrow> (string \<times> field_value) list option
    \<Rightarrow> field_value \<Rightarrow> field_value \<Rightarrow> pricing_preview" where
  "build_pricing_preview form margin_ratio peak_valley cache official cap_ratio min_margin_ratio =
     (let sg = suggest_sell_prices form margin_ratio peak_valley cache;
          merged = dmerge form (map (\<lambda>(k, s). (k, FText s)) sg) in
      \<lparr>suggestions = sg, applied = False,
       preview_warnings =
         (if sg = [] then []
          else validate_pricing_bounds merged min_margin_ratio peak_valley cache official cap_ratio)\<rparr>)"

end
