(* ===== verification/Pricing_Props.thy ===== *)
theory Pricing_Props
  imports Pricing_Guard
begin

text \<open>
  What the pricing engine and its guard promise together: the charge is monotone in the use, no use
  is free, prices that pass the guard never bill below cost, and the peak windows the guard accepts
  are disjoint and mean what they say.
\<close>

section \<open>Arithmetic of charges\<close>

lemmas fl_intros = ieee.fl_nonneg ieee.fl_mult_mono ieee.fl_add_mono ieee.fl_le

lemma rnd_nonneg [simp]: "0 \<le> x \<Longrightarrow> 0 \<le> rnd x"
  by (rule ieee.fl_nonneg)

lemma rnd_of_1000 [simp]: "rnd 1000 = 1000"
  using rnd_int [of 1000] by simp

lemma rnd_product_mono:
  assumes "0 \<le> (i::int)" "i \<le> i'" "0 \<le> p" "p \<le> p'"
  shows "rnd (rnd (of_int i) * p) \<le> rnd (rnd (of_int i') * p')"
proof (rule ieee.fl_mult_mono)
  show "rnd (of_int i) \<le> rnd (of_int i')" using assms by (intro ieee.fl_le) simp
  show "0 \<le> rnd (of_int i')" using assms by simp
qed (use assms in simp_all)

lemma rnd_product_nonneg: "0 \<le> (i::int) \<Longrightarrow> 0 \<le> p \<Longrightarrow> 0 \<le> rnd (rnd (of_int i) * p)"
  by simp

text \<open>Prices are compared only in the dimensions that were used.\<close>

lemma amount_mono:
  assumes "0 \<le> i" "i \<le> i'" "0 \<le> c" "c \<le> c'" "0 \<le> n" "n \<le> n'"
    and "0 \<le> p" "p \<le> p'" "0 \<le> r" "r \<le> r'" and "c' = 0 \<or> (0 \<le> q \<and> q \<le> q')"
  shows "amount_rmb i c n (p, r, q) \<le> amount_rmb i' c' n' (p', r', q')"
proof -
  have c: "rnd (rnd (of_int c) * q) \<le> rnd (rnd (of_int c') * q')"
  proof (cases "c' = 0")
    case True
    then have "c = 0" using assms by simp
    then show ?thesis using True by simp
  next
    case False
    then show ?thesis using assms by (intro rnd_product_mono) auto
  qed
  show ?thesis
    unfolding amount_rmb_def prod.case
    by (intro ieee.fl_le divide_right_mono ieee.fl_add_mono rnd_product_mono c add_mono assms) simp
qed

lemma amount_nonneg:
  assumes "0 \<le> i" "0 \<le> c" "0 \<le> n" "0 \<le> p" "0 \<le> r" "c = 0 \<or> 0 \<le> q"
  shows "0 \<le> amount_rmb i c n (p, r, q)"
  using assms by (auto simp: amount_rmb_def)

lemma charge_NFloat: "charge cpy i c n ps = \<lceil>rnd (amount_rmb i c n ps * to_float cpy)\<rceil>"
  by (cases cpy) (simp_all add: charge_def)

lemma charge_mono:
  assumes "amount_rmb i c n ps \<le> amount_rmb i' c' n' ps'" and "0 \<le> to_float cpy"
  shows "charge cpy i c n ps \<le> charge cpy i' c' n' ps'"
  unfolding charge_NFloat
  by (intro ceiling_mono ieee.fl_le mult_right_mono assms)

lemma charge_nonneg:
  assumes "0 \<le> amount_rmb i c n ps" and "0 \<le> to_float cpy"
  shows "0 \<le> charge cpy i c n ps"
proof -
  have "0 \<le> rnd (amount_rmb i c n ps * to_float cpy)" using assms by simp
  then show ?thesis unfolding charge_NFloat by (simp add: le_ceiling_iff)
qed

lemma to_float_NInt_nonneg [simp]: "0 \<le> rnd (of_int k) \<longleftrightarrow> 0 \<le> k"
proof
  assume k: "0 \<le> rnd (of_int k)"
  show "0 \<le> k"
  proof (rule ccontr)
    assume "\<not> 0 \<le> k"
    then have "rnd (of_int k) \<le> rnd (of_int (- 1))" by (intro ieee.fl_le) simp
    also have "rnd (of_int (- 1)) = of_int (- 1)" by (rule rnd_int) simp
    finally show False using k by simp
  qed
qed simp

text \<open>The credits of the global rate, before the test for zero tokens.\<close>

definition rate_value :: "int \<Rightarrow> pynum \<Rightarrow> rat" where
  "rate_value t c =
     (case c of NInt k \<Rightarrow> rnd (of_int (t * k) / 1000) | NFloat x \<Rightarrow> rnd (rnd (rnd (of_int t) * x) / 1000))"

lemma ceil_credits_rate: "ceil_credits t c = (if t \<le> 0 then 0 else \<lceil>rate_value t c\<rceil>)"
  by (cases c) (simp_all add: ceil_credits_def rate_value_def)

lemma rate_value_mono:
  assumes "0 \<le> t" "t \<le> t'" and "0 \<le> to_float c"
  shows "0 \<le> rate_value t c" and "rate_value t c \<le> rate_value t' c"
proof -
  show "0 \<le> rate_value t c" using assms by (cases c) (simp_all add: rate_value_def)
  show "rate_value t c \<le> rate_value t' c"
  proof (cases c)
    case (NInt k)
    then have "of_int (t * k) \<le> (of_int (t' * k) :: rat)"
      using assms by (simp add: mult_right_mono)
    then show ?thesis by (simp add: NInt rate_value_def ieee.fl_le divide_right_mono)
  next
    case (NFloat x)
    then show ?thesis
      using assms rnd_product_mono [of t t' x x]
      by (simp add: rate_value_def ieee.fl_le divide_right_mono)
  qed
qed

lemma ceil_credits_mono:
  assumes "t \<le> t'" and "0 \<le> to_float c"
  shows "ceil_credits t c \<le> ceil_credits t' c"
proof (cases "0 < t")
  case True
  then show ?thesis
    using assms rate_value_mono [of t t' c] by (simp add: ceil_credits_rate ceiling_mono)
next
  case False
  then show ?thesis
    using assms rate_value_mono(1) [of t' t' c] by (auto simp: ceil_credits_rate le_ceiling_iff)
qed

lemma ceil_credits_nonneg: "0 \<le> to_float c \<Longrightarrow> 0 \<le> ceil_credits t c"
  using rate_value_mono(1) [of t t c] by (auto simp: ceil_credits_rate le_ceiling_iff)

section \<open>Prices\<close>

text \<open>Every column of the row is non-negative, as the check constraints of a price list require.\<close>

definition columns_nonneg :: "model_row \<Rightarrow> bool" where
  "columns_nonneg m \<longleftrightarrow> (\<forall>x \<in> set (columns m). 0 \<le> snd x)"

lemma column_nonneg: "columns_nonneg m \<Longrightarrow> 0 \<le> column m name"
  unfolding column_def decimal_float_def
  by (rule rnd_nonneg)
    (auto simp: dget_or_def columns_nonneg_def split: option.splits dest!: map_of_SomeD)

lemma tier_column_nonneg: "columns_nonneg m \<Longrightarrow> 0 \<le> tier_column m tier axis side"
  by (simp add: tier_column_def col_for_tier_def or_else_def Let_def column_nonneg)

lemma sell_prices_nonneg:
  "columns_nonneg m \<Longrightarrow> sell_prices m tier = (p, r, q) \<Longrightarrow> 0 \<le> p \<and> 0 \<le> r \<and> 0 \<le> q"
  by (auto simp: sell_prices_def Let_def tier_column_nonneg column_nonneg)

lemma cost_prices_nonneg:
  "columns_nonneg m \<Longrightarrow> cost_prices m tier = (p, r, q) \<Longrightarrow> 0 \<le> p \<and> 0 \<le> r \<and> 0 \<le> q"
  by (auto simp: cost_prices_def Let_def tier_column_nonneg)

section \<open>The shape of a plan\<close>

text \<open>The parts of \<^const>\<open>plan_usage\<close> that do not depend on the tokens.\<close>

definition usage_tier ::
  "clock \<Rightarrow> int \<Rightarrow> (pynum \<Rightarrow> string) \<Rightarrow> (rat \<Rightarrow> string) \<Rightarrow> pricing_engine \<Rightarrow> model_row option \<Rightarrow> int option
    \<Rightarrow> tier option" where
  "usage_tier local_time now num_text decimal_text e model moment =
     (case model of
        None \<Rightarrow> None
      | Some m \<Rightarrow>
          resolve_price_tier local_time now moment (peak_windows m)
            (if peak_valley_enabled m \<and> peak_windows m \<noteq> []
             then config_text num_text decimal_text e ''peak_valley_timezone'' ''Asia/Shanghai''
             else ''Asia/Shanghai'')
            (peak_valley_enabled m))"

text \<open>The cached tokens that count, and the input tokens that are not cached.\<close>

definition counted :: "model_row option \<Rightarrow> int \<Rightarrow> int" where
  "counted model cached =
     (case model of None \<Rightarrow> 0 | Some m \<Rightarrow> if cache_pricing_enabled m then max cached 0 else 0)"

definition uncached :: "model_row option \<Rightarrow> int \<Rightarrow> int \<Rightarrow> int" where
  "uncached model input cached = max (max input 0 - counted model cached) 0"

lemma resolve_off: "resolve_price_tier local_time now moment windows tz False = None"
  by (simp add: resolve_price_tier_def)

lemma plan_usage_cases:
  "plan_usage local_time now nt dt e model_id input output cached moment =
     (let model = load_model e model_id;
          c = counted model cached; i = uncached model input cached; n = max output 0;
          tier = usage_tier local_time now nt dt e model moment in
      case model of
        None \<Rightarrow> fallback_plan i c n tier (ceil_credits (i + n) (config e ''credits_per_1k_tokens'' 1))
      | Some m \<Rightarrow>
          if fst (sell_prices m tier) \<le> 0 \<and> fst (snd (sell_prices m tier)) \<le> 0
          then fallback_plan i c n tier (ceil_credits (i + c + n) (config e ''credits_per_1k_tokens'' 1))
          else priced_plan m (config e ''credits_per_yuan'' 100) i c n tier)"
proof (cases "load_model e model_id")
  case None
  then show ?thesis
    by (simp add: plan_usage_def Let_def counted_def uncached_def usage_tier_def resolve_off)
next
  case (Some m)
  then show ?thesis
    unfolding plan_usage_def Let_def counted_def uncached_def usage_tier_def
    by (simp only: option.case case_prod_unfold)
qed

lemma priced_plan_simps:
  "sell_credits (priced_plan m cpy i c n tier) = max (charge cpy i c n (sell_prices m tier)) 0"
  "cost_credits (priced_plan m cpy i c n tier) = max (charge cpy i c n (cost_prices m tier)) 0"
  "margin_credits (priced_plan m cpy i c n tier) =
     charge cpy i c n (sell_prices m tier) - charge cpy i c n (cost_prices m tier)"
  "price_tier (priced_plan m cpy i c n tier) = tier"
  "plan_input_tokens (priced_plan m cpy i c n tier) = i"
  "plan_cached_tokens (priced_plan m cpy i c n tier) = c"
  "plan_output_tokens (priced_plan m cpy i c n tier) = n"
  "billing_basis (priced_plan m cpy i c n tier) \<noteq> GlobalRate"
  by (simp_all add: priced_plan_def Let_def)

lemma fallback_plan_simps [simp]:
  "sell_credits (fallback_plan i c n tier k) = k"
  "cost_credits (fallback_plan i c n tier k) = 0"
  "margin_credits (fallback_plan i c n tier k) = 0"
  "price_tier (fallback_plan i c n tier k) = tier"
  "plan_input_tokens (fallback_plan i c n tier k) = i"
  "plan_cached_tokens (fallback_plan i c n tier k) = c"
  "plan_output_tokens (fallback_plan i c n tier k) = n"
  "billing_basis (fallback_plan i c n tier k) = GlobalRate"
  by (simp_all add: fallback_plan_def)

lemma counted_nonneg [simp]: "0 \<le> counted model cached"
  by (simp add: counted_def split: option.splits)

lemma uncached_mono: "input \<le> input' \<Longrightarrow> uncached model input cached \<le> uncached model input' cached"
  by (simp add: uncached_def)

lemma uncached_nonneg [simp]: "0 \<le> uncached model input cached"
  by (simp add: uncached_def)

section \<open>Using more never costs less\<close>

text \<open>
  Under the same configuration, at the same moment and with the same number of cached tokens, a
  use with at least as many input and output tokens is charged at least as many credits, whether the
  model is priced, unpriced or missing: float rounding never reverses the order of two charges.
\<close>

theorem usage_charge_monotone:
  assumes "\<forall>m. load_model e model_id = Some m \<longrightarrow> columns_nonneg m"
    and "0 \<le> to_float (config e ''credits_per_1k_tokens'' 1)"
    and "0 \<le> to_float (config e ''credits_per_yuan'' 100)"
    and "input \<le> input'" and "output \<le> output'"
  shows "sell_credits (plan_usage local_time now nt dt e model_id input output cached moment)
       \<le> sell_credits (plan_usage local_time now nt dt e model_id input' output' cached moment)"
proof (cases "load_model e model_id")
  case None
  then show ?thesis
    using assms uncached_mono [of input input' None cached]
    by (simp add: plan_usage_cases Let_def ceil_credits_mono)
next
  case (Some m)
  let ?t = "usage_tier local_time now nt dt e (Some m) moment"
  obtain p r q where s: "sell_prices m ?t = (p, r, q)" by (cases "sell_prices m ?t")
  have nn: "0 \<le> p" "0 \<le> r" "0 \<le> q" using sell_prices_nonneg [OF _ s] assms(1) Some by auto
  have i: "uncached (Some m) input cached \<le> uncached (Some m) input' cached"
    using assms(4) by (rule uncached_mono)
  have c: "charge cpy (uncached (Some m) input cached) (counted (Some m) cached) (max output 0) (p, r, q)
      \<le> charge cpy (uncached (Some m) input' cached) (counted (Some m) cached) (max output' 0) (p, r, q)"
    if "0 \<le> to_float cpy" for cpy
    using assms(5) i nn that by (intro charge_mono amount_mono) auto
  show ?thesis
    using assms(2,3,5) i c
    by (simp add: plan_usage_cases Let_def Some s ceil_credits_mono priced_plan_simps max.coboundedI1)
qed

section \<open>A use with tokens is never free\<close>

text \<open>A column is zero or at least the smallest positive value of a \<^verbatim>\<open>Numeric(12, 6)\<close>.\<close>

definition columns_micro :: "model_row \<Rightarrow> bool" where
  "columns_micro m \<longleftrightarrow> (\<forall>x \<in> set (columns m). snd x = 0 \<or> 1 / 1000000 \<le> snd x)"

definition micro :: "rat \<Rightarrow> bool" where
  "micro x \<longleftrightarrow> 2 powi (- 20) \<le> x"

lemma micro_pos: "micro x \<Longrightarrow> 0 < x"
proof -
  assume "micro x"
  moreover have "(0::rat) < 2 powi (- 20)" by simp
  ultimately show "0 < x" unfolding micro_def by linarith
qed

lemma columns_micro_nonneg: "columns_micro m \<Longrightarrow> columns_nonneg m"
  by (force simp: columns_micro_def columns_nonneg_def)

lemma column_micro:
  assumes "columns_micro m"
  shows "column m name = 0 \<or> micro (column m name)"
proof (cases "dget (columns m) name")
  case None
  then show ?thesis by (simp add: column_def decimal_float_def dget_or_def)
next
  case (Some x)
  then have "x = 0 \<or> 1 / 1000000 \<le> x"
    using assms by (auto simp: columns_micro_def dest!: map_of_SomeD)
  then show ?thesis
    using ieee.fl_micro [of x] Some
    by (auto simp: column_def decimal_float_def dget_or_def micro_def)
qed

lemma tier_column_micro:
  assumes "columns_micro m" and "column m (column_name '''' axis side) \<noteq> 0"
  shows "micro (tier_column m tier axis side)"
  using assms(2) column_micro [OF assms(1)]
  by (auto simp: tier_column_def col_for_tier_def or_else_def Let_def)

lemma tier_column_zero_or_micro:
  assumes "columns_micro m"
  shows "tier_column m tier axis side = 0 \<or> micro (tier_column m tier axis side)"
proof (cases "column m (column_name '''' axis side) = 0")
  case True
  then show ?thesis
    using column_micro [OF assms, of "column_name ''peak_'' axis side"]
      column_micro [OF assms, of "column_name ''valley_'' axis side"]
    by (auto simp: tier_column_def col_for_tier_def or_else_def Let_def)
next
  case False
  then show ?thesis using tier_column_micro assms by blast
qed

lemma rnd_micro_product: "1 \<le> i \<Longrightarrow> micro p \<Longrightarrow> micro (rnd (rnd (of_int i) * p))"
proof -
  assume i: "1 \<le> i" and p: "micro p"
  have "rnd (of_int 1) \<le> rnd (of_int i)" using i by (intro ieee.fl_le) simp
  moreover have "rnd (of_int 1) = of_int 1" by (rule rnd_int) simp
  ultimately have "1 \<le> rnd (of_int i)" by simp
  then have "1 * p \<le> rnd (of_int i) * p"
    using micro_pos [OF p] by (intro mult_right_mono) simp_all
  with p [unfolded micro_def] have "2 powi (- 20) \<le> rnd (of_int i) * p" by linarith
  then show ?thesis unfolding micro_def by (intro rnd_ge_power) simp_all
qed

lemma rnd_micro: "micro x \<Longrightarrow> micro (rnd x)"
  unfolding micro_def by (intro rnd_ge_power) simp_all

lemma micro_add: "micro x \<Longrightarrow> 0 \<le> y \<Longrightarrow> micro (x + y)" "0 \<le> y \<Longrightarrow> micro x \<Longrightarrow> micro (y + x)"
  by (simp_all add: micro_def)

lemma micro_sum:
  assumes "0 \<le> x" "0 \<le> y" "0 \<le> z" and "micro x \<or> micro y \<or> micro z"
  shows "micro (rnd (rnd (x + y) + z))"
proof (rule rnd_micro)
  show "micro (rnd (x + y) + z)"
  proof (cases "micro z")
    case True
    then show ?thesis using assms by (intro micro_add) simp_all
  next
    case False
    with assms have "micro x \<or> micro y" by simp
    then have "micro (x + y)" using assms micro_add by blast
    then have "micro (rnd (x + y))" by (rule rnd_micro)
    then show ?thesis using assms by (intro micro_add(1))
  qed
qed

text \<open>An amount in thousandths, times a rate, still rounds to something positive.\<close>

lemma rounded_rate_positive:
  assumes "micro x" and "micro r"
  shows "0 < rnd (rnd (x / 1000) * r)"
proof -
  have "(2::rat) powi (- 30) \<le> 2 powi (- 20) / 1000" by (simp add: power_int_minus)
  also have "\<dots> \<le> x / 1000" using assms(1) by (simp add: micro_def divide_right_mono)
  finally have a: "2 powi (- 30) \<le> rnd (x / 1000)" by (intro rnd_ge_power) simp_all
  have "(0::rat) \<le> 2 powi (- 30)" by simp
  with a have a0: "0 \<le> rnd (x / 1000)" by linarith
  have "(2::rat) powi (- 50) = 2 powi (- 30) * 2 powi (- 20)"
    by (simp flip: power_int_add)
  also have "\<dots> \<le> rnd (x / 1000) * r"
    using a a0 assms(2) by (intro mult_mono) (simp_all add: micro_def)
  finally have "2 powi (- 50) \<le> rnd (rnd (x / 1000) * r)" by (intro rnd_ge_power) simp_all
  moreover have "(0::rat) < 2 powi (- 50)" by simp
  ultimately show ?thesis by linarith
qed

lemma charge_positive:
  assumes "0 \<le> i" "0 \<le> c" "0 \<le> n" "0 < i + c + n"
    and "micro p" "micro r" "c = 0 \<or> micro q" and "micro (to_float cpy)"
  shows "1 \<le> charge cpy i c n (p, r, q)"
proof -
  let ?a = "rnd (rnd (of_int i) * p)" and ?b = "rnd (rnd (of_int c) * q)" and ?d = "rnd (rnd (of_int n) * r)"
  have nn: "0 \<le> ?a" "0 \<le> ?b" "0 \<le> ?d"
    using assms(1-7) by (auto dest!: micro_pos)
  have "micro ?a \<or> micro ?b \<or> micro ?d"
    using assms rnd_micro_product [of i p] rnd_micro_product [of c q] rnd_micro_product [of n r]
    by (cases "1 \<le> i"; cases "1 \<le> c") auto
  then have "micro (rnd (rnd (?a + ?b) + ?d))"
    by (rule micro_sum [OF nn])
  then have "0 < rnd (amount_rmb i c n (p, r, q) * to_float cpy)"
    unfolding amount_rmb_def prod.case using assms(8) by (rule rounded_rate_positive)
  then show ?thesis unfolding charge_NFloat by linarith
qed

lemma rate_positive:
  assumes "1 \<le> t" and "micro (to_float c)"
  shows "1 \<le> ceil_credits t c"
proof -
  have "0 < rate_value t c"
  proof (cases c)
    case (NInt k)
    then have "0 < k"
      using micro_pos [OF assms(2)] ieee.fl_nonpos [of "of_int k"] by (cases "0 < k") auto
    then have "1 * 1 \<le> t * k" using assms(1) by (intro mult_mono) simp_all
    then have "(1::rat) \<le> of_int (t * k)" by linarith
    then have "(1::rat) / 1000 \<le> of_int (t * k) / 1000" by (rule divide_right_mono) simp
    moreover have "(2::rat) powi (- 20) \<le> 1 / 1000" by (simp add: power_int_minus)
    ultimately have "2 powi (- 20) \<le> of_int (t * k) / (1000 :: rat)" by linarith
    then have "2 powi (- 20) \<le> rate_value t c"
      unfolding NInt rate_value_def pynum.case by (intro rnd_ge_power) simp_all
    then show ?thesis by (intro micro_pos) (simp add: micro_def)
  next
    case (NFloat x)
    have "micro (rnd (rnd (of_int t) * x))" using assms NFloat by (simp add: rnd_micro_product)
    then have "2 powi (- 20) / 1000 \<le> rnd (rnd (of_int t) * x) / 1000"
      by (simp add: micro_def divide_right_mono)
    moreover have "(2::rat) powi (- 30) \<le> 2 powi (- 20) / 1000" by (simp add: power_int_minus)
    ultimately have "2 powi (- 30) \<le> rnd (rnd (of_int t) * x) / 1000" by linarith
    then have "2 powi (- 30) \<le> rate_value t c"
      unfolding NFloat rate_value_def pynum.case by (intro rnd_ge_power) simp_all
    moreover have "(0::rat) < 2 powi (- 30)" by simp
    ultimately show ?thesis by linarith
  qed
  then show ?thesis using assms(1) by (simp add: ceil_credits_rate)
qed

text \<open>
  A use with at least one token is charged at least one credit: the input and output prices of
  the model are set, or the model is missing, and the configured rates are at least a millionth.
  Neither the conversion to floats nor the division by 1000 can lose the charge.
\<close>

theorem no_free_usage:
  assumes "\<forall>m. load_model e model_id = Some m \<longrightarrow> columns_micro m \<and>
      column m ''input_price_per_1k_tokens'' \<noteq> 0 \<and> column m ''output_price_per_1k_tokens'' \<noteq> 0"
    and "micro (to_float (config e ''credits_per_1k_tokens'' 1))"
    and "micro (to_float (config e ''credits_per_yuan'' 100))"
    and "0 < max input 0 + max output 0"
  shows "1 \<le> sell_credits (plan_usage local_time now nt dt e model_id input output cached moment)"
proof (cases "load_model e model_id")
  case None
  have "1 \<le> uncached None input cached + max output 0"
    using assms(4) by (simp add: uncached_def counted_def)
  then show ?thesis
    using rate_positive assms(2) by (simp add: plan_usage_cases Let_def None)
next
  case (Some m)
  let ?t = "usage_tier local_time now nt dt e (Some m) moment"
  have m: "columns_micro m" "column m (column_name '''' ''input'' ''price'') \<noteq> 0"
    "column m (column_name '''' ''output'' ''price'') \<noteq> 0"
    using assms(1) Some by (simp_all add: column_name_def)
  have i: "micro (tier_column m ?t ''input'' ''price'')" and o': "micro (tier_column m ?t ''output'' ''price'')"
    using m by (simp_all add: tier_column_micro)
  obtain p r q where s: "sell_prices m ?t = (p, r, q)" by (cases "sell_prices m ?t")
  have pr: "p = tier_column m ?t ''input'' ''price''" "r = tier_column m ?t ''output'' ''price''"
    using s micro_pos [OF i] micro_pos [OF o'] by (auto simp: sell_prices_def Let_def split: if_splits)
  have q: "counted (Some m) cached = 0 \<or> micro q"
  proof (cases "cache_pricing_enabled m")
    case True
    have "tier_column m ?t ''input_cached'' ''price'' \<le> 0 \<or> micro (tier_column m ?t ''input_cached'' ''price'')"
      using tier_column_zero_or_micro [OF m(1), of ?t "''input_cached''" "''price''"] by auto
    then show ?thesis using s i pr True micro_pos [OF i] by (auto simp: sell_prices_def Let_def split: if_splits)
  qed (simp add: counted_def)
  have "0 < uncached (Some m) input cached + counted (Some m) cached + max output 0"
    using assms(4) counted_nonneg [of "Some m" cached] by (simp add: uncached_def)
  then have "1 \<le> charge (config e ''credits_per_yuan'' 100) (uncached (Some m) input cached)
      (counted (Some m) cached) (max output 0) (p, r, q)"
    using i o' pr q assms(3) by (intro charge_positive) auto
  then show ?thesis
    using micro_pos [OF i] by (simp add: plan_usage_cases Let_def Some s pr priced_plan_simps)
qed

section \<open>The books of a plan\<close>

text \<open>
  Every plan accounts for its tokens and its credits: the cached and uncached input tokens of the
  plan add up to the larger of the two counts reported, neither side of the bill is negative, and the
  margin is the charge minus the cost, or zero when the global rate applies.
\<close>

theorem plan_accounts:
  assumes "\<forall>m. load_model e model_id = Some m \<longrightarrow> columns_nonneg m"
    and "0 \<le> to_float (config e ''credits_per_1k_tokens'' 1)"
    and "0 \<le> to_float (config e ''credits_per_yuan'' 100)"
    and "plan = plan_usage local_time now nt dt e model_id input output cached moment"
  shows "plan_input_tokens plan + plan_cached_tokens plan
           = max (max input 0) (counted (load_model e model_id) cached)
       \<and> plan_output_tokens plan = max output 0
       \<and> 0 \<le> sell_credits plan \<and> 0 \<le> cost_credits plan
       \<and> margin_credits plan =
           (if billing_basis plan = GlobalRate then 0 else sell_credits plan - cost_credits plan)"
proof (cases "load_model e model_id")
  case None
  then show ?thesis
    using assms(2) unfolding assms(4)
    by (simp add: plan_usage_cases Let_def uncached_def counted_def ceil_credits_nonneg)
next
  case (Some m)
  let ?t = "usage_tier local_time now nt dt e (Some m) moment"
  obtain p r q where s: "sell_prices m ?t = (p, r, q)" by (cases "sell_prices m ?t")
  obtain p' r' q' where c: "cost_prices m ?t = (p', r', q')" by (cases "cost_prices m ?t")
  have cm: "columns_nonneg m" using assms(1) Some by simp
  have nn: "0 \<le> charge cpy (uncached (Some m) input cached) (counted (Some m) cached) (max output 0) ps"
    if "0 \<le> to_float cpy" "ps = (p, r, q) \<or> ps = (p', r', q')" for cpy ps
    using that sell_prices_nonneg [OF cm s] cost_prices_nonneg [OF cm c]
    by (auto intro!: charge_nonneg amount_nonneg)
  have sum: "uncached (Some m) input cached + counted (Some m) cached = max (max input 0) (counted (Some m) cached)"
    by (simp add: uncached_def)
  show ?thesis
    using assms(2) nn [OF assms(3)] sum unfolding assms(4)
    by (simp add: plan_usage_cases Let_def Some s c priced_plan_simps ceil_credits_nonneg)
qed

section \<open>Prices that pass the guard never bill below cost\<close>

lemma names_of_keys:
  "column_name (tier_prefix t) d ''price'' = price_key_for t d"
  "column_name (tier_prefix t) d ''cost'' = cost_key_for t d"
  by (simp_all add: column_name_def price_key_for_def cost_key_for_def)

lemma guard_sell_above_cost:
  assumes "validate_pricing_bounds form ratio pv cache official cap = []"
    and "(t, d) \<in> set (checked_pairs pv cache)" and "0 \<le> ratio_or ratio (1 / 10)"
    and "0 < field form (cost_key_for t d)"
  shows "field form (cost_key_for t d) \<le> field form (price_key_for t d)"
proof -
  let ?c = "field form (cost_key_for t d)" and ?m = "ratio_or ratio (1 / 10)"
  have "bounds_of form ?m (ratio_or cap (11 / 10)) official (t, d) = []"
    using assms(1,2) by (simp add: validate_pricing_bounds_def Let_def)
  then have "?c * (1 + ?m) \<le> field form (price_key_for t d)"
    using assms(4) by (auto simp: bounds_of_def Let_def split: if_splits)
  moreover have "?c * 1 \<le> ?c * (1 + ?m)" using assms(3,4) by (intro mult_left_mono) simp_all
  ultimately show ?thesis by simp
qed

text \<open>The tier that is charged is the tier that was checked, when its column is set.\<close>

lemma tier_column_own:
  assumes "peak_valley_enabled m \<longleftrightarrow> t \<noteq> None"
    and "column m (column_name (tier_prefix t) d side) \<noteq> 0"
  shows "tier_column m t d side = column m (column_name (tier_prefix t) d side)"
  using assms
  by (cases t; cases "the t")
    (simp_all add: tier_column_def col_for_tier_def or_else_def Let_def tier_prefix_def)

lemma checked_column:
  assumes guard: "validate_pricing_bounds form ratio (peak_valley_enabled m) (cache_pricing_enabled m) official cap = []"
    and saved: "\<forall>name. dget_or (columns m) name 0 = field form name"
    and micro: "columns_micro m" and ratio: "0 \<le> ratio_or ratio (1 / 10)"
    and complete: "\<forall>td \<in> set (checked_pairs (peak_valley_enabled m) (cache_pricing_enabled m)).
      0 < field form (cost_key_for (fst td) (snd td))"
    and t: "peak_valley_enabled m \<longleftrightarrow> t \<noteq> None"
    and d: "d \<in> set (dimensions (cache_pricing_enabled m))"
  shows "0 < tier_column m t d ''cost''" and "tier_column m t d ''cost'' \<le> tier_column m t d ''price''"
proof -
  have "t \<in> set (tier_pairs (peak_valley_enabled m))"
    using t by (cases t; cases "the t") (simp_all add: tier_pairs_def)
  with d have td: "(t, d) \<in> set (checked_pairs (peak_valley_enabled m) (cache_pricing_enabled m))"
    by (simp add: checked_pairs_def)
  with complete have c0: "0 < field form (cost_key_for t d)" by fastforce
  have le: "field form (cost_key_for t d) \<le> field form (price_key_for t d)"
    using guard_sell_above_cost [OF guard td ratio c0] .
  have col: "column m name = rnd (field form name)" for name
    using saved by (simp add: column_def decimal_float_def)
  have "1 / 1000000 \<le> field form (cost_key_for t d)"
  proof -
    have "dget_or (columns m) (cost_key_for t d) 0 \<noteq> 0" using saved c0 by simp
    then show ?thesis
      using micro saved [rule_format, of "cost_key_for t d"]
      by (auto simp: dget_or_def columns_micro_def dest!: map_of_SomeD split: option.splits)
  qed
  then have "micro (column m (cost_key_for t d))" unfolding col micro_def by (rule ieee.fl_micro)
  then have cpos: "0 < column m (cost_key_for t d)" by (rule micro_pos)
  have cle: "column m (cost_key_for t d) \<le> column m (price_key_for t d)"
    unfolding col using le by (rule ieee.fl_le)
  have "tier_column m t d ''cost'' = column m (cost_key_for t d)"
    "tier_column m t d ''price'' = column m (price_key_for t d)"
    using tier_column_own [OF t, of d "''cost''"] tier_column_own [OF t, of d "''price''"] cpos cle
    by (simp_all add: names_of_keys)
  then show "0 < tier_column m t d ''cost''" "tier_column m t d ''cost'' \<le> tier_column m t d ''price''"
    using cpos cle by simp_all
qed

text \<open>
  C7. Prices that pass the guard never bill below cost: when the saved columns are the ones the guard
  accepted, every checked cost is set, the margin ratio is not negative and a tiered model has a tier
  at the moment of the use, the margin of every use is non-negative, rounding included.
\<close>

theorem guarded_pricing_never_loses:
  assumes "load_model e model_id = Some m"
    and "validate_pricing_bounds form ratio (peak_valley_enabled m) (cache_pricing_enabled m) official cap = []"
    and "\<forall>name. dget_or (columns m) name 0 = field form name"
    and "columns_micro m" and "0 \<le> ratio_or ratio (1 / 10)"
    and "\<forall>td \<in> set (checked_pairs (peak_valley_enabled m) (cache_pricing_enabled m)).
      0 < field form (cost_key_for (fst td) (snd td))"
    and "0 \<le> to_float (config e ''credits_per_yuan'' 100)"
    and "plan = plan_usage local_time now nt dt e model_id input output cached moment"
    and "peak_valley_enabled m \<longrightarrow> price_tier plan \<noteq> None"
  shows "0 \<le> margin_credits plan"
proof -
  let ?t = "usage_tier local_time now nt dt e (Some m) moment"
  have tier: "price_tier plan = ?t"
    unfolding assms(8) by (simp add: plan_usage_cases Let_def assms(1) priced_plan_simps)
  have t: "peak_valley_enabled m \<longleftrightarrow> ?t \<noteq> None"
    using assms(9) tier by (cases "peak_valley_enabled m") (auto simp: usage_tier_def resolve_off)
  note checked = checked_column [OF assms(2-6) t]
  have dims: "''input'' \<in> set (dimensions (cache_pricing_enabled m))"
    "''output'' \<in> set (dimensions (cache_pricing_enabled m))"
    "cache_pricing_enabled m \<Longrightarrow> ''input_cached'' \<in> set (dimensions (cache_pricing_enabled m))"
    by (simp_all add: dimensions_def)
  obtain p r q where s: "sell_prices m ?t = (p, r, q)" by (cases "sell_prices m ?t")
  obtain p' r' q' where c: "cost_prices m ?t = (p', r', q')" by (cases "cost_prices m ?t")
  have p: "0 \<le> p'" "p' \<le> p" "0 \<le> r'" "r' \<le> r"
    using checked [OF dims(1)] checked [OF dims(2)] s c
    by (auto simp: sell_prices_def cost_prices_def Let_def split: if_splits)
  have q: "counted (Some m) cached = 0 \<or> 0 \<le> q' \<and> q' \<le> q"
    using checked [OF dims(3)] s c
    by (auto simp: sell_prices_def cost_prices_def Let_def counted_def split: if_splits)
  have "charge (config e ''credits_per_yuan'' 100) (uncached (Some m) input cached)
        (counted (Some m) cached) (max output 0) (p', r', q')
      \<le> charge (config e ''credits_per_yuan'' 100) (uncached (Some m) input cached)
        (counted (Some m) cached) (max output 0) (p, r, q)"
    using p q assms(7) by (intro charge_mono amount_mono) auto
  then show ?thesis
    unfolding assms(8) by (simp add: plan_usage_cases Let_def assms(1) s c priced_plan_simps)
qed

section \<open>A concrete price list\<close>

definition demo_columns :: "(string \<times> rat) list" where
  "demo_columns =
     [(''input_price_per_1k_tokens'', 2 / 100), (''output_price_per_1k_tokens'', 3 / 100),
      (''input_cost_per_1k_tokens'', 1 / 100), (''output_cost_per_1k_tokens'', 2 / 100)]"

definition demo_form :: "(string \<times> field_value) list" where
  "demo_form =
     [(''input_price_per_1k_tokens'', FText ''0.02''), (''output_price_per_1k_tokens'', FText ''3e-2''),
      (''input_cost_per_1k_tokens'', FText ''.01''), (''output_cost_per_1k_tokens'', FNum (2 / 100))]"

definition demo_model :: model_row where
  "demo_model = \<lparr>peak_valley_enabled = False, cache_pricing_enabled = False, peak_windows = [],
     columns = demo_columns\<rparr>"

definition demo_pricing :: pricing_engine where
  "demo_pricing = \<lparr>session = Some \<lparr>db_savepoint = Nested True,
       config_query = (\<lambda>code. Inr (if code = ''credits_per_yuan'' then Some \<lparr>value_numeric = Some 100, value_text = None\<rparr> else None)),
       model_query = (\<lambda>k. Inr (if k = ByName ''m'' then Some demo_model else None))\<rparr>, configs = []\<rparr>"

definition demo_clock :: clock where
  "demo_clock = (\<lambda>zone moment. Some (10, 30, 1))"

abbreviation demo_usage :: "int \<Rightarrow> int \<Rightarrow> billing_plan" where
  "demo_usage input output \<equiv>
     plan_usage demo_clock 0 (\<lambda>_. []) (\<lambda>_. []) demo_pricing (Some ''m'') input output 0 None"

lemma demo_load: "load_model demo_pricing (Some ''m'') = Some demo_model"
  by code_simp

lemma demo_rates:
  "config demo_pricing ''credits_per_yuan'' 100 = NFloat 100"
  "config demo_pricing ''credits_per_1k_tokens'' 1 = NInt 1"
  by code_simp+

lemma demo_saved: "dget_or (columns demo_model) name 0 = field demo_form name"
proof -
  have d: "decimal_of_text ''0.02'' = Some (2 / 100)" "decimal_of_text ''3e-2'' = Some (3 / 100)"
    "decimal_of_text ''.01'' = Some (1 / 100)"
    by code_simp+
  show ?thesis
    by (simp add: demo_model_def demo_columns_def demo_form_def field_def dget_or_def as_decimal_def d)
qed

lemma demo_guard:
  "validate_pricing_bounds demo_form FNone False False None FNone = []"
  by code_simp

lemma demo_micro: "columns_micro demo_model" "columns_nonneg demo_model"
  by (simp_all add: columns_micro_def columns_nonneg_def demo_model_def demo_columns_def)

lemma demo_prices: "column demo_model ''input_price_per_1k_tokens'' \<noteq> 0" "column demo_model ''output_price_per_1k_tokens'' \<noteq> 0"
  by code_simp+

lemma demo_micro_rates: "micro 1" "micro 100"
  by (simp_all add: micro_def power_int_minus)

theorem usage_charge_monotone_witness:
  "sell_credits (demo_usage 1500 500) \<le> sell_credits (demo_usage 2500 500)"
  by (rule usage_charge_monotone) (simp_all add: demo_load demo_micro demo_rates demo_micro_rates)

theorem no_free_usage_witness: "1 \<le> sell_credits (demo_usage 1 0)"
  by (rule no_free_usage) (simp_all add: demo_load demo_micro demo_rates demo_micro_rates demo_prices)

theorem plan_accounts_witness:
  "margin_credits (demo_usage 1500 500)
     = (if billing_basis (demo_usage 1500 500) = GlobalRate then 0
        else sell_credits (demo_usage 1500 500) - cost_credits (demo_usage 1500 500))"
  using plan_accounts [OF _ _ _ refl, of demo_pricing "Some ''m''" demo_clock 0
      "\<lambda>_. []" "\<lambda>_. []" 1500 500 0 None]
  by (simp add: demo_load demo_micro demo_rates demo_micro_rates)

theorem guarded_pricing_never_loses_witness: "0 \<le> margin_credits (demo_usage 1500 500)"
proof (rule guarded_pricing_never_loses [OF demo_load _ _ demo_micro(1) _ _ _ refl])
  have flags: "peak_valley_enabled demo_model = False" "cache_pricing_enabled demo_model = False"
    by (simp_all add: demo_model_def)
  show "validate_pricing_bounds demo_form FNone (peak_valley_enabled demo_model)
      (cache_pricing_enabled demo_model) None FNone = []"
    using demo_guard by (simp add: flags)
  show "\<forall>name. dget_or (columns demo_model) name 0 = field demo_form name"
    by (simp add: demo_saved)
  show "0 \<le> ratio_or FNone (1 / 10)" by code_simp
  show "\<forall>td \<in> set (checked_pairs (peak_valley_enabled demo_model) (cache_pricing_enabled demo_model)).
      0 < field demo_form (cost_key_for (fst td) (snd td))"
    by code_simp
  show "0 \<le> to_float (config demo_pricing ''credits_per_yuan'' 100)"
    by (simp add: demo_rates)
  show "peak_valley_enabled demo_model \<longrightarrow> price_tier (demo_usage 1500 500) \<noteq> None"
    by (simp add: flags)
qed

text \<open>A price list with peak prices, whose peak costs the form leaves blank.\<close>

definition blank_cost_form :: "(string \<times> field_value) list" where
  "blank_cost_form =
     [(''input_price_per_1k_tokens'', FNum (1 / 16)), (''output_price_per_1k_tokens'', FNum (1 / 8)),
      (''input_cost_per_1k_tokens'', FNum (1 / 32)), (''output_cost_per_1k_tokens'', FNum (1 / 16)),
      (''peak_input_price_per_1k_tokens'', FNum (1 / 64)), (''peak_output_price_per_1k_tokens'', FNum (1 / 64))]"

definition blank_cost_model :: model_row where
  "blank_cost_model = \<lparr>peak_valley_enabled = True, cache_pricing_enabled = False,
     peak_windows = [PDict [(''days'', PStr ''0-6''), (''start'', PStr ''09:00''), (''end'', PStr ''18:00'')]],
     columns =
       [(''input_price_per_1k_tokens'', 1 / 16), (''output_price_per_1k_tokens'', 1 / 8),
        (''input_cost_per_1k_tokens'', 1 / 32), (''output_cost_per_1k_tokens'', 1 / 16),
        (''peak_input_price_per_1k_tokens'', 1 / 64), (''peak_output_price_per_1k_tokens'', 1 / 64)]\<rparr>"

definition blank_cost_pricing :: pricing_engine where
  "blank_cost_pricing = \<lparr>session = Some \<lparr>db_savepoint = Nested True, config_query = (\<lambda>code. Inr None),
     model_query = (\<lambda>k. Inr (if k = ByName ''m'' then Some blank_cost_model else None))\<rparr>, configs = []\<rparr>"

lemma blank_cost_load: "load_model blank_cost_pricing (Some ''m'') = Some blank_cost_model"
  by code_simp

lemma blank_cost_tier:
  "usage_tier demo_clock 0 (\<lambda>_. []) (\<lambda>_. []) blank_cost_pricing (Some blank_cost_model) None = Some Peak"
  by code_simp

lemma blank_cost_numbers:
  "config blank_cost_pricing ''credits_per_yuan'' 100 = NInt 100"
  "sell_prices blank_cost_model (Some Peak) =
     (1 / 64, 1 / 64, 0)"
  "cost_prices blank_cost_model (Some Peak) =
     (1 / 32, 1 / 16, 0)"
  by code_simp+

lemma rnd_numeral: "numeral k < (2 :: int) ^ 53 \<Longrightarrow> rnd (numeral k) = numeral k"
  using rnd_int [of "numeral k"] by simp

lemma blank_cost_charges:
  "charge (NInt 100) 64000 0 64000 (1 / 64, 1 / 64, 0) = 200"
  "charge (NInt 100) 64000 0 64000 (1 / 32, 1 / 16, 0) = 600"
  by (simp_all add: charge_def amount_rmb_def rnd_numeral)

text \<open>
  The guard checks a tier only where its own cost is set, while the engine falls back to the flat
  cost: with the peak costs left blank a peak price below the flat cost passes the guard, and a use
  in the peak tier is billed with a negative margin.
\<close>

theorem blank_tier_cost_loses:
  "validate_pricing_bounds blank_cost_form FNone True False None FNone = [] \<and>
   margin_credits (plan_usage demo_clock 0 (\<lambda>_. []) (\<lambda>_. []) blank_cost_pricing
     (Some ''m'') 64000 64000 0 None) = -400"
proof
  show "validate_pricing_bounds blank_cost_form FNone True False None FNone = []"
    by code_simp
  have "uncached (Some blank_cost_model) 64000 0 = 64000" "counted (Some blank_cost_model) 0 = 0"
    by (simp_all add: uncached_def counted_def blank_cost_model_def)
  then show "margin_credits (plan_usage demo_clock 0 (\<lambda>_. []) (\<lambda>_. []) blank_cost_pricing
     (Some ''m'') 64000 64000 0 None) = -400"
    using blank_cost_charges
    by (simp add: plan_usage_cases Let_def blank_cost_load blank_cost_tier blank_cost_numbers priced_plan_simps)
qed

end
