(* ===== verification/Peak_Windows.thy ===== *)
theory Peak_Windows
  imports Pricing_Guard
begin

text \<open>
  The peak windows: what the guard accepts (\<^verbatim>\<open>pricing_guard.validate_peak_windows\<close>) against what the
  engine charges (\<^verbatim>\<open>pricing_engine._resolve_price_tier\<close>).  The guard counts minutes, the engine
  compares texts.
\<close>

section \<open>Overlap\<close>

text \<open>The minutes of a day that start inside the range, which wraps at midnight.\<close>

definition in_range :: "nat \<Rightarrow> nat \<Rightarrow> nat \<Rightarrow> bool" where
  "in_range s e m = (if s \<le> e then s \<le> m \<and> m < e else (s \<le> m \<and> m < 24 * 60) \<or> m < e)"

lemma in_range_segments: "in_range s e m \<longleftrightarrow> (\<exists>(l, r) \<in> set (segments s e). l \<le> m \<and> m < r)"
  by (auto simp: in_range_def segments_def)

lemma segment_overlap: "max a b < min c d \<longleftrightarrow> (\<exists>m::nat. a \<le> m \<and> m < c \<and> b \<le> m \<and> m < d)"
proof
  assume "max a b < min c d"
  then show "\<exists>m. a \<le> m \<and> m < c \<and> b \<le> m \<and> m < d" by (intro exI [of _ "max a b"]) auto
qed auto

text \<open>
  Two windows of a day are reported as overlapping exactly when some minute lies in both, for
  ranges that cross midnight as well; windows that only touch do not overlap.
\<close>

lemma windows_overlap_iff:
  "windows_overlap s1 e1 s2 e2 \<longleftrightarrow> (\<exists>m. in_range s1 e1 m \<and> in_range s2 e2 m)"
  unfolding windows_overlap_def in_range_segments list_ex_iff segment_overlap
  by (auto simp: case_prod_unfold segment_overlap)

section \<open>Accepted windows\<close>

text \<open>The weekday and the minute are charged by the window, ends excluded.\<close>

definition charges :: "window \<Rightarrow> nat \<Rightarrow> nat \<Rightarrow> bool" where
  "charges w d m = (case w of (idx, days, s, e) \<Rightarrow> d \<in> set days \<and> in_range s e m)"

lemma clash_iff: "clash w v = [] \<longleftrightarrow> \<not> (\<exists>d m. charges w d m \<and> charges v d m)"
proof -
  obtain i1 d1 s1 e1 where w: "w = (i1, d1, s1, e1)" by (cases w)
  obtain i2 d2 s2 e2 where v: "v = (i2, d2, s2, e2)" by (cases v)
  show ?thesis
    by (auto simp: w v clash_def charges_def list_ex_iff windows_overlap_iff)
qed

lemma clashes_iff: "clashes ws = [] \<longleftrightarrow> sorted_wrt (\<lambda>w v. clash w v = []) ws"
  by (induction ws) auto

lemma times_and_days_ok: "times_and_days idx d s e = ([], p) \<Longrightarrow> p \<noteq> None"
  by (auto simp: times_and_days_def Let_def split: if_splits)

lemma check_window_ok: "check_window idx win = ([], p) \<Longrightarrow> p \<noteq> None"
  by (auto simp: check_window_def dest: times_and_days_ok split: pyval.splits option.splits)

lemma check_windows_ok:
  "check_windows idx ws = ([], ps) \<Longrightarrow>
     length ps = length ws \<and> (\<forall>i < length ws. check_window (idx + i) (ws ! i) = ([], Some (ps ! i)))"
proof (induction idx ws arbitrary: ps rule: check_windows.induct)
  case (2 idx win wins)
  obtain errs p where c: "check_window idx win = (errs, p)" by (cases "check_window idx win")
  obtain errs2 rest where r: "check_windows (Suc idx) wins = (errs2, rest)"
    by (cases "check_windows (Suc idx) wins")
  have e: "errs = []" "errs2 = []" using "2.prems" by (simp_all add: c r)
  then obtain w where w: "p = Some w" using check_window_ok c by blast
  have ps: "ps = w # rest" using "2.prems" by (simp add: c r w)
  have IH: "length rest = length wins \<and>
      (\<forall>i < length wins. check_window (idx + 1 + i) (wins ! i) = ([], Some (rest ! i)))"
    using "2.IH" r e by simp
  show ?case
  proof (intro conjI allI impI)
    fix i assume "i < length (win # wins)"
    then show "check_window (idx + i) ((win # wins) ! i) = ([], Some (ps ! i))"
      using IH c e w ps by (cases i) auto
  qed (use IH ps in simp)
qed simp

text \<open>
  A list of windows the guard accepts without an error is read row by row, and no minute of any
  weekday is charged by two of its rows: peak prices never apply twice.
\<close>

theorem accepted_windows_disjoint:
  assumes "validate_peak_windows (PList ws) = []"
  shows "\<exists>ps. check_windows 1 ws = ([], ps) \<and> length ps = length ws \<and>
    (\<forall>i j d m. i < j \<and> j < length ps \<longrightarrow> \<not> (charges (ps ! i) d m \<and> charges (ps ! j) d m))"
proof -
  obtain errs ps where c: "check_windows 1 ws = (errs, ps)" by (cases "check_windows 1 ws")
  with assms have e: "errs = []" "clashes ps = []" by (simp_all add: validate_peak_windows_def)
  have "length ps = length ws" using check_windows_ok c e(1) by blast
  moreover have "sorted_wrt (\<lambda>w v. \<not> (\<exists>d m. charges w d m \<and> charges v d m)) ps"
    using e(2) by (simp add: clashes_iff clash_iff)
  ultimately show ?thesis
    using c e(1) by (auto simp: sorted_wrt_iff_nth_less)
qed

definition demo_windows :: "pyval list" where
  "demo_windows =
     [PDict [(''days'', PStr ''0-4''), (''start'', PStr ''09:00''), (''end'', PStr ''12:00'')],
      PDict [(''days'', PStr ''0-4''), (''start'', PStr ''12:00''), (''end'', PStr ''14:30'')],
      PDict [(''days'', PStr ''5,6''), (''start'', PStr ''22:00''), (''end'', PStr ''02:00'')]]"

lemma demo_windows_ok: "validate_peak_windows (PList demo_windows) = []"
  by code_simp

theorem accepted_windows_disjoint_witness:
  "\<exists>ps. check_windows 1 demo_windows = ([], ps) \<and> length ps = length demo_windows \<and>
    (\<forall>i j d m. i < j \<and> j < length ps \<longrightarrow> \<not> (charges (ps ! i) d m \<and> charges (ps ! j) d m))"
  by (rule accepted_windows_disjoint [OF demo_windows_ok])

section \<open>Texts and minutes\<close>

lemma lex_mult: "y < k \<Longrightarrow> y' < k \<Longrightarrow> x * k + y \<le> x' * k + y' \<longleftrightarrow> x < x' \<or> x = x' \<and> y \<le> (y'::nat)"
proof -
  assume y: "y < k" "y' < k"
  consider "x < x'" | "x = x'" | "x' < x" by linarith
  then show ?thesis
  proof cases
    case 1
    then have "(x + 1) * k \<le> x' * k" by (intro mult_right_mono) simp_all
    then show ?thesis using y 1 by simp
  next
    case 3
    then have "(x' + 1) * k \<le> x * k" by (intro mult_right_mono) simp_all
    then show ?thesis using y 3 by simp
  qed simp
qed

lemma digit_order:
  assumes "is_digit c" "is_digit d"
  shows "c < d \<longleftrightarrow> digit_val c < digit_val d" and "c = d \<longleftrightarrow> digit_val c = digit_val d"
    and "c \<le> d \<longleftrightarrow> digit_val c \<le> digit_val d"
proof -
  have c: "48 \<le> (of_char c :: nat)" "48 \<le> (of_char d :: nat)"
    using assms by (simp_all add: is_digit_def char_code_def)
  show "c < d \<longleftrightarrow> digit_val c < digit_val d"
    using c by (auto simp: less_char_def digit_val_def char_code_def)
  show "c \<le> d \<longleftrightarrow> digit_val c \<le> digit_val d"
    using c by (auto simp: less_eq_char_def digit_val_def char_code_def)
  show "c = d \<longleftrightarrow> digit_val c = digit_val d"
    using c by (metis char_code_def diff_add digit_val_def of_char_eq_iff)
qed

lemma digit_val_less: "is_digit c \<Longrightarrow> digit_val c < 10"
  by (auto simp: is_digit_def digit_val_def)

lemma two_digit_value: "digits_val [x, y] = digit_val x * 10 + digit_val y"
  by (simp add: digits_val_def)

lemma two_digit_order:
  assumes "list_all is_digit [x, y, x', y']"
  shows "digits_val [x, y] \<le> digits_val [x', y'] \<longleftrightarrow> x < x' \<or> x = x' \<and> y \<le> y'"
  unfolding two_digit_value using assms digit_val_less [of y] digit_val_less [of y']
  by (subst lex_mult) (simp_all add: digit_order)

lemma two_digit_eq:
  assumes "list_all is_digit [x, y, x', y']"
  shows "digits_val [x, y] = digits_val [x', y'] \<longleftrightarrow> x = x' \<and> y = y'"
proof -
  have "digits_val [x, y] = digits_val [x', y'] \<longleftrightarrow>
      digits_val [x, y] \<le> digits_val [x', y'] \<and> digits_val [x', y'] \<le> digits_val [x, y]"
    by (rule order_eq_iff)
  moreover have "digits_val [x', y'] \<le> digits_val [x, y] \<longleftrightarrow> x' < x \<or> x' = x \<and> y' \<le> y"
    using assms by (intro two_digit_order) simp
  ultimately show ?thesis using two_digit_order [OF assms] by auto
qed

lemma time_order:
  assumes "list_all is_digit [a, b, d, e]" "list_all is_digit [a', b', d', e']"
    and "digits_val [d, e] < 60" "digits_val [d', e'] < 60"
  shows "[a, b, c, d, e] \<le> [a', b', c, d', e'] \<longleftrightarrow>
     digits_val [a, b] * 60 + digits_val [d, e] \<le> digits_val [a', b'] * 60 + digits_val [d', e']"
proof -
  have "digits_val [a, b] * 60 + digits_val [d, e] \<le> digits_val [a', b'] * 60 + digits_val [d', e']
      \<longleftrightarrow> digits_val [a, b] < digits_val [a', b'] \<or>
          digits_val [a, b] = digits_val [a', b'] \<and> digits_val [d, e] \<le> digits_val [d', e']"
    using assms(3,4) by (rule lex_mult)
  also have "\<dots> \<longleftrightarrow> a < a' \<or> a = a' \<and> (b < b' \<or> b = b' \<and> (d < d' \<or> d = d' \<and> e \<le> e'))"
    using assms(1,2) two_digit_order [of a b a' b'] two_digit_order [of d e d' e'] two_digit_eq [of a b a' b']
    by (auto simp: order_less_le)
  finally show ?thesis by (simp add: order_le_less [of e e'])
qed

lemma parse_time_textD:
  assumes "parse_time_text s = Some (h, m)"
  shows "\<exists>a b d e. s = [a, b, CHR '':'', d, e] \<and> list_all is_digit [a, b, d, e] \<and>
    h = digits_val [a, b] \<and> m = digits_val [d, e] \<and> m < 60"
  using assms by (auto simp: parse_time_text_def Let_def split: list.splits if_splits)

lemma two_digits_shape:
  assumes "n < 100"
  shows "\<exists>a b. two_digits n = [a, b] \<and> list_all is_digit [a, b] \<and> digits_val [a, b] = n"
  using assms by (simp add: two_digits_def two_digit_value less_mult_imp_div_less)

text \<open>The text comparison of the engine is the comparison of minutes.\<close>

lemma clock_text_order:
  assumes "parse_time_text s = Some (h, m)" and "h' < 24" and "m' < 60"
  shows "s \<le> two_digits h' @ '':'' @ two_digits m' \<longleftrightarrow> h * 60 + m \<le> h' * 60 + m'"
    and "two_digits h' @ '':'' @ two_digits m' \<le> s \<longleftrightarrow> h' * 60 + m' \<le> h * 60 + m"
proof -
  obtain a b d e where s: "s = [a, b, CHR '':'', d, e]" "list_all is_digit [a, b, d, e]"
    "h = digits_val [a, b]" "m = digits_val [d, e]" "m < 60"
    using parse_time_textD [OF assms(1)] by blast
  obtain a' b' where h': "two_digits h' = [a', b']" "list_all is_digit [a', b']" "digits_val [a', b'] = h'"
    using two_digits_shape [of h'] assms(2) by auto
  obtain d' e' where m': "two_digits m' = [d', e']" "list_all is_digit [d', e']" "digits_val [d', e'] = m'"
    using two_digits_shape [of m'] assms(3) by auto
  have t: "two_digits h' @ '':'' @ two_digits m' = [a', b', CHR '':'', d', e']" by (simp add: h' m')
  show "s \<le> two_digits h' @ '':'' @ two_digits m' \<longleftrightarrow> h * 60 + m \<le> h' * 60 + m'"
    unfolding t s(1) using time_order [of a b d e a' b' d' e' "CHR '':''"] s h' m' assms by auto
  show "two_digits h' @ '':'' @ two_digits m' \<le> s \<longleftrightarrow> h' * 60 + m' \<le> h * 60 + m"
    unfolding t s(1) using time_order [of a' b' d' e' a b d e "CHR '':''"] s h' m' assms by auto
qed

lemma time_text_order:
  assumes "parse_time_text s = Some (h, m)" and "parse_time_text t = Some (h', m')"
  shows "s \<le> t \<longleftrightarrow> h * 60 + m \<le> h' * 60 + m'"
proof -
  obtain a b d e where s: "s = [a, b, CHR '':'', d, e]" "list_all is_digit [a, b, d, e]"
    "h = digits_val [a, b]" "m = digits_val [d, e]" "m < 60"
    using parse_time_textD [OF assms(1)] by blast
  obtain a' b' d' e' where t: "t = [a', b', CHR '':'', d', e']" "list_all is_digit [a', b', d', e']"
    "h' = digits_val [a', b']" "m' = digits_val [d', e']" "m' < 60"
    using parse_time_textD [OF assms(2)] by blast
  show ?thesis using time_order [of a b d e a' b' d' e' "CHR '':''"] s t by auto
qed

section \<open>Weekdays\<close>

lemma digit_not_space: "is_digit c \<Longrightarrow> \<not> py_space c"
  by (auto simp: is_digit_def py_space_def Let_def)

lemma digit_not_hyphen: "is_digit c \<Longrightarrow> c \<noteq> CHR ''-'' \<and> c \<noteq> CHR ''+''"
  by (auto simp: is_digit_def char_code_def)

lemma int_of_digit: "is_digit c \<Longrightarrow> int_of_text [c] = Some (int (digit_val c))"
  using digit_not_space [of c] digit_not_hyphen [of c]
  by (simp add: int_of_text_def strip_def lstrip_def rstrip_def digits_val_def)

lemma weekday_text: "w < 7 \<Longrightarrow> nat_str w = [digit_char w]"
  by (simp add: nat_str.simps)

lemma digit_char_eq: "is_digit c \<Longrightarrow> w < 10 \<Longrightarrow> [c] = [digit_char w] \<longleftrightarrow> digit_val c = w"
  using digit_order(2) [of c "digit_char w"] by simp

text \<open>A piece of a day list that names days by one digit each.\<close>

definition plain_piece :: "string \<Rightarrow> bool" where
  "plain_piece p = (length (strip p) = 1 \<or> length (strip p) = 3)"

lemma parse_plain_piece:
  assumes "parse_day p = Some ds" and "plain_piece p"
  shows "(\<exists>c. strip p = [c] \<and> is_digit c \<and> ds = [digit_val c]) \<or>
    (\<exists>a b. strip p = [a, CHR ''-'', b] \<and> is_digit a \<and> is_digit b \<and> ds = [digit_val a ..< digit_val b + 1])"
proof -
  consider c where "strip p = [c]" | a b c where "strip p = [a, b, c]"
    using assms(2) by (auto simp: plain_piece_def length_Suc_conv eval_nat_numeral)
  then show ?thesis
    using assms(1)
    by cases (auto simp: parse_day_def Let_def day_number_def digits_val_def split: if_splits)
qed

lemma in_days_piece:
  assumes "parse_day p = Some ds" and "plain_piece p" and "w < 7"
  shows "in_days_part (nat_str w) p \<longleftrightarrow> w \<in> set ds"
  using parse_plain_piece [OF assms(1,2)]
proof (elim disjE exE conjE)
  fix c assume c: "strip p = [c]" "is_digit c" "ds = [digit_val c]"
  then show ?thesis
    using digit_not_hyphen [of c] assms(3) digit_char_eq [of c w]
    by (auto simp: in_days_part_def Let_def weekday_text)
next
  fix a b assume c: "strip p = [a, CHR ''-'', b]" "is_digit a" "is_digit b" "ds = [digit_val a ..< digit_val b + 1]"
  have "int_of_text (nat_str w) = Some (int w)"
    using int_of_digit [of "digit_char w"] assms(3) by (simp add: weekday_text)
  then show ?thesis
    using c digit_not_hyphen [of a] by (auto simp: in_days_part_def Let_def int_of_digit)
qed

lemma parse_day_list_set:
  "parse_day_list ps out = Some ds \<Longrightarrow>
     (\<forall>p \<in> set ps. parse_day p \<noteq> None) \<and> set ds = set out \<union> (\<Union>p \<in> set ps. set (the (parse_day p)))"
  by (induction ps out rule: parse_day_list.induct) (auto split: option.splits)

definition plain_days :: "string \<Rightarrow> bool" where
  "plain_days d = (strip d = d \<and> list_all plain_piece (split_on CHR '','' d))"

lemma in_days_iff:
  assumes "parse_days d = Some ds" and "plain_days d" and "w < 7"
  shows "in_days d (nat_str w) \<longleftrightarrow> w \<in> set ds"
proof -
  have "parse_day_list (split_on CHR '','' d) [] = Some ds"
    using assms(1,2) by (simp add: parse_days_def plain_days_def Let_def split: if_splits)
  note P = parse_day_list_set [OF this]
  have "in_days_part (nat_str w) p \<longleftrightarrow> w \<in> set (the (parse_day p))" if p: "p \<in> set (split_on CHR '','' d)" for p
  proof -
    obtain es where es: "parse_day p = Some es" using P p by auto
    have "plain_piece p" using assms(2) p by (simp add: plain_days_def list_all_iff)
    with in_days_piece [OF es _ assms(3)] es show ?thesis by simp
  qed
  then show ?thesis using P by (simp add: in_days_def list_ex_iff)
qed

section \<open>The engine charges what the guard accepted\<close>

text \<open>The minute is in the window, both ends included.\<close>

definition inside :: "nat \<Rightarrow> nat \<Rightarrow> nat \<Rightarrow> bool" where
  "inside s e m = (if s \<le> e then s \<le> m \<and> m \<le> e else s \<le> m \<or> m \<le> e)"

definition peak_at :: "nat \<Rightarrow> nat \<Rightarrow> window \<Rightarrow> bool" where
  "peak_at d m w = (case w of (idx, days, s, e) \<Rightarrow> d \<in> set days \<and> inside s e m)"

text \<open>A row of texts without blanks around its times, naming each day by one digit.\<close>

definition row_value :: "string \<times> string \<times> string \<Rightarrow> pyval" where
  "row_value r = (case r of (d, s, e) \<Rightarrow> PDict [(''days'', PStr d), (''start'', PStr s), (''end'', PStr e)])"

definition plain_row :: "string \<times> string \<times> string \<Rightarrow> bool" where
  "plain_row r = (case r of (d, s, e) \<Rightarrow> plain_days d \<and> strip s = s \<and> strip e = e)"

lemma Bex_nth: "(\<exists>x \<in> set xs. P x) \<longleftrightarrow> (\<exists>i < length xs. P (xs ! i))"
  by (auto simp: set_conv_nth)

lemma row_hit:
  assumes "check_window idx (row_value r) = ([], Some w)" and "plain_row r"
    and "h < 24" "m < 60" "d < 7"
  shows "window_hit (two_digits h @ '':'' @ two_digits m) (nat_str d) (row_value r) \<longleftrightarrow> peak_at d (h * 60 + m) w"
proof -
  obtain dt st en where r: "r = (dt, st, en)" by (cases r)
  have plain: "plain_days dt" "strip dt = dt" "strip st = st" "strip en = en"
    using assms(2) by (auto simp: plain_row_def r plain_days_def)
  have ne: "dt \<noteq> []" "st \<noteq> []" "en \<noteq> []"
    using assms(1) plain by (auto simp: check_window_def row_value_def r window_field_def split: option.splits if_splits)
  then have tw: "times_and_days idx dt st en = ([], Some w)"
    using assms(1) plain by (simp add: check_window_def row_value_def r window_field_def)
  then obtain sh sm eh em ds where p: "parse_time_text st = Some (sh, sm)" "parse_time_text en = Some (eh, em)"
    "parse_days dt = Some ds" and w: "w = (idx, ds, sh * 60 + sm, eh * 60 + em)"
  proof -
    have "snd (times_and_days idx dt st en) = Some w" by (simp add: tw)
    then show ?thesis
      using that by (auto simp: times_and_days_def Let_def split: option.splits)
  qed
  show ?thesis
    using ne clock_text_order [OF p(1) assms(3,4)] clock_text_order [OF p(2) assms(3,4)]
      time_text_order [OF p(1,2)] in_days_iff [OF p(3) plain(1) assms(5)]
    by (simp add: window_hit_def row_value_def r window_text_def dget_or_def Let_def peak_at_def w inside_def)
qed

text \<open>
  C15. For windows the guard accepts, written plainly, the engine's peak tier is exactly the local
  minutes inside one of the parsed windows on one of its weekdays, both ends included and across
  midnight, although the engine compares texts and the guard compares minutes; every other minute is
  in the valley.
\<close>

theorem peak_exactly_in_accepted_windows:
  assumes "check_windows 1 (map row_value rows) = ([], ps)" and "rows \<noteq> []" and "\<forall>r \<in> set rows. plain_row r"
    and "local_time (if tz = [] then ''Asia/Shanghai'' else tz) t = Some (h, m, d)" and "h < 24" "m < 60" "d < 7"
  shows "resolve_price_tier local_time now (Some t) (map row_value rows) tz True
    = Some (if \<exists>w \<in> set ps. peak_at d (h * 60 + m) w then Peak else Valley)"
proof -
  note C = check_windows_ok [OF assms(1)]
  have "window_hit (two_digits h @ '':'' @ two_digits m) (nat_str d) (row_value (rows ! i)) \<longleftrightarrow> peak_at d (h * 60 + m) (ps ! i)"
    if "i < length rows" for i
    using C that assms(3) by (intro row_hit assms(5-7)) auto
  then have "(\<exists>r \<in> set rows. window_hit (two_digits h @ '':'' @ two_digits m) (nat_str d) (row_value r))
      \<longleftrightarrow> (\<exists>w \<in> set ps. peak_at d (h * 60 + m) w)"
    unfolding Bex_nth using C by auto
  then show ?thesis
    using assms(2,4) by (simp add: resolve_price_tier_def list_ex_iff)
qed

definition demo_rows_text :: "(string \<times> string \<times> string) list" where
  "demo_rows_text = [(''0-4'', ''09:00'', ''12:00''), (''5,6'', ''22:00'', ''02:00'')]"

theorem peak_exactly_in_accepted_windows_witness:
  "resolve_price_tier (\<lambda>zone moment. Some (1, 30, 6)) 0 (Some 5) (map row_value demo_rows_text) [] True = Some Peak"
proof -
  have c: "check_windows 1 (map row_value demo_rows_text)
      = ([], [(1, [0, 1, 2, 3, 4], 540, 720), (2, [5, 6], 1320, 120)])" by code_simp
  have p: "\<forall>r \<in> set demo_rows_text. plain_row r" "demo_rows_text \<noteq> []"
    by code_simp (simp add: demo_rows_text_def)
  show ?thesis
    using peak_exactly_in_accepted_windows [OF c p(2,1), of "\<lambda>zone moment. Some (1, 30, 6)" "[]" 5 1 30 6 0]
    by (simp add: peak_at_def inside_def)
qed

text \<open>
  Written otherwise the two sides part: the guard accepts the day \<open>01\<close> and the descending range
  \<open>06-1\<close>, but no weekday ever matches either text in the engine, so such windows never charge.
\<close>

theorem accepted_but_dead_days:
  "validate_peak_windows (PList [row_value (''01'', ''09:00'', ''12:00''), row_value (''06-1'', ''13:00'', ''14:00'')]) = []
   \<and> list_all (\<lambda>w. \<not> in_days ''01'' (nat_str w) \<and> \<not> in_days ''06-1'' (nat_str w)) [0, 1, 2, 3, 4, 5, 6]"
proof
  show "validate_peak_windows (PList [row_value (''01'', ''09:00'', ''12:00''), row_value (''06-1'', ''13:00'', ''14:00'')]) = []"
    by code_simp
  show "list_all (\<lambda>w. \<not> in_days ''01'' (nat_str w) \<and> \<not> in_days ''06-1'' (nat_str w)) [0, 1, 2, 3, 4, 5, 6]"
    by code_simp
qed

end
