(* ===== verification/Db_Base.thy ===== *)
theory Db_Base
  imports Retry
begin

text \<open>
  What the services share beside their rows: the outcome of a query for one row and the time stamps
  of the database.
\<close>

text \<open>\<open>Query.one_or_none\<close> raises \<open>MultipleResultsFound\<close> at a second row.\<close>

fun one_or_none :: "'a list \<Rightarrow> exn + 'a option" where
  "one_or_none [] = Inr None"
| "one_or_none [x] = Inr (Some x)"
| "one_or_none _ = Inl MultipleResultsFound"

lemma one_or_none_None: "one_or_none xs = Inr None \<longleftrightarrow> xs = []"
  by (cases xs rule: one_or_none.cases) auto

lemma one_or_none_Some: "one_or_none xs = Inr (Some x) \<longleftrightarrow> xs = [x]"
  by (cases xs rule: one_or_none.cases) auto

text \<open>\<^verbatim>\<open>CURRENT_TIMESTAMP(0)\<close>: the database rounds the instant of a row to whole seconds.\<close>

definition db_second :: "int \<Rightarrow> int" where
  "db_second now = (now + 500000) div 1000000 * 1000000"

end
