(* ===== verification/Membership.thy ===== *)
theory Membership
  imports Complex_Main "HOL-Library.Multiset" "HOL-Library.Product_Lexorder" "HOL-Library.Option_ord"
begin

text \<open>
  The membership resolver (\<^verbatim>\<open>service/membership_resolver.py\<close>, \<^verbatim>\<open>model/billing.py\<close>): which membership of
  an account is in force, and the only way memberships are opened and extended.  A table is the list
  of its rows; ids are the numbers of the UUIDs, instants are microseconds.  The query's
  \<^verbatim>\<open>ORDER BY\<close> is a lexicographic key, and \<^verbatim>\<open>first()\<close> a row with the greatest key.
\<close>

section \<open>Rows\<close>

record plan =
  plan_id :: int
  plan_price :: rat
  plan_grant :: int
  plan_days :: int

record membership =
  ms_id :: int
  ms_account :: int
  ms_plan :: int
  ms_status :: string
  ms_started :: int
  ms_expires :: "int option"
  ms_source :: string
  ms_source_id :: "int option"
  ms_updated :: int
  ms_created :: int

definition membership_is_effective :: "membership \<Rightarrow> int \<Rightarrow> bool" where
  "membership_is_effective m now =
     (ms_status m = ''active'' \<and> (case ms_expires m of None \<Rightarrow> False | Some t \<Rightarrow> now \<le> t))"

section \<open>Ordering\<close>

text \<open>\<open>query.order_by(...).first()\<close>: the first row whose key no row exceeds.\<close>

fun first_by :: "('a \<Rightarrow> 'k::linorder) \<Rightarrow> 'a list \<Rightarrow> 'a option" where
  "first_by key [] = None"
| "first_by key (r # rs) =
     (case first_by key rs of
        None \<Rightarrow> Some r
      | Some b \<Rightarrow> if key r < key b then Some b else Some r)"

lemma first_by_None [simp]: "first_by key rs = None \<longleftrightarrow> rs = []"
  by (cases rs) (auto split: option.splits)

lemma first_by_Some:
  "first_by key rs = Some r \<Longrightarrow> r \<in> set rs \<and> (\<forall>x \<in> set rs. key x \<le> key r)"
proof (induction rs arbitrary: r)
  case (Cons a rs)
  show ?case
  proof (cases "first_by key rs")
    case None
    then show ?thesis using Cons.prems by auto
  next
    case (Some b)
    then show ?thesis using Cons.prems Cons.IH [OF Some] by (auto split: if_splits)
  qed
qed simp

lemma first_by_greatest:
  assumes "inj_on key (set rs)" and "r \<in> set rs" and "\<forall>x \<in> set rs. key x \<le> key r"
  shows "first_by key rs = Some r"
proof -
  obtain b where b: "first_by key rs = Some b" using assms(2) by (cases "first_by key rs") auto
  note B = first_by_Some [OF b]
  then have "key b = key r" using assms(2,3) by (intro order_antisym) auto
  then have "b = r" using assms(1,2) B by (auto dest: inj_onD)
  with b show ?thesis by simp
qed

text \<open>The plan of a row (an outer join: there may be none), and the key of the query.\<close>

type_synonym rank = "bool \<times> rat option \<times> int option \<times> int option \<times> int \<times> int"

definition plan_of :: "plan list \<Rightarrow> membership \<Rightarrow> plan option" where
  "plan_of plans m = find (\<lambda>p. plan_id p = ms_plan m) plans"

definition rank :: "plan list \<Rightarrow> int \<Rightarrow> membership \<Rightarrow> rank" where
  "rank plans now m =
     (membership_is_effective m now,
      map_option plan_price (plan_of plans m),
      map_option plan_grant (plan_of plans m),
      ms_expires m, ms_created m, ms_id m)"

section \<open>Resolution\<close>

definition account_rows :: "membership list \<Rightarrow> int \<Rightarrow> membership list" where
  "account_rows rows account = filter (\<lambda>m. ms_account m = account) rows"

definition resolve_current_membership ::
  "plan list \<Rightarrow> membership list \<Rightarrow> int \<Rightarrow> int \<Rightarrow> membership option" where
  "resolve_current_membership plans rows account now =
     first_by (rank plans now) (account_rows rows account)"

definition resolve_effective_membership ::
  "plan list \<Rightarrow> membership list \<Rightarrow> int \<Rightarrow> int \<Rightarrow> membership option" where
  "resolve_effective_membership plans rows account now =
     (case resolve_current_membership plans rows account now of
        None \<Rightarrow> None
      | Some m \<Rightarrow> if membership_is_effective m now then Some m else None)"

definition has_active_membership :: "plan list \<Rightarrow> membership list \<Rightarrow> int \<Rightarrow> int \<Rightarrow> bool" where
  "has_active_membership plans rows account now =
     (resolve_effective_membership plans rows account now \<noteq> None)"

definition find_membership_by_source :: "membership list \<Rightarrow> int \<Rightarrow> string \<Rightarrow> int \<Rightarrow> membership option" where
  "find_membership_by_source rows account source source_id =
     first_by ms_created
       (filter (\<lambda>m. ms_account m = account \<and> ms_source m = source \<and> ms_source_id m = Some source_id) rows)"

section \<open>Writing\<close>

definition overdue :: "int \<Rightarrow> int \<Rightarrow> membership \<Rightarrow> bool" where
  "overdue account now m =
     (ms_account m = account \<and> ms_status m = ''active'' \<and>
      (case ms_expires m of None \<Rightarrow> False | Some t \<Rightarrow> t < now))"

definition expire_row :: "int \<Rightarrow> membership \<Rightarrow> membership" where
  "expire_row now m = m\<lparr>ms_status := ''expired'', ms_updated := now\<rparr>"

text \<open>The rows after, and the rows that were changed.\<close>

definition expire_due_memberships :: "membership list \<Rightarrow> int \<Rightarrow> int \<Rightarrow> membership list \<times> membership list" where
  "expire_due_memberships rows account now =
     (map (\<lambda>m. if overdue account now m then expire_row now m else m) rows,
      map (expire_row now) (filter (overdue account now) rows))"

definition day :: int where
  "day = 86400000000"

definition set_row :: "membership \<Rightarrow> membership list \<Rightarrow> membership list" where
  "set_row r rows = map (\<lambda>m. if ms_id m = ms_id r then r else m) rows"

text \<open>\<open>new_id\<close> and \<open>db_now\<close> are the defaults the database fills in for a new row.\<close>

definition new_membership :: "int \<Rightarrow> int \<Rightarrow> int \<Rightarrow> plan \<Rightarrow> string \<Rightarrow> int \<Rightarrow> int \<Rightarrow> membership" where
  "new_membership new_id db_now account p source source_id now =
     \<lparr>ms_id = new_id, ms_account = account, ms_plan = plan_id p, ms_status = ''active'',
      ms_started = now, ms_expires = Some (now + plan_days p * day), ms_source = source,
      ms_source_id = Some source_id, ms_updated = db_now, ms_created = db_now\<rparr>"

definition latest_of_plan :: "membership list \<Rightarrow> int \<Rightarrow> plan \<Rightarrow> membership option" where
  "latest_of_plan rows account p =
     first_by (\<lambda>m. (ms_expires m, ms_created m))
       (filter (\<lambda>m. ms_account m = account \<and> ms_plan m = plan_id p) rows)"

definition extendable :: "int \<Rightarrow> membership \<Rightarrow> bool" where
  "extendable now m =
     (ms_status m = ''active'' \<and> (case ms_expires m of None \<Rightarrow> False | Some t \<Rightarrow> now < t))"

definition extend_row :: "plan \<Rightarrow> string \<Rightarrow> int \<Rightarrow> int \<Rightarrow> membership \<Rightarrow> membership" where
  "extend_row p source source_id now m =
     m\<lparr>ms_expires := map_option (\<lambda>t. t + plan_days p * day) (ms_expires m), ms_source := source,
       ms_source_id := Some source_id, ms_updated := now\<rparr>"

definition activate_or_extend_membership ::
  "int \<Rightarrow> int \<Rightarrow> membership list \<Rightarrow> int \<Rightarrow> plan \<Rightarrow> string \<Rightarrow> int \<Rightarrow> int \<Rightarrow> membership \<times> membership list" where
  "activate_or_extend_membership new_id db_now rows account p source source_id now =
     (case latest_of_plan rows account p of
        Some m \<Rightarrow>
          if extendable now m
          then (let m' = extend_row p source source_id now m in (m', set_row m' rows))
          else (let m' = new_membership new_id db_now account p source source_id now in (m', rows @ [m']))
      | None \<Rightarrow> (let m' = new_membership new_id db_now account p source source_id now in (m', rows @ [m'])))"

section \<open>What is in force\<close>

definition price_of :: "plan list \<Rightarrow> membership \<Rightarrow> rat option" where
  "price_of plans m = map_option plan_price (plan_of plans m)"

lemma account_rows_iff [simp]: "m \<in> set (account_rows rows account) \<longleftrightarrow> m \<in> set rows \<and> ms_account m = account"
  by (auto simp: account_rows_def)

lemma rank_le:
  assumes "rank plans now x \<le> rank plans now y"
  shows "membership_is_effective x now \<Longrightarrow> membership_is_effective y now"
    and "membership_is_effective x now \<Longrightarrow> price_of plans x \<le> price_of plans y"
  using assms by (auto simp: rank_def price_of_def less_eq_prod_def less_prod_def)

lemmas resolve_defs =
  resolve_current_membership_def resolve_effective_membership_def has_active_membership_def

lemma resolve_None: "resolve_current_membership plans rows account now = None \<longleftrightarrow> account_rows rows account = []"
  by (simp add: resolve_defs)

lemma resolve_Some:
  assumes "resolve_current_membership plans rows account now = Some r"
  shows "r \<in> set rows" and "ms_account r = account"
    and "m \<in> set rows \<Longrightarrow> ms_account m = account \<Longrightarrow> rank plans now m \<le> rank plans now r"
proof -
  have "first_by (rank plans now) (account_rows rows account) = Some r"
    using assms by (simp add: resolve_defs)
  note R = first_by_Some [OF this]
  then show "r \<in> set rows" "ms_account r = account" by simp_all
  show "m \<in> set rows \<Longrightarrow> ms_account m = account \<Longrightarrow> rank plans now m \<le> rank plans now r"
    using R by simp
qed

text \<open>
  C12. The resolver picks a row of the account whenever there is one, and when some row is in force the
  row it picks is in force and no row in force has a dearer plan: a free trial card never displaces a
  paid one.
\<close>

theorem resolved_membership_is_best:
  "case resolve_current_membership plans rows account now of
     None \<Rightarrow> \<not> (\<exists>m \<in> set rows. ms_account m = account)
   | Some r \<Rightarrow> r \<in> set rows \<and> ms_account r = account \<and>
       (\<forall>m \<in> set rows. ms_account m = account \<and> membership_is_effective m now \<longrightarrow>
          membership_is_effective r now \<and> price_of plans m \<le> price_of plans r)"
proof (cases "resolve_current_membership plans rows account now")
  case None
  then have "account_rows rows account = []" by (simp add: resolve_None)
  then show ?thesis using None by (auto simp: account_rows_def filter_empty_conv)
next
  case (Some r)
  then show ?thesis using resolve_Some [OF Some] rank_le [of plans now _ r] by auto
qed

lemma resolve_effective_iff:
  "resolve_effective_membership plans rows account now = None
     \<longleftrightarrow> \<not> (\<exists>m \<in> set rows. ms_account m = account \<and> membership_is_effective m now)"
proof (cases "resolve_current_membership plans rows account now")
  case None
  then have "account_rows rows account = []" by (simp add: resolve_None)
  then show ?thesis
    using None by (auto simp: resolve_effective_membership_def account_rows_def filter_empty_conv)
next
  case (Some r)
  then show ?thesis
    using resolve_Some [OF Some] rank_le(1) [of plans now _ r]
    by (auto simp: resolve_effective_membership_def)
qed

text \<open>
  An account has an active membership exactly when one of its rows is in force, and the effective
  membership is then the current one: entitlements and identity are decided by the same row.
\<close>

theorem has_active_iff:
  "(has_active_membership plans rows account now
      \<longleftrightarrow> (\<exists>m \<in> set rows. ms_account m = account \<and> membership_is_effective m now)) \<and>
   (has_active_membership plans rows account now \<longrightarrow>
      resolve_effective_membership plans rows account now = resolve_current_membership plans rows account now)"
  unfolding has_active_membership_def
  using resolve_effective_iff [of plans rows account now]
  by (auto simp: resolve_effective_membership_def split: option.splits if_splits)

section \<open>Determinism\<close>

lemma rank_inj: "distinct (map ms_id rows) \<Longrightarrow> inj_on (rank plans now) (set rows)"
  by (rule inj_onI) (auto simp: rank_def distinct_map dest: inj_onD)

lemma first_by_mset:
  assumes "inj_on key (set rs)" and "mset rs = mset rs'"
  shows "first_by key rs = first_by key rs'"
proof (cases "first_by key rs'")
  case None
  then have "rs = []" using assms(2) by simp
  then show ?thesis using None by simp
next
  case (Some r)
  have "set rs = set rs'" using assms(2) by (rule mset_eq_setD)
  then show ?thesis
    using first_by_Some [OF Some] assms(1) Some by (auto intro: first_by_greatest)
qed

text \<open>
  The same rows resolve to the same membership in whatever order the database returns them: the id
  breaks every tie.
\<close>

theorem resolution_order_irrelevant:
  assumes "distinct (map ms_id rows)" and "mset rows = mset rows'"
  shows "resolve_current_membership plans rows account now = resolve_current_membership plans rows' account now
    \<and> resolve_effective_membership plans rows account now = resolve_effective_membership plans rows' account now"
proof -
  have "inj_on (rank plans now) (set (account_rows rows account))"
    using rank_inj [OF assms(1)] by (rule inj_on_subset) auto
  moreover have "mset (account_rows rows account) = mset (account_rows rows' account)"
    by (simp add: account_rows_def assms(2))
  ultimately have "resolve_current_membership plans rows account now = resolve_current_membership plans rows' account now"
    unfolding resolve_current_membership_def by (rule first_by_mset)
  then show ?thesis
    by (simp add: resolve_effective_membership_def)
qed

section \<open>Expiry changes no resolution\<close>

lemma expire_row_simps [simp]:
  "ms_id (expire_row now m) = ms_id m" "ms_account (expire_row now m) = ms_account m"
  "ms_plan (expire_row now m) = ms_plan m" "ms_expires (expire_row now m) = ms_expires m"
  "\<not> membership_is_effective (expire_row now m) t" "\<not> overdue account t (expire_row now m)"
  by (simp_all add: expire_row_def membership_is_effective_def overdue_def)

lemma overdue_not_effective: "overdue account now m \<Longrightarrow> \<not> membership_is_effective m now"
  by (auto simp: overdue_def membership_is_effective_def split: option.splits)

lemma expire_ids: "map ms_id (fst (expire_due_memberships rows account now)) = map ms_id rows"
  by (simp add: expire_due_memberships_def)

lemma in_expired:
  "x \<in> set (fst (expire_due_memberships rows account now)) \<longleftrightarrow>
     (x \<in> set rows \<and> \<not> overdue account now x) \<or> (\<exists>m \<in> set rows. overdue account now m \<and> x = expire_row now m)"
  by (auto simp: expire_due_memberships_def)

text \<open>
  Closing the overdue memberships of an account leaves none of them active, touches no row of
  another account and no row still in force, reports exactly the rows it closed, and does not change
  which membership is effective.
\<close>

theorem expiry_keeps_resolution:
  assumes "distinct (map ms_id rows)" and "expire_due_memberships rows account now = (rows', ended)"
  shows "resolve_effective_membership plans rows' account now = resolve_effective_membership plans rows account now
    \<and> (\<forall>m \<in> set rows'. \<not> overdue account now m)
    \<and> (\<forall>m \<in> set rows. \<not> overdue account now m \<longrightarrow> m \<in> set rows')
    \<and> set ended = set rows' - {m \<in> set rows. \<not> overdue account now m}"
proof -
  have rows': "rows' = fst (expire_due_memberships rows account now)" by (simp add: assms(2))
  have mem: "x \<in> set rows' \<longleftrightarrow> (x \<in> set rows \<and> \<not> overdue account now x)
      \<or> (\<exists>m \<in> set rows. overdue account now m \<and> x = expire_row now m)" for x
    unfolding rows' by (rule in_expired)
  have ids: "distinct (map ms_id rows')" unfolding rows' expire_ids by (rule assms(1))
  have eff: "(\<exists>m \<in> set rows'. ms_account m = account \<and> membership_is_effective m now)
      \<longleftrightarrow> (\<exists>m \<in> set rows. ms_account m = account \<and> membership_is_effective m now)"
    (is "?new \<longleftrightarrow> ?old")
  proof
    assume ?old
    then obtain m where m: "m \<in> set rows" "ms_account m = account" "membership_is_effective m now" by blast
    then have "m \<in> set rows'" using overdue_not_effective mem by blast
    with m show ?new by blast
  qed (auto simp: mem)
  have res: "resolve_effective_membership plans rows' account now = resolve_effective_membership plans rows account now"
  proof (cases "resolve_effective_membership plans rows account now")
    case None
    then show ?thesis using eff resolve_effective_iff by metis
  next
    case (Some r)
    then have cur: "resolve_current_membership plans rows account now = Some r"
      and re: "membership_is_effective r now"
      by (auto simp: resolve_effective_membership_def split: option.splits if_splits)
    note R = resolve_Some [OF cur]
    have "r \<in> set rows'" using R re overdue_not_effective by (auto simp: mem)
    moreover have "rank plans now x \<le> rank plans now r" if "x \<in> set rows'" "ms_account x = account" for x
      using that R(3) [of x] re by (auto simp: mem rank_def)
    ultimately have "resolve_current_membership plans rows' account now = Some r"
      unfolding resolve_current_membership_def using R(2) rank_inj [OF ids, of plans now]
      by (intro first_by_greatest) (auto intro: inj_on_subset)
    then show ?thesis using Some re by (simp add: resolve_effective_membership_def)
  qed
  have "ended = map (expire_row now) (filter (overdue account now) rows)"
    using assms(2) by (simp add: expire_due_memberships_def)
  moreover have "\<not> (\<exists>m \<in> set rows. overdue account now m \<and> expire_row now m \<in> set rows \<and> \<not> overdue account now (expire_row now m))"
  proof
    assume "\<exists>m \<in> set rows. overdue account now m \<and> expire_row now m \<in> set rows \<and> \<not> overdue account now (expire_row now m)"
    then obtain m where m: "m \<in> set rows" "overdue account now m" "expire_row now m \<in> set rows" by blast
    have "inj_on ms_id (set rows)" using assms(1) by (simp add: distinct_map)
    then have "expire_row now m = m" by (rule inj_onD) (use m in simp_all)
    then show False using m(2) by (metis expire_row_simps(6))
  qed
  ultimately have "set ended = set rows' - {m \<in> set rows. \<not> overdue account now m}"
    by (auto simp: mem)
  then show ?thesis using res by (auto simp: mem)
qed

section \<open>Activation\<close>

lemma set_row_ids: "map ms_id (set_row r rows) = map ms_id rows"
  by (induction rows) (auto simp: set_row_def)

lemma extend_row_simps [simp]:
  "ms_id (extend_row p source source_id now m) = ms_id m"
  "ms_account (extend_row p source source_id now m) = ms_account m"
  "ms_plan (extend_row p source source_id now m) = ms_plan m"
  "ms_status (extend_row p source source_id now m) = ms_status m"
  by (simp_all add: extend_row_def)

lemma latest_of_plan_row:
  "latest_of_plan rows account p = Some m \<Longrightarrow> m \<in> set rows \<and> ms_account m = account \<and> ms_plan m = plan_id p"
  unfolding latest_of_plan_def by (drule first_by_Some) auto

text \<open>The instant up to which the account has already paid for the plan, when its latest row runs.\<close>

definition paid_until :: "membership list \<Rightarrow> int \<Rightarrow> plan \<Rightarrow> int \<Rightarrow> int" where
  "paid_until rows account p now =
     (case latest_of_plan rows account p of
        Some m \<Rightarrow> if extendable now m then the (ms_expires m) else now
      | None \<Rightarrow> now)"

text \<open>
  Buying a plan of non-negative length leaves the account with a membership of that plan in force,
  running from the end of its latest running row, or from now, for the length of the plan; the ids
  stay distinct and every other row, in particular every row of another plan, is left as it was.
\<close>

theorem activation_spec:
  assumes "distinct (map ms_id rows)" and "new_id \<notin> ms_id ` set rows" and "0 \<le> plan_days p"
    and "activate_or_extend_membership new_id db_now rows account p source source_id now = (m, rows')"
  shows "m \<in> set rows' \<and> ms_account m = account \<and> ms_plan m = plan_id p \<and> membership_is_effective m now
    \<and> ms_expires m = Some (paid_until rows account p now + plan_days p * day)
    \<and> distinct (map ms_id rows')
    \<and> (\<forall>x. ms_id x \<noteq> ms_id m \<longrightarrow> (x \<in> set rows' \<longleftrightarrow> x \<in> set rows))
    \<and> (\<forall>x \<in> set rows. ms_id x = ms_id m \<longrightarrow> ms_plan x = plan_id p \<and> ms_account x = account)"
proof (cases "\<exists>old. latest_of_plan rows account p = Some old \<and> extendable now old")
  case True
  then obtain old where old: "latest_of_plan rows account p = Some old" "extendable now old" by blast
  obtain t where t: "ms_expires old = Some t" "now < t" "ms_status old = ''active''"
    using old(2) by (auto simp: extendable_def split: option.splits)
  note O = latest_of_plan_row [OF old(1)]
  have m: "m = extend_row p source source_id now old" and r: "rows' = set_row m rows"
    using assms(4) old by (auto simp: activate_or_extend_membership_def Let_def)
  have "0 \<le> plan_days p * day" using assms(3) by (simp add: day_def)
  moreover have "x = old" if "x \<in> set rows" "ms_id x = ms_id old" for x
    using assms(1) that O by (auto simp: distinct_map dest: inj_onD)
  ultimately show ?thesis
    using O t old assms(1) unfolding r set_row_ids
    by (auto simp: m set_row_def paid_until_def membership_is_effective_def extend_row_def)
next
  case False
  then have m: "m = new_membership new_id db_now account p source source_id now" and r: "rows' = rows @ [m]"
    using assms(4) by (auto simp: activate_or_extend_membership_def Let_def split: option.splits if_splits)
  have "0 \<le> plan_days p * day" using assms(3) by (simp add: day_def)
  moreover have "paid_until rows account p now = now"
    using False by (auto simp: paid_until_def split: option.splits)
  ultimately show ?thesis
    using assms(1,2) unfolding r by (auto simp: m new_membership_def membership_is_effective_def)
qed

section \<open>A concrete account\<close>

definition demo_plans :: "plan list" where
  "demo_plans =
     [\<lparr>plan_id = 1, plan_price = 0, plan_grant = 10, plan_days = 7\<rparr>,
      \<lparr>plan_id = 2, plan_price = 99, plan_grant = 1000, plan_days = 30\<rparr>]"

definition demo_row :: "int \<Rightarrow> int \<Rightarrow> string \<Rightarrow> int \<Rightarrow> membership" where
  "demo_row i p status expires =
     \<lparr>ms_id = i, ms_account = 1, ms_plan = p, ms_status = status, ms_started = 0, ms_expires = Some expires,
      ms_source = ''order'', ms_source_id = Some i, ms_updated = 0, ms_created = i\<rparr>"

definition demo_rows :: "membership list" where
  "demo_rows =
     [demo_row 1 1 ''active'' (500 * day), demo_row 2 2 ''active'' (100 * day), demo_row 3 2 ''active'' (5 * day)]"

lemma demo_resolves: "resolve_current_membership demo_plans demo_rows 1 (10 * day) = Some (demo_row 2 2 ''active'' (100 * day))"
  by code_simp

lemma demo_ids: "distinct (map ms_id demo_rows)" "4 \<notin> ms_id ` set demo_rows"
  by (simp_all add: demo_rows_def demo_row_def)

theorem resolved_membership_is_best_witness:
  "price_of demo_plans (demo_row 1 1 ''active'' (500 * day)) \<le> price_of demo_plans (demo_row 2 2 ''active'' (100 * day))"
proof -
  have "membership_is_effective (demo_row 1 1 ''active'' (500 * day)) (10 * day)" by code_simp
  moreover have "demo_row 1 1 ''active'' (500 * day) \<in> set demo_rows" by (simp add: demo_rows_def)
  moreover have "ms_account (demo_row 1 1 ''active'' (500 * day)) = 1" by (simp add: demo_row_def)
  ultimately show ?thesis
    using resolved_membership_is_best [where plans = demo_plans and rows = demo_rows and account = 1 and now = "10 * day"] by (simp add: demo_resolves)
qed

theorem has_active_iff_witness:
  "has_active_membership demo_plans demo_rows 1 (10 * day) \<and>
   resolve_effective_membership demo_plans demo_rows 1 (10 * day) = Some (demo_row 2 2 ''active'' (100 * day))"
proof -
  have "\<exists>m \<in> set demo_rows. ms_account m = 1 \<and> membership_is_effective m (10 * day)" by code_simp
  then show ?thesis
    using has_active_iff [where plans = demo_plans and rows = demo_rows and account = 1 and now = "10 * day"] by (simp add: demo_resolves)
qed

theorem resolution_order_irrelevant_witness:
  "resolve_current_membership demo_plans demo_rows 1 (10 * day)
     = resolve_current_membership demo_plans (rev demo_rows) 1 (10 * day)
   \<and> resolve_effective_membership demo_plans demo_rows 1 (10 * day)
     = resolve_effective_membership demo_plans (rev demo_rows) 1 (10 * day)"
  by (rule resolution_order_irrelevant) (simp_all add: demo_ids)

theorem expiry_keeps_resolution_witness:
  "resolve_effective_membership demo_plans (fst (expire_due_memberships demo_rows 1 (10 * day))) 1 (10 * day)
     = resolve_effective_membership demo_plans demo_rows 1 (10 * day)"
  using expiry_keeps_resolution [OF demo_ids(1), where plans = demo_plans and account = 1 and now = "10 * day",
      OF prod.collapse [symmetric]]
  by simp

theorem activation_spec_witness:
  "ms_expires (fst (activate_or_extend_membership 4 0 demo_rows 1 (demo_plans ! 1) ''order'' 9 (10 * day)))
     = Some (130 * day)"
proof -
  have "paid_until demo_rows 1 (demo_plans ! 1) (10 * day) + plan_days (demo_plans ! 1) * day = 130 * day"
    by code_simp
  moreover have "0 \<le> plan_days (demo_plans ! 1)" by (simp add: demo_plans_def)
  ultimately show ?thesis
    using activation_spec [OF demo_ids, where p = "demo_plans ! 1" and db_now = 0 and account = 1 and source = "''order''"
        and source_id = 9 and now = "10 * day", OF _ prod.collapse [symmetric]]
    by simp
qed

text \<open>
  The row to extend is the one of the plan that expires last, whatever its status: behind a refunded
  row with a later end, an order for a plan with 20 days left opens a second row from now instead of
  extending the running one, and the account's last paid day does not move by the length bought.
\<close>

theorem renewal_behind_refunded_row:
  "let rows = [demo_row 1 2 ''expired'' (60 * day), demo_row 2 2 ''active'' (30 * day)];
       p = demo_plans ! 1;
       (m, rows') = activate_or_extend_membership 3 0 rows 1 p ''order'' 9 (10 * day)
   in membership_is_effective (rows ! 1) (10 * day) \<and> length rows' = 3 \<and> ms_expires m = Some (40 * day)"
  by code_simp

end
