(* ===== verification/Credit.thy ===== *)
theory Credit
  imports Db_Base Pricing_Engine Membership
begin

text \<open>
  Credit accounts and their ledger (\<^verbatim>\<open>service/credit_service.py\<close>, \<^verbatim>\<open>model/billing.py\<close>): charging a
  message or a feature, the rolling refresh of the quota, and the adjustments of a reconciliation.
  The session's tables are a record; a query is a search in a list, and a raising operation returns
  the tables as it left them (the caller rolls back).  Automatic renewal after a charge is a
  parameter, and one call reads the clock once.
\<close>

section \<open>Tables\<close>

record credit_account =
  permanent_credit :: int
  quota_credit :: int
  quota_granted :: int
  quota_cycle_days :: int
  quota_reset_at :: "int option"
  total_granted :: int
  total_consumed :: int
  account_updated :: int

datatype tx_type = Consume | Adjust | OrderGrant | RedeemGrant

record credit_transaction =
  tx_account :: int
  tx_amount :: int
  tx_balance :: int
  tx_kind :: tx_type
  tx_source :: string
  tx_source_id :: int
  tx_created :: int

record ledger =
  accounts :: "(int \<times> credit_account) list"
  transactions :: "credit_transaction list"
  memberships :: "membership list"
  plans :: "plan list"

definition available_tokens :: "credit_account \<Rightarrow> int" where
  "available_tokens a = permanent_credit a + quota_credit a"

text \<open>
  What the service calls: the pricing engine with its clock and texts, the row of the global rate, the
  feature rows (whether billable), and the UUID functions.
\<close>

record billing_env =
  env_clock :: clock
  env_num_text :: "pynum \<Rightarrow> string"
  env_decimal_text :: "rat \<Rightarrow> string"
  env_engine :: pricing_engine
  env_rate_row :: "exn + rat option"
  env_feature :: "string \<Rightarrow> exn + bool option"
  env_uuid5 :: "string \<Rightarrow> int"
  env_uuid4 :: int

section \<open>Units\<close>

definition compute_units_from_tokens :: "int \<Rightarrow> int" where
  "compute_units_from_tokens n = (if n \<le> 0 then 0 else \<lceil>rnd (of_int n / 1000)\<rceil>)"

definition truncate_rat :: "rat \<Rightarrow> int" where
  "truncate_rat x = (if 0 \<le> x then \<lfloor>x\<rfloor> else \<lceil>x\<rceil>)"

definition credits_per_1k_tokens :: "billing_env \<Rightarrow> int" where
  "credits_per_1k_tokens env =
     (case env_rate_row env of
        Inr (Some v) \<Rightarrow>
          if v = 0 then 1
          else (let n = truncate_rat v in max (if n = 0 then 1 else n) 1)
      | _ \<Rightarrow> 1)"

record usage =
  use_tokens :: int
  use_model :: "string option"
  use_input :: int
  use_output :: int
  use_cached :: int

record price_detail =
  units :: int
  unit_basis :: basis
  detail_rate :: "int option"
  detail_cost :: "int option"
  detail_margin :: "int option"

definition compute_units :: "billing_env \<Rightarrow> int \<Rightarrow> usage \<Rightarrow> price_detail" where
  "compute_units env now u =
     (if use_model u \<noteq> None \<and> use_model u \<noteq> Some [] then
        (let p = plan_usage (env_clock env) now (env_num_text env) (env_decimal_text env) (env_engine env)
                   (use_model u) (use_input u) (use_output u) (use_cached u) None in
         \<lparr>units = sell_credits p, unit_basis = billing_basis p, detail_rate = None,
          detail_cost = Some (cost_credits p), detail_margin = Some (margin_credits p)\<rparr>)
      else
        (let c = credits_per_1k_tokens env in
         \<lparr>units = (if 0 < use_tokens u then \<lceil>rnd (of_int (use_tokens u * c) / 1000)\<rceil> else 0),
          unit_basis = GlobalRate, detail_rate = Some c, detail_cost = None, detail_margin = None\<rparr>))"

section \<open>Queries\<close>

definition get_existing_message_consume :: "ledger \<Rightarrow> int \<Rightarrow> credit_transaction option" where
  "get_existing_message_consume l message =
     find (\<lambda>t. tx_source t = ''message'' \<and> tx_source_id t = message \<and> tx_kind t = Consume) (transactions l)"

definition get_credit_account :: "ledger \<Rightarrow> int \<Rightarrow> credit_account option" where
  "get_credit_account l account = map_of (accounts l) account"

definition put_account :: "int \<Rightarrow> credit_account \<Rightarrow> ledger \<Rightarrow> ledger" where
  "put_account account a l = l\<lparr>accounts := dset account a (accounts l)\<rparr>"

definition add_transaction :: "credit_transaction \<Rightarrow> ledger \<Rightarrow> ledger" where
  "add_transaction t l = l\<lparr>transactions := transactions l @ [t]\<rparr>"

definition get_current_membership :: "ledger \<Rightarrow> int \<Rightarrow> int \<Rightarrow> membership option" where
  "get_current_membership l account now = resolve_current_membership (plans l) (memberships l) account now"

definition in_force :: "membership option \<Rightarrow> int \<Rightarrow> bool" where
  "in_force m now = (case m of None \<Rightarrow> False | Some x \<Rightarrow> membership_is_effective x now)"

definition new_account :: credit_account where
  "new_account =
     \<lparr>permanent_credit = 0, quota_credit = 0, quota_granted = 0, quota_cycle_days = 0, quota_reset_at = None,
      total_granted = 0, total_consumed = 0, account_updated = 0\<rparr>"

section \<open>The rolling refresh\<close>

text \<open>
  \<open>while now >= reset_at\<close>: the reset moves by whole cycles until it is in the future.  The caller has
  checked that the cycle is positive.
\<close>

function next_reset :: "int \<Rightarrow> int \<Rightarrow> int \<Rightarrow> int" where
  "next_reset now cycle reset =
     (if cycle \<le> 0 \<or> now < reset then reset else next_reset now cycle (reset + cycle))"
  by pat_completeness auto

termination
  by (relation "measure (\<lambda>(now, cycle, reset). nat (now - reset + 1))") auto

declare next_reset.simps [simp del]

definition refresh_quota_if_due :: "credit_account \<Rightarrow> membership option \<Rightarrow> int \<Rightarrow> credit_account" where
  "refresh_quota_if_due a m now =
     (if \<not> in_force m now then a
      else (case quota_reset_at a of
          None \<Rightarrow> a
        | Some reset \<Rightarrow>
            if quota_granted a \<le> 0 \<or> quota_cycle_days a \<le> 0 then a
            else if now < reset then a
            else a\<lparr>quota_credit := quota_granted a,
                   quota_reset_at := Some (next_reset now (quota_cycle_days a * day) reset)\<rparr>))"

section \<open>Deduction\<close>

record deduction =
  quota_used :: int
  permanent_used :: int
  short_by :: int

text \<open>Quota first, while the membership is in force, then permanent credits.\<close>

definition deduct :: "credit_account \<Rightarrow> bool \<Rightarrow> int \<Rightarrow> credit_account \<times> deduction" where
  "deduct a in_force_now wanted =
     (let from_quota = (if in_force_now \<and> 0 < quota_credit a then min (quota_credit a) wanted else 0);
          rest = wanted - from_quota;
          from_permanent = (if 0 < rest \<and> 0 < permanent_credit a then min (permanent_credit a) rest else 0)
      in (a\<lparr>quota_credit := quota_credit a - from_quota, permanent_credit := permanent_credit a - from_permanent\<rparr>,
          \<lparr>quota_used = from_quota, permanent_used = from_permanent, short_by = rest - from_permanent\<rparr>))"

record consumed =
  amount :: int
  balance_after :: int
  compute_units_due :: int
  actual_units :: int
  used :: deduction
  insufficient :: bool
  before_available :: int

datatype consume_result =
    ZeroUsage
  | Repeated credit_transaction price_detail
  | Charged consumed price_detail

definition apply_consume :: "credit_account \<Rightarrow> membership option \<Rightarrow> int \<Rightarrow> int \<Rightarrow> credit_account \<times> deduction" where
  "apply_consume a m now wanted = deduct a (in_force m now) wanted"

text \<open>The account and the result of charging it, before anything is written.\<close>

definition charge_account :: "credit_account \<Rightarrow> membership option \<Rightarrow> int \<Rightarrow> int \<Rightarrow> credit_account \<times> consumed" where
  "charge_account a m now wanted =
     (let a1 = refresh_quota_if_due a m now;
          (a2, d) = apply_consume a1 m now wanted;
          total = quota_used d + permanent_used d;
          a3 = a2\<lparr>total_consumed := total_consumed a2 + total, account_updated := now\<rparr> in
      (a3, \<lparr>amount = - total, balance_after = available_tokens a3, compute_units_due = wanted,
            actual_units = total, used = d, insufficient = (0 < short_by d),
            before_available = available_tokens a1\<rparr>))"

definition message_transaction :: "int \<Rightarrow> int \<Rightarrow> int \<Rightarrow> consumed \<Rightarrow> credit_transaction" where
  "message_transaction now account message c =
     \<lparr>tx_account = account, tx_amount = amount c, tx_balance = balance_after c, tx_kind = Consume,
      tx_source = ''message'', tx_source_id = message, tx_created = db_second now\<rparr>"

definition consume_for_message ::
  "billing_env \<Rightarrow> (int \<Rightarrow> ledger \<Rightarrow> ledger) \<Rightarrow> int \<Rightarrow> int \<Rightarrow> int \<Rightarrow> usage \<Rightarrow> ledger \<Rightarrow> consume_result \<times> ledger" where
  "consume_for_message env auto_renew now account message u l =
     (let detail = compute_units env now u; wanted = units detail in
      if wanted \<le> 0 then (ZeroUsage, l)
      else (case get_existing_message_consume l message of
          Some t \<Rightarrow> (Repeated t detail, l)
        | None \<Rightarrow>
            (let a = (case get_credit_account l account of None \<Rightarrow> new_account | Some a \<Rightarrow> a);
                 m = get_current_membership l account now;
                 (a', c) = charge_account a m now wanted;
                 l' = add_transaction (message_transaction now account message c) (put_account account a' l)
             in (Charged c detail, auto_renew account l'))))"

datatype feature_result = NoTokens | SystemBorne | FeatureCharge consume_result

definition consume_for_feature ::
  "billing_env \<Rightarrow> (int \<Rightarrow> ledger \<Rightarrow> ledger) \<Rightarrow> int \<Rightarrow> int \<Rightarrow> string \<Rightarrow> string option \<Rightarrow> int option \<Rightarrow> usage \<Rightarrow> ledger
    \<Rightarrow> feature_result \<times> ledger" where
  "consume_for_feature env auto_renew now account feature key message u l =
     (if use_tokens u \<le> 0 then (NoTokens, l)
      else if env_feature env feature = Inr (Some False) then (SystemBorne, l)
      else
        (let target = (case message of
               Some i \<Rightarrow> i
             | None \<Rightarrow> (case key of
                 Some (c # cs) \<Rightarrow> env_uuid5 env ((c # cs) @ '':'' @ feature)
               | _ \<Rightarrow> env_uuid4 env));
             (r, l') = consume_for_message env auto_renew now account target u l
         in (FeatureCharge r, l')))"

section \<open>Adjustment\<close>

record adjustment =
  adj_amount :: int
  adj_balance :: int
  adj_repeated :: bool

datatype adjust_result = ZeroDiff | Adjusted adjustment

definition get_existing_adjust :: "ledger \<Rightarrow> string \<Rightarrow> int \<Rightarrow> credit_transaction option" where
  "get_existing_adjust l source source_id =
     find (\<lambda>t. tx_source t = source \<and> tx_source_id t = source_id \<and> tx_kind t = Adjust) (transactions l)"

definition adjust_account :: "credit_account \<Rightarrow> bool \<Rightarrow> int \<Rightarrow> credit_account \<times> bool" where
  "adjust_account a in_force_now amt =
     (if 0 < amt then (a\<lparr>permanent_credit := permanent_credit a + amt\<rparr>, True)
      else (case deduct a in_force_now (- amt) of (a', d) \<Rightarrow> (a', short_by d \<le> 0)))"

definition adjust_credits ::
  "int \<Rightarrow> int \<Rightarrow> int \<Rightarrow> string \<Rightarrow> int \<Rightarrow> ledger \<Rightarrow> (exn + adjust_result) \<times> ledger" where
  "adjust_credits now account diff source source_id l =
     (if diff = 0 then (Inr ZeroDiff, l)
      else (case get_existing_adjust l source source_id of
          Some t \<Rightarrow> (Inr (Adjusted \<lparr>adj_amount = tx_amount t, adj_balance = tx_balance t, adj_repeated = True\<rparr>), l)
        | None \<Rightarrow>
            (case get_credit_account l account of
               None \<Rightarrow> (Inl (FailError ''no credit account''), l)
             | Some a \<Rightarrow>
                 (let amt = - diff;
                      (a', ok) = adjust_account a (in_force (get_current_membership l account now) now) amt in
                  if \<not> ok then (Inl (FailError ''insufficient credits''), put_account account a' l)
                  else
                    (let a2 = a'\<lparr>account_updated := now\<rparr>;
                         t = \<lparr>tx_account = account, tx_amount = amt, tx_balance = available_tokens a2,
                              tx_kind = Adjust, tx_source = source, tx_source_id = source_id,
                              tx_created = db_second now\<rparr> in
                     (Inr (Adjusted \<lparr>adj_amount = amt, adj_balance = available_tokens a2, adj_repeated = False\<rparr>),
                      add_transaction t (put_account account a2 l)))))))"

end
