(* ===== verification/Credit_Props.thy ===== *)
theory Credit_Props
  imports Credit Kv_Store
begin

text \<open>
  What the credit ledger promises: a charge takes what it says from the quota first, a message is
  charged once, the refresh lands in the current cycle, and in every reachable state no balance is
  negative and the consumed total of an account is the sum of its transactions.
\<close>

section \<open>Laws of the tables\<close>

interpretation account_store: kv_store put_account get_credit_account
  by unfold_locales (simp add: put_account_def get_credit_account_def)

lemma put_account_frame [simp]:
  "transactions (put_account k a l) = transactions l"
  "memberships (put_account k a l) = memberships l" "plans (put_account k a l) = plans l"
  by (simp_all add: put_account_def)

lemma add_transaction_frame [simp]:
  "transactions (add_transaction t l) = transactions l @ [t]"
  "get_credit_account (add_transaction t l) = get_credit_account l"
  by (simp_all add: add_transaction_def get_credit_account_def fun_eq_iff)

section \<open>Deduction\<close>

definition account_ok :: "credit_account \<Rightarrow> bool" where
  "account_ok a \<longleftrightarrow> 0 \<le> permanent_credit a \<and> 0 \<le> quota_credit a"

lemma deduct_spec:
  assumes "account_ok a" and "0 \<le> wanted" and "deduct a force wanted = (a', d)"
  shows "quota_used d + permanent_used d + short_by d = wanted"
    and "0 \<le> quota_used d" "0 \<le> permanent_used d" "0 \<le> short_by d"
    and "quota_credit a' = quota_credit a - quota_used d"
    and "permanent_credit a' = permanent_credit a - permanent_used d"
    and "account_ok a'" and "total_consumed a' = total_consumed a"
    and "0 < permanent_used d \<Longrightarrow> force \<Longrightarrow> quota_credit a' = 0"
    and "\<not> force \<Longrightarrow> quota_used d = 0"
    and "0 < short_by d \<Longrightarrow> permanent_credit a' = 0 \<and> (force \<longrightarrow> quota_credit a' = 0)"
  using assms by (auto simp: deduct_def Let_def account_ok_def min_def split: if_splits)

lemma refresh_simps [simp]:
  "permanent_credit (refresh_quota_if_due a m now) = permanent_credit a"
  "total_consumed (refresh_quota_if_due a m now) = total_consumed a"
  by (simp_all add: refresh_quota_if_due_def split: option.splits)

lemma refresh_ok: "account_ok a \<Longrightarrow> account_ok (refresh_quota_if_due a m now)"
  by (auto simp: refresh_quota_if_due_def account_ok_def split: option.splits)

lemma new_account_ok [simp]: "account_ok new_account" "total_consumed new_account = 0"
  by (simp_all add: account_ok_def new_account_def)

lemma charge_account_spec:
  assumes "account_ok a" and "0 \<le> wanted" and "charge_account a m now wanted = (a', c)"
  shows "account_ok a'" and "total_consumed a' = total_consumed a - amount c" and "amount c \<le> 0"
    and "balance_after c = available_tokens a'" and "before_available c = balance_after c - amount c"
    and "before_available c = available_tokens (refresh_quota_if_due a m now)"
    and "actual_units c = - amount c" and "compute_units_due c = wanted"
    and "actual_units c \<le> wanted" and "insufficient c \<longleftrightarrow> actual_units c < wanted"
    and "insufficient c \<Longrightarrow> permanent_credit a' = 0 \<and> (in_force m now \<longrightarrow> quota_credit a' = 0)"
    and "permanent_credit a' \<noteq> permanent_credit a \<Longrightarrow> in_force m now \<Longrightarrow> quota_credit a' = 0"
    and "0 \<le> balance_after c"
proof -
  obtain a2 d where d: "deduct (refresh_quota_if_due a m now) (in_force m now) wanted = (a2, d)"
    by (cases "deduct (refresh_quota_if_due a m now) (in_force m now) wanted")
  note D = deduct_spec [OF refresh_ok [OF assms(1)] assms(2) d]
  have a': "a' = a2\<lparr>total_consumed := total_consumed a2 + (quota_used d + permanent_used d), account_updated := now\<rparr>"
    and c: "c = \<lparr>amount = - (quota_used d + permanent_used d), balance_after = available_tokens a',
      compute_units_due = wanted, actual_units = quota_used d + permanent_used d, used = d,
      insufficient = (0 < short_by d), before_available = available_tokens (refresh_quota_if_due a m now)\<rparr>"
    using assms(3) by (auto simp: charge_account_def apply_consume_def d Let_def)
  show "account_ok a'" "total_consumed a' = total_consumed a - amount c" "amount c \<le> 0"
    "balance_after c = available_tokens a'" "before_available c = balance_after c - amount c"
    "before_available c = available_tokens (refresh_quota_if_due a m now)"
    "actual_units c = - amount c" "compute_units_due c = wanted"
    "actual_units c \<le> wanted" "insufficient c \<longleftrightarrow> actual_units c < wanted"
    "insufficient c \<Longrightarrow> permanent_credit a' = 0 \<and> (in_force m now \<longrightarrow> quota_credit a' = 0)"
    "permanent_credit a' \<noteq> permanent_credit a \<Longrightarrow> in_force m now \<Longrightarrow> quota_credit a' = 0"
    "0 \<le> balance_after c"
    using D by (auto simp: a' c available_tokens_def account_ok_def)
qed

section \<open>One charge\<close>

definition account_or_new :: "ledger \<Rightarrow> int \<Rightarrow> credit_account" where
  "account_or_new l account = (case get_credit_account l account of None \<Rightarrow> new_account | Some a \<Rightarrow> a)"

lemma consume_cases:
  "consume_for_message env renew now account message u l =
     (let wanted = units (compute_units env now u) in
      if wanted \<le> 0 then (ZeroUsage, l)
      else (case get_existing_message_consume l message of
          Some t \<Rightarrow> (Repeated t (compute_units env now u), l)
        | None \<Rightarrow>
            (let (a', c) = charge_account (account_or_new l account) (get_current_membership l account now) now wanted
             in (Charged c (compute_units env now u), renew account
                   (add_transaction (message_transaction now account message c) (put_account account a' l))))))"
  unfolding consume_for_message_def account_or_new_def Let_def by (rule refl)


section \<open>A message is charged once\<close>

lemma find_append_Some: "find P xs = Some x \<Longrightarrow> find P (xs @ ys) = Some x"
  by (induction xs) auto

lemma find_append_None: "find P xs = None \<Longrightarrow> find P (xs @ ys) = find P ys"
  by (induction xs) auto

lemma existing_after_charge:
  assumes "get_existing_message_consume l message = None"
    and "transactions l1 = (transactions l @ [message_transaction now account message c]) @ ts"
  shows "get_existing_message_consume l1 message = Some (message_transaction now account message c)"
proof -
  have "find (\<lambda>t. tx_source t = ''message'' \<and> tx_source_id t = message \<and> tx_kind t = Consume)
      (transactions l @ [message_transaction now account message c]) = Some (message_transaction now account message c)"
    using assms(1) unfolding get_existing_message_consume_def
    by (simp add: find_append_None message_transaction_def)
  then show ?thesis
    unfolding get_existing_message_consume_def assms(2) by (rule find_append_Some)
qed

text \<open>
  C14. Once a message has been charged, charging it again, at any later time, for any account and with
  any usage, leaves every table as it is; a use that costs something reports the first charge's amount
  and balance.  The renewal that runs after a charge only has to leave earlier transactions in place.
\<close>

theorem message_charged_once:
  assumes "consume_for_message env renew now account message u l = (Charged c det, l')"
    and "\<forall>k x. \<exists>ts. transactions (renew k x) = transactions x @ ts"
  shows "snd (consume_for_message env2 renew2 now2 account2 message u2 l') = l' \<and>
    (0 < units (compute_units env2 now2 u2) \<longrightarrow>
      (\<exists>t. fst (consume_for_message env2 renew2 now2 account2 message u2 l')
            = Repeated t (compute_units env2 now2 u2)
        \<and> tx_amount t = amount c \<and> tx_balance t = balance_after c))"
proof -
  let ?w = "units (compute_units env now u)"
  obtain a' c' where ch: "charge_account (account_or_new l account) (get_current_membership l account now) now ?w = (a', c')"
    by (cases "charge_account (account_or_new l account) (get_current_membership l account now) now ?w")
  have none: "get_existing_message_consume l message = None" and c: "c' = c"
    and l': "l' = renew account (add_transaction (message_transaction now account message c) (put_account account a' l))"
    using assms(1) by (auto simp: consume_cases Let_def ch split: if_splits option.splits)
  obtain ts where "transactions l' = (transactions l @ [message_transaction now account message c]) @ ts"
    using assms(2) unfolding l' by (metis add_transaction_frame(1) put_account_frame(1))
  with none have "get_existing_message_consume l' message = Some (message_transaction now account message c)"
    by (rule existing_after_charge)
  then show ?thesis by (simp add: consume_cases Let_def message_transaction_def)
qed

section \<open>Features\<close>

text \<open>
  A feature the system bears, or a use without tokens, charges nobody; with an idempotency key the
  same feature is charged once per key, and a message id charges the message itself.
\<close>

lemma feature_charges:
  "(use_tokens u \<le> 0 \<or> env_feature env feature = Inr (Some False) \<longrightarrow>
      snd (consume_for_feature env renew now account feature key message u l) = l) \<and>
   (0 < use_tokens u \<and> env_feature env feature \<noteq> Inr (Some False) \<and> message = Some i \<longrightarrow>
      consume_for_feature env renew now account feature key message u l
        = (case consume_for_message env renew now account i u l of (r, l') \<Rightarrow> (FeatureCharge r, l'))) \<and>
   (0 < use_tokens u \<and> env_feature env feature \<noteq> Inr (Some False) \<and> message = None \<and> key = Some k \<and> k \<noteq> [] \<longrightarrow>
      consume_for_feature env renew now account feature key message u l
        = (case consume_for_message env renew now account (env_uuid5 env (k @ '':'' @ feature)) u l of
             (r, l') \<Rightarrow> (FeatureCharge r, l')))"
  by (cases k) (auto simp: consume_for_feature_def Let_def)

section \<open>The rolling refresh\<close>

text \<open>
  The refresh loop ends in the cycle that contains now: the new reset is the first point of the
  grid of cycles after now, which is the closed form below, and no cycle is skipped or repeated.
\<close>

theorem next_reset_closed_form:
  assumes "0 < cycle"
  shows "next_reset now cycle reset =
      (if now < reset then reset else reset + ((now - reset) div cycle + 1) * cycle)
    \<and> now < next_reset now cycle reset
    \<and> (reset \<le> now \<longrightarrow> next_reset now cycle reset - cycle \<le> now)"
proof -
  have closed_form: "next_reset now cycle reset =
      (if now < reset then reset else reset + ((now - reset) div cycle + 1) * cycle)"
    using assms
  proof (induction now cycle reset rule: next_reset.induct)
    case (1 now cycle reset)
    show ?case
    proof (cases "now < reset")
      case False
      have step: "next_reset now cycle reset = next_reset now cycle (reset + cycle)"
        using False 1(2) by (subst next_reset.simps) simp
      have IH: "next_reset now cycle (reset + cycle) =
          (if now < reset + cycle then reset + cycle
           else reset + cycle + ((now - (reset + cycle)) div cycle + 1) * cycle)"
        using 1 False by simp
      show ?thesis
      proof (cases "now < reset + cycle")
        case True
        then have "(now - reset) div cycle = 0" using False by (simp add: div_pos_pos_trivial)
        then show ?thesis using True False by (simp add: step IH)
      next
        case late: False
        have e: "(now - (reset + cycle)) div cycle + 1 = (now - reset) div cycle"
          using 1(2) div_add_self2 [of cycle "now - (reset + cycle)"] by simp
        have "next_reset now cycle (reset + cycle) = reset + cycle + (now - reset) div cycle * cycle"
          using IH late unfolding e by simp
        then show ?thesis using False by (simp add: step distrib_right)
      qed
    qed (simp add: next_reset.simps)
  qed
  have "(now - reset) div cycle * cycle + (now - reset) mod cycle = now - reset"
    by (rule div_mult_mod_eq)
  moreover have "0 \<le> (now - reset) mod cycle" "(now - reset) mod cycle < cycle"
    using assms by simp_all
  ultimately have "(now - reset) div cycle * cycle \<le> now - reset"
    "now - reset < (now - reset) div cycle * cycle + cycle"
    by linarith+
  then show ?thesis using assms by (auto simp: closed_form algebra_simps)
qed

lemma refresh_due:
  assumes "quota_reset_at a = Some reset" and "reset \<le> now" and "0 < quota_cycle_days a" and "0 < quota_granted a"
    and "in_force m now"
  shows "quota_credit (refresh_quota_if_due a m now) = quota_granted a"
    and "quota_reset_at (refresh_quota_if_due a m now) = Some (next_reset now (quota_cycle_days a * day) reset)"
  using assms by (simp_all add: refresh_quota_if_due_def)

section \<open>Adjustments\<close>

text \<open>
  A reconciliation adjusts an account at most once per source: a refund adds to the permanent
  credits exactly what it says, a charge takes exactly what it says or fails, the recorded amount has
  the opposite sign of the difference, and repeating an adjustment changes nothing.
\<close>

theorem adjustment_exact_and_once:
  assumes "account_ok (account_or_new l account)"
    and "adjust_credits now account diff source source_id l = (Inr (Adjusted r), l')"
    and "\<not> adj_repeated r"
  shows "(\<exists>a a'. get_credit_account l account = Some a \<and> get_credit_account l' account = Some a' \<and> account_ok a'
      \<and> available_tokens a' = available_tokens a - diff \<and> adj_amount r = - diff
      \<and> adj_balance r = available_tokens a'
      \<and> (diff < 0 \<longrightarrow> permanent_credit a' = permanent_credit a - diff))
    \<and> adjust_credits now2 account2 diff2 source source_id l'
        = (Inr (if diff2 = 0 then ZeroDiff
                else Adjusted \<lparr>adj_amount = - diff, adj_balance = adj_balance r, adj_repeated = True\<rparr>), l')"
proof -
  have d: "diff \<noteq> 0" and none: "get_existing_adjust l source source_id = None"
    using assms(2,3) by (auto simp: adjust_credits_def split: if_splits option.splits)
  obtain a where a: "get_credit_account l account = Some a"
    using assms(2) d none by (auto simp: adjust_credits_def split: option.splits)
  then have ok: "account_ok a" using assms(1) by (simp add: account_or_new_def)
  let ?f = "in_force (get_current_membership l account now) now"
  obtain a1 b where adj: "adjust_account a ?f (- diff) = (a1, b)" by (cases "adjust_account a ?f (- diff)")
  define a2 where "a2 = a1\<lparr>account_updated := now\<rparr>"
  define t where "t = \<lparr>tx_account = account, tx_amount = - diff, tx_balance = available_tokens a2,
    tx_kind = Adjust, tx_source = source, tx_source_id = source_id, tx_created = db_second now\<rparr>"
  have b: "b" and r: "r = \<lparr>adj_amount = - diff, adj_balance = available_tokens a2, adj_repeated = False\<rparr>"
    and l': "l' = add_transaction t (put_account account a2 l)"
    using assms(2) d none a by (auto simp: adjust_credits_def adj a2_def t_def Let_def split: if_splits)
  have a2: "account_ok a2 \<and> available_tokens a2 = available_tokens a - diff \<and>
      (diff < 0 \<longrightarrow> permanent_credit a2 = permanent_credit a - diff)"
  proof (cases "diff < 0")
    case True
    then show ?thesis
      using adj ok by (auto simp: adjust_account_def a2_def available_tokens_def account_ok_def)
  next
    case False
    then obtain q where q: "deduct a ?f diff = (a1, q)" and s: "short_by q \<le> 0"
      using adj b by (auto simp: adjust_account_def split: prod.splits)
    note D = deduct_spec [OF ok _ q]
    show ?thesis using D False s by (auto simp: a2_def available_tokens_def account_ok_def)
  qed
  have "find (\<lambda>x. tx_source x = source \<and> tx_source_id x = source_id \<and> tx_kind x = Adjust) (transactions l @ [t]) = Some t"
    using none by (simp add: get_existing_adjust_def find_append_None t_def)
  then have "get_existing_adjust l' source source_id = Some t"
    by (simp add: l' get_existing_adjust_def)
  then have "adjust_credits now2 account2 diff2 source source_id l'
      = (Inr (if diff2 = 0 then ZeroDiff
              else Adjusted \<lparr>adj_amount = - diff, adj_balance = adj_balance r, adj_repeated = True\<rparr>), l')"
    by (simp add: adjust_credits_def t_def r)
  moreover have "get_credit_account l' account = Some a2" by (simp add: l' account_store.look_put)
  ultimately show ?thesis using a a2 by (simp add: r)
qed

section \<open>Reachable ledgers\<close>

text \<open>
  The steps of the ledger: the operations of the service, what other services do to the memberships
  and plans, and a grant, which adds to the permanent credits or opens a quota (orders, redeemed
  codes, refunds).
\<close>

inductive ledger_step :: "ledger \<Rightarrow> ledger \<Rightarrow> bool" where
  message: "ledger_step l (snd (consume_for_message env (\<lambda>k x. x) now account message u l))"
| feature: "ledger_step l (snd (consume_for_feature env (\<lambda>k x. x) now account feature key message u l))"
| adjust: "ledger_step l (snd (adjust_credits now account diff source source_id l))"
| members: "ledger_step l (l\<lparr>memberships := ms, plans := ps\<rparr>)"
| grant: "0 \<le> gain \<Longrightarrow> 0 \<le> quota \<Longrightarrow>
    ledger_step l (put_account account
      ((account_or_new l account)\<lparr>permanent_credit := permanent_credit (account_or_new l account) + gain,
        quota_credit := quota, quota_granted := granted, quota_cycle_days := days, quota_reset_at := reset,
        total_granted := given\<rparr>) l)"

inductive reachable_ledger :: "ledger \<Rightarrow> bool" where
  start: "reachable_ledger \<lparr>accounts = [], transactions = [], memberships = [], plans = []\<rparr>"
| step: "reachable_ledger l \<Longrightarrow> ledger_step l l' \<Longrightarrow> reachable_ledger l'"

inductive_cases ledger_stepE: "ledger_step l l'"

lemmas reachable_ledger_induct = reachable_ledger.induct [case_names start step]

definition consumed_by :: "credit_transaction list \<Rightarrow> int \<Rightarrow> int" where
  "consumed_by ts account = sum_list (map tx_amount (filter (\<lambda>t. tx_account t = account \<and> tx_kind t = Consume) ts))"

definition tx_key :: "credit_transaction \<Rightarrow> string \<times> int \<times> tx_type" where
  "tx_key t = (tx_source t, tx_source_id t, tx_kind t)"

definition ledger_ok :: "ledger \<Rightarrow> bool" where
  "ledger_ok l \<longleftrightarrow>
     (\<forall>k. account_ok (account_or_new l k) \<and>
          total_consumed (account_or_new l k) = - consumed_by (transactions l) k) \<and>
     distinct (map tx_key (transactions l)) \<and>
     (\<forall>t \<in> set (transactions l). 0 \<le> tx_balance t)"

lemma consumed_by_simps [simp]:
  "consumed_by [] k = 0"
  "consumed_by (ts @ [t]) k = consumed_by ts k + (if tx_account t = k \<and> tx_kind t = Consume then tx_amount t else 0)"
  by (simp_all add: consumed_by_def)

lemma account_or_new_put:
  "account_or_new (put_account k a l) k' = (if k' = k then a else account_or_new l k')"
  by (simp add: account_or_new_def account_store.look_put)

lemma account_or_new_add [simp]: "account_or_new (add_transaction t l) = account_or_new l"
  by (simp add: account_or_new_def fun_eq_iff)

lemma ledger_ok_put:
  assumes "ledger_ok l" and "account_ok a" and "total_consumed a = total_consumed (account_or_new l k)"
  shows "ledger_ok (put_account k a l)"
  using assms by (simp add: ledger_ok_def account_or_new_put)

text \<open>A new transaction with a fresh key keeps the books when the account moved with it.\<close>

lemma ledger_ok_transaction:
  assumes "ledger_ok l" and "account_ok a" and "tx_key t \<notin> tx_key ` set (transactions l)" and "0 \<le> tx_balance t"
    and "total_consumed a = total_consumed (account_or_new l (tx_account t)) - (if tx_kind t = Consume then tx_amount t else 0)"
  shows "ledger_ok (add_transaction t (put_account (tx_account t) a l))"
  using assms by (auto simp: ledger_ok_def account_or_new_put)

lemma fresh_message_key:
  assumes "get_existing_message_consume l message = None"
  shows "tx_key (message_transaction now account message c) \<notin> tx_key ` set (transactions l)"
  using assms by (auto simp: get_existing_message_consume_def find_None_iff tx_key_def message_transaction_def)

lemma fresh_adjust_key:
  assumes "get_existing_adjust l source source_id = None" and "tx_source t = source" "tx_source_id t = source_id" "tx_kind t = Adjust"
  shows "tx_key t \<notin> tx_key ` set (transactions l)"
  using assms by (auto simp: get_existing_adjust_def find_None_iff tx_key_def)

lemma consume_keeps_ok:
  assumes "ledger_ok l"
  shows "ledger_ok (snd (consume_for_message env (\<lambda>k x. x) now account message u l))"
proof (cases "units (compute_units env now u) \<le> 0 \<or> get_existing_message_consume l message \<noteq> None")
  case True
  then show ?thesis using assms by (auto simp: consume_cases Let_def split: option.splits)
next
  case False
  let ?w = "units (compute_units env now u)"
  obtain a c where ch: "charge_account (account_or_new l account) (get_current_membership l account now) now ?w = (a, c)"
    by (cases "charge_account (account_or_new l account) (get_current_membership l account now) now ?w")
  have ok: "account_ok (account_or_new l account)" using assms by (simp add: ledger_ok_def)
  note C = charge_account_spec [OF ok _ ch]
  have "ledger_ok (add_transaction (message_transaction now account message c)
      (put_account (tx_account (message_transaction now account message c)) a l))"
    using False C by (intro ledger_ok_transaction assms fresh_message_key) (simp_all add: message_transaction_def)
  then show ?thesis using False by (simp add: consume_cases Let_def ch message_transaction_def)
qed

lemma feature_keeps_ok:
  "ledger_ok l \<Longrightarrow> ledger_ok (snd (consume_for_feature env (\<lambda>k x. x) now account feature key message u l))"
  using consume_keeps_ok by (simp add: consume_for_feature_def Let_def case_prod_unfold)

lemma adjust_account_ok:
  assumes "account_ok a" and "adjust_account a f amt = (a', b)"
  shows "account_ok a' \<and> total_consumed a' = total_consumed a"
proof (cases "0 < amt")
  case True
  then show ?thesis using assms by (auto simp: adjust_account_def account_ok_def)
next
  case False
  then obtain q where "deduct a f (- amt) = (a', q)"
    using assms(2) by (auto simp: adjust_account_def split: prod.splits)
  from deduct_spec(7,8) [OF assms(1) _ this] False show ?thesis by simp
qed

lemma adjust_keeps_ok:
  assumes "ledger_ok l"
  shows "ledger_ok (snd (adjust_credits now account diff source source_id l))"
proof (cases "diff = 0 \<or> get_existing_adjust l source source_id \<noteq> None \<or> get_credit_account l account = None")
  case True
  then show ?thesis using assms by (auto simp: adjust_credits_def split: option.splits)
next
  case False
  then obtain a where a: "get_credit_account l account = Some a" and none: "get_existing_adjust l source source_id = None"
    and d: "diff \<noteq> 0" by auto
  have an: "account_or_new l account = a" by (simp add: account_or_new_def a)
  have ok: "account_ok a" using assms an by (metis ledger_ok_def)
  let ?f = "in_force (get_current_membership l account now) now"
  obtain a1 b where adj: "adjust_account a ?f (- diff) = (a1, b)" by (cases "adjust_account a ?f (- diff)")
  note A = adjust_account_ok [OF ok adj]
  define a2 where "a2 = a1\<lparr>account_updated := now\<rparr>"
  have A2: "account_ok a2" "total_consumed a2 = total_consumed (account_or_new l account)"
    "0 \<le> available_tokens a2"
    using A by (auto simp: a2_def an account_ok_def available_tokens_def)
  have bad: "ledger_ok (put_account account a1 l)"
    using A an by (intro ledger_ok_put assms) simp_all
  let ?t = "\<lparr>tx_account = account, tx_amount = - diff, tx_balance = available_tokens a2,
    tx_kind = Adjust, tx_source = source, tx_source_id = source_id, tx_created = db_second now\<rparr>"
  have "ledger_ok (add_transaction ?t (put_account (tx_account ?t) a2 l))"
    using A2 by (intro ledger_ok_transaction assms fresh_adjust_key [OF none]) simp_all
  then show ?thesis using bad d none a by (simp add: adjust_credits_def adj a2_def Let_def)
qed

lemma step_keeps_ok: "ledger_step l l' \<Longrightarrow> ledger_ok l \<Longrightarrow> ledger_ok l'"
proof (induction rule: ledger_step.induct)
  case (members l ms ps)
  then show ?case by (simp add: ledger_ok_def account_or_new_def get_credit_account_def)
next
  case (grant gain quota l account granted days reset given)
  then have "account_ok (account_or_new l account)" by (simp add: ledger_ok_def)
  with grant show ?case by (intro ledger_ok_put) (simp_all add: account_ok_def)
qed (simp_all add: consume_keeps_ok feature_keeps_ok adjust_keeps_ok)

text \<open>
  C6. In every ledger reached from the empty one by charges, adjustments, grants and changes of the
  memberships, no pool of an account is negative, the consumed total of an account is exactly the sum
  of what its transactions took, every recorded balance is non-negative, and no two transactions share
  source, source id and type.
\<close>

theorem reachable_ledger_balances:
  assumes "reachable_ledger l"
  shows "(\<forall>k a. get_credit_account l k = Some a \<longrightarrow>
       0 \<le> permanent_credit a \<and> 0 \<le> quota_credit a \<and> total_consumed a = - consumed_by (transactions l) k)
    \<and> distinct (map tx_key (transactions l)) \<and> (\<forall>t \<in> set (transactions l). 0 \<le> tx_balance t)"
proof -
  have ok: "ledger_ok l"
    using assms
  proof (induction rule: reachable_ledger_induct)
    case start
    then show ?case by (simp add: ledger_ok_def account_or_new_def get_credit_account_def)
  qed (rule step_keeps_ok)
  have "account_or_new l k = a" if "get_credit_account l k = Some a" for k a
    using that by (simp add: account_or_new_def)
  then show ?thesis using ok unfolding ledger_ok_def account_ok_def by metis
qed

section \<open>A concrete ledger\<close>

definition demo_env :: billing_env where
  "demo_env = \<lparr>env_clock = (\<lambda>zone moment. None), env_num_text = (\<lambda>n. []), env_decimal_text = (\<lambda>x. []),
     env_engine = \<lparr>session = None, configs = []\<rparr>, env_rate_row = Inr (Some (5 / 2)),
     env_feature = (\<lambda>f. Inr None), env_uuid5 = (\<lambda>s. int (length s)), env_uuid4 = 77\<rparr>"

definition demo_use :: usage where
  "demo_use = \<lparr>use_tokens = 1500, use_model = None, use_input = 0, use_output = 0, use_cached = 0\<rparr>"

definition demo_account :: credit_account where
  "demo_account = \<lparr>permanent_credit = 50, quota_credit = 0, quota_granted = 2, quota_cycle_days = 30,
     quota_reset_at = Some (5 * day), total_granted = 50, total_consumed = 0, account_updated = 0\<rparr>"

definition demo_ledger :: ledger where
  "demo_ledger = \<lparr>accounts = [(1, demo_account)], transactions = [], memberships = demo_rows, plans = demo_plans\<rparr>"

definition demo_charged :: consumed where
  "demo_charged = \<lparr>amount = -3, balance_after = 49, compute_units_due = 3, actual_units = 3,
     used = \<lparr>quota_used = 2, permanent_used = 1, short_by = 0\<rparr>, insufficient = False, before_available = 52\<rparr>"

definition demo_after :: ledger where
  "demo_after = snd (consume_for_message demo_env (\<lambda>k x. x) (40 * day) 1 9 demo_use demo_ledger)"

lemma demo_units: "units (compute_units demo_env now demo_use) = 3"
proof -
  have "credits_per_1k_tokens demo_env = 2" by code_simp
  moreover have "\<lceil>rnd (of_int (1500 * 2) / 1000)\<rceil> = 3" by code_simp
  ultimately show ?thesis by (simp add: compute_units_def demo_use_def Let_def)
qed

lemma demo_consume:
  "consume_for_message demo_env (\<lambda>k x. x) (40 * day) 1 9 demo_use demo_ledger = (Charged demo_charged (compute_units demo_env (40 * day) demo_use), demo_after)"
proof -
  have "snd (charge_account (account_or_new demo_ledger 1) (get_current_membership demo_ledger 1 (40 * day)) (40 * day) 3)
      = demo_charged"
    by code_simp
  moreover have "get_existing_message_consume demo_ledger 9 = None" by code_simp
  ultimately show ?thesis
    unfolding demo_after_def by (simp add: consume_cases demo_units Let_def case_prod_unfold)
qed


theorem message_charged_once_witness:
  "snd (consume_for_message demo_env (\<lambda>k x. x) (41 * day) 1 9 demo_use demo_after) = demo_after"
  using message_charged_once [OF demo_consume] by simp

lemma feature_charges_witness:
  "consume_for_feature demo_env (\<lambda>k x. x) (40 * day) 1 ''chat'' None (Some 9) demo_use demo_ledger
     = (FeatureCharge (Charged demo_charged (compute_units demo_env (40 * day) demo_use)), demo_after)"
  using feature_charges [of demo_use demo_env "''chat''" "\<lambda>k x. x" "40 * day" 1 None "Some 9" demo_ledger 9 "[]"]
  by (simp add: demo_consume) (simp add: demo_use_def demo_env_def)

theorem next_reset_closed_form_witness:
  "next_reset (40 * day) (30 * day) (5 * day) = 65 * day \<and> 40 * day < next_reset (40 * day) (30 * day) (5 * day)"
  using next_reset_closed_form [of "30 * day" "40 * day" "5 * day"] by (simp add: day_def)

definition demo_adjustment :: adjustment where
  "demo_adjustment = \<lparr>adj_amount = 7, adj_balance = 57, adj_repeated = False\<rparr>"

theorem adjustment_exact_and_once_witness:
  "\<exists>a'. get_credit_account (snd (adjust_credits 0 1 (-7) ''reconcile'' 5 demo_ledger)) 1 = Some a'
    \<and> available_tokens a' = 57"
proof -
  have ok: "account_ok (account_or_new demo_ledger 1)" by code_simp
  have r: "fst (adjust_credits 0 1 (-7) ''reconcile'' 5 demo_ledger) = Inr (Adjusted demo_adjustment)" by code_simp
  have "adjust_credits 0 1 (-7) ''reconcile'' 5 demo_ledger
      = (Inr (Adjusted demo_adjustment), snd (adjust_credits 0 1 (-7) ''reconcile'' 5 demo_ledger))"
    by (metis r prod.collapse)
  from adjustment_exact_and_once [OF ok this, of 0 1 0] show ?thesis
    by (auto simp: demo_adjustment_def)
qed

definition demo_reached :: ledger where
  "demo_reached = snd (adjust_credits 0 1 (-7) ''reconcile'' 5
     (put_account 1 (new_account\<lparr>permanent_credit := 50\<rparr>)
       \<lparr>accounts = [], transactions = [], memberships = [], plans = []\<rparr>))"

lemma demo_reached: "reachable_ledger demo_reached"
proof -
  let ?e = "\<lparr>accounts = [], transactions = [], memberships = [], plans = []\<rparr>"
  have "ledger_step ?e (put_account 1 (new_account\<lparr>permanent_credit := 50\<rparr>) ?e)"
    using grant [where gain = 50 and quota = 0 and l = ?e and account = 1 and granted = 0 and days = 0
        and reset = None and given = 0] by (simp add: account_or_new_def get_credit_account_def new_account_def)
  then show ?thesis
    unfolding demo_reached_def by (blast intro: reachable_ledger.intros ledger_step.adjust)
qed

theorem reachable_ledger_balances_witness:
  "\<exists>a. get_credit_account demo_reached 1 = Some a \<and> permanent_credit a = 57
    \<and> total_consumed a = - consumed_by (transactions demo_reached) 1"
proof -
  have "map_option permanent_credit (get_credit_account demo_reached 1) = Some 57" by code_simp
  then obtain a where "get_credit_account demo_reached 1 = Some a" "permanent_credit a = 57" by auto
  then show ?thesis using reachable_ledger_balances [OF demo_reached] by auto
qed

end
