(* ===== verification/V4A_Patch.thy ===== *)
theory V4A_Patch
  imports Py_Base Kv_Store
begin

text \<open>
  The patch format agents edit files with (\<^verbatim>\<open>core/agent/adapters/hermes/v4a_patch.py\<close>): the parser of the
  text, and the application of its operations to a file system, which is a map from paths to texts.
  Creating directories and input errors are left out; a message is a constructor.
\<close>

section \<open>Operations\<close>

datatype operation_type = AddFile | UpdateFile | DeleteFile | MoveFile

record hunk_line =
  line_prefix :: char
  line_content :: string

record hunk =
  context_hint :: "string option"
  hunk_lines :: "hunk_line list"

record patch_operation =
  operation :: operation_type
  file_path :: string
  new_path :: "string option"
  op_hunks :: "hunk list"
  op_content :: "string option"

definition source_lines :: "hunk \<Rightarrow> string list" where
  "source_lines h = map line_content (filter (\<lambda>l. line_prefix l \<in> {CHR '' '', CHR ''-''}) (hunk_lines h))"

definition result_lines :: "hunk \<Rightarrow> string list" where
  "result_lines h = map line_content (filter (\<lambda>l. line_prefix l \<in> {CHR '' '', CHR ''+''}) (hunk_lines h))"

section \<open>Markers\<close>

definition after :: "string \<Rightarrow> string \<Rightarrow> string option" where
  "after p s = (if starts_with s p then Some (drop (length p) s) else None)"

text \<open>\<open>\*\*\*\s*word\s+word\<close>: the rest of the line behind the two words.\<close>

definition after_marker :: "string \<Rightarrow> string \<Rightarrow> string \<Rightarrow> string option" where
  "after_marker verb noun s =
     (case after ''***'' s of
        None \<Rightarrow> None
      | Some r \<Rightarrow>
          (case after verb (lstrip r) of
             None \<Rightarrow> None
           | Some t \<Rightarrow> if t \<noteq> [] \<and> py_space (hd t) then after noun (lstrip t) else None))"

definition begin_marker :: "string \<Rightarrow> bool" where
  "begin_marker s = (case after_marker ''Begin'' ''Patch'' s of None \<Rightarrow> False | Some r \<Rightarrow> list_all py_space r)"

definition end_marker :: "string \<Rightarrow> bool" where
  "end_marker s = (case after_marker ''End'' ''Patch'' s of None \<Rightarrow> False | Some r \<Rightarrow> list_all py_space r)"

text \<open>\<open>\s*(.+)\<close>, stripped: at least one character must follow the colon.\<close>

definition path_marker :: "string \<Rightarrow> string \<Rightarrow> string option" where
  "path_marker verb s =
     (case after_marker verb ''File:'' s of
        None \<Rightarrow> None
      | Some r \<Rightarrow> if r = [] then None else Some (strip r))"

text \<open>\<open>\s*->\s*(.+)\<close> at the head of the text.\<close>

definition arrow :: "string \<Rightarrow> string option" where
  "arrow s =
     (case after ''->'' (lstrip s) of
        None \<Rightarrow> None
      | Some r \<Rightarrow> if r = [] then None else Some (strip r))"

text \<open>\<open>(.+?)\s*->\s*(.+)\<close>: the shortest non-empty text before an arrow; \<open>acc\<close> is read in reverse.\<close>

fun split_arrow :: "string \<Rightarrow> string \<Rightarrow> (string \<times> string) option" where
  "split_arrow acc [] = None"
| "split_arrow acc (c # s) =
     (case arrow s of
        Some r \<Rightarrow> Some (strip (rev (c # acc)), r)
      | None \<Rightarrow> split_arrow (c # acc) s)"

definition move_marker :: "string \<Rightarrow> (string \<times> string) option" where
  "move_marker s =
     (case after_marker ''Move'' ''File:'' s of
        None \<Rightarrow> None
      | Some r \<Rightarrow>
          (case split_arrow [] (lstrip r) of
             Some m \<Rightarrow> Some m
           | None \<Rightarrow>
               if lstrip r = r then None
               else (case arrow r of None \<Rightarrow> None | Some t \<Rightarrow> Some ([], t))))"

definition parse_marker :: "string \<Rightarrow> patch_operation option" where
  "parse_marker s =
     (let op = (\<lambda>t p q. \<lparr>operation = t, file_path = p, new_path = q, op_hunks = [], op_content = None\<rparr>) in
      case path_marker ''Update'' s of Some p \<Rightarrow> Some (op UpdateFile p None)
      | None \<Rightarrow> (case path_marker ''Add'' s of Some p \<Rightarrow> Some (op AddFile p None)
      | None \<Rightarrow> (case path_marker ''Delete'' s of Some p \<Rightarrow> Some (op DeleteFile p None)
      | None \<Rightarrow> (case move_marker s of Some (p, q) \<Rightarrow> Some (op MoveFile p (Some q))
      | None \<Rightarrow> None))))"

text \<open>\<open>^@@\s*(.*?)\s*@@\s*$\<close>; an empty hint is \<open>None\<close>, as is a line that does not match.\<close>

definition parse_hunk_header :: "string \<Rightarrow> string option" where
  "parse_hunk_header s =
     (case after ''@@'' s of
        None \<Rightarrow> None
      | Some r \<Rightarrow>
          (let t = rstrip r in
           if ends_with t ''@@''
           then (let h = strip (take (length t - 2) t) in if h = [] then None else Some h)
           else None))"

section \<open>Parsing\<close>

record parse_state =
  ps_done :: "patch_operation list"
  ps_current :: "patch_operation option"
  ps_hunk :: "hunk option"

definition finalize_operation ::
  "patch_operation option \<Rightarrow> hunk option \<Rightarrow> patch_operation list \<Rightarrow> patch_operation list" where
  "finalize_operation current h operations =
     (case current of
        None \<Rightarrow> operations
      | Some op \<Rightarrow>
          (case h of
             Some k \<Rightarrow> if hunk_lines k \<noteq> [] then operations @ [op\<lparr>op_hunks := op_hunks op @ [k]\<rparr>] else operations @ [op]
           | None \<Rightarrow> operations @ [op]))"

definition prefixed :: "string \<Rightarrow> bool" where
  "prefixed s = (s \<noteq> [] \<and> hd s \<in> {CHR '' '', CHR ''+'', CHR ''-''})"

definition line_of :: "string \<Rightarrow> hunk_line" where
  "line_of s = \<lparr>line_prefix = hd s, line_content = tl s\<rparr>"

definition add_line :: "hunk_line \<Rightarrow> hunk \<Rightarrow> hunk" where
  "add_line l h = h\<lparr>hunk_lines := hunk_lines h @ [l]\<rparr>"

definition is_header :: "string \<Rightarrow> bool" where
  "is_header s = (parse_hunk_header s \<noteq> None \<or> starts_with s ''@@'')"

definition new_hunk :: "string option \<Rightarrow> hunk" where
  "new_hunk hint = \<lparr>context_hint = hint, hunk_lines = []\<rparr>"

text \<open>A line outside a hunk.\<close>

definition open_line :: "string \<Rightarrow> patch_operation \<Rightarrow> parse_state \<Rightarrow> parse_state" where
  "open_line s op st =
     (if is_header s then st\<lparr>ps_hunk := Some (new_hunk (parse_hunk_header s))\<rparr>
      else if operation op = AddFile then
        (if starts_with s ''+'' then st\<lparr>ps_hunk := Some (add_line (line_of s) (new_hunk None))\<rparr>
         else if op_content op = None then st\<lparr>ps_current := Some (op\<lparr>op_content := Some s\<rparr>)\<rparr>
         else st)
      else if prefixed s then st\<lparr>ps_hunk := Some (add_line (line_of s) (new_hunk None))\<rparr>
      else st)"

text \<open>A line inside a hunk.\<close>

definition hunk_line_step :: "string \<Rightarrow> patch_operation \<Rightarrow> hunk \<Rightarrow> parse_state \<Rightarrow> parse_state" where
  "hunk_line_step s op h st =
     (if prefixed s then st\<lparr>ps_hunk := Some (add_line (line_of s) h)\<rparr>
      else if parse_marker s \<noteq> None then
        st\<lparr>ps_done := finalize_operation (Some op) (Some h) (ps_done st), ps_current := None, ps_hunk := None\<rparr>
      else if is_header s then
        st\<lparr>ps_current := Some (op\<lparr>op_hunks := op_hunks op @ [h]\<rparr>), ps_hunk := Some (new_hunk (parse_hunk_header s))\<rparr>
      else st\<lparr>ps_hunk := Some (add_line \<lparr>line_prefix = CHR '' '', line_content = s\<rparr> h)\<rparr>)"

definition parse_line :: "string \<Rightarrow> parse_state \<Rightarrow> parse_state" where
  "parse_line s st =
     (case parse_marker s of
        Some op \<Rightarrow>
          \<lparr>ps_done = finalize_operation (ps_current st) (ps_hunk st) (ps_done st), ps_current = Some op, ps_hunk = None\<rparr>
      | None \<Rightarrow>
          (case (ps_current st, ps_hunk st) of
             (None, _) \<Rightarrow> st
           | (Some op, None) \<Rightarrow> open_line s op st
           | (Some op, Some h) \<Rightarrow>
               if strip s = [] then
                 (if hunk_lines h \<noteq> []
                  then \<lparr>ps_done = finalize_operation (Some op) None (ps_done st), ps_current = None, ps_hunk = None\<rparr>
                  else st)
               else hunk_line_step s op h st))"

definition drop_cr :: "string \<Rightarrow> string" where
  "drop_cr s = (if s \<noteq> [] \<and> char_code (last s) = 13 then butlast s else s)"

definition newline :: char where
  "newline = char_of (10 :: nat)"

text \<open>The lines between the last begin marker before the first end marker, and that end marker.\<close>

fun patch_body :: "string list \<Rightarrow> string list \<Rightarrow> string list" where
  "patch_body [] acc = acc"
| "patch_body (s # ss) acc =
     (if begin_marker s then patch_body ss []
      else if end_marker s then acc
      else patch_body ss (acc @ [s]))"

definition start_state :: parse_state where
  "start_state = \<lparr>ps_done = [], ps_current = None, ps_hunk = None\<rparr>"

definition parse_lines :: "string list \<Rightarrow> parse_state \<Rightarrow> parse_state" where
  "parse_lines ls st = fold parse_line ls st"

definition parse_v4a_patch :: "string \<Rightarrow> patch_operation list option" where
  "parse_v4a_patch text =
     (let ls = patch_body (map drop_cr (split_on newline text)) [];
          st = parse_lines ls start_state;
          ops = finalize_operation (ps_current st) (ps_hunk st) (ps_done st)
      in if ops = [] then None else Some ops)"

section \<open>Files\<close>

type_synonym file_system = "(string \<times> string) list"

definition read_text :: "file_system \<Rightarrow> string \<Rightarrow> string option" where
  "read_text fs path = map_of fs path"

definition write_text :: "string \<Rightarrow> string \<Rightarrow> file_system \<Rightarrow> file_system" where
  "write_text path text fs = dset path text fs"

definition delete_file :: "string \<Rightarrow> file_system \<Rightarrow> file_system" where
  "delete_file path fs = filter (\<lambda>f. fst f \<noteq> path) fs"

definition move_file :: "string \<Rightarrow> string \<Rightarrow> file_system \<Rightarrow> file_system" where
  "move_file path target fs =
     (case map_of fs path of
        None \<Rightarrow> fs
      | Some t \<Rightarrow> if target = path then fs else write_text target t (delete_file path fs))"

definition file_exists :: "file_system \<Rightarrow> string \<Rightarrow> bool" where
  "file_exists fs path = (map_of fs path \<noteq> None)"

interpretation files: kv_store write_text read_text
  by unfold_locales (simp add: write_text_def read_text_def)

section \<open>Applying a hunk\<close>

datatype line_ending = LF | CRLF

text \<open>\<open>"\\r\\n" in s\<close> and \<open>"\\n" in s\<close> on the first 4096 characters.\<close>

definition crlf :: string where
  "crlf = [char_of (13 :: nat), char_of (10 :: nat)]"

definition detect_line_ending :: "string \<Rightarrow> line_ending option" where
  "detect_line_ending text =
     (let h = take 4096 text in
      if contains h crlf then Some CRLF else if newline \<in> set h then Some LF else None)"

definition normalize_ending :: "line_ending \<Rightarrow> string \<Rightarrow> string" where
  "normalize_ending target s =
     (let cr = (s \<noteq> [] \<and> char_code (last s) = 13) in
      case target of
        LF \<Rightarrow> if cr then butlast s else s
      | CRLF \<Rightarrow> if cr then s else s @ [char_of (13 :: nat)])"

definition normalize_hunk_ending :: "line_ending \<Rightarrow> hunk \<Rightarrow> hunk" where
  "normalize_hunk_ending target h =
     h\<lparr>hunk_lines := map (\<lambda>l. l\<lparr>line_content := normalize_ending target (line_content l)\<rparr>) (hunk_lines h)\<rparr>"

text \<open>\<open>lines[i : i + n] == block\<close>, and the first such index.\<close>

fun first_block :: "string list \<Rightarrow> string list \<Rightarrow> nat option" where
  "first_block ls block =
     (if take (length block) ls = block then Some 0
      else (case ls of [] \<Rightarrow> None | _ # t \<Rightarrow> map_option Suc (first_block t block)))"

declare first_block.simps [simp del]

definition locate_hunk :: "string list \<Rightarrow> hunk \<Rightarrow> nat option" where
  "locate_hunk ls h = (if source_lines h = [] then None else first_block ls (source_lines h))"

definition already_applied :: "string list \<Rightarrow> hunk \<Rightarrow> bool" where
  "already_applied ls h = (result_lines h \<noteq> [] \<and> first_block ls (result_lines h) \<noteq> None)"

definition added_lines :: "hunk \<Rightarrow> string list" where
  "added_lines h = map line_content (filter (\<lambda>l. line_prefix l = CHR ''+'') (hunk_lines h))"

datatype hunk_result = HunkSkipped | HunkApplied "string list" | HunkMissing

definition apply_hunk :: "string list \<Rightarrow> hunk \<Rightarrow> hunk_result" where
  "apply_hunk ls h =
     (if already_applied ls h then HunkSkipped
      else if source_lines h = [] then HunkApplied (ls @ added_lines h)
      else (case locate_hunk ls h of
          None \<Rightarrow> HunkMissing
        | Some i \<Rightarrow> HunkApplied (take i ls @ result_lines h @ drop (i + length (source_lines h)) ls)))"

text \<open>The lines after all hunks and the number skipped, or \<open>None\<close> when some hunk is not found.\<close>

fun apply_hunks :: "hunk list \<Rightarrow> string list \<Rightarrow> nat \<Rightarrow> (string list \<times> nat) option" where
  "apply_hunks [] ls skipped = Some (ls, skipped)"
| "apply_hunks (h # hs) ls skipped =
     (case apply_hunk ls h of
        HunkSkipped \<Rightarrow> apply_hunks hs ls (skipped + 1)
      | HunkApplied ls' \<Rightarrow> apply_hunks hs ls' skipped
      | HunkMissing \<Rightarrow> None)"

section \<open>Applying operations\<close>

datatype op_result =
    NoHunks string
  | Unreadable string
  | ContextMissing string
  | AlreadyApplied string
  | Updated string
  | FileThere string
  | Created string
  | NothingToDelete string
  | Deleted string
  | SourceMissing string
  | TargetThere "string option"
  | Moved string "string option"

definition apply_update :: "patch_operation \<Rightarrow> file_system \<Rightarrow> op_result \<times> file_system" where
  "apply_update op fs =
     (if op_hunks op = [] then (NoHunks (file_path op), fs)
      else (case read_text fs (file_path op) of
          None \<Rightarrow> (Unreadable (file_path op), fs)
        | Some original \<Rightarrow>
            (let target = (case detect_line_ending original of None \<Rightarrow> LF | Some t \<Rightarrow> t);
                 hs = map (normalize_hunk_ending target) (op_hunks op) in
             case apply_hunks hs (split_on newline original) 0 of
               None \<Rightarrow> (ContextMissing (file_path op), fs)
             | Some (ls, skipped) \<Rightarrow>
                 (if skipped \<noteq> 0 \<and> skipped = length hs then AlreadyApplied (file_path op) else Updated (file_path op),
                  write_text (file_path op) (join [newline] ls) fs))))"

definition new_file_lines :: "patch_operation \<Rightarrow> string list" where
  "new_file_lines op =
     (case op_content op of
        Some t \<Rightarrow> split_on newline t
      | None \<Rightarrow> concat (map added_lines (op_hunks op)))"

definition apply_add :: "patch_operation \<Rightarrow> file_system \<Rightarrow> op_result \<times> file_system" where
  "apply_add op fs =
     (if file_exists fs (file_path op) then (FileThere (file_path op), fs)
      else (Created (file_path op), write_text (file_path op) (join [newline] (new_file_lines op)) fs))"

definition apply_delete :: "patch_operation \<Rightarrow> file_system \<Rightarrow> op_result \<times> file_system" where
  "apply_delete op fs =
     (if \<not> file_exists fs (file_path op) then (NothingToDelete (file_path op), fs)
      else (Deleted (file_path op), delete_file (file_path op) fs))"

definition apply_move :: "patch_operation \<Rightarrow> file_system \<Rightarrow> op_result \<times> file_system" where
  "apply_move op fs =
     (let target = (case new_path op of None \<Rightarrow> [] | Some q \<Rightarrow> q) in
      if \<not> file_exists fs (file_path op) then (SourceMissing (file_path op), fs)
      else if target \<noteq> [] \<and> file_exists fs target then (TargetThere (new_path op), fs)
      else (Moved (file_path op) (new_path op), move_file (file_path op) target fs))"

definition apply_operation :: "patch_operation \<Rightarrow> file_system \<Rightarrow> op_result \<times> file_system" where
  "apply_operation op fs =
     (case operation op of
        AddFile \<Rightarrow> apply_add op fs
      | UpdateFile \<Rightarrow> apply_update op fs
      | DeleteFile \<Rightarrow> apply_delete op fs
      | MoveFile \<Rightarrow> apply_move op fs)"

fun apply_v4a_operations :: "patch_operation list \<Rightarrow> file_system \<Rightarrow> op_result list \<times> file_system" where
  "apply_v4a_operations [] fs = ([], fs)"
| "apply_v4a_operations (op # ops) fs =
     (case apply_operation op fs of
        (r, fs') \<Rightarrow> (case apply_v4a_operations ops fs' of (rs, fs'') \<Rightarrow> (r # rs, fs'')))"

fun is_error :: "op_result \<Rightarrow> bool" where
  "is_error (Unreadable p) = True"
| "is_error (ContextMissing p) = True"
| "is_error (FileThere p) = True"
| "is_error (SourceMissing p) = True"
| "is_error (TargetThere p) = True"
| "is_error r = False"

record patch_outcome =
  patch_ok :: bool
  patch_results :: "op_result list"
  patch_errors :: "op_result list"

definition parse_and_apply_patch :: "string \<Rightarrow> file_system \<Rightarrow> patch_outcome \<times> file_system" where
  "parse_and_apply_patch text fs =
     (case parse_v4a_patch text of
        None \<Rightarrow> (\<lparr>patch_ok = False, patch_results = [], patch_errors = []\<rparr>, fs)
      | Some ops \<Rightarrow>
          (case apply_v4a_operations ops fs of
             (rs, fs') \<Rightarrow>
               (\<lparr>patch_ok = filter is_error rs = [], patch_results = rs, patch_errors = filter is_error rs\<rparr>, fs')))"

end
