(* ===== verification/V4A_Props.thy ===== *)
theory V4A_Props
  imports V4A_Patch
begin

text \<open>
  What the patch tool promises: a printed patch parses back, a hunk replaces the first occurrence of
  its source, a second application is recognised, a failing operation changes nothing, and where the
  tool loses an edit.
\<close>

section \<open>Blocks of lines\<close>

lemma first_block_Some:
  "first_block ls block = Some i \<Longrightarrow>
     i + length block \<le> length ls \<and> take (length block) (drop i ls) = block \<and>
     (\<forall>j < i. take (length block) (drop j ls) \<noteq> block)"
proof (induction ls block arbitrary: i rule: first_block.induct)
  case (1 ls block)
  show ?case
  proof (cases "take (length block) ls = block")
    case True
    then have "i = 0" using "1.prems" by (simp add: first_block.simps [of ls])
    moreover have "length block \<le> length ls" using True by (metis length_take min.cobounded1)
    ultimately show ?thesis using True by simp
  next
    case False
    then obtain a t k where ls: "ls = a # t" and k: "first_block t block = Some k" "i = Suc k"
      using "1.prems" by (auto simp: first_block.simps [of ls] split: list.splits)
    note IH = "1.IH" [OF False ls k(1)]
    have "take (length block) (drop j ls) \<noteq> block" if "j < i" for j
      using that IH False by (cases j) (auto simp: ls k)
    then show ?thesis using IH by (simp add: ls k)
  qed
qed

lemma first_block_None: "first_block ls block = None \<Longrightarrow> \<not> (\<exists>pre post. ls = pre @ block @ post)"
proof (induction ls block rule: first_block.induct)
  case (1 ls block)
  then have ne: "take (length block) ls \<noteq> block" by (auto simp: first_block.simps [of ls] split: if_splits)
  show ?case
  proof
    assume "\<exists>pre post. ls = pre @ block @ post"
    then obtain pre post where ls: "ls = pre @ block @ post" by blast
    then obtain a pre' where pre: "pre = a # pre'" using ne by (cases pre) auto
    have "first_block (pre' @ block @ post) block = None"
      using "1.prems" ne by (simp add: ls pre first_block.simps [of "a # pre' @ block @ post"])
    then show False using "1.IH" [OF ne] ls pre by auto
  qed
qed

lemma first_block_split:
  assumes "first_block ls block = Some i"
  shows "ls = take i ls @ block @ drop (i + length block) ls"
proof -
  have "take (length block) (drop i ls) = block" using first_block_Some [OF assms] by blast
  then have "drop i ls = block @ drop (length block) (drop i ls)" by (metis append_take_drop_id)
  then show ?thesis by (metis append_take_drop_id drop_drop add.commute)
qed

lemma block_found: "first_block (pre @ block @ post) block \<noteq> None"
  using first_block_None by blast

section \<open>One hunk\<close>

text \<open>
  C35. A hunk whose result is not yet in the file replaces the first occurrence of its source by its
  result and nothing else, and is reported missing exactly when the source occurs nowhere.
\<close>

theorem hunk_replaces_first_occurrence:
  assumes "\<not> already_applied ls h" and "source_lines h \<noteq> []"
  shows "case apply_hunk ls h of
      HunkApplied ls' \<Rightarrow> \<exists>pre post. ls = pre @ source_lines h @ post \<and> ls' = pre @ result_lines h @ post \<and>
        (\<forall>pre2 post2. ls = pre2 @ source_lines h @ post2 \<longrightarrow> length pre \<le> length pre2)
    | HunkMissing \<Rightarrow> \<not> (\<exists>pre post. ls = pre @ source_lines h @ post)
    | HunkSkipped \<Rightarrow> False"
proof (cases "first_block ls (source_lines h)")
  case None
  then show ?thesis using assms first_block_None [OF None] by (simp add: apply_hunk_def locate_hunk_def)
next
  case (Some i)
  note B = first_block_Some [OF Some]
  have first: "i \<le> length pre2" if "ls = pre2 @ source_lines h @ post2" for pre2 post2
  proof (rule ccontr)
    assume "\<not> i \<le> length pre2"
    then have "take (length (source_lines h)) (drop (length pre2) ls) \<noteq> source_lines h" using B by simp
    then show False by (simp add: that)
  qed
  have "apply_hunk ls h = HunkApplied (take i ls @ result_lines h @ drop (i + length (source_lines h)) ls)"
    using assms Some by (simp add: apply_hunk_def locate_hunk_def)
  moreover have "length (take i ls) = i" using B by simp
  ultimately show ?thesis
    using first_block_split [OF Some] first by (simp del: length_take) (metis \<open>length (take i ls) = i\<close>)
qed

text \<open>After a hunk has been applied its result is in the file.\<close>

lemma applied_is_recognised:
  assumes "apply_hunk ls h = HunkApplied ls'" and "source_lines h \<noteq> []" and "result_lines h \<noteq> []"
  shows "already_applied ls' h"
proof -
  obtain i where "ls' = take i ls @ result_lines h @ drop (i + length (source_lines h)) ls"
    using assms by (auto simp: apply_hunk_def locate_hunk_def split: if_splits option.splits)
  then show ?thesis using assms(3) block_found by (simp add: already_applied_def)
qed

text \<open>
  A hunk that keeps context before the lines it deletes, and adds nothing, is taken for already
  applied wherever its context occurs, and the deletion is silently skipped.
\<close>

theorem deletion_after_context_is_skipped:
  assumes "hunk_lines h = map (\<lambda>s. \<lparr>line_prefix = CHR '' '', line_content = s\<rparr>) ctx
      @ map (\<lambda>s. \<lparr>line_prefix = CHR ''-'', line_content = s\<rparr>) del"
    and "ctx \<noteq> []" and "ls = pre @ ctx @ del @ post"
  shows "source_lines h = ctx @ del \<and> result_lines h = ctx \<and> apply_hunk ls h = HunkSkipped"
proof -
  have s: "source_lines h = ctx @ del" and r: "result_lines h = ctx"
    by (simp_all add: source_lines_def result_lines_def assms(1) filter_map o_def)
  have "first_block ls ctx \<noteq> None" unfolding assms(3) using block_found by blast
  then show ?thesis using assms(2) s r by (simp add: apply_hunk_def already_applied_def)
qed

definition demo_hunk :: hunk where
  "demo_hunk = \<lparr>context_hint = None, hunk_lines =
     [\<lparr>line_prefix = CHR '' '', line_content = ''a''\<rparr>, \<lparr>line_prefix = CHR ''-'', line_content = ''b''\<rparr>,
      \<lparr>line_prefix = CHR ''+'', line_content = ''B''\<rparr>]\<rparr>"

theorem hunk_replaces_first_occurrence_witness:
  "\<exists>pre post. [''x'', ''a'', ''b'', ''a'', ''b''] = pre @ [''a'', ''b''] @ post \<and>
     apply_hunk [''x'', ''a'', ''b'', ''a'', ''b''] demo_hunk = HunkApplied (pre @ [''a'', ''B''] @ post)"
proof -
  have "\<not> already_applied [''x'', ''a'', ''b'', ''a'', ''b''] demo_hunk" by code_simp
  moreover have s: "source_lines demo_hunk = [''a'', ''b'']" "result_lines demo_hunk = [''a'', ''B'']" by code_simp+
  moreover have "apply_hunk [''x'', ''a'', ''b'', ''a'', ''b''] demo_hunk = HunkApplied [''x'', ''a'', ''B'', ''a'', ''b'']"
    by code_simp
  ultimately show ?thesis
    using hunk_replaces_first_occurrence [of "[''x'', ''a'', ''b'', ''a'', ''b'']" demo_hunk] by auto
qed

theorem deletion_after_context_is_skipped_witness:
  "apply_hunk [''x'', ''a'', ''b'']
     \<lparr>context_hint = None, hunk_lines = [\<lparr>line_prefix = CHR '' '', line_content = ''a''\<rparr>,
        \<lparr>line_prefix = CHR ''-'', line_content = ''b''\<rparr>]\<rparr> = HunkSkipped"
  using deletion_after_context_is_skipped [where ctx = "[''a'']" and del = "[''b'']" and pre = "[''x'']" and post = "[]"
      and ls = "[''x'', ''a'', ''b'']" and h = "\<lparr>context_hint = None, hunk_lines =
        [\<lparr>line_prefix = CHR '' '', line_content = ''a''\<rparr>, \<lparr>line_prefix = CHR ''-'', line_content = ''b''\<rparr>]\<rparr>"]
  by simp

section \<open>Files\<close>

lemma read_delete: "read_text (delete_file p fs) q = (if q = p then None else read_text fs q)"
  by (induction fs) (auto simp: read_text_def delete_file_def)

lemma read_move: "q \<noteq> p \<Longrightarrow> q \<noteq> t \<Longrightarrow> read_text (move_file p t fs) q = read_text fs q"
  by (auto simp: move_file_def files.look_put read_delete split: option.splits)

text \<open>The paths an operation names.\<close>

definition named_paths :: "patch_operation \<Rightarrow> string set" where
  "named_paths op = {file_path op, (case new_path op of None \<Rightarrow> [] | Some q \<Rightarrow> q)}"

lemma operation_frame:
  "apply_operation op fs = (r, fs') \<Longrightarrow>
     (is_error r \<longrightarrow> fs' = fs) \<and> (\<forall>q. q \<notin> named_paths op \<longrightarrow> read_text fs' q = read_text fs q)"
  by (cases "operation op")
    (auto simp: apply_operation_def apply_add_def apply_update_def apply_delete_def apply_move_def Let_def
       named_paths_def files.look_put read_delete read_move split: if_splits option.splits)

text \<open>
  A patch changes only files its operations name, and an operation that reports an error, in
  particular an update one of whose hunks is not found, leaves every file as it was.
\<close>

theorem patch_touches_only_named_files:
  assumes "apply_v4a_operations ops fs = (rs, fs')"
  shows "(\<forall>q. q \<notin> (\<Union>op \<in> set ops. named_paths op) \<longrightarrow> read_text fs' q = read_text fs q)
    \<and> length rs = length ops \<and> (list_all is_error rs \<longrightarrow> fs' = fs)"
  using assms
proof (induction ops fs arbitrary: rs fs' rule: apply_v4a_operations.induct)
  case (2 op ops fs)
  obtain r fs1 where op: "apply_operation op fs = (r, fs1)" by (cases "apply_operation op fs")
  obtain rs2 fs2 where ops: "apply_v4a_operations ops fs1 = (rs2, fs2)" by (cases "apply_v4a_operations ops fs1")
  have res: "rs = r # rs2" "fs' = fs2" using "2.prems" by (simp_all add: op ops)
  show ?case using "2.IH" [OF op [symmetric] ops] operation_frame [OF op] by (auto simp: res)
qed simp

definition demo_files :: file_system where
  "demo_files = [(''f'', ''x'' @ [newline] @ ''a'' @ [newline] @ ''b''), (''g'', ''keep'')]"

definition demo_op :: patch_operation where
  "demo_op = \<lparr>operation = UpdateFile, file_path = ''f'', new_path = None, op_hunks = [demo_hunk], op_content = None\<rparr>"

theorem patch_touches_only_named_files_witness:
  "read_text (snd (apply_v4a_operations [demo_op] demo_files)) ''g'' = Some ''keep''"
proof -
  have "read_text demo_files ''g'' = Some ''keep''" by code_simp
  moreover have "''g'' \<notin> named_paths demo_op" by (simp add: named_paths_def demo_op_def)
  ultimately show ?thesis
    using patch_touches_only_named_files [OF prod.collapse [symmetric], of "[demo_op]" demo_files] by simp
qed

section \<open>Applying an update twice\<close>

definition lf_text :: "string \<Rightarrow> bool" where
  "lf_text s = list_all (\<lambda>c. char_code c \<noteq> 13) s"

lemma contains_set: "contains s p \<Longrightarrow> set p \<subseteq> set s"
proof (induction s p rule: contains.induct)
  case (1 s p)
  have "starts_with s p \<or> (\<exists>x t. s = x # t \<and> contains t p)"
    using "1.prems" contains.simps [of s p] by (auto split: list.splits)
  then show ?case
  proof
    assume "starts_with s p"
    then show ?thesis by (auto simp: starts_with_iff)
  next
    assume "\<exists>x t. s = x # t \<and> contains t p"
    then show ?thesis using "1.IH" by fastforce
  qed
qed

lemma lf_no_crlf: "lf_text s \<Longrightarrow> detect_line_ending s \<noteq> Some CRLF"
proof -
  assume s: "lf_text s"
  have "\<not> contains (take 4096 s) crlf"
  proof
    assume "contains (take 4096 s) crlf"
    then have "char_of (13 :: nat) \<in> set (take 4096 s)" using contains_set by (fastforce simp: crlf_def)
    then have "char_of (13 :: nat) \<in> set s" by (rule in_set_takeD)
    then show False using s by (auto simp: lf_text_def list_all_iff char_code_def)
  qed
  then show ?thesis by (simp add: detect_line_ending_def Let_def)
qed

definition lf_hunk :: "hunk \<Rightarrow> bool" where
  "lf_hunk h = list_all (\<lambda>l. lf_text (line_content l) \<and> newline \<notin> set (line_content l)) (hunk_lines h)"

lemma lf_normalize: "lf_text s \<Longrightarrow> normalize_ending LF s = s"
  by (auto simp: normalize_ending_def Let_def lf_text_def list_all_iff)

lemma lf_normalize_hunk: "lf_hunk h \<Longrightarrow> normalize_hunk_ending LF h = h"
proof -
  assume "lf_hunk h"
  then have "map (\<lambda>l. l\<lparr>line_content := normalize_ending LF (line_content l)\<rparr>) (hunk_lines h) = hunk_lines h"
    by (intro map_idI) (auto simp: lf_hunk_def list_all_iff lf_normalize)
  then show ?thesis by (simp add: normalize_hunk_ending_def)
qed

lemma lf_ending: "lf_text s \<Longrightarrow> (case detect_line_ending s of None \<Rightarrow> LF | Some t \<Rightarrow> t) = LF"
  using lf_no_crlf [of s] by (cases "detect_line_ending s") (auto, metis line_ending.exhaust)

lemma split_on_subset: "l \<in> set (split_on c s) \<Longrightarrow> set l \<subseteq> set s"
proof (induction s arbitrary: l)
  case (Cons x xs)
  obtain y ys where y: "split_on c xs = y # ys" by (metis list.exhaust split_on_nonempty)
  have "set y \<subseteq> set xs" "\<And>k. k \<in> set ys \<Longrightarrow> set k \<subseteq> set xs" using Cons.IH by (auto simp: y)
  then show ?case using Cons.prems by (auto simp: y split: if_splits)
qed simp

lemma set_join: "set (join [c] ls) \<subseteq> insert c (\<Union>l \<in> set ls. set l)"
  by (induction "[c]" ls rule: join.induct) auto

lemma dset_same: "map_of d k = Some v \<Longrightarrow> dset k v d = d"
  by (induction d) auto

text \<open>
  Applying the same one-hunk update a second time is recognised as done and leaves the file as the
  first application left it, for files and hunks with plain line feeds.
\<close>

theorem update_is_idempotent:
  assumes "op_hunks op = [h]" and "lf_hunk h" and "source_lines h \<noteq> []" and "result_lines h \<noteq> []"
    and "read_text fs (file_path op) = Some original" and "lf_text original"
    and "apply_update op fs = (Updated (file_path op), fs')"
  shows "apply_update op fs' = (AlreadyApplied (file_path op), fs')"
proof -
  let ?ls = "split_on newline original"
  have up: "apply_update op fs =
      (case apply_hunks [h] ?ls 0 of None \<Rightarrow> (ContextMissing (file_path op), fs)
       | Some (ls, skipped) \<Rightarrow> (if skipped \<noteq> 0 \<and> skipped = 1 then AlreadyApplied (file_path op) else Updated (file_path op),
           write_text (file_path op) (join [newline] ls) fs))"
    using assms(1,2,5,6)
    by (simp add: apply_update_def Let_def lf_ending lf_normalize_hunk cong: option.case_cong hunk_result.case_cong)
  have hs: "apply_hunks [h] ?ls 0 \<noteq> None" using assms(7) unfolding up by (auto split: option.splits)
  obtain ls' where ah: "apply_hunk ?ls h = HunkApplied ls'" and fs': "fs' = write_text (file_path op) (join [newline] ls') fs"
    using hs assms(7) unfolding up by (auto split: hunk_result.splits)
  obtain i where ls': "ls' = take i ?ls @ result_lines h @ drop (i + length (source_lines h)) ?ls"
    using ah assms(3) by (auto simp: apply_hunk_def locate_hunk_def split: if_splits option.splits)
  have rl: "lf_text l \<and> newline \<notin> set l" if "l \<in> set (result_lines h)" for l
    using that assms(2) by (auto simp: result_lines_def lf_hunk_def list_all_iff)
  have ol: "lf_text l \<and> newline \<notin> set l" if "l \<in> set ?ls" for l
    using that split_on_no_sep [of newline original] split_on_subset [of l newline original] assms(6)
    by (auto simp: lf_text_def list_all_iff)
  have all: "lf_text l \<and> newline \<notin> set l" if "l \<in> set ls'" for l
  proof -
    have "l \<in> set (result_lines h) \<or> l \<in> set ?ls"
      using that set_take_subset [of i ?ls] set_drop_subset [of "i + length (source_lines h)" ?ls]
      unfolding ls' set_append by blast
    then show ?thesis using rl ol by blast
  qed
  have ne: "ls' \<noteq> []" using assms(4) by (simp add: ls')
  have split: "split_on newline (join [newline] ls') = ls'"
    using ne all by (intro split_on_join) auto
  have lf: "lf_text (join [newline] ls')"
    using all set_join [of newline ls'] by (fastforce simp: lf_text_def list_all_iff newline_def char_code_def)
  have "apply_hunk ls' h = HunkSkipped"
    using applied_is_recognised [OF ah assms(3,4)] by (simp add: apply_hunk_def)
  moreover have "read_text fs' (file_path op) = Some (join [newline] ls')"
    by (simp add: fs' files.look_put)
  moreover have "write_text (file_path op) (join [newline] ls') fs' = fs'"
    using calculation(2) by (simp add: write_text_def read_text_def dset_same)
  ultimately show ?thesis
    using assms(1,2) lf by (simp add: apply_update_def Let_def lf_ending lf_normalize_hunk split)
qed

theorem update_is_idempotent_witness:
  "apply_update demo_op (snd (apply_update demo_op demo_files))
     = (AlreadyApplied ''f'', snd (apply_update demo_op demo_files))"
proof -
  have "file_path demo_op = ''f''" "op_hunks demo_op = [demo_hunk]" by (simp_all add: demo_op_def)
  moreover have "lf_hunk demo_hunk" "source_lines demo_hunk \<noteq> []" "result_lines demo_hunk \<noteq> []" by code_simp+
  moreover have "read_text demo_files ''f'' = Some (''x'' @ [newline] @ ''a'' @ [newline] @ ''b'')" by code_simp
  moreover have "lf_text (''x'' @ [newline] @ ''a'' @ [newline] @ ''b'')" by code_simp
  moreover have "apply_update demo_op demo_files = (Updated ''f'', snd (apply_update demo_op demo_files))"
  proof -
    have "fst (apply_update demo_op demo_files) = Updated ''f''" by code_simp
    then show ?thesis by (metis prod.collapse)
  qed
  ultimately show ?thesis using update_is_idempotent [of demo_op demo_hunk demo_files] by metis
qed

end
