(* ===== verification/V4A_Print.thy ===== *)
theory V4A_Print
  imports V4A_Props
begin

text \<open>
  Patches as text: a printer for the format, the round trip of the parser on what it prints, and the
  places where the parser loses an edit the text contains.
\<close>

section \<open>Stripping\<close>

definition trimmed :: "string \<Rightarrow> bool" where
  "trimmed s = (s \<noteq> [] \<and> \<not> py_space (hd s) \<and> \<not> py_space (last s))"

lemma lstrip_space [simp]: "lstrip (CHR '' '' # s) = lstrip s"
  by (simp add: lstrip_def py_space_def char_code_def)

lemma lstrip_black [simp]: "s \<noteq> [] \<Longrightarrow> \<not> py_space (hd s) \<Longrightarrow> lstrip (s @ t) = s @ t"
  by (cases s) (auto simp: lstrip_def)

lemma rstrip_black: "s \<noteq> [] \<Longrightarrow> \<not> py_space (last s) \<Longrightarrow> rstrip s = s"
  by (cases s rule: rev_cases) (auto simp: rstrip_def)

lemma rstrip_space [simp]: "rstrip (s @ [CHR '' '']) = rstrip s"
  by (simp add: rstrip_def py_space_def char_code_def)

lemma strip_trimmed: "trimmed s \<Longrightarrow> strip s = s"
  using lstrip_black [of s "[]"] by (simp add: trimmed_def strip_def rstrip_black)

lemma strip_space [simp]: "strip (CHR '' '' # s) = strip s"
  by (simp add: strip_def)

lemma trimmed_lstrip [simp]: "trimmed s \<Longrightarrow> lstrip (s @ t) = s @ t"
  by (simp add: trimmed_def)

lemma strip_trailing [simp]: "trimmed s \<Longrightarrow> strip (s @ [CHR '' '']) = s"
  using trimmed_lstrip [of s "[CHR '' '']"]
  by (simp add: strip_def rstrip_black trimmed_def del: trimmed_lstrip lstrip_black)

lemma after_append [simp]: "after p (p @ s) = Some s"
  by (simp add: after_def)

lemma space_char [simp]: "py_space (CHR '' '')"
  by (simp add: py_space_def char_code_def)

section \<open>Printing\<close>

definition print_marker :: "patch_operation \<Rightarrow> string" where
  "print_marker op =
     (case operation op of
        AddFile \<Rightarrow> ''*** Add File: '' @ file_path op
      | UpdateFile \<Rightarrow> ''*** Update File: '' @ file_path op
      | DeleteFile \<Rightarrow> ''*** Delete File: '' @ file_path op
      | MoveFile \<Rightarrow> ''*** Move File: '' @ file_path op @ '' -> '' @ the (new_path op))"

definition print_header :: "hunk \<Rightarrow> string" where
  "print_header h = (case context_hint h of None \<Rightarrow> ''@@'' | Some t \<Rightarrow> ''@@ '' @ t @ '' @@'')"

definition print_line :: "hunk_line \<Rightarrow> string" where
  "print_line l = line_prefix l # line_content l"

definition print_hunk :: "hunk \<Rightarrow> string list" where
  "print_hunk h = print_header h # map print_line (hunk_lines h)"

definition print_operation :: "patch_operation \<Rightarrow> string list" where
  "print_operation op = print_marker op # concat (map print_hunk (op_hunks op))"

definition print_patch :: "patch_operation list \<Rightarrow> string" where
  "print_patch ops =
     join [newline] (''*** Begin Patch'' # concat (map print_operation ops) @ [''*** End Patch''])"

text \<open>What can be printed: the blank context line is what the format cannot hold.\<close>

definition one_line :: "string \<Rightarrow> bool" where
  "one_line s = (newline \<notin> set s \<and> (s \<noteq> [] \<longrightarrow> char_code (last s) \<noteq> 13))"

definition printable_line :: "hunk_line \<Rightarrow> bool" where
  "printable_line l = (line_prefix l \<in> {CHR '' '', CHR ''+'', CHR ''-''} \<and> one_line (line_content l)
     \<and> strip (print_line l) \<noteq> [])"

definition printable_hunk :: "hunk \<Rightarrow> bool" where
  "printable_hunk h = (hunk_lines h \<noteq> [] \<and> list_all printable_line (hunk_lines h)
     \<and> (case context_hint h of None \<Rightarrow> True | Some t \<Rightarrow> trimmed t \<and> newline \<notin> set t))"

definition printable_path :: "string \<Rightarrow> bool" where
  "printable_path p = (trimmed p \<and> newline \<notin> set p)"

definition printable_operation :: "patch_operation \<Rightarrow> bool" where
  "printable_operation op = (printable_path (file_path op) \<and> op_content op = None
     \<and> list_all printable_hunk (op_hunks op)
     \<and> (case new_path op of
          None \<Rightarrow> operation op \<noteq> MoveFile
        | Some q \<Rightarrow> operation op = MoveFile \<and> printable_path q \<and> CHR ''>'' \<notin> set (file_path op)))"

section \<open>Reading single lines back\<close>

lemma after_marker_print:
  "trimmed verb \<Longrightarrow> trimmed noun \<Longrightarrow>
     after_marker verb noun (''*** '' @ verb @ '' '' @ noun @ s) = Some s"
proof -
  assume v: "trimmed verb" and n: "trimmed noun"
  have "after ''***'' (''*** '' @ verb @ '' '' @ noun @ s) = Some ('' '' @ verb @ '' '' @ noun @ s)"
    by (simp add: after_def starts_with_def)
  moreover have "lstrip ('' '' @ verb @ '' '' @ noun @ s) = verb @ '' '' @ noun @ s"
    using v by simp
  moreover have "lstrip ('' '' @ noun @ s) = noun @ s" using n by simp
  ultimately show ?thesis by (simp add: after_marker_def)
qed

lemma after_marker_other:
  "trimmed v \<Longrightarrow> \<not> starts_with (v @ s) verb \<Longrightarrow> after_marker verb noun (''*** '' @ v @ s) = None"
proof -
  assume v: "trimmed v" and n: "\<not> starts_with (v @ s) verb"
  have "after ''***'' (''*** '' @ v @ s) = Some ('' '' @ v @ s)"
    by (simp add: after_def starts_with_def)
  moreover have "lstrip ('' '' @ v @ s) = v @ s" using v by simp
  ultimately show ?thesis using n by (simp add: after_marker_def after_def)
qed

lemma trimmed_words [simp]:
  "trimmed ''Update''" "trimmed ''Add''" "trimmed ''Delete''" "trimmed ''Move''" "trimmed ''File:''"
  "trimmed ''Begin''" "trimmed ''End''" "trimmed ''Patch''"
  by code_simp+

lemma not_star [simp]: "hd s \<noteq> CHR ''*'' \<Longrightarrow> after_marker verb noun s = None"
  by (cases s) (auto simp: after_marker_def after_def starts_with_def)

lemma parse_marker_not_star: "hd s \<noteq> CHR ''*'' \<Longrightarrow> parse_marker s = None"
  by (simp add: parse_marker_def path_marker_def move_marker_def Let_def)

lemma path_marker_print:
  "trimmed verb \<Longrightarrow> trimmed p \<Longrightarrow> path_marker verb (''*** '' @ verb @ '' '' @ ''File:'' @ '' '' @ p) = Some p"
  using after_marker_print [of verb "''File:''" "'' '' @ p"]
  by (simp add: path_marker_def strip_trimmed)

lemma arrow_print: "trimmed q \<Longrightarrow> arrow ('' -> '' @ q) = Some q"
proof -
  assume q: "trimmed q"
  have "after ''->'' (lstrip ('' -> '' @ q)) = Some ('' '' @ q)"
    by (simp add: after_def starts_with_def lstrip_def py_space_def char_code_def)
  then show ?thesis using q by (simp add: arrow_def strip_trimmed)
qed

lemma no_arrow:
  assumes "s \<noteq> []" and "\<not> py_space (last s)" and "CHR ''>'' \<notin> set s" and "t \<noteq> []" and "hd t = CHR '' ''"
  shows "arrow (s @ t) = None"
proof -
  define u where "u = dropWhile py_space s"
  have u: "u \<noteq> []" "set u \<subseteq> set s" "lstrip (s @ t) = u @ t"
  proof -
    have "\<not> (\<forall>c \<in> set s. py_space c)" using assms(1,2) last_in_set by blast
    then show "u \<noteq> []" by (auto simp: u_def)
    then show "lstrip (s @ t) = u @ t"
      using \<open>\<not> (\<forall>c \<in> set s. py_space c)\<close> by (auto simp: lstrip_def u_def dropWhile_append)
    show "set u \<subseteq> set s" unfolding u_def using set_dropWhileD by fastforce
  qed
  have "\<not> starts_with (u @ t) ''->''"
    using u(1,2) assms(3-5) by (cases u; cases "tl u"; cases t) (auto simp: starts_with_def)
  then show ?thesis by (simp add: arrow_def after_def u(3))
qed

lemma split_arrow_print:
  "s \<noteq> [] \<Longrightarrow> \<not> py_space (last s) \<Longrightarrow> CHR ''>'' \<notin> set s \<Longrightarrow> trimmed q \<Longrightarrow>
     split_arrow acc (s @ '' -> '' @ q) = Some (strip (rev acc @ s), q)"
proof (induction s arbitrary: acc)
  case (Cons c s)
  show ?case
  proof (cases "s = []")
    case True
    then show ?thesis using arrow_print [OF Cons.prems(4)] by simp
  next
    case False
    have "arrow (s @ '' -> '' @ q) = None"
      using no_arrow [OF False, of "'' -> '' @ q"] Cons.prems False by simp
    then show ?thesis using Cons.IH [of "c # acc"] Cons.prems False by simp
  qed
qed simp

lemma move_marker_print:
  assumes "trimmed p" and "trimmed q" and "CHR ''>'' \<notin> set p"
  shows "move_marker (''*** '' @ ''Move'' @ '' '' @ ''File:'' @ '' '' @ p @ '' -> '' @ q) = Some (p, q)"
proof -
  have "after_marker ''Move'' ''File:'' (''*** '' @ ''Move'' @ '' '' @ ''File:'' @ '' '' @ p @ '' -> '' @ q)
      = Some ('' '' @ p @ '' -> '' @ q)"
    using after_marker_print [of "''Move''" "''File:''" "'' '' @ p @ '' -> '' @ q"] by simp
  moreover have "lstrip ('' '' @ p @ '' -> '' @ q) = p @ '' -> '' @ q" using assms(1) by simp
  moreover have "split_arrow [] (p @ '' -> '' @ q) = Some (p, q)"
    using split_arrow_print [of p q "[]"] assms by (simp add: trimmed_def [of p] strip_trimmed)
  ultimately show ?thesis by (simp add: move_marker_def)
qed

definition opened :: "patch_operation \<Rightarrow> patch_operation" where
  "opened op = op\<lparr>op_hunks := [], op_content := None\<rparr>"

lemma parse_marker_print:
  assumes "printable_operation op"
  shows "parse_marker (print_marker op) = Some (opened op)"
proof -
  have p: "trimmed (file_path op)" using assms by (simp add: printable_operation_def printable_path_def)
  have other: "after_marker verb ''File:'' (''*** '' @ v @ s) = None"
    if "trimmed v" "\<not> starts_with (v @ s) verb" for v verb s
    using after_marker_other that by blast
  show ?thesis
  proof (cases "operation op")
    case AddFile
    have "path_marker ''Update'' (print_marker op) = None"
      using other [of "''Add''" _ "''Update''"] AddFile
      by (simp add: path_marker_def print_marker_def starts_with_def)
    moreover have "path_marker ''Add'' (print_marker op) = Some (file_path op)"
      using path_marker_print [of "''Add''", OF _ p] AddFile by (simp add: print_marker_def)
    ultimately show ?thesis using AddFile assms
      by (cases op) (auto simp: parse_marker_def opened_def printable_operation_def split: option.splits)
  next
    case UpdateFile
    have "path_marker ''Update'' (print_marker op) = Some (file_path op)"
      using path_marker_print [of "''Update''", OF _ p] UpdateFile by (simp add: print_marker_def)
    then show ?thesis using UpdateFile assms
      by (cases op) (auto simp: parse_marker_def opened_def printable_operation_def split: option.splits)
  next
    case DeleteFile
    have "path_marker ''Update'' (print_marker op) = None" "path_marker ''Add'' (print_marker op) = None"
      using other [of "''Delete''" _ "''Update''"] other [of "''Delete''" _ "''Add''"] DeleteFile
      by (simp_all add: path_marker_def print_marker_def starts_with_def)
    moreover have "path_marker ''Delete'' (print_marker op) = Some (file_path op)"
      using path_marker_print [of "''Delete''", OF _ p] DeleteFile by (simp add: print_marker_def)
    ultimately show ?thesis using DeleteFile assms
      by (cases op) (auto simp: parse_marker_def opened_def printable_operation_def split: option.splits)
  next
    case MoveFile
    obtain q where q: "new_path op = Some q" "trimmed q" "CHR ''>'' \<notin> set (file_path op)"
      using assms MoveFile by (auto simp: printable_operation_def printable_path_def split: option.splits)
    have "path_marker ''Update'' (print_marker op) = None" "path_marker ''Add'' (print_marker op) = None"
        "path_marker ''Delete'' (print_marker op) = None"
      using other [of "''Move''" _ "''Update''"] other [of "''Move''" _ "''Add''"] other [of "''Move''" _ "''Delete''"] MoveFile
      by (simp_all add: path_marker_def print_marker_def starts_with_def)
    moreover have "move_marker (print_marker op) = Some (file_path op, q)"
      using move_marker_print [OF p q(2,3)] MoveFile q(1) by (simp add: print_marker_def)
    ultimately show ?thesis using MoveFile assms q(1)
      by (cases op) (auto simp: parse_marker_def opened_def printable_operation_def)
  qed
qed

lemma parse_hunk_header_print:
  "printable_hunk h \<Longrightarrow> parse_hunk_header (print_header h) = context_hint h \<and> is_header (print_header h)"
proof (cases "context_hint h")
  case None
  have "parse_hunk_header ''@@'' = None" "starts_with ''@@'' ''@@''" by code_simp+
  then show ?thesis using None by (simp add: print_header_def is_header_def)
next
  case (Some t)
  assume h: "printable_hunk h"
  then have t: "trimmed t" using Some by (simp add: printable_hunk_def)
  have "after ''@@'' (''@@ '' @ t @ '' @@'') = Some ('' '' @ t @ '' @@'')"
    by (simp add: after_def starts_with_def)
  moreover have "rstrip ('' '' @ t @ '' @@'') = '' '' @ t @ '' @@''"
    by (rule rstrip_black) (simp_all add: py_space_def char_code_def)
  moreover have "ends_with ('' '' @ t @ '' @@'') ''@@''" by (simp add: ends_with_def)
  moreover have "take (length ('' '' @ t @ '' @@'') - 2) ('' '' @ t @ '' @@'') = '' '' @ t @ '' ''" by simp
  moreover have "strip ('' '' @ t @ '' '') = t" using t by simp
  moreover have "t \<noteq> []" using t by (simp add: trimmed_def)
  ultimately show ?thesis
    using Some by (simp add: parse_hunk_header_def print_header_def is_header_def Let_def del: strip_trailing)
qed

section \<open>Reading a patch back\<close>

lemma prefixed_print: "printable_line l \<Longrightarrow> prefixed (print_line l) \<and> line_of (print_line l) = l
    \<and> parse_marker (print_line l) = None \<and> strip (print_line l) \<noteq> []"
  using parse_marker_not_star [of "print_line l"]
  by (cases l) (auto simp: printable_line_def prefixed_def line_of_def print_line_def)

definition with_lines :: "hunk \<Rightarrow> hunk_line list \<Rightarrow> hunk" where
  "with_lines k ls = k\<lparr>hunk_lines := hunk_lines k @ ls\<rparr>"

lemma parse_print_lines:
  "list_all printable_line ls \<Longrightarrow>
     parse_lines (map print_line ls) \<lparr>ps_done = d, ps_current = Some op, ps_hunk = Some k\<rparr>
       = \<lparr>ps_done = d, ps_current = Some op, ps_hunk = Some (with_lines k ls)\<rparr>"
proof (induction ls arbitrary: k)
  case Nil
  then show ?case by (simp add: parse_lines_def with_lines_def)
next
  case (Cons l ls)
  then have "parse_line (print_line l) \<lparr>ps_done = d, ps_current = Some op, ps_hunk = Some k\<rparr>
      = \<lparr>ps_done = d, ps_current = Some op, ps_hunk = Some (add_line l k)\<rparr>"
    using prefixed_print [of l] by (simp add: parse_line_def hunk_line_step_def)
  then show ?case using Cons.IH [of "add_line l k"] Cons.prems
    by (simp add: parse_lines_def with_lines_def add_line_def)
qed

lemma parse_lines_append: "parse_lines (a @ b) st = parse_lines b (parse_lines a st)"
  by (simp add: parse_lines_def)

lemma parse_lines_Cons: "parse_lines (l # ls) st = parse_lines ls (parse_line l st)"
  by (simp add: parse_lines_def)

text \<open>The operation with the open hunk added, which is what finalizing appends.\<close>

definition flush :: "patch_operation \<Rightarrow> hunk option \<Rightarrow> patch_operation" where
  "flush op hk = (case hk of None \<Rightarrow> op | Some h \<Rightarrow> op\<lparr>op_hunks := op_hunks op @ [h]\<rparr>)"

definition open_ok :: "hunk option \<Rightarrow> bool" where
  "open_ok hk = (case hk of None \<Rightarrow> True | Some h \<Rightarrow> hunk_lines h \<noteq> [])"

lemma finalize_flush: "open_ok hk \<Longrightarrow> finalize_operation (Some op) hk d = d @ [flush op hk]"
  by (auto simp: finalize_operation_def flush_def open_ok_def split: option.splits)

lemma header_line: "strip (print_header h) \<noteq> []" "\<not> prefixed (print_header h)" "parse_marker (print_header h) = None"
proof -
  obtain t where t: "print_header h = CHR ''@'' # t" by (cases "context_hint h") (auto simp: print_header_def)
  show "strip (print_header h) \<noteq> []" by (simp add: strip_empty_iff t py_space_def char_code_def)
  show "\<not> prefixed (print_header h)" by (simp add: prefixed_def t)
  show "parse_marker (print_header h) = None" by (rule parse_marker_not_star) (simp add: t)
qed

lemma parse_print_header:
  assumes "printable_hunk h" and "open_ok hk"
  shows "parse_line (print_header h) \<lparr>ps_done = d, ps_current = Some op, ps_hunk = hk\<rparr>
    = \<lparr>ps_done = d, ps_current = Some (flush op hk), ps_hunk = Some (new_hunk (context_hint h))\<rparr>"
proof (cases hk)
  case None
  then show ?thesis using parse_hunk_header_print [OF assms(1)]
    by (simp add: parse_line_def header_line open_line_def flush_def)
next
  case (Some k)
  then show ?thesis using parse_hunk_header_print [OF assms(1)]
    by (simp add: parse_line_def header_line hunk_line_step_def flush_def)
qed

lemma parse_print_hunk:
  assumes "printable_hunk h" and "open_ok hk"
  shows "parse_lines (print_hunk h) \<lparr>ps_done = d, ps_current = Some op, ps_hunk = hk\<rparr>
    = \<lparr>ps_done = d, ps_current = Some (flush op hk), ps_hunk = Some h\<rparr>"
proof -
  have "list_all printable_line (hunk_lines h)" using assms(1) by (simp add: printable_hunk_def)
  then show ?thesis
    by (simp add: print_hunk_def parse_lines_Cons parse_print_header [OF assms] parse_print_lines with_lines_def new_hunk_def)
qed

lemma parse_print_hunks:
  "list_all printable_hunk hs \<Longrightarrow> open_ok hk \<Longrightarrow>
     \<exists>op' hk'. parse_lines (concat (map print_hunk hs)) \<lparr>ps_done = d, ps_current = Some op, ps_hunk = hk\<rparr>
         = \<lparr>ps_done = d, ps_current = Some op', ps_hunk = hk'\<rparr>
       \<and> open_ok hk' \<and> flush op' hk' = (flush op hk)\<lparr>op_hunks := op_hunks (flush op hk) @ hs\<rparr>"
proof (induction hs arbitrary: op hk)
  case Nil
  then show ?case by (auto simp: parse_lines_def)
next
  case (Cons h hs)
  then have h: "printable_hunk h" and ok: "open_ok (Some h)" by (auto simp: open_ok_def printable_hunk_def)
  show ?case
    using Cons.IH [OF _ ok, of "flush op hk"] Cons.prems
    by (simp add: parse_lines_append parse_print_hunk [OF h]) (simp add: flush_def)
qed

lemma parse_print_operation:
  assumes "printable_operation op"
  shows "\<exists>op' hk'. parse_lines (print_operation op) st
      = \<lparr>ps_done = finalize_operation (ps_current st) (ps_hunk st) (ps_done st), ps_current = Some op', ps_hunk = hk'\<rparr>
    \<and> open_ok hk' \<and> flush op' hk' = op"
proof -
  let ?d = "finalize_operation (ps_current st) (ps_hunk st) (ps_done st)"
  have m: "parse_line (print_marker op) st = \<lparr>ps_done = ?d, ps_current = Some (opened op), ps_hunk = None\<rparr>"
    using parse_marker_print [OF assms] by (simp add: parse_line_def)
  have "list_all printable_hunk (op_hunks op)" using assms by (simp add: printable_operation_def)
  from parse_print_hunks [OF this, of None ?d "opened op"]
  obtain op' hk' where r: "parse_lines (concat (map print_hunk (op_hunks op)))
        \<lparr>ps_done = ?d, ps_current = Some (opened op), ps_hunk = None\<rparr>
      = \<lparr>ps_done = ?d, ps_current = Some op', ps_hunk = hk'\<rparr>" "open_ok hk'"
      "flush op' hk' = (opened op)\<lparr>op_hunks := op_hunks (opened op) @ op_hunks op\<rparr>"
    by (auto simp: open_ok_def flush_def)
  have "(opened op)\<lparr>op_hunks := op_hunks (opened op) @ op_hunks op\<rparr> = op"
    using assms by (cases op) (simp add: opened_def printable_operation_def)
  then show ?thesis using r by (simp add: print_operation_def parse_lines_Cons m)
qed

lemma parse_print_operations:
  "list_all printable_operation ops \<Longrightarrow> open_ok (ps_hunk st) \<Longrightarrow>
     (let st' = parse_lines (concat (map print_operation ops)) st in
      finalize_operation (ps_current st') (ps_hunk st') (ps_done st')
        = finalize_operation (ps_current st) (ps_hunk st) (ps_done st) @ ops)"
proof (induction ops arbitrary: st)
  case Nil
  then show ?case by (simp add: parse_lines_def)
next
  case (Cons op ops)
  then obtain op' hk' where r: "parse_lines (print_operation op) st
      = \<lparr>ps_done = finalize_operation (ps_current st) (ps_hunk st) (ps_done st), ps_current = Some op', ps_hunk = hk'\<rparr>"
      "open_ok hk'" "flush op' hk' = op"
    using parse_print_operation [of op st] by auto
  then show ?case
    using Cons.IH [of "parse_lines (print_operation op) st"] Cons.prems
    by (simp add: parse_lines_append finalize_flush)
qed

lemma newline_lit: "newline = CHR 0x0A"
  by code_simp

lemma patch_body_print:
  "\<forall>s \<in> set ls. \<not> begin_marker s \<and> \<not> end_marker s \<Longrightarrow> end_marker e \<Longrightarrow> \<not> begin_marker e \<Longrightarrow>
     patch_body (ls @ [e]) acc = acc @ ls"
  by (induction ls arbitrary: acc) auto

definition plain_line :: "string \<Rightarrow> bool" where
  "plain_line s = (newline \<notin> set s \<and> drop_cr s = s \<and> \<not> begin_marker s \<and> \<not> end_marker s)"

lemma drop_cr_last: "s \<noteq> [] \<Longrightarrow> char_code (last s) \<noteq> 13 \<Longrightarrow> drop_cr s = s"
  by (simp add: drop_cr_def)

lemma trimmed_drop_cr: "trimmed p \<Longrightarrow> drop_cr (s @ p) = s @ p"
proof -
  assume p: "trimmed p"
  then have "char_code (last p) \<noteq> 13" by (auto simp: trimmed_def py_space_def Let_def)
  then show ?thesis using p by (intro drop_cr_last) (auto simp: trimmed_def)
qed

lemma not_boundary: "hd s \<noteq> CHR ''*'' \<Longrightarrow> \<not> begin_marker s \<and> \<not> end_marker s"
  by (simp add: begin_marker_def end_marker_def)

lemma plain_print_line: "printable_line l \<Longrightarrow> plain_line (print_line l)"
proof -
  assume l: "printable_line l"
  have "newline \<notin> set (print_line l)"
    using l by (auto simp: printable_line_def print_line_def one_line_def newline_lit)
  moreover have "drop_cr (print_line l) = print_line l"
    using l by (intro drop_cr_last) (auto simp: printable_line_def print_line_def one_line_def char_code_def)
  moreover have "hd (print_line l) \<noteq> CHR ''*''" using l by (auto simp: printable_line_def print_line_def)
  ultimately show ?thesis using not_boundary by (simp add: plain_line_def)
qed

lemma plain_print_header: "printable_hunk h \<Longrightarrow> plain_line (print_header h)"
proof (cases "context_hint h")
  case None
  have "plain_line ''@@''" by code_simp
  then show ?thesis using None by (simp add: print_header_def)
next
  case (Some t)
  assume h: "printable_hunk h"
  have "newline \<notin> set (''@@ '' @ t @ '' @@'')"
    using h Some by (auto simp: printable_hunk_def newline_lit)
  moreover have "drop_cr (''@@ '' @ t @ '' @@'') = ''@@ '' @ t @ '' @@''"
    by (rule drop_cr_last) (simp_all add: char_code_def)
  ultimately show ?thesis using not_boundary [of "print_header h"] Some
    by (simp add: plain_line_def print_header_def)
qed

lemma plain_print_marker:
  assumes "printable_operation op"
  shows "plain_line (print_marker op)"
proof -
  have p: "trimmed (file_path op)" "newline \<notin> set (file_path op)"
    using assms by (simp_all add: printable_operation_def printable_path_def)
  have b: "\<not> begin_marker (''*** '' @ v @ s) \<and> \<not> end_marker (''*** '' @ v @ s)"
    if "trimmed v" "hd v \<noteq> CHR ''B''" "hd v \<noteq> CHR ''E''" for v s
  proof -
    have "v \<noteq> []" using that(1) by (simp add: trimmed_def)
    then have "\<not> starts_with (v @ s) ''Begin''" "\<not> starts_with (v @ s) ''End''"
      using that(2,3) by (cases v; simp add: starts_with_def)+
    then show ?thesis using after_marker_other [OF that(1)] by (simp add: begin_marker_def end_marker_def)
  qed
  show ?thesis
  proof (cases "operation op = MoveFile")
    case False
    then obtain v where v: "print_marker op = ''*** '' @ v @ '' File: '' @ file_path op"
        "v \<in> {''Add'', ''Update'', ''Delete''}"
      by (cases "operation op") (simp_all add: print_marker_def)
    have "newline \<notin> set (print_marker op)" using p(2) v by (auto simp: newline_lit)
    moreover have "drop_cr (print_marker op) = print_marker op"
      using trimmed_drop_cr [OF p(1), of "''*** '' @ v @ '' File: ''"] v(1) by simp
    ultimately show ?thesis using b [of v "'' File: '' @ file_path op"] v by (auto simp: plain_line_def)
  next
    case True
    then obtain q where q: "new_path op = Some q" "trimmed q" "newline \<notin> set q"
      using assms by (auto simp: printable_operation_def printable_path_def split: option.splits)
    have "newline \<notin> set (print_marker op)" using p(2) q True by (simp add: print_marker_def newline_lit)
    moreover have "drop_cr (print_marker op) = print_marker op"
      using trimmed_drop_cr [OF q(2), of "''*** Move File: '' @ file_path op @ '' -> ''"] q(1) True
      by (simp add: print_marker_def)
    ultimately show ?thesis
      using b [of "''Move''" "'' File: '' @ file_path op @ '' -> '' @ q"] q(1) True
      by (simp add: plain_line_def print_marker_def)
  qed
qed

lemma plain_print_operation: "printable_operation op \<Longrightarrow> list_all plain_line (print_operation op)"
  by (auto simp: print_operation_def print_hunk_def list_all_iff printable_operation_def plain_print_header
     printable_hunk_def plain_print_line intro!: plain_print_marker)

text \<open>
  C33. What is printed parses back: the parser returns exactly the operations of a printed patch, for
  every kind of operation, with any number of hunks, hints and paths with inner spaces.
\<close>

theorem parse_print_round_trip:
  assumes "list_all printable_operation ops" and "ops \<noteq> []"
  shows "parse_v4a_patch (print_patch ops) = Some ops"
proof -
  define body where "body = concat (map print_operation ops)"
  have plain: "\<forall>s \<in> set body. plain_line s"
    using assms(1) plain_print_operation by (fastforce simp: body_def list_all_iff)
  have ends: "newline \<notin> set ''*** Begin Patch''" "newline \<notin> set ''*** End Patch''"
      "drop_cr ''*** Begin Patch'' = ''*** Begin Patch''" "drop_cr ''*** End Patch'' = ''*** End Patch''"
    by code_simp+
  have "split_on newline (print_patch ops) = ''*** Begin Patch'' # body @ [''*** End Patch'']"
    unfolding print_patch_def body_def [symmetric]
    using plain ends by (intro split_on_join) (auto simp: plain_line_def)
  moreover have "map drop_cr (''*** Begin Patch'' # body @ [''*** End Patch'']) = ''*** Begin Patch'' # body @ [''*** End Patch'']"
    using plain ends by (intro map_idI) (auto simp: plain_line_def)
  moreover have "patch_body (''*** Begin Patch'' # body @ [''*** End Patch'']) [] = body"
  proof -
    have "begin_marker ''*** Begin Patch''" "end_marker ''*** End Patch''" "\<not> begin_marker ''*** End Patch''"
      by code_simp+
    then show ?thesis using patch_body_print [of body] plain by (simp add: plain_line_def)
  qed
  moreover have "let st' = parse_lines body start_state in
      finalize_operation (ps_current st') (ps_hunk st') (ps_done st') = ops"
    using parse_print_operations [OF assms(1), of start_state]
    by (simp add: body_def start_state_def open_ok_def finalize_operation_def)
  ultimately show ?thesis using assms(2) by (simp add: parse_v4a_patch_def Let_def)
qed

definition demo_move :: patch_operation where
  "demo_move = \<lparr>operation = MoveFile, file_path = ''old name'', new_path = Some ''new -> name'', op_hunks = [], op_content = None\<rparr>"

theorem parse_print_round_trip_witness:
  "parse_v4a_patch (print_patch [demo_op, demo_move]) = Some [demo_op, demo_move]"
proof -
  have "list_all printable_operation [demo_op, demo_move]" by code_simp
  then show ?thesis by (rule parse_print_round_trip) simp
qed

section \<open>Where an edit is lost\<close>

lemma blank_no_marker:
  assumes "strip s = []"
  shows "parse_marker s = None"
proof (cases s)
  case Nil
  have "parse_marker [] = None" by code_simp
  then show ?thesis by (simp add: Nil)
next
  case (Cons c t)
  then have "py_space c" using assms by (simp add: strip_empty_iff)
  then show ?thesis by (intro parse_marker_not_star) (auto simp: Cons py_space_def char_code_def)
qed

lemma parse_lines_idle:
  "\<forall>s \<in> set ls. parse_marker s = None \<Longrightarrow> ps_current st = None \<Longrightarrow> parse_lines ls st = st"
  by (induction ls) (auto simp: parse_lines_def parse_line_def)

text \<open>
  A blank line, even a context line that is a space and nothing else, ends the operation and
  drops the hunk it stands in with all lines read so far; every further line is dropped with it up
  to the next file marker.
\<close>

theorem blank_line_drops_hunk:
  assumes "hunk_lines h \<noteq> []" and "strip s = []" and "\<forall>l \<in> set ls. parse_marker l = None"
  shows "parse_lines (s # ls) \<lparr>ps_done = d, ps_current = Some op, ps_hunk = Some h\<rparr>
    = \<lparr>ps_done = d @ [op], ps_current = None, ps_hunk = None\<rparr>"
  using assms parse_lines_idle [OF assms(3)]
  by (simp add: parse_lines_Cons parse_line_def blank_no_marker finalize_operation_def)

definition blank_patch :: string where
  "blank_patch = join [newline]
     [''*** Begin Patch'', ''*** Update File: f'', ''@@'', '' x'', '' '', ''-a'', ''+A'', ''*** End Patch'']"

theorem blank_line_drops_hunk_witness:
  "parse_lines ['' '', ''-a'', ''+A''] \<lparr>ps_done = [], ps_current = Some demo_op, ps_hunk = Some demo_hunk\<rparr>
     = \<lparr>ps_done = [demo_op], ps_current = None, ps_hunk = None\<rparr>
   \<and> fst (parse_and_apply_patch blank_patch [(''f'', join [newline] [''x'', [], ''a''])])
       = \<lparr>patch_ok = True, patch_results = [NoHunks ''f''], patch_errors = []\<rparr>"
proof -
  have "hunk_lines demo_hunk \<noteq> []" "strip '' '' = []" by code_simp+
  moreover have "\<forall>l \<in> set [''-a'', ''+A'']. parse_marker l = None" by code_simp
  ultimately have "parse_lines ['' '', ''-a'', ''+A''] \<lparr>ps_done = [], ps_current = Some demo_op, ps_hunk = Some demo_hunk\<rparr>
     = \<lparr>ps_done = [demo_op], ps_current = None, ps_hunk = None\<rparr>"
    using blank_line_drops_hunk [of demo_hunk "'' ''" "[''-a'', ''+A'']" "[]" demo_op] by simp
  moreover have "fst (parse_and_apply_patch blank_patch [(''f'', join [newline] [''x'', [], ''a''])])
       = \<lparr>patch_ok = True, patch_results = [NoHunks ''f''], patch_errors = []\<rparr>" by code_simp
  ultimately show ?thesis by blast
qed

text \<open>An added file whose first line is blank is created empty, its lines lost.\<close>

lemma added_file_lost:
  "parse_and_apply_patch (join [newline]
       [''*** Begin Patch'', ''*** Add File: n'', [], ''+one'', ''+two'', ''*** End Patch'']) []
     = (\<lparr>patch_ok = True, patch_results = [Created ''n''], patch_errors = []\<rparr>, [(''n'', [])])"
  by code_simp

end
