(* ===== verification/Agent_Queue.thy ===== *)
theory Agent_Queue
  imports Py_Float Kv_Store
begin

text \<open>
  The queue between an agent and the stream its user reads
  (\<^verbatim>\<open>core/agent/agents/agent_queue_manager.py\<close>, \<^verbatim>\<open>core/agent/entities/queue_entity.py\<close>,
  \<^verbatim>\<open>core/agent/failure_utils.py\<close>): publishing with one terminal event per task, the copies of the
  events in an asyncio queue and in a Redis list, and the listeners over the three.  Redis is a state
  with a flag that says whether it answers; keys do not expire by themselves.
\<close>

section \<open>Events\<close>

datatype queue_event =
    LongTermMemoryRecall
  | ThoughtEvent
  | AgentMessage
  | AgentAction
  | DatasetRetrieval
  | DeepThinking
  | DeepStep
  | DeepComplete
  | DeepArtifactCreated
  | DeepThinkingProposal
  | AgentEnd
  | StopEvent
  | ErrorEvent
  | TimeoutEvent
  | Ping
  | BillingStarted
  | BillingDelta
  | BillingSummary
  | BillingCancelled
  | BillingFinal
  | OrchestratorRouting
  | OrchestratorReject
  | ToolConfirmationRequired
  | MemoryConfirmationRequired
  | SubtaskStarted
  | SubtaskRunning
  | SubtaskCompleted

record agent_thought =
  thought_id :: string
  task_id :: string
  event :: queue_event
  thought :: string
  observation :: string
  confirmation_id :: string
  confirmation_status :: string
  execution_summary :: string
  tool :: string
  tool_input :: pyval
  message :: pyval
  message_token_count :: int
  cached_token_count :: int
  message_unit_price :: rat
  message_price_unit :: rat
  answer :: string
  answer_token_count :: int
  answer_unit_price :: rat
  answer_price_unit :: rat
  total_token_count :: int
  total_price :: rat
  latency :: rat

text \<open>\<open>AgentThought(id=..., task_id=..., event=...)\<close>: the default of \<open>message\<close> is an empty dictionary.\<close>

definition new_thought :: "string \<Rightarrow> string \<Rightarrow> queue_event \<Rightarrow> agent_thought" where
  "new_thought uid t e =
     \<lparr>thought_id = uid, task_id = t, event = e, thought = [], observation = [], confirmation_id = [],
      confirmation_status = [], execution_summary = [], tool = [], tool_input = PDict [], message = PDict [],
      message_token_count = 0, cached_token_count = 0, message_unit_price = 0, message_price_unit = 0,
      answer = [], answer_token_count = 0, answer_unit_price = 0, answer_price_unit = 0,
      total_token_count = 0, total_price = 0, latency = 0\<rparr>"

definition terminal :: "queue_event \<Rightarrow> bool" where
  "terminal e \<longleftrightarrow> e \<in> {StopEvent, ErrorEvent, TimeoutEvent, AgentEnd}"

definition billing_passthrough :: "queue_event \<Rightarrow> bool" where
  "billing_passthrough e \<longleftrightarrow> e \<in> {BillingFinal, BillingCancelled, BillingSummary}"

section \<open>Failures\<close>

text \<open>What the classification reads of an exception: its class, its module and its text.\<close>

record failure =
  is_timeout_error :: bool
  type_name :: string
  type_module :: string
  error_text :: string

definition timeout_hints :: "string list" where
  "timeout_hints = [''timeout'', ''timed out'', ''deadline exceeded'', ''504'']"

definition classify_failure_event :: "failure \<Rightarrow> queue_event" where
  "classify_failure_event f =
     (if is_timeout_error f then TimeoutEvent
      else
        (let normalized = strip (join '' '' [map lower_char (type_name f), map lower_char (type_module f),
               map lower_char (strip (error_text f))])
         in if list_ex (contains normalized) timeout_hints then TimeoutEvent else ErrorEvent))"

definition build_failure_observation :: "string \<Rightarrow> string \<Rightarrow> string" where
  "build_failure_observation err_text context_text =
     (let c = strip context_text; e = strip err_text in
      if c \<noteq> [] \<and> e \<noteq> [] then (if contains c e then c else c @ '': '' @ e)
      else if c \<noteq> [] then c
      else e)"

section \<open>The manager\<close>

datatype redis_item = Event agent_thought | StopMark

record redis =
  redis_up :: bool
  logs :: "(string \<times> redis_item list) list"
  belongs :: "(string \<times> string) list"
  stopped :: "(string \<times> nat) list"

datatype invoke_from = ServiceApi | WebApp | Debugger | AssistantAgent | Schedule

text \<open>A queue holds events and the sentinel \<^const>\<open>None\<close>.\<close>

type_synonym channel = "agent_thought option list"

record manager =
  user_id :: string
  invoke_from :: invoke_from
  queues :: "(string \<times> channel) list"
  async_queues :: "(string \<times> channel) list"
  terminal_events :: "(string \<times> queue_event list) list"
  shared :: redis

definition new_manager :: "string \<Rightarrow> invoke_from \<Rightarrow> redis \<Rightarrow> manager" where
  "new_manager user src r =
     \<lparr>user_id = user, invoke_from = src, queues = [], async_queues = [], terminal_events = [], shared = r\<rparr>"

definition event_stream_key :: "string \<Rightarrow> string" where
  "event_stream_key t = ''agent:queue:'' @ t @ '':events''"

definition generate_task_belong_cache_key :: "string \<Rightarrow> string" where
  "generate_task_belong_cache_key t = ''generate_task_belong:'' @ t"

definition generate_task_stopped_cache_key :: "string \<Rightarrow> string" where
  "generate_task_stopped_cache_key t = ''generate_task_stopped:'' @ t"

definition owner :: "invoke_from \<Rightarrow> string \<Rightarrow> string" where
  "owner src user =
     (if src \<in> {WebApp, Debugger, AssistantAgent} then ''account'' else ''end-user'') @ ''-'' @ user"

text \<open>Calls that need Redis return whether they ended without raising.\<close>

definition queue :: "string \<Rightarrow> manager \<Rightarrow> bool \<times> manager" where
  "queue t m =
     (case dget (queues m) t of
        Some q \<Rightarrow> (True, m)
      | None \<Rightarrow>
          if redis_up (shared m) then
            (True, m\<lparr>shared := (shared m)\<lparr>belongs :=
                dset (generate_task_belong_cache_key t) (owner (invoke_from m) (user_id m)) (belongs (shared m))\<rparr>,
              queues := dset t [] (queues m)\<rparr>)
          else (False, m))"

definition put_queue :: "string \<Rightarrow> agent_thought option \<Rightarrow> manager \<Rightarrow> manager" where
  "put_queue t x m = m\<lparr>queues := dset t (dget_or (queues m) t [] @ [x]) (queues m)\<rparr>"

definition put_async :: "string \<Rightarrow> agent_thought option \<Rightarrow> manager \<Rightarrow> manager" where
  "put_async t x m =
     (case dget (async_queues m) t of
        None \<Rightarrow> m
      | Some q \<Rightarrow> m\<lparr>async_queues := dset t (q @ [x]) (async_queues m)\<rparr>)"

definition stop_listen :: "string \<Rightarrow> manager \<Rightarrow> bool \<times> manager" where
  "stop_listen t m = (case queue t m of (ok, m1) \<Rightarrow> if ok then (True, put_queue t None m1) else (False, m1))"

definition persist_event :: "string \<Rightarrow> agent_thought \<Rightarrow> manager \<Rightarrow> manager" where
  "persist_event t th m =
     (if redis_up (shared m) then
        (let key = event_stream_key t;
             items = dget_or (logs (shared m)) key [] @ [Event th] @ (if terminal (event th) then [StopMark] else [])
         in m\<lparr>shared := (shared m)\<lparr>logs := dset key items (logs (shared m))\<rparr>\<rparr>)
      else m)"

definition publish :: "string \<Rightarrow> agent_thought \<Rightarrow> manager \<Rightarrow> bool \<times> manager" where
  "publish t th m =
     (let seen = dget_or (terminal_events m) t []; e = event th in
      if seen \<noteq> [] \<and> e \<notin> set seen \<and> \<not> billing_passthrough e then (True, m)
      else if terminal e \<and> e \<in> set seen then (True, m)
      else
        (let m1 = (if terminal e then m\<lparr>terminal_events := dset t (seen @ [e]) (terminal_events m)\<rparr> else m) in
         case queue t m1 of (ok, m2) \<Rightarrow>
           if \<not> ok then (False, m2)
           else
             (let m3 = put_async t (Some th) (put_queue t (Some th) m2) in
              if terminal e then
                (case stop_listen t m3 of (ok', m4) \<Rightarrow>
                   if ok' then (True, persist_event t th (put_async t None m4)) else (False, m4))
              else (True, persist_event t th m3))))"

definition publish_failure :: "string \<Rightarrow> string \<Rightarrow> failure \<Rightarrow> string \<Rightarrow> manager \<Rightarrow> bool \<times> manager" where
  "publish_failure uid t f context_text m =
     publish t ((new_thought uid t (classify_failure_event f))
       \<lparr>observation := build_failure_observation (error_text f) context_text\<rparr>) m"

definition publish_error :: "string \<Rightarrow> string \<Rightarrow> failure + string \<Rightarrow> manager \<Rightarrow> bool \<times> manager" where
  "publish_error uid t err m =
     (case err of
        Inl f \<Rightarrow> publish_failure uid t f [] m
      | Inr text \<Rightarrow> publish t ((new_thought uid t ErrorEvent)\<lparr>observation := text\<rparr>) m)"

definition get_or_create_async_queue :: "string \<Rightarrow> manager \<Rightarrow> manager" where
  "get_or_create_async_queue t m =
     (case dget (async_queues m) t of
        None \<Rightarrow> m\<lparr>async_queues := dset t [] (async_queues m)\<rparr>
      | Some q \<Rightarrow> m)"

section \<open>Reading\<close>

datatype received = Waiting | Ended | Received agent_thought | Raised

text \<open>A message that is not a list is read back from Redis as an empty list.\<close>

definition normal_message :: "agent_thought \<Rightarrow> agent_thought" where
  "normal_message th = (case message th of PList xs \<Rightarrow> th | _ \<Rightarrow> th\<lparr>message := PList []\<rparr>)"

definition read_persisted_event :: "string \<Rightarrow> manager \<Rightarrow> received \<times> manager" where
  "read_persisted_event t m =
     (if \<not> redis_up (shared m) then (Raised, m)
      else
        (let key = event_stream_key t in
         case dget_or (logs (shared m)) key [] of
           [] \<Rightarrow> (Waiting, m)
         | x # xs \<Rightarrow>
             ((case x of StopMark \<Rightarrow> Ended | Event th \<Rightarrow> Received (normal_message th)),
              m\<lparr>shared := (shared m)\<lparr>logs := dset key xs (logs (shared m))\<rparr>\<rparr>)))"

text \<open>\<open>get(timeout=1)\<close> on a queue, and the same on an asyncio queue.\<close>

definition read_queue :: "string \<Rightarrow> manager \<Rightarrow> received \<times> manager" where
  "read_queue t m =
     (case queue t m of (ok, m1) \<Rightarrow>
        if \<not> ok then (Raised, m1)
        else (case dget_or (queues m1) t [] of
            [] \<Rightarrow> (Waiting, m1)
          | x # xs \<Rightarrow>
              (case x of None \<Rightarrow> Ended | Some th \<Rightarrow> Received th, m1\<lparr>queues := dset t xs (queues m1)\<rparr>)))"

definition read_async :: "string \<Rightarrow> manager \<Rightarrow> received \<times> manager" where
  "read_async t m =
     (case dget_or (async_queues m) t [] of
        [] \<Rightarrow> (Waiting, m)
      | x # xs \<Rightarrow>
          (case x of None \<Rightarrow> Ended | Some th \<Rightarrow> Received th, m\<lparr>async_queues := dset t xs (async_queues m)\<rparr>))"

definition next_event :: "bool \<Rightarrow> string \<Rightarrow> manager \<Rightarrow> received \<times> manager" where
  "next_event redis_consume t m =
     (if redis_consume then
        (case read_persisted_event t m of
           (Raised, m1) \<Rightarrow> read_queue t m1
         | r \<Rightarrow> r)
      else read_queue t m)"

text \<open>One look at the clock and the identifiers drawn with it.\<close>

record beat =
  elapsed :: rat
  ping_id :: string
  timeout_id :: string
  stop_id :: string

definition is_stopped :: "string \<Rightarrow> manager \<Rightarrow> bool" where
  "is_stopped t m = (dget (stopped (shared m)) (generate_task_stopped_cache_key t) \<noteq> None)"

definition emit_heartbeats :: "string \<Rightarrow> beat \<Rightarrow> int \<Rightarrow> int \<Rightarrow> manager \<Rightarrow> (bool \<times> int) \<times> manager" where
  "emit_heartbeats t b last_ping listen_timeout m =
     (let n = \<lfloor>elapsed b / 10\<rfloor> in
      case (if n > last_ping then publish t (new_thought (ping_id b) t Ping) m else (True, m)) of (ok1, m1) \<Rightarrow>
      if \<not> ok1 then ((False, last_ping), m1)
      else
        (let ping = (if n > last_ping then n else last_ping) in
         case (if elapsed b \<ge> of_int listen_timeout
               then publish t (new_thought (timeout_id b) t TimeoutEvent) m1 else (True, m1)) of (ok2, m2) \<Rightarrow>
         if \<not> ok2 \<or> \<not> redis_up (shared m2) then ((False, ping), m2)
         else
           (case (if is_stopped t m2 then publish t (new_thought (stop_id b) t StopEvent) m2 else (True, m2)) of
              (ok3, m3) \<Rightarrow> ((ok3, ping), m3))))"

section \<open>Listening\<close>

datatype listener_status = Running | Finished | Broken

record listener =
  ping_time :: int
  yielded :: "agent_thought list"
  status :: listener_status

definition new_listener :: listener where
  "new_listener = \<lparr>ping_time = 0, yielded = [], status = Running\<rparr>"

text \<open>\<open>listen\<close> reads the queue, \<open>alisten\<close> the asyncio queue; either reads Redis when it is told to.\<close>

datatype source = Memory | Async | RedisList

definition read_source :: "source \<Rightarrow> string \<Rightarrow> manager \<Rightarrow> received \<times> manager" where
  "read_source src t m =
     (case src of
        Memory \<Rightarrow> next_event False t m
      | Async \<Rightarrow> read_async t m
      | RedisList \<Rightarrow> next_event True t m)"

text \<open>One turn of the loop.\<close>

definition listen_turn :: "source \<Rightarrow> string \<Rightarrow> int \<Rightarrow> beat \<Rightarrow> listener \<times> manager \<Rightarrow> listener \<times> manager" where
  "listen_turn src t listen_timeout b s =
     (case s of (l, m) \<Rightarrow>
        if status l \<noteq> Running then s
        else
          (case read_source src t m of
             (Raised, m1) \<Rightarrow> (l\<lparr>status := Broken\<rparr>, m1)
           | (item, m1) \<Rightarrow>
               (case emit_heartbeats t b (ping_time l) listen_timeout m1 of ((ok, ping), m2) \<Rightarrow>
                  if \<not> ok then (l\<lparr>status := Broken\<rparr>, m2)
                  else
                    (case item of
                       Ended \<Rightarrow> (l\<lparr>ping_time := ping, status := Finished\<rparr>, m2)
                     | Received th \<Rightarrow> (l\<lparr>ping_time := ping, yielded := yielded l @ [th]\<rparr>, m2)
                     | _ \<Rightarrow> (l\<lparr>ping_time := ping\<rparr>, m2)))))"

definition default_listen_timeout :: int where
  "default_listen_timeout = 86400"

definition read_listen_timeout_seconds :: "string option \<Rightarrow> int" where
  "read_listen_timeout_seconds env =
     (let raw = strip (case env of None \<Rightarrow> [] | Some s \<Rightarrow> s) in
      if raw = [] then default_listen_timeout
      else (case int_of_text raw of
          None \<Rightarrow> default_listen_timeout
        | Some n \<Rightarrow> if n > 0 then n else default_listen_timeout))"

definition redis_consume_enabled :: "string option \<Rightarrow> bool" where
  "redis_consume_enabled env =
     (map lower_char (strip (case env of None \<Rightarrow> [] | Some s \<Rightarrow> s)) \<in> {''1'', ''true'', ''yes''})"

text \<open>\<open>set_stop_flag\<close>: only the owner of a task that has started can stop it.\<close>

definition set_stop_flag :: "string \<Rightarrow> invoke_from \<Rightarrow> string \<Rightarrow> redis \<Rightarrow> bool \<times> redis" where
  "set_stop_flag t src user r =
     (if \<not> redis_up r then (False, r)
      else (case dget (belongs r) (generate_task_belong_cache_key t) of
          None \<Rightarrow> (True, r)
        | Some who \<Rightarrow>
            if who = [] \<or> who \<noteq> owner src user then (True, r)
            else (True, r\<lparr>stopped := dset (generate_task_stopped_cache_key t) 1 (stopped r)\<rparr>)))"

section \<open>Runs\<close>

text \<open>What happens while a task is listened to, one action at a time.\<close>

datatype action =
    Publish string agent_thought
  | Fail string string failure string
  | StopTask string invoke_from string
  | Turn beat

definition act :: "source \<Rightarrow> string \<Rightarrow> int \<Rightarrow> action \<Rightarrow> listener \<times> manager \<Rightarrow> listener \<times> manager" where
  "act src t listen_timeout a s =
     (case a of
        Publish t' th \<Rightarrow> (fst s, snd (publish t' th (snd s)))
      | Fail uid t' f c \<Rightarrow> (fst s, snd (publish_failure uid t' f c (snd s)))
      | StopTask t' from user \<Rightarrow> (fst s, (snd s)\<lparr>shared := snd (set_stop_flag t' from user (shared (snd s)))\<rparr>)
      | Turn b \<Rightarrow> listen_turn src t listen_timeout b s)"

definition listen_run :: "source \<Rightarrow> string \<Rightarrow> int \<Rightarrow> action list \<Rightarrow> listener \<times> manager \<Rightarrow> listener \<times> manager" where
  "listen_run src t listen_timeout as s = fold (act src t listen_timeout) as s"

end
