(* ===== verification/Queue_Props.thy ===== *)
theory Queue_Props
  imports Agent_Queue "HOL-Library.Sublist"
begin

text \<open>
  What a listener sees.  The queue of one task is specified as a channel that admits events
  (\<open>admit\<close>), and each of the three sources, the thread queue, the asyncio queue and the Redis list, is
  shown to refine it action by action; the promises to the reader of the stream are then proved once,
  on the channel.
\<close>

section \<open>The channel\<close>

text \<open>What one publish adds to the queue, and the terminal events seen after it.\<close>

definition admit :: "queue_event list \<Rightarrow> agent_thought \<Rightarrow> channel \<times> queue_event list" where
  "admit seen th =
     (let e = event th in
      if seen \<noteq> [] \<and> (e \<in> set seen \<and> terminal e \<or> e \<notin> set seen \<and> \<not> billing_passthrough e) then ([], seen)
      else if terminal e then ([Some th, None], seen @ [e])
      else ([Some th], seen))"

record task_channel =
  seen :: "queue_event list"
  pending :: channel
  stop_asked :: bool
  started :: bool
  owned_by :: string

definition normal_item :: "agent_thought option \<Rightarrow> agent_thought option" where
  "normal_item = map_option normal_message"

definition ch_publish :: "agent_thought \<Rightarrow> task_channel \<Rightarrow> task_channel" where
  "ch_publish th c =
     (case admit (seen c) th of (new, seen') \<Rightarrow>
        c\<lparr>seen := seen', pending := pending c @ map normal_item new, started := (started c \<or> new \<noteq> [])\<rparr>)"

definition ch_stop :: "string \<Rightarrow> task_channel \<Rightarrow> task_channel" where
  "ch_stop who c = (if started c \<and> who = owned_by c then c\<lparr>stop_asked := True\<rparr> else c)"

definition ch_beat :: "string \<Rightarrow> beat \<Rightarrow> int \<Rightarrow> int \<Rightarrow> task_channel \<Rightarrow> task_channel" where
  "ch_beat t b last_ping listen_timeout c =
     (let c1 = (if \<lfloor>elapsed b / 10\<rfloor> > last_ping then ch_publish (new_thought (ping_id b) t Ping) c else c);
          c2 = (if elapsed b \<ge> of_int listen_timeout then ch_publish (new_thought (timeout_id b) t TimeoutEvent) c1 else c1)
      in if stop_asked c2 then ch_publish (new_thought (stop_id b) t StopEvent) c2 else c2)"

definition ch_turn :: "source \<Rightarrow> string \<Rightarrow> int \<Rightarrow> beat \<Rightarrow> listener \<times> task_channel \<Rightarrow> listener \<times> task_channel" where
  "ch_turn src t listen_timeout b s =
     (case s of (l, c) \<Rightarrow>
        if status l \<noteq> Running then s
        else
          (let c1 = c\<lparr>pending := tl (pending c), started := (started c \<or> src = Memory)\<rparr>;
               c2 = ch_beat t b (ping_time l) listen_timeout c1;
               l1 = l\<lparr>ping_time := max (ping_time l) \<lfloor>elapsed b / 10\<rfloor>\<rparr>
           in case pending c of
                [] \<Rightarrow> (l1, c2)
              | None # _ \<Rightarrow> (l1\<lparr>status := Finished\<rparr>, c2)
              | Some th # _ \<Rightarrow> (l1\<lparr>yielded := yielded l @ [th]\<rparr>, c2)))"

definition ch_act :: "source \<Rightarrow> string \<Rightarrow> int \<Rightarrow> action \<Rightarrow> listener \<times> task_channel \<Rightarrow> listener \<times> task_channel" where
  "ch_act src t listen_timeout a s =
     (case a of
        Publish t' th \<Rightarrow> (if t' = t then (fst s, ch_publish th (snd s)) else s)
      | Fail uid t' f ctxt \<Rightarrow>
          (if t' = t then (fst s, ch_publish ((new_thought uid t (classify_failure_event f))
             \<lparr>observation := build_failure_observation (error_text f) ctxt\<rparr>) (snd s)) else s)
      | StopTask t' from user \<Rightarrow> (if t' = t then (fst s, ch_stop (owner from user) (snd s)) else s)
      | Turn b \<Rightarrow> ch_turn src t listen_timeout b s)"

definition ch_run :: "source \<Rightarrow> string \<Rightarrow> int \<Rightarrow> action list \<Rightarrow> listener \<times> task_channel \<Rightarrow> listener \<times> task_channel" where
  "ch_run src t listen_timeout as s = fold (ch_act src t listen_timeout) as s"

section \<open>The three sources as channels\<close>

definition decode :: "redis_item \<Rightarrow> agent_thought option" where
  "decode x = (case x of StopMark \<Rightarrow> None | Event th \<Rightarrow> Some th)"

definition raw_pending :: "source \<Rightarrow> string \<Rightarrow> manager \<Rightarrow> channel" where
  "raw_pending src t m =
     (case src of
        Memory \<Rightarrow> dget_or (queues m) t []
      | Async \<Rightarrow> dget_or (async_queues m) t []
      | RedisList \<Rightarrow> map decode (dget_or (logs (shared m)) (event_stream_key t) []))"

definition channel_of :: "source \<Rightarrow> string \<Rightarrow> manager \<Rightarrow> task_channel" where
  "channel_of src t m =
     \<lparr>seen = dget_or (terminal_events m) t [], pending = map normal_item (raw_pending src t m),
      stop_asked = is_stopped t m, started = (dget (queues m) t \<noteq> None),
      owned_by = owner (invoke_from m) (user_id m)\<rparr>"

definition normal_listener :: "listener \<Rightarrow> listener" where
  "normal_listener l = l\<lparr>yielded := map normal_message (yielded l)\<rparr>"

definition view :: "source \<Rightarrow> string \<Rightarrow> listener \<times> manager \<Rightarrow> listener \<times> task_channel" where
  "view src t s = (normal_listener (fst s), channel_of src t (snd s))"

text \<open>Redis answers, the asyncio queue exists when it is read, and the task is owned once it has a queue.\<close>

definition healthy :: "source \<Rightarrow> string \<Rightarrow> manager \<Rightarrow> bool" where
  "healthy src t m \<longleftrightarrow> redis_up (shared m) \<and> (src = Async \<longrightarrow> dget (async_queues m) t \<noteq> None) \<and>
     dget (belongs (shared m)) (generate_task_belong_cache_key t)
       = (if dget (queues m) t = None then None else Some (owner (invoke_from m) (user_id m)))"

lemma event_key_inject [simp]: "event_stream_key t = event_stream_key t' \<longleftrightarrow> t = t'"
  by (simp add: event_stream_key_def)

lemma belong_key_inject [simp]:
  "generate_task_belong_cache_key t = generate_task_belong_cache_key t' \<longleftrightarrow> t = t'"
  by (simp add: generate_task_belong_cache_key_def)

lemma stopped_key_inject [simp]:
  "generate_task_stopped_cache_key t = generate_task_stopped_cache_key t' \<longleftrightarrow> t = t'"
  by (simp add: generate_task_stopped_cache_key_def)

lemma normal_twice [simp]: "normal_message (normal_message th) = normal_message th"
  by (simp add: normal_message_def split: pyval.splits)

lemma normal_event [simp]: "event (normal_message th) = event th"
  by (simp add: normal_message_def split: pyval.splits)

lemma dget_or_dset [simp]: "dget_or (dset k v d) k' w = (if k' = k then v else dget_or d k' w)"
  by (simp add: dget_or_def)

lemma dget_or_Some [simp]: "dget d k = Some v \<Longrightarrow> dget_or d k w = v"
  by (simp add: dget_or_def)

lemma dget_or_None [simp]: "dget d k = None \<Longrightarrow> dget_or d k w = w"
  by (simp add: dget_or_def)

definition encode :: "channel \<Rightarrow> redis_item list" where
  "encode = map (\<lambda>x. case x of None \<Rightarrow> StopMark | Some th \<Rightarrow> Event th)"

lemma decode_encode [simp]: "map decode (encode xs) = xs"
  by (induction xs) (auto simp: encode_def decode_def split: option.splits)

text \<open>A publish does to every copy of the queue what \<open>admit\<close> says.\<close>

lemma publish_cases:
  assumes "redis_up (shared m)" and "admit (dget_or (terminal_events m) t []) th = (new, seen')"
  shows "\<exists>m'. publish t th m = (True, m') \<and>
    user_id m' = user_id m \<and> invoke_from m' = invoke_from m \<and> redis_up (shared m') \<and>
    stopped (shared m') = stopped (shared m) \<and>
    (\<forall>k. dget_or (terminal_events m') k [] = (if k = t then seen' else dget_or (terminal_events m) k [])) \<and>
    (\<forall>k. dget (queues m') k =
       (if k = t \<and> new \<noteq> [] then Some (dget_or (queues m) t [] @ new) else dget (queues m) k)) \<and>
    (\<forall>k. dget (async_queues m') k =
       (if k = t then map_option (\<lambda>q. q @ new) (dget (async_queues m) t) else dget (async_queues m) k)) \<and>
    (\<forall>k. dget_or (logs (shared m')) (event_stream_key k) [] =
       (if k = t then dget_or (logs (shared m)) (event_stream_key t) [] @ encode new
        else dget_or (logs (shared m)) (event_stream_key k) [])) \<and>
    (\<forall>k. dget (belongs (shared m')) (generate_task_belong_cache_key k) =
       (if k = t \<and> new \<noteq> [] \<and> dget (queues m) t = None then Some (owner (invoke_from m) (user_id m))
        else dget (belongs (shared m)) (generate_task_belong_cache_key k)))"
proof (cases "new = []")
  case True
  then have "publish t th m = (True, m)" "seen' = dget_or (terminal_events m) t []"
    using assms(2) by (auto simp: publish_def admit_def Let_def split: if_splits)
  then show ?thesis using assms(1) True by (auto simp: encode_def option.map_ident)
next
  case False
  then have adm: "\<not> (dget_or (terminal_events m) t [] \<noteq> [] \<and> event th \<notin> set (dget_or (terminal_events m) t []) \<and>
        \<not> billing_passthrough (event th))"
      "\<not> (terminal (event th) \<and> event th \<in> set (dget_or (terminal_events m) t []))"
      and new: "new = (if terminal (event th) then [Some th, None] else [Some th])"
      "seen' = (if terminal (event th) then dget_or (terminal_events m) t [] @ [event th] else dget_or (terminal_events m) t [])"
    using assms(2) by (auto simp: admit_def Let_def split: if_splits)
  show ?thesis
  proof (cases "terminal (event th)")
    case trm: True
    show ?thesis
      using assms(1) adm new trm
      by (cases "dget (queues m) t"; cases "dget (async_queues m) t")
        (simp_all add: publish_def Let_def queue_def put_queue_def put_async_def stop_listen_def persist_event_def encode_def)
  next
    case ntrm: False
    show ?thesis
      using assms(1) adm new ntrm
      by (cases "dget (queues m) t"; cases "dget (async_queues m) t")
        (simp_all add: publish_def Let_def queue_def put_queue_def put_async_def persist_event_def encode_def)
  qed
qed

lemma publish_ok:
  assumes "healthy src t m"
  shows "\<exists>m'. publish t' th m = (True, m') \<and> healthy src t m' \<and>
    channel_of src t m' = (if t' = t then ch_publish th (channel_of src t m) else channel_of src t m)"
proof -
  obtain new seen' where a: "admit (dget_or (terminal_events m) t' []) th = (new, seen')"
    by (cases "admit (dget_or (terminal_events m) t' []) th")
  have up: "redis_up (shared m)" using assms by (simp add: healthy_def)
  obtain m' where m': "publish t' th m = (True, m')"
      "user_id m' = user_id m" "invoke_from m' = invoke_from m" "redis_up (shared m')"
      "stopped (shared m') = stopped (shared m)"
    and seen: "\<And>k. dget_or (terminal_events m') k [] = (if k = t' then seen' else dget_or (terminal_events m) k [])"
    and q: "\<And>k. dget (queues m') k =
       (if k = t' \<and> new \<noteq> [] then Some (dget_or (queues m) t' [] @ new) else dget (queues m) k)"
    and aq: "\<And>k. dget (async_queues m') k =
       (if k = t' then map_option (\<lambda>q. q @ new) (dget (async_queues m) t') else dget (async_queues m) k)"
    and lg: "\<And>k. dget_or (logs (shared m')) (event_stream_key k) [] =
       (if k = t' then dget_or (logs (shared m)) (event_stream_key t') [] @ encode new
        else dget_or (logs (shared m)) (event_stream_key k) [])"
    and bl: "\<And>k. dget (belongs (shared m')) (generate_task_belong_cache_key k) =
       (if k = t' \<and> new \<noteq> [] \<and> dget (queues m) t' = None then Some (owner (invoke_from m) (user_id m))
        else dget (belongs (shared m)) (generate_task_belong_cache_key k))"
    using publish_cases [OF up a] by blast
  have h: "healthy src t m'"
    using assms by (auto simp: healthy_def m' q aq bl)
  have qp: "dget_or (queues m') t [] = dget_or (queues m) t [] @ (if t' = t then new else [])"
    by (cases "new = []") (auto simp: dget_or_def q)
  have ap: "src = Async \<Longrightarrow> dget_or (async_queues m') t [] = dget_or (async_queues m) t [] @ (if t' = t then new else [])"
    using assms by (auto simp: healthy_def dget_or_def aq)
  have "raw_pending src t m' = raw_pending src t m @ (if t' = t then new else [])"
    using qp ap by (cases src) (auto simp: raw_pending_def lg)
  then have "channel_of src t m' = (if t' = t then ch_publish th (channel_of src t m) else channel_of src t m)"
    using a by (auto simp: channel_of_def ch_publish_def m' seen q is_stopped_def)
  then show ?thesis using m'(1) h by blast
qed

lemma publish_channel:
  "healthy src t m \<Longrightarrow> fst (publish t' th m) \<and> healthy src t (snd (publish t' th m)) \<and>
     channel_of src t (snd (publish t' th m))
       = (if t' = t then ch_publish th (channel_of src t m) else channel_of src t m)"
  using publish_ok [of src t m t' th] by auto

lemma publish_if:
  assumes "healthy src t m" and "(if p then publish t th m else (True, m)) = (ok, m')"
  shows "ok \<and> healthy src t m' \<and>
    channel_of src t m' = (if p then ch_publish th (channel_of src t m) else channel_of src t m)"
  using assms publish_channel [OF assms(1), of t th] by (auto split: if_splits)

lemma beats_ok:
  assumes "healthy src t m" and "emit_heartbeats t b k n m = ((ok, ping), m')"
  shows "ok \<and> healthy src t m' \<and> ping = max k \<lfloor>elapsed b / 10\<rfloor> \<and>
    channel_of src t m' = ch_beat t b k n (channel_of src t m)"
proof -
  obtain ok1 m1 where p: "(if \<lfloor>elapsed b / 10\<rfloor> > k then publish t (new_thought (ping_id b) t Ping) m else (True, m)) = (ok1, m1)"
    by (metis prod.collapse)
  note 1 = publish_if [OF assms(1) p]
  obtain ok2 m2 where q: "(if elapsed b \<ge> of_int n then publish t (new_thought (timeout_id b) t TimeoutEvent) m1 else (True, m1)) = (ok2, m2)"
    by (metis prod.collapse)
  note 2 = publish_if [OF _ q, of src] 
  obtain ok3 m3 where r: "(if is_stopped t m2 then publish t (new_thought (stop_id b) t StopEvent) m2 else (True, m2)) = (ok3, m3)"
    by (metis prod.collapse)
  note 3 = publish_if [OF _ r, of src]
  have h2: "healthy src t m2" and oks: "ok1" "ok2" using 1 2 by auto
  have st: "is_stopped t m2 = stop_asked (channel_of src t m2)" by (simp add: channel_of_def)
  have up: "redis_up (shared m2)" using h2 by (simp add: healthy_def)
  have "emit_heartbeats t b k n m = ((ok3, if \<lfloor>elapsed b / 10\<rfloor> > k then \<lfloor>elapsed b / 10\<rfloor> else k), m3)"
    unfolding emit_heartbeats_def Let_def p using oks up by (simp add: q r del: if_split)
  then have e: "ok = ok3" "ping = max k \<lfloor>elapsed b / 10\<rfloor>" "m' = m3" using assms(2) by auto
  have "channel_of src t m3 = ch_beat t b k n (channel_of src t m)"
    using 1 2 3 [OF h2] by (simp add: ch_beat_def Let_def st)
  then show ?thesis using 3 [OF h2] unfolding e by blast
qed

text \<open>Reading takes the head of the channel; a thread queue that is missing is created.\<close>

definition item_ok :: "channel \<Rightarrow> received \<Rightarrow> bool" where
  "item_ok c r =
     (case c of
        [] \<Rightarrow> r = Waiting
      | None # _ \<Rightarrow> r = Ended
      | Some th # _ \<Rightarrow> (case r of Received th' \<Rightarrow> normal_message th' = th | _ \<Rightarrow> False))"

lemma read_ok:
  assumes "healthy src t m"
  shows "\<exists>r m'. read_source src t m = (r, m') \<and> r \<noteq> Raised \<and> healthy src t m' \<and>
    item_ok (pending (channel_of src t m)) r \<and>
    channel_of src t m' = (channel_of src t m)
      \<lparr>pending := tl (pending (channel_of src t m)), started := (started (channel_of src t m) \<or> src = Memory)\<rparr>"
proof (cases src)
  case Memory
  show ?thesis
  proof (cases "dget (queues m) t")
    case None
    then show ?thesis using assms Memory
      by (auto simp: read_source_def next_event_def read_queue_def queue_def healthy_def channel_of_def
          raw_pending_def item_ok_def is_stopped_def)
  next
    case (Some q)
    then show ?thesis using assms Memory
      by (cases q; cases "hd q")
        (auto simp: read_source_def next_event_def read_queue_def queue_def healthy_def channel_of_def
          raw_pending_def item_ok_def is_stopped_def normal_item_def)
  qed
next
  case Async
  then obtain q where q: "dget (async_queues m) t = Some q" using assms by (auto simp: healthy_def)
  show ?thesis using assms Async q
    by (cases q; cases "hd q")
      (auto simp: read_source_def read_async_def healthy_def channel_of_def raw_pending_def item_ok_def
        is_stopped_def normal_item_def)
next
  case RedisList
  show ?thesis using assms RedisList
    by (cases "dget_or (logs (shared m)) (event_stream_key t) []"; cases "hd (dget_or (logs (shared m)) (event_stream_key t) [])")
      (auto simp: read_source_def next_event_def read_persisted_event_def Let_def healthy_def channel_of_def
        raw_pending_def item_ok_def is_stopped_def normal_item_def decode_def)
qed

lemma turn_ok:
  assumes "healthy src t m"
  shows "healthy src t (snd (listen_turn src t n b (l, m))) \<and>
    view src t (listen_turn src t n b (l, m)) = ch_turn src t n b (view src t (l, m))"
proof (cases "status l = Running")
  case False
  then show ?thesis using assms by (simp add: listen_turn_def ch_turn_def view_def normal_listener_def)
next
  case True
  obtain r m1 where r: "read_source src t m = (r, m1)" "r \<noteq> Raised" and h1: "healthy src t m1"
    and it: "item_ok (pending (channel_of src t m)) r"
    and c1: "channel_of src t m1 = (channel_of src t m)
      \<lparr>pending := tl (pending (channel_of src t m)), started := (started (channel_of src t m) \<or> src = Memory)\<rparr>"
    using read_ok [OF assms] by blast
  obtain ok ping m2 where e: "emit_heartbeats t b (ping_time l) n m1 = ((ok, ping), m2)" by (metis prod.collapse)
  note B = beats_ok [OF h1 e]
  have s: "status (normal_listener l) = Running" "ping_time (normal_listener l) = ping_time l"
    using True by (simp_all add: normal_listener_def)
  show ?thesis
    using True r e B it
    by (cases "pending (channel_of src t m)" rule: list.exhaust; cases "hd (pending (channel_of src t m))")
      (auto simp: listen_turn_def ch_turn_def view_def Let_def s c1 item_ok_def normal_listener_def split: received.splits)
qed

lemma stop_ok:
  assumes "healthy src t m" and m'_def: "m' = m\<lparr>shared := snd (set_stop_flag t' from user (shared m))\<rparr>"
  shows "healthy src t m' \<and>
    channel_of src t m' = (if t' = t then ch_stop (owner from user) (channel_of src t m) else channel_of src t m)"
proof -
  have ne: "owner from user \<noteq> []" by (simp add: owner_def)
  have pend: "raw_pending src t m' = raw_pending src t m"
    by (cases src) (auto simp: m'_def raw_pending_def set_stop_flag_def split: option.splits)
  have keep: "healthy src t m'"
    using assms(1) by (auto simp: m'_def healthy_def set_stop_flag_def split: option.splits)
  show ?thesis
  proof (cases "t' = t")
    case True
    have "is_stopped t m' = (is_stopped t m \<or> started (channel_of src t m) \<and> owner from user = owner (invoke_from m) (user_id m))"
      using assms(1) ne True
      by (auto simp: m'_def is_stopped_def set_stop_flag_def healthy_def channel_of_def split: option.splits)
    then show ?thesis using keep pend True
      by (auto simp: channel_of_def ch_stop_def m'_def)
  next
    case False
    have "is_stopped t m' = is_stopped t m"
      using False by (auto simp: m'_def is_stopped_def set_stop_flag_def split: option.splits)
    then show ?thesis using keep pend False by (simp add: channel_of_def m'_def)
  qed
qed

lemma act_ok:
  assumes "healthy src t (snd s)"
  shows "healthy src t (snd (act src t n a s)) \<and> view src t (act src t n a s) = ch_act src t n a (view src t s)"
  using assms publish_channel [OF assms] stop_ok [OF assms refl] turn_ok [OF assms, of n _ "fst s"]
  by (cases a) (auto simp: act_def ch_act_def view_def publish_failure_def)

text \<open>
  C18. Whatever source a listener reads, the thread queue, the asyncio queue or the Redis list, it behaves
  like the channel of the task: any sequence of publishes, failures, stop requests and turns of the
  loop takes the same listener and channel to the same result, up to the message of an event that is
  not a list, which Redis returns as an empty list.
\<close>

theorem listener_refines_channel:
  assumes "healthy src t (snd s)"
  shows "view src t (listen_run src t listen_timeout as s) = ch_run src t listen_timeout as (view src t s)"
proof -
  have "healthy src t (snd (listen_run src t listen_timeout as s)) \<and>
      view src t (listen_run src t listen_timeout as s) = ch_run src t listen_timeout as (view src t s)"
    using assms
  proof (induction as arbitrary: s)
    case Nil
    then show ?case by (simp add: listen_run_def ch_run_def)
  next
    case (Cons a as)
    have h: "healthy src t (snd (act src t listen_timeout a s))" using act_ok [OF Cons.prems] by blast
    show ?case using Cons.IH [OF h] act_ok [OF Cons.prems] by (simp add: listen_run_def ch_run_def)
  qed
  then show ?thesis by blast
qed

section \<open>The shape of a stream\<close>

definition said :: "listener \<times> task_channel \<Rightarrow> channel" where
  "said s = map Some (yielded (fst s)) @ (if status (fst s) = Finished then [None] else []) @ pending (snd s)"

definition quiet :: "agent_thought option \<Rightarrow> bool" where
  "quiet x = (case x of None \<Rightarrow> False | Some th \<Rightarrow> \<not> terminal (event th))"

text \<open>Events, then at most one terminal event with the sentinel, then only what passes behind it.\<close>

definition shaped :: "queue_event list \<Rightarrow> channel \<Rightarrow> bool" where
  "shaped es hist \<longleftrightarrow>
     (if es = [] then list_all quiet hist
      else \<exists>pre th post. hist = pre @ [Some th, None] @ post \<and> es = [event th] \<and> terminal (event th) \<and>
        list_all quiet pre \<and> list_all quiet post)"

definition sound :: "listener \<times> task_channel \<Rightarrow> bool" where
  "sound s \<longleftrightarrow> status (fst s) \<noteq> Broken \<and> shaped (seen (snd s)) (said s)"

lemma billing_not_terminal: "billing_passthrough e \<Longrightarrow> \<not> terminal e"
  by (auto simp: billing_passthrough_def terminal_def)

lemma normal_item_simps [simp]: "normal_item None = None" "normal_item (Some th) = Some (normal_message th)"
  by (simp_all add: normal_item_def)

lemma shapedI:
  "h = pre @ [Some th, None] @ post \<Longrightarrow> terminal (event th) \<Longrightarrow> list_all quiet pre \<Longrightarrow> list_all quiet post \<Longrightarrow>
     shaped [event th] h"
  unfolding shaped_def by auto

lemma shaped_admit:
  assumes "shaped es hist" and "admit es th = (new, es')"
  shows "shaped es' (hist @ map normal_item new)"
proof (cases "es = []")
  case True
  then have q: "list_all quiet hist" using assms(1) by (simp add: shaped_def)
  show ?thesis
  proof (cases "terminal (event th)")
    case term1: True
    then have "hist @ map normal_item new = hist @ [Some (normal_message th), None] @ []" "es' = [event (normal_message th)]"
      using assms(2) True by (auto simp: admit_def Let_def)
    moreover have "list_all quiet []" by simp
    ultimately show ?thesis using q term1 shapedI by (metis normal_event)
  next
    case False
    then show ?thesis using assms(2) True q by (auto simp: admit_def Let_def shaped_def quiet_def)
  qed
next
  case False
  then obtain pre t0 post where p: "hist = pre @ [Some t0, None] @ post" "es = [event t0]" "terminal (event t0)"
      "list_all quiet pre" "list_all quiet post"
    using assms(1) unfolding shaped_def by auto
  have "list_all quiet (map normal_item new)" "es' = es"
    using assms(2) billing_not_terminal [of "event th"] p(2,3)
    by (auto simp: admit_def Let_def quiet_def split: if_splits)
  then have "hist @ map normal_item new = pre @ [Some t0, None] @ (post @ map normal_item new)"
      "list_all quiet (post @ map normal_item new)" "es' = [event t0]"
    using p by auto
  then show ?thesis using p(3,4) shapedI by metis
qed

lemma sound_publish: "sound (l, c) \<Longrightarrow> sound (l, ch_publish th c)"
proof -
  assume s: "sound (l, c)"
  obtain new es where a: "admit (seen c) th = (new, es)" by (cases "admit (seen c) th")
  have "said (l, ch_publish th c) = said (l, c) @ map normal_item new"
    by (simp add: said_def ch_publish_def a)
  then show ?thesis using s shaped_admit [OF _ a, of "said (l, c)"]
    by (simp add: sound_def) (simp add: ch_publish_def a)
qed

lemma sound_beat: "sound (l, c) \<Longrightarrow> sound (l, ch_beat t b k n c)"
  using sound_publish by (simp add: ch_beat_def Let_def)

text \<open>A turn first moves the head of the channel to the listener.\<close>

definition ch_take :: "source \<Rightarrow> listener \<times> task_channel \<Rightarrow> listener \<times> task_channel" where
  "ch_take src s =
     (case s of (l, c) \<Rightarrow>
        (case pending c of
           [] \<Rightarrow> l
         | None # _ \<Rightarrow> l\<lparr>status := Finished\<rparr>
         | Some th # _ \<Rightarrow> l\<lparr>yielded := yielded l @ [th]\<rparr>,
         c\<lparr>pending := tl (pending c), started := (started c \<or> src = Memory)\<rparr>))"

lemma turn_split:
  "status l = Running \<Longrightarrow> ch_turn src t n b (l, c) =
     ((fst (ch_take src (l, c)))\<lparr>ping_time := max (ping_time l) \<lfloor>elapsed b / 10\<rfloor>\<rparr>,
      ch_beat t b (ping_time l) n (snd (ch_take src (l, c))))"
  by (simp add: ch_turn_def ch_take_def Let_def split: list.splits option.splits)

lemma said_take: "status l = Running \<Longrightarrow> said (ch_take src (l, c)) = said (l, c)"
  by (auto simp: said_def ch_take_def split: list.splits option.splits)

lemma sound_take: "status l = Running \<Longrightarrow> sound (l, c) \<Longrightarrow> sound (ch_take src (l, c))"
  using said_take [of l src c]
  by (simp add: sound_def) (auto simp: ch_take_def split: list.splits option.splits)

lemma sound_ping: "sound (l\<lparr>ping_time := k\<rparr>, c) = sound (l, c)"
  by (simp add: sound_def said_def)

lemma sound_act: "sound s \<Longrightarrow> sound (ch_act src t n a s)"
proof (cases a)
  case (Turn b)
  assume s: "sound s"
  obtain l c where lc: "s = (l, c)" by (cases s)
  show ?thesis
  proof (cases "status l = Running")
    case True
    obtain l1 c1 where t1: "ch_take src (l, c) = (l1, c1)" by (cases "ch_take src (l, c)")
    then have "sound (l1, c1)" using sound_take [OF True, of c src] s by (simp add: lc)
    then show ?thesis
      by (simp add: Turn ch_act_def lc turn_split [OF True] t1 sound_ping sound_beat)
  next
    case False
    then show ?thesis using s by (simp add: Turn ch_act_def lc ch_turn_def)
  qed
next
  case (StopTask t' origin user)
  assume "sound s"
  then show ?thesis by (auto simp: StopTask ch_act_def ch_stop_def sound_def said_def)
qed (cases s; simp add: ch_act_def sound_publish)+

lemma sound_run: "sound s \<Longrightarrow> sound (ch_run src t n as s)"
  by (induction as arbitrary: s) (simp_all add: ch_run_def sound_act)

definition idle_channel :: "source \<Rightarrow> string \<Rightarrow> manager \<Rightarrow> bool" where
  "idle_channel src t m \<longleftrightarrow> healthy src t m \<and> dget_or (terminal_events m) t [] = [] \<and> raw_pending src t m = []"

lemma sound_start: "idle_channel src t m \<Longrightarrow> sound (view src t (new_listener, m))"
  by (simp add: idle_channel_def sound_def shaped_def said_def view_def channel_of_def normal_listener_def new_listener_def)

lemma first_None_eq:
  "list_all quiet pre \<Longrightarrow> map Some ys @ None # zs = pre @ Some th # None # post \<Longrightarrow> map Some ys = pre @ [Some th]"
proof (induction pre arbitrary: ys)
  case Nil
  then show ?case by (cases ys; cases "tl ys") auto
next
  case (Cons x pre)
  then show ?case by (cases ys) (auto simp: quiet_def)
qed

text \<open>
  C19. A stream carries at most one terminal event, and it is its last event: every event before the last
  is not terminal, the loop ends exactly behind a terminal event, and it never breaks while Redis
  answers, whatever is published, for whichever task, in whatever order.
\<close>

theorem stream_has_one_terminal_at_its_end:
  assumes "idle_channel src t m" and "listen_run src t listen_timeout as (new_listener, m) = (l, m')"
  shows "status l \<noteq> Broken \<and> (\<forall>x \<in> set (butlast (yielded l)). \<not> terminal (event x)) \<and>
    (status l = Finished \<longrightarrow> yielded l \<noteq> [] \<and> terminal (event (last (yielded l))))"
proof -
  have h: "healthy src t (snd (new_listener, m))" using assms(1) by (simp add: idle_channel_def)
  define c where "c = channel_of src t m'"
  have v: "view src t (l, m') = ch_run src t listen_timeout as (view src t (new_listener, m))"
    using listener_refines_channel [OF h, of listen_timeout as] assms(2) by simp
  have s: "sound (normal_listener l, c)"
    using sound_run [OF sound_start [OF assms(1)], of src t listen_timeout as] v by (simp add: view_def c_def)
  define ys where "ys = map normal_message (yielded l)"
  have n: "yielded (normal_listener l) = ys" "status (normal_listener l) = status l"
    by (simp_all add: normal_listener_def ys_def)
  have sh: "shaped (seen c) (map Some ys @ (if status l = Finished then [None] else []) @ pending c)"
    using s by (simp add: sound_def said_def n)
  have key: "(\<forall>x \<in> set (butlast ys). \<not> terminal (event x)) \<and>
      (status l = Finished \<longrightarrow> ys \<noteq> [] \<and> terminal (event (last ys)))"
  proof (cases "seen c = []")
    case True
    then have q: "list_all quiet (map Some ys @ (if status l = Finished then [None] else []) @ pending c)"
      using sh by (simp add: shaped_def)
    then have "\<forall>x \<in> Some ` set ys. quiet x" "status l \<noteq> Finished"
      by (auto simp: list_all_iff quiet_def split: if_splits)
    then have "\<forall>x \<in> set ys. \<not> terminal (event x)" "status l \<noteq> Finished" by (auto simp: quiet_def)
    then show ?thesis by (auto dest: in_set_butlastD)
  next
    case False
    then obtain pre th post where p: "map Some ys @ (if status l = Finished then [None] else []) @ pending c
        = pre @ [Some th, None] @ post" "terminal (event th)" "list_all quiet pre"
      using sh unfolding shaped_def by auto
    show ?thesis
    proof (cases "status l = Finished")
      case True
      then have e: "map Some ys = pre @ [Some th]" using p first_None_eq by simp
      then obtain ys0 where ys: "ys = ys0 @ [th]" "map Some ys0 = pre" by (cases ys rule: rev_cases) auto
      then show ?thesis using p(2,3) by (auto simp: list_all_iff quiet_def)
    next
      case fin: False
      have "length ys \<le> length pre + 1"
      proof (rule ccontr)
        assume "\<not> ?thesis"
        then have "(map Some ys @ pending c) ! (length pre + 1) = Some (ys ! (length pre + 1))"
          by (simp add: nth_append)
        moreover have "(map Some ys @ pending c) ! (length pre + 1) = None"
          using p(1) fin by (simp add: nth_append)
        ultimately show False by simp
      qed
      then have "map Some (butlast ys) = take (length ys - 1) pre"
        using arg_cong [OF p(1), of "take (length ys - 1)"] fin by (simp add: butlast_conv_take take_map)
      then have "\<forall>x \<in> set (butlast ys). quiet (Some x)"
        using p(3) in_set_takeD by (metis image_eqI list.set_map list_all_iff)
      then show ?thesis using fin by (simp add: quiet_def)
    qed
  qed
  have "butlast ys = map normal_message (butlast (yielded l))" by (simp add: ys_def map_butlast)
  then show ?thesis using key s by (auto simp: ys_def sound_def n last_map)
qed

section \<open>The end of a stream\<close>

text \<open>What a listener will have yielded in the end, once the sentinel is in its channel.\<close>

definition before_end :: "channel \<Rightarrow> agent_thought list" where
  "before_end c = map the (takeWhile (\<lambda>x. x \<noteq> None) c)"

definition sealed :: "listener \<times> task_channel \<Rightarrow> bool" where
  "sealed s \<longleftrightarrow> status (fst s) = Finished \<or> status (fst s) = Running \<and> None \<in> set (pending (snd s))"

definition final_stream :: "listener \<times> task_channel \<Rightarrow> agent_thought list" where
  "final_stream s = yielded (fst s) @ (if status (fst s) = Finished then [] else before_end (pending (snd s)))"

definition to_go :: "listener \<times> task_channel \<Rightarrow> nat" where
  "to_go s = (if status (fst s) = Finished then 0 else length (takeWhile (\<lambda>x. x \<noteq> None) (pending (snd s))) + 1)"

lemma before_end_simps [simp]:
  "before_end (None # c) = []" "before_end (Some th # c) = th # before_end c"
  "None \<in> set c \<Longrightarrow> before_end (c @ d) = before_end c"
  by (simp_all add: before_end_def)

lemma pending_publish: "\<exists>d. pending (ch_publish th c) = pending c @ d"
  by (auto simp: ch_publish_def split: prod.splits)

lemma pending_if: "\<exists>d. pending (if p then ch_publish th c else c) = pending c @ d"
  using pending_publish by (cases p) auto

lemma pending_beat: "\<exists>d. pending (ch_beat t b k n c) = pending c @ d"
proof -
  define c1 where "c1 = (if \<lfloor>elapsed b / 10\<rfloor> > k then ch_publish (new_thought (ping_id b) t Ping) c else c)"
  define c2 where "c2 = (if elapsed b \<ge> of_int n then ch_publish (new_thought (timeout_id b) t TimeoutEvent) c1 else c1)"
  have "ch_beat t b k n c = (if stop_asked c2 then ch_publish (new_thought (stop_id b) t StopEvent) c2 else c2)"
    by (simp add: ch_beat_def Let_def c1_def c2_def)
  moreover obtain d1 where "pending c1 = pending c @ d1" using pending_if unfolding c1_def by blast
  moreover obtain d2 where "pending c2 = pending c1 @ d2" using pending_if unfolding c2_def by blast
  moreover obtain d3 where "pending (if stop_asked c2 then ch_publish (new_thought (stop_id b) t StopEvent) c2 else c2) = pending c2 @ d3"
    using pending_if by blast
  ultimately have "pending (ch_beat t b k n c) = pending c @ d1 @ d2 @ d3" by simp
  then show ?thesis ..
qed

text \<open>Any action appends to the channel, except a turn, which also takes its head.\<close>

lemma act_pending:
  "\<not> (\<exists>b. a = Turn b) \<Longrightarrow>
     \<exists>d. fst (ch_act src t n a s) = fst s \<and> pending (snd (ch_act src t n a s)) = pending (snd s) @ d"
  using pending_publish by (cases a) (auto simp: ch_act_def ch_stop_def)

lemma turn_pending:
  assumes "status l = Running"
  shows "\<exists>d k. ch_act src t n (Turn b) (l, c) =
    ((fst (ch_take src (l, c)))\<lparr>ping_time := k\<rparr>, (snd (ch_act src t n (Turn b) (l, c))))
    \<and> pending (snd (ch_act src t n (Turn b) (l, c))) = tl (pending c) @ d"
proof -
  obtain d where "pending (ch_beat t b (ping_time l) n (snd (ch_take src (l, c)))) = pending (snd (ch_take src (l, c))) @ d"
    using pending_beat by blast
  then show ?thesis by (auto simp: ch_act_def turn_split [OF assms] ch_take_def)
qed

lemma sealed_act:
  assumes "sealed s"
  shows "sealed (ch_act src t n a s) \<and> final_stream (ch_act src t n a s) = final_stream s \<and>
    to_go (ch_act src t n a s) = (if \<exists>b. a = Turn b then to_go s - 1 else to_go s)"
proof (cases "\<exists>b. a = Turn b")
  case False
  then obtain d where "fst (ch_act src t n a s) = fst s" "pending (snd (ch_act src t n a s)) = pending (snd s) @ d"
    using act_pending by blast
  then show ?thesis using assms False by (auto simp: sealed_def final_stream_def to_go_def)
next
  case True
  then obtain b where a: "a = Turn b" by blast
  obtain l c where s: "s = (l, c)" by (cases s)
  show ?thesis
  proof (cases "status l = Running")
    case True
    obtain d k where T: "ch_act src t n (Turn b) (l, c) =
        ((fst (ch_take src (l, c)))\<lparr>ping_time := k\<rparr>, snd (ch_act src t n (Turn b) (l, c)))"
        "pending (snd (ch_act src t n (Turn b) (l, c))) = tl (pending c) @ d"
      using turn_pending [OF True] by blast
    obtain x xs where p: "pending c = x # xs" and none: "None \<in> set (x # xs)"
      using assms True s by (cases "pending c") (auto simp: sealed_def)
    show ?thesis
    proof (cases x)
      case None
      then have "fst (ch_act src t n (Turn b) (l, c)) = l\<lparr>status := Finished, ping_time := k\<rparr>"
        using T(1) by (simp add: ch_take_def p prod_eq_iff)
      then show ?thesis using None by (simp add: a s sealed_def final_stream_def to_go_def p True)
    next
      case (Some th)
      have l1: "fst (ch_act src t n (Turn b) (l, c)) = l\<lparr>yielded := yielded l @ [th], ping_time := k\<rparr>"
        using T(1) by (simp add: ch_take_def p Some prod_eq_iff)
      have "None \<in> set xs" using none Some by simp
      then show ?thesis using T(2) by (simp add: a s sealed_def final_stream_def to_go_def p True l1 Some)
    qed
  next
    case False
    then have "status l = Finished" using assms s by (auto simp: sealed_def)
    then show ?thesis by (simp add: a s ch_act_def ch_turn_def sealed_def final_stream_def to_go_def)
  qed
qed

fun is_turn :: "action \<Rightarrow> bool" where
  "is_turn (Turn b) = True"
| "is_turn a = False"

lemma is_turn_iff: "is_turn a \<longleftrightarrow> (\<exists>b. a = Turn b)"
  by (cases a) auto

definition turns :: "action list \<Rightarrow> nat" where
  "turns as = length (filter is_turn as)"

lemma sealed_run:
  "sealed s \<Longrightarrow> sealed (ch_run src t n as s) \<and> final_stream (ch_run src t n as s) = final_stream s \<and>
     to_go (ch_run src t n as s) = to_go s - turns as"
proof (induction as arbitrary: s)
  case Nil
  then show ?case by (simp add: ch_run_def turns_def)
next
  case (Cons a as)
  note A = sealed_act [OF Cons.prems, of src t n a]
  have "sealed (ch_act src t n a s)" using A by blast
  from Cons.IH [OF this] A show ?case by (auto simp: ch_run_def turns_def is_turn_iff)
qed

text \<open>Once a terminal event has been accepted the sentinel is in the channel.\<close>

lemma sound_sealed: "sound s \<Longrightarrow> seen (snd s) \<noteq> [] \<Longrightarrow> sealed s"
proof -
  assume s: "sound s" and e: "seen (snd s) \<noteq> []"
  obtain l c where lc: "s = (l, c)" by (cases s)
  obtain pre th post where "said s = pre @ [Some th, None] @ post"
    using s e unfolding sound_def shaped_def by auto
  then have "None \<in> set (said s)" by simp
  then have "status l \<noteq> Finished \<Longrightarrow> None \<in> set (pending c)" by (auto simp: said_def lc)
  then show ?thesis using s by (cases "status l") (auto simp: sealed_def sound_def lc)
qed

lemma run_append: "listen_run src t n (as @ bs) s = listen_run src t n bs (listen_run src t n as s)"
  by (simp add: listen_run_def)

lemma run_view:
  assumes "idle_channel src t m"
  shows "view src t (listen_run src t n as (new_listener, m)) = ch_run src t n as (view src t (new_listener, m))"
    and "sound (view src t (listen_run src t n as (new_listener, m)))"
proof -
  have h: "healthy src t (snd (new_listener, m))" using assms by (simp add: idle_channel_def)
  show v: "view src t (listen_run src t n as (new_listener, m)) = ch_run src t n as (view src t (new_listener, m))"
    using listener_refines_channel [OF h] .
  show "sound (view src t (listen_run src t n as (new_listener, m)))"
    unfolding v by (rule sound_run [OF sound_start [OF assms]])
qed

text \<open>
  Nothing that is published after a terminal event reaches the reader: whatever happens next, the
  stream is a prefix of what was yielded and queued in front of the sentinel at that moment.  The
  billing events the manager lets through behind a terminal event are queued and never yielded.
\<close>

theorem nothing_behind_a_terminal_event:
  assumes "idle_channel src t m" and "s = listen_run src t listen_timeout as (new_listener, m)"
    and "dget_or (terminal_events (snd s)) t [] \<noteq> []"
  shows "prefix (map normal_message (yielded (fst (listen_run src t listen_timeout bs s))))
    (map normal_message (yielded (fst s)) @ before_end (pending (channel_of src t (snd s))))"
proof -
  have all: "view src t (listen_run src t listen_timeout bs s) = ch_run src t listen_timeout bs (view src t s)"
    using run_view(1) [OF assms(1), of listen_timeout "as @ bs"] run_view(1) [OF assms(1), of listen_timeout as]
    by (simp add: assms(2) run_append) (simp add: ch_run_def)
  have "sealed (view src t s)"
    using sound_sealed run_view(2) [OF assms(1), of listen_timeout as] assms(2,3) by (simp add: view_def channel_of_def)
  from sealed_run [OF this, of src t listen_timeout bs]
  have "final_stream (view src t (listen_run src t listen_timeout bs s)) = final_stream (view src t s)" by (simp add: all)
  then have "prefix (yielded (fst (view src t (listen_run src t listen_timeout bs s)))) (final_stream (view src t s))"
    by (metis final_stream_def prefixI)
  then show ?thesis by (auto simp: final_stream_def view_def normal_listener_def split: if_splits intro: prefix_prefix)
qed

lemma admit_seen: "admit es th = (new, es') \<Longrightarrow> es \<noteq> [] \<or> terminal (event th) \<Longrightarrow> es' \<noteq> []"
  by (auto simp: admit_def Let_def split: if_splits)

lemma publish_seen: "seen c \<noteq> [] \<or> terminal (event th) \<Longrightarrow> seen (ch_publish th c) \<noteq> []"
  using admit_seen by (auto simp: ch_publish_def split: prod.splits)

lemma late_beat: "of_int n \<le> elapsed b \<Longrightarrow> seen (ch_beat t b k n c) \<noteq> []"
  using publish_seen by (simp add: ch_beat_def Let_def new_thought_def terminal_def)

text \<open>
  C20. Every stream ends: behind the first turn that finds the timeout passed, the loop stops within as
  many turns as its queue then holds items, plus one, whatever else is published meanwhile.
\<close>

theorem listener_ends_after_timeout:
  assumes "idle_channel src t m" and "s = listen_run src t listen_timeout (as @ [Turn b]) (new_listener, m)"
    and "of_int listen_timeout \<le> elapsed b" and "length (raw_pending src t (snd s)) < turns bs"
  shows "status (fst (listen_run src t listen_timeout bs s)) = Finished"
proof -
  let ?v = "view src t s" and ?w = "view src t (listen_run src t listen_timeout as (new_listener, m))"
  have all: "view src t (listen_run src t listen_timeout bs s) = ch_run src t listen_timeout bs ?v"
    using run_view(1) [OF assms(1), of listen_timeout "(as @ [Turn b]) @ bs"]
      run_view(1) [OF assms(1), of listen_timeout "as @ [Turn b]"]
    by (simp add: assms(2) run_append del: append_assoc) (simp add: ch_run_def)
  have v: "?v = ch_turn src t listen_timeout b ?w"
    using run_view(1) [OF assms(1), of listen_timeout "as @ [Turn b]"] run_view(1) [OF assms(1), of listen_timeout as]
    by (simp add: assms(2)) (simp add: ch_run_def ch_act_def)
  have sound: "sound ?v" "sound ?w" using run_view(2) [OF assms(1)] by (simp_all add: assms(2))
  have sealed: "sealed ?v"
  proof (cases "status (fst ?w) = Running")
    case True
    then have "seen (snd ?v) \<noteq> []"
      using late_beat [OF assms(3)] by (cases ?w) (simp add: v turn_split)
    then show ?thesis using sound_sealed sound by blast
  next
    case False
    then have "status (fst ?v) = Finished"
      using sound(2) by (cases "status (fst ?w)"; cases ?w) (auto simp: v ch_turn_def sound_def)
    then show ?thesis by (simp add: sealed_def)
  qed
  have "to_go ?v \<le> turns bs"
  proof (cases "status (fst ?v) = Finished")
    case False
    then have "None \<in> set (pending (snd ?v))" using sealed by (simp add: sealed_def)
    then have "length (takeWhile (\<lambda>x. x \<noteq> None) (pending (snd ?v))) < length (pending (snd ?v))"
      by (metis (mono_tags, lifting) length_takeWhile_le order_le_neq_trans takeWhile_eq_all_conv takeWhile_eq_take take_all_iff)
    moreover have "length (pending (snd ?v)) = length (raw_pending src t (snd s))"
      by (simp add: view_def channel_of_def)
    ultimately show ?thesis using assms(4) by (simp add: to_go_def)
  qed (simp add: to_go_def)
  then have "to_go (view src t (listen_run src t listen_timeout bs s)) = 0"
    using sealed_run [OF sealed, of src t listen_timeout bs] by (simp add: all)
  then show ?thesis by (auto simp: to_go_def view_def normal_listener_def split: if_splits)
qed

section \<open>The three sources agree\<close>

lemma ch_act_source:
  "started (snd s) \<Longrightarrow> ch_act src t n a s = ch_act src' t n a s \<and> started (snd (ch_act src t n a s))"
proof -
  assume s: "started (snd s)"
  have p: "started c \<Longrightarrow> started (ch_publish th c)" for th c
    by (simp add: ch_publish_def split: prod.splits)
  then have "started c \<Longrightarrow> started (ch_beat t b k n c)" for b k c by (simp add: ch_beat_def Let_def)
  with s p show ?thesis
    by (cases a; cases s) (auto simp: ch_act_def ch_turn_def ch_stop_def Let_def split: list.splits option.splits)
qed

lemma ch_run_source: "started (snd s) \<Longrightarrow> ch_run src t n as s = ch_run src' t n as s"
proof (induction as arbitrary: s)
  case (Cons a as)
  have A: "ch_act src t n a s = ch_act src' t n a s" "started (snd (ch_act src t n a s))"
    using ch_act_source [OF Cons.prems, of src t n a src'] by auto
  have "ch_run src t n as (ch_act src t n a s) = ch_run src' t n as (ch_act src' t n a s)"
    using Cons.IH [OF A(2)] A(1) by simp
  then show ?case by (simp add: ch_run_def)
qed (simp add: ch_run_def)

text \<open>
  The three ways to listen are interchangeable: for a task that has its queue, started by the same
  owner and with the same stop flag, the thread queue, the asyncio queue and the Redis list give the
  same stream and end together under the same actions.
\<close>

theorem sources_agree:
  assumes "idle_channel src t m" and "idle_channel src' t m'" and "dget (queues m) t \<noteq> None" and "dget (queues m') t \<noteq> None"
    and "owner (invoke_from m) (user_id m) = owner (invoke_from m') (user_id m')" and "is_stopped t m = is_stopped t m'"
    and "listen_run src t listen_timeout as (new_listener, m) = (l, m1)" and "listen_run src' t listen_timeout as (new_listener, m') = (l', m1')"
  shows "map normal_message (yielded l) = map normal_message (yielded l') \<and> status l = status l'"
proof -
  have eq: "view src t (new_listener, m) = view src' t (new_listener, m')"
    using assms(1-6) by (simp add: view_def channel_of_def idle_channel_def)
  have "started (snd (view src t (new_listener, m)))" using assms(3) by (simp add: view_def channel_of_def)
  from ch_run_source [OF this] eq
  have "ch_run src t listen_timeout as (view src t (new_listener, m)) = ch_run src' t listen_timeout as (view src' t (new_listener, m'))"
    by metis
  then have "fst (view src t (l, m1)) = fst (view src' t (l', m1'))"
    using run_view(1) [OF assms(1), of listen_timeout as] run_view(1) [OF assms(2), of listen_timeout as] assms(7,8)
    by metis
  then have "normal_listener l = normal_listener l'" by (simp add: view_def)
  then show ?thesis by (simp add: normal_listener_def listener.ext_inject listener.update_convs)
    (metis listener.select_convs(2,3) listener.surjective listener.update_convs(2))
qed

section \<open>A concrete task\<close>

definition demo_redis :: redis where
  "demo_redis = \<lparr>redis_up = True, logs = [], belongs = [], stopped = []\<rparr>"

definition demo_manager :: manager where
  "demo_manager = new_manager ''u'' WebApp demo_redis"

definition demo_beat :: beat where
  "demo_beat = \<lparr>elapsed = 1, ping_id = ''p'', timeout_id = ''t'', stop_id = ''s''\<rparr>"

definition demo_late :: beat where
  "demo_late = \<lparr>elapsed = 60, ping_id = ''p'', timeout_id = ''t'', stop_id = ''s''\<rparr>"

definition demo_ended :: "action list" where
  "demo_ended = [Publish ''x'' (new_thought ''1'' ''x'' AgentMessage), Publish ''x'' (new_thought ''2'' ''x'' AgentEnd),
     Publish ''x'' (new_thought ''3'' ''x'' BillingFinal)]"

lemma demo_idle: "idle_channel Memory ''x'' demo_manager" "idle_channel RedisList ''x'' demo_manager"
    "idle_channel Async ''x'' (get_or_create_async_queue ''x'' demo_manager)"
  by code_simp+

lemma demo_healthy: "healthy RedisList ''x'' (snd (new_listener, demo_manager))"
  by code_simp

theorem listener_refines_channel_witness:
  "view RedisList ''x'' (listen_run RedisList ''x'' 30 (demo_ended @ [Turn demo_beat]) (new_listener, demo_manager))
     = ch_run RedisList ''x'' 30 (demo_ended @ [Turn demo_beat]) (view RedisList ''x'' (new_listener, demo_manager))"
  using listener_refines_channel [OF demo_healthy] .

theorem stream_has_one_terminal_at_its_end_witness:
  "let l = fst (listen_run Memory ''x'' 30 (demo_ended @ replicate 3 (Turn demo_beat)) (new_listener, demo_manager)) in
     map event (yielded l) = [AgentMessage, AgentEnd] \<and> terminal (event (last (yielded l)))"
proof -
  obtain l m' where r: "listen_run Memory ''x'' 30 (demo_ended @ replicate 3 (Turn demo_beat)) (new_listener, demo_manager) = (l, m')"
    by (metis prod.collapse)
  have e: "map event (yielded (fst (listen_run Memory ''x'' 30 (demo_ended @ replicate 3 (Turn demo_beat)) (new_listener, demo_manager))))
      = [AgentMessage, AgentEnd]"
    and f: "status (fst (listen_run Memory ''x'' 30 (demo_ended @ replicate 3 (Turn demo_beat)) (new_listener, demo_manager))) = Finished"
    by code_simp+
  show ?thesis
    using stream_has_one_terminal_at_its_end [OF demo_idle(1) r] e f by (simp add: r Let_def)
qed

theorem nothing_behind_a_terminal_event_witness:
  "let s = listen_run Memory ''x'' 30 demo_ended (new_listener, demo_manager);
       l = fst (listen_run Memory ''x'' 30 (replicate 5 (Turn demo_beat)) s) in
     BillingFinal \<in> event ` set (map the (filter (\<lambda>x. x \<noteq> None) (raw_pending Memory ''x'' (snd s))))
     \<and> BillingFinal \<notin> event ` set (yielded l)"
proof -
  define s where "s = listen_run Memory ''x'' 30 demo_ended (new_listener, demo_manager)"
  have seen: "dget_or (terminal_events (snd s)) ''x'' [] \<noteq> []" unfolding s_def by code_simp
  have q: "BillingFinal \<in> event ` set (map the (filter (\<lambda>x. x \<noteq> None) (raw_pending Memory ''x'' (snd s))))"
    unfolding s_def by code_simp
  have b: "map event (map normal_message (yielded (fst s)) @ before_end (pending (channel_of Memory ''x'' (snd s))))
      = [AgentMessage, AgentEnd]"
    unfolding s_def by code_simp
  have "prefix (map normal_message (yielded (fst (listen_run Memory ''x'' 30 (replicate 5 (Turn demo_beat)) s))))
      (map normal_message (yielded (fst s)) @ before_end (pending (channel_of Memory ''x'' (snd s))))"
    using nothing_behind_a_terminal_event [OF demo_idle(1) s_def seen] .
  from map_mono_prefix [OF this, of event] b
  have "prefix (map event (yielded (fst (listen_run Memory ''x'' 30 (replicate 5 (Turn demo_beat)) s)))) [AgentMessage, AgentEnd]"
    by (simp add: o_def)
  then have "set (map event (yielded (fst (listen_run Memory ''x'' 30 (replicate 5 (Turn demo_beat)) s)))) \<subseteq> {AgentMessage, AgentEnd}"
    using set_mono_prefix by fastforce
  then show ?thesis using q unfolding s_def Let_def by auto
qed

theorem listener_ends_after_timeout_witness:
  "status (fst (listen_run Memory ''x'' 30 (replicate 4 (Turn demo_beat))
     (listen_run Memory ''x'' 30 ([Publish ''x'' (new_thought ''1'' ''x'' AgentMessage)] @ [Turn demo_late]) (new_listener, demo_manager))))
   = Finished"
proof (rule listener_ends_after_timeout [OF demo_idle(1) refl])
  show "of_int 30 \<le> elapsed demo_late" by (simp add: demo_late_def)
  show "length (raw_pending Memory ''x'' (snd (listen_run Memory ''x'' 30
      ([Publish ''x'' (new_thought ''1'' ''x'' AgentMessage)] @ [Turn demo_late]) (new_listener, demo_manager))))
    < turns (replicate 4 (Turn demo_beat))"
    by code_simp
qed

definition demo_started :: manager where
  "demo_started = get_or_create_async_queue ''x'' (snd (queue ''x'' demo_manager))"

theorem sources_agree_witness:
  "map normal_message (yielded (fst (listen_run Async ''x'' 30 (demo_ended @ [Turn demo_beat]) (new_listener, demo_started))))
     = map normal_message (yielded (fst (listen_run RedisList ''x'' 30 (demo_ended @ [Turn demo_beat]) (new_listener, demo_started))))"
proof -
  have "idle_channel Async ''x'' demo_started" "idle_channel RedisList ''x'' demo_started"
      "dget (queues demo_started) ''x'' \<noteq> None"
    by code_simp+
  from sources_agree [OF this(1,2,3,3) refl refl prod.collapse [symmetric] prod.collapse [symmetric]]
  show ?thesis by blast
qed

end
