(* ===== verification/Todo_Board.thy ===== *)
theory Todo_Board
  imports Py_Base Kv_Store
begin

text \<open>
  The todo boards agents plan with (\<^verbatim>\<open>core/tools/builtin_tools/providers/todo_tool/todo.py\<close>): the items
  and their validation, the batch write with replacement or merge, the single actions, and the store
  that prefers Redis and falls back to the memory of the process.  Keys do not expire by themselves.
\<close>

section \<open>Items\<close>

record todo_item =
  item_id :: string
  item_content :: string
  item_status :: string

definition valid_statuses :: "string list" where
  "valid_statuses = [''pending'', ''in_progress'', ''completed'', ''cancelled'']"

definition max_todo_items :: nat where
  "max_todo_items = 256"

definition max_todo_content_chars :: nat where
  "max_todo_content_chars = 4000"

text \<open>The ellipsis stands as one character, as in Windows-1252.\<close>

definition truncation_marker :: string where
  "truncation_marker = CHR 0x85 # '' [truncated]''"

definition cap_content :: "string \<Rightarrow> string" where
  "cap_content c =
     (if length c > max_todo_content_chars
      then take (max_todo_content_chars - length truncation_marker) c @ truncation_marker else c)"

text \<open>\<open>str(item.get(key, dflt)).strip()\<close>.\<close>

definition text_of :: "pyval dict \<Rightarrow> string \<Rightarrow> string \<Rightarrow> string" where
  "text_of d key dflt = strip (py_str (dget_or d key (PStr dflt)))"

definition invalid_item :: todo_item where
  "invalid_item = \<lparr>item_id = ''?'', item_content = ''(invalid item)'', item_status = ''pending''\<rparr>"

definition raw_id :: "pyval dict \<Rightarrow> string" where
  "raw_id d = (if text_of d ''id'' [] = [] then ''?'' else text_of d ''id'' [])"

definition validate_item :: "pyval \<Rightarrow> todo_item" where
  "validate_item v =
     (case v of
        PDict d \<Rightarrow>
          (let content = text_of d ''content'' [];
               status = lower_text (text_of d ''status'' ''pending'')
           in \<lparr>item_id = raw_id d,
               item_content = (if content = [] then ''(no description)'' else cap_content content),
               item_status = (if status \<in> set valid_statuses then status else ''pending'')\<rparr>)
      | _ \<Rightarrow> invalid_item)"

text \<open>The dictionary from an id to its last index, then the items at those indices in order.\<close>

definition dedupe_key :: "nat \<Rightarrow> pyval \<Rightarrow> string" where
  "dedupe_key i v = (case v of PDict d \<Rightarrow> raw_id d | _ \<Rightarrow> ''__invalid_'' @ nat_str i)"

fun last_index :: "nat \<Rightarrow> pyval list \<Rightarrow> (string \<times> nat) list \<Rightarrow> (string \<times> nat) list" where
  "last_index i [] idx = idx"
| "last_index i (v # vs) idx = last_index (i + 1) vs (dset (dedupe_key i v) i idx)"

definition dedupe_by_id :: "pyval list \<Rightarrow> pyval list" where
  "dedupe_by_id todos = map (\<lambda>i. todos ! i) (sort (map snd (last_index 0 todos [])))"

section \<open>The store\<close>

record todo_store =
  redis_on :: bool
  redis_boards :: "(string \<times> todo_item list) list"
  memory_boards :: "(string \<times> todo_item list) list"

definition board_key :: "string \<Rightarrow> string" where
  "board_key board = ''agent:todo:'' @ board"

definition read_board :: "string \<Rightarrow> todo_store \<Rightarrow> todo_item list" where
  "read_board board st =
     (case (if redis_on st then dget (redis_boards st) (board_key board) else None) of
        Some items \<Rightarrow> items
      | None \<Rightarrow> dget_or (memory_boards st) board [])"

definition write_board :: "string \<Rightarrow> todo_item list \<Rightarrow> todo_store \<Rightarrow> todo_store" where
  "write_board board items st =
     (if redis_on st then st\<lparr>redis_boards := dset (board_key board) items (redis_boards st)\<rparr>
      else st\<lparr>memory_boards := dset board items (memory_boards st)\<rparr>)"

interpretation boards: kv_store write_board "\<lambda>st b. Some (read_board b st)"
  by unfold_locales (auto simp: read_board_def write_board_def board_key_def dget_or_def split: option.splits)

section \<open>The batch write\<close>

text \<open>
  The dictionary from an id to the item of \<open>current\<close> it names is a dictionary to its index: changing
  the item changes it in the list.
\<close>

fun index_items :: "nat \<Rightarrow> todo_item list \<Rightarrow> (string \<times> nat) list \<Rightarrow> (string \<times> nat) list" where
  "index_items i [] idx = idx"
| "index_items i (x # xs) idx =
     index_items (i + 1) xs (if item_id x = [] then idx else dset (item_id x) i idx)"

definition update_item :: "pyval dict \<Rightarrow> todo_item \<Rightarrow> todo_item" where
  "update_item d x =
     (let content = text_of d ''content'' [];
          status = lower_text (text_of d ''status'' []);
          x1 = (if truthy (dget_or d ''content'' PNone) \<and> content \<noteq> []
                then x\<lparr>item_content := cap_content content\<rparr> else x)
      in if status \<in> set valid_statuses then x1\<lparr>item_status := status\<rparr> else x1)"

fun merge_todos :: "pyval list \<Rightarrow> todo_item list \<Rightarrow> (string \<times> nat) list \<Rightarrow> todo_item list" where
  "merge_todos [] current idx = current"
| "merge_todos (v # vs) current idx =
     (case v of
        PDict d \<Rightarrow>
          (let k = text_of d ''id'' [] in
           if k = [] then merge_todos vs current idx
           else (case dget idx k of
               Some i \<Rightarrow> merge_todos vs (current[i := update_item d (current ! i)]) idx
             | None \<Rightarrow> merge_todos vs (current @ [validate_item v]) (dset k (length current) idx)))
      | _ \<Rightarrow> merge_todos vs current idx)"

fun first_by_id :: "todo_item list \<Rightarrow> string list \<Rightarrow> todo_item list" where
  "first_by_id [] seen = []"
| "first_by_id (x # xs) seen =
     (if item_id x \<in> set seen then first_by_id xs seen else x # first_by_id xs (item_id x # seen))"

definition batch_items :: "pyval list \<Rightarrow> bool \<Rightarrow> todo_item list \<Rightarrow> todo_item list" where
  "batch_items todos merge current =
     take max_todo_items
       (if merge then first_by_id (merge_todos (dedupe_by_id todos) current (index_items 0 current [])) []
        else map validate_item (dedupe_by_id todos))"

definition write_todos :: "string \<Rightarrow> pyval list \<Rightarrow> bool \<Rightarrow> todo_store \<Rightarrow> todo_item list \<times> todo_store" where
  "write_todos board todos merge st =
     (let items = batch_items todos merge (if merge then read_board board st else [])
      in (items, write_board board items st))"

section \<open>The tool\<close>

record todo_summary =
  total :: nat
  pending_count :: nat
  in_progress_count :: nat
  completed_count :: nat
  cancelled_count :: nat

definition with_status :: "string \<Rightarrow> todo_item list \<Rightarrow> nat" where
  "with_status s items = length (filter (\<lambda>x. item_status x = s) items)"

definition summary :: "todo_item list \<Rightarrow> todo_summary" where
  "summary items =
     \<lparr>total = length items, pending_count = with_status ''pending'' items,
      in_progress_count = with_status ''in_progress'' items,
      completed_count = with_status ''completed'' items, cancelled_count = with_status ''cancelled'' items\<rparr>"

text \<open>The answers; a shown item also carries its content under \<open>task\<close>.\<close>

datatype todo_answer =
    BoardEmpty
  | TodosUnreadable
  | TodosNotAList
  | Written "todo_item list" todo_summary
  | TaskEmpty
  | Item todo_item todo_summary
  | Listed "todo_item list" nat todo_summary
  | NoSuchTask string
  | DeletedTask string todo_summary
  | UnknownAction string

record todo_call =
  act_name :: string
  board_id :: string
  task_text :: string
  task_ref :: string
  status_text :: string
  batch :: "pyval option"
  merging :: bool
  fresh_hex :: string

definition find_item :: "string \<Rightarrow> todo_item list \<Rightarrow> todo_item option" where
  "find_item k items = find (\<lambda>x. item_id x = k) items"

text \<open>The first item with the id is the one that is changed.\<close>

fun change_first :: "string \<Rightarrow> (todo_item \<Rightarrow> todo_item) \<Rightarrow> todo_item list \<Rightarrow> todo_item list" where
  "change_first k f [] = []"
| "change_first k f (x # xs) = (if item_id x = k then f x # xs else x # change_first k f xs)"

definition changed :: "bool \<Rightarrow> todo_call \<Rightarrow> todo_item \<Rightarrow> todo_item" where
  "changed complete c x =
     (if complete then x\<lparr>item_status := ''completed''\<rparr>
      else
        (let s = lower_text (strip (status_text c));
             x1 = (if s \<in> set valid_statuses then x\<lparr>item_status := s\<rparr> else x)
         in if strip (task_text c) \<noteq> [] then x1\<lparr>item_content := cap_content (strip (task_text c))\<rparr> else x1))"

definition new_item :: "todo_call \<Rightarrow> todo_item" where
  "new_item c = validate_item (PDict
     [(''id'', PStr (''t-'' @ take 12 (fresh_hex c))), (''content'', PStr (strip (task_text c))), (''status'', PStr ''pending'')])"

definition run_action :: "string \<Rightarrow> todo_call \<Rightarrow> todo_store \<Rightarrow> todo_answer \<times> todo_store" where
  "run_action board c st =
     (let act = lower_text (strip (act_name c)); items = read_board board st in
      if act = ''create'' then
        (if strip (task_text c) = [] then (TaskEmpty, st)
         else (Item (new_item c) (summary (items @ [new_item c])), write_board board (items @ [new_item c]) st))
      else if act = ''list'' then (Listed items (length items) (summary items), st)
      else if act \<in> {''update'', ''complete'', ''delete''} then
        (let k = strip (task_ref c) in
         case find_item k items of
           None \<Rightarrow> (NoSuchTask k, st)
         | Some x \<Rightarrow>
             if act = ''delete'' then
               (DeletedTask k (summary items), write_board board (filter (\<lambda>y. item_id y \<noteq> k) items) st)
             else
               (let items' = change_first k (changed (act = ''complete'') c) items
                in (Item (changed (act = ''complete'') c x) (summary items'), write_board board items' st)))
      else (UnknownAction act, st))"

text \<open>\<open>loads\<close> is \<^verbatim>\<open>json.loads\<close>, which is asked when the batch is a text.\<close>

definition run_todo :: "(string \<Rightarrow> pyval option) \<Rightarrow> todo_call \<Rightarrow> todo_store \<Rightarrow> todo_answer \<times> todo_store" where
  "run_todo loads c st =
     (let board = strip (board_id c) in
      if board = [] then (BoardEmpty, st)
      else (case batch c of
          None \<Rightarrow> run_action board c st
        | Some v \<Rightarrow>
            (case (case v of PStr s \<Rightarrow> loads s | _ \<Rightarrow> Some v) of
               None \<Rightarrow> (TodosUnreadable, st)
             | Some (PList todos) \<Rightarrow>
                 (case write_todos board todos (merging c) st of (items, st') \<Rightarrow> (Written items (summary items), st'))
             | Some _ \<Rightarrow> (TodosNotAList, st))))"

end
