(* ===== verification/Todo_Props.thy ===== *)
theory Todo_Props
  imports Todo_Board
begin

text \<open>
  What the todo boards promise: the batch write keeps the last item of an id, a merge updates and
  appends, every board stays well formed, and where the single actions surprise their caller.
\<close>

section \<open>The last item of an id\<close>

definition is_dict :: "pyval \<Rightarrow> bool" where
  "is_dict v = (case v of PDict d \<Rightarrow> True | _ \<Rightarrow> False)"

definition todo_id :: "pyval \<Rightarrow> string" where
  "todo_id v = (case v of PDict d \<Rightarrow> raw_id d | _ \<Rightarrow> [])"

fun keep_last :: "pyval list \<Rightarrow> pyval list" where
  "keep_last [] = []"
| "keep_last (v # vs) = (if todo_id v \<in> todo_id ` set vs then keep_last vs else v # keep_last vs)"

lemma dedupe_key_dict: "is_dict v \<Longrightarrow> dedupe_key i v = todo_id v"
  by (simp add: dedupe_key_def todo_id_def is_dict_def split: pyval.splits)

definition is_last :: "pyval list \<Rightarrow> nat \<Rightarrow> bool" where
  "is_last vs i \<longleftrightarrow> todo_id (vs ! i) \<notin> todo_id ` set (drop (Suc i) vs)"

lemma keep_last_filter: "keep_last vs = map ((!) vs) (filter (is_last vs) [0..<length vs])"
proof (induction vs)
  case (Cons v vs)
  have "[0..<length (v # vs)] = 0 # map Suc [0..<length vs]" by (simp add: map_Suc_upt upt_conv_Cons del: upt_Suc)
  moreover have "is_last (v # vs) \<circ> Suc = is_last vs" by (simp add: is_last_def fun_eq_iff)
  moreover have "is_last (v # vs) 0 \<longleftrightarrow> todo_id v \<notin> todo_id ` set vs" by (simp add: is_last_def)
  ultimately show ?case by (simp add: Cons.IH filter_map o_def)
qed simp

lemma last_index_get:
  "list_all is_dict vs \<Longrightarrow>
     dget (last_index i vs idx) k =
       (if k \<in> todo_id ` set vs then Some (i + (GREATEST j. j < length vs \<and> todo_id (vs ! j) = k)) else dget idx k)"
proof (induction i vs idx rule: last_index.induct)
  case (2 i v vs idx)
  let ?G = "\<lambda>xs. GREATEST j. j < length xs \<and> todo_id (xs ! j) = k"
  have bound: "\<exists>b. \<forall>j. j < length xs \<and> todo_id (xs ! j) = k \<longrightarrow> j \<le> b" for xs by (rule exI [of _ "length xs"]) simp
  have IH: "dget (last_index i (v # vs) idx) k =
      (if k \<in> todo_id ` set vs then Some (i + 1 + ?G vs) else dget (dset (todo_id v) i idx) k)"
    using 2 by (simp add: dedupe_key_dict)
  show ?case
  proof (cases "k \<in> todo_id ` set vs")
    case True
    then obtain j where j: "j < length vs" "todo_id (vs ! j) = k" by (auto simp: in_set_conv_nth)
    have g: "?G vs < length vs \<and> todo_id (vs ! (?G vs)) = k"
      using GreatestI_nat [of "\<lambda>j. j < length vs \<and> todo_id (vs ! j) = k" j "length vs"] j by auto
    have "?G (v # vs) = Suc (?G vs)"
    proof (rule Greatest_equality)
      show "Suc (?G vs) < length (v # vs) \<and> todo_id ((v # vs) ! Suc (?G vs)) = k" using g by simp
      show "y \<le> Suc (?G vs)" if y: "y < length (v # vs) \<and> todo_id ((v # vs) ! y) = k" for y
      proof (cases y)
        case (Suc z)
        then have "z \<le> ?G vs"
          using y Greatest_le_nat [of "\<lambda>j. j < length vs \<and> todo_id (vs ! j) = k" z "length vs"] by auto
        then show ?thesis using Suc by simp
      qed simp
    qed
    then show ?thesis using True IH by simp
  next
    case False
    have "?G (v # vs) = 0" if "todo_id v = k"
    proof (rule Greatest_equality)
      show "0 < length (v # vs) \<and> todo_id ((v # vs) ! 0) = k" using that by simp
      show "y \<le> 0" if "y < length (v # vs) \<and> todo_id ((v # vs) ! y) = k" for y
        using that False by (cases y) auto
    qed
    then show ?thesis using False IH by auto
  qed
qed simp

lemma last_index_keys: "distinct (dkeys idx) \<Longrightarrow> distinct (dkeys (last_index i vs idx))"
  by (induction i vs idx rule: last_index.induct) simp_all

lemma greatest_is_last:
  assumes "k \<in> todo_id ` set vs"
  defines "g \<equiv> (GREATEST j. j < length vs \<and> todo_id (vs ! j) = k)"
  shows "g < length vs \<and> todo_id (vs ! g) = k \<and> is_last vs g"
proof -
  obtain j where j: "j < length vs" "todo_id (vs ! j) = k" using assms(1) by (auto simp: in_set_conv_nth)
  have g: "g < length vs \<and> todo_id (vs ! g) = k"
    using GreatestI_nat [of "\<lambda>j. j < length vs \<and> todo_id (vs ! j) = k" j "length vs"] j by (auto simp: g_def)
  have "is_last vs g"
    unfolding is_last_def
  proof
    assume "todo_id (vs ! g) \<in> todo_id ` set (drop (Suc g) vs)"
    then obtain n where n: "n < length (drop (Suc g) vs)" "todo_id (drop (Suc g) vs ! n) = k"
      using g by (auto simp: in_set_conv_nth)
    then have "Suc g + n < length vs \<and> todo_id (vs ! (Suc g + n)) = k" by simp
    then have "Suc g + n \<le> g"
      using Greatest_le_nat [of "\<lambda>j. j < length vs \<and> todo_id (vs ! j) = k" "Suc g + n" "length vs"] by (auto simp: g_def)
    then show False by simp
  qed
  then show ?thesis using g by blast
qed

lemma last_positions:
  assumes "list_all is_dict vs"
  shows "set (map snd (last_index 0 vs [])) = {i. i < length vs \<and> is_last vs i}"
proof -
  let ?d = "last_index 0 vs []"
  have d: "distinct (dkeys ?d)" by (rule last_index_keys) simp
  have get: "dget ?d k = (if k \<in> todo_id ` set vs then Some (GREATEST j. j < length vs \<and> todo_id (vs ! j) = k) else None)" for k
    using last_index_get [OF assms, of 0 "[]"] by simp
  have "i \<in> set (map snd ?d) \<longleftrightarrow> (\<exists>k. dget ?d k = Some i)" for i
    using d by (force simp: map_of_eq_Some_iff image_iff)
  moreover have "(\<exists>k. dget ?d k = Some i) \<longleftrightarrow> i < length vs \<and> is_last vs i" for i
  proof
    assume "\<exists>k. dget ?d k = Some i"
    then obtain k where "k \<in> todo_id ` set vs" "i = (GREATEST j. j < length vs \<and> todo_id (vs ! j) = k)"
      by (auto simp: get split: if_splits)
    then show "i < length vs \<and> is_last vs i" using greatest_is_last by blast
  next
    assume i: "i < length vs \<and> is_last vs i"
    let ?k = "todo_id (vs ! i)"
    have "(GREATEST j. j < length vs \<and> todo_id (vs ! j) = ?k) = i"
    proof (rule Greatest_equality)
      show "i < length vs \<and> todo_id (vs ! i) = ?k" using i by simp
      show "y \<le> i" if y: "y < length vs \<and> todo_id (vs ! y) = ?k" for y
      proof (rule ccontr)
        assume "\<not> y \<le> i"
        then have "vs ! y \<in> set (drop (Suc i) vs)"
          using y nth_mem [of "y - Suc i" "drop (Suc i) vs"] by (simp add: diff_less_mono)
        then show False using i y unfolding is_last_def by (metis image_eqI)
      qed
    qed
    then show "\<exists>k. dget ?d k = Some i" using i by (auto simp: get intro!: exI [of _ ?k])
  qed
  ultimately show ?thesis by blast
qed

lemma last_index_values_distinct:
  assumes "list_all is_dict vs"
  shows "distinct (map snd (last_index 0 vs []))"
proof -
  let ?d = "last_index 0 vs []"
  have d: "distinct (dkeys ?d)" by (rule last_index_keys) simp
  have "todo_id (vs ! i) = k" if "(k, i) \<in> set ?d" for k i
  proof -
    have "dget ?d k = Some i" using that d by simp
    then have "k \<in> todo_id ` set vs" "i = (GREATEST j. j < length vs \<and> todo_id (vs ! j) = k)"
      using last_index_get [OF assms, of 0 "[]" k] by (auto split: if_splits)
    then show ?thesis using greatest_is_last by blast
  qed
  then have "inj_on snd (set ?d)" unfolding inj_on_def by (metis prod.collapse)
  moreover have "distinct ?d" using d by (simp add: distinct_map)
  ultimately show ?thesis by (simp add: distinct_map)
qed

text \<open>
  The batch keeps exactly the last item of every id, in the order of the input.
\<close>

lemma dedupe_keeps_last:
  assumes "list_all is_dict todos"
  shows "dedupe_by_id todos = keep_last todos"
proof -
  have "sort (map snd (last_index 0 todos [])) = filter (is_last todos) [0..<length todos]"
  proof (rule sorted_distinct_set_unique)
    show "sorted (filter (is_last todos) [0..<length todos])" by (simp add: sorted_wrt_filter)
  qed (use last_index_values_distinct [OF assms] last_positions [OF assms] in auto)
  then show ?thesis by (simp add: dedupe_by_id_def keep_last_filter)
qed

section \<open>Merging\<close>

definition given_id :: "pyval \<Rightarrow> string" where
  "given_id v = (case v of PDict d \<Rightarrow> text_of d ''id'' [] | _ \<Rightarrow> [])"

text \<open>
  The meaning of a merge: items of the board that are named are updated in place, the others kept, and
  items with a new id follow.
\<close>

definition update_from :: "pyval list \<Rightarrow> todo_item \<Rightarrow> todo_item" where
  "update_from vs x =
     (case find (\<lambda>v. given_id v = item_id x) vs of Some (PDict d) \<Rightarrow> update_item d x | _ \<Rightarrow> x)"

definition merge_spec :: "pyval list \<Rightarrow> todo_item list \<Rightarrow> todo_item list" where
  "merge_spec vs current =
     map (update_from vs) current
     @ map validate_item (filter (\<lambda>v. given_id v \<noteq> [] \<and> given_id v \<notin> item_id ` set current) vs)"

definition indexes :: "(string \<times> nat) list \<Rightarrow> todo_item list \<Rightarrow> bool" where
  "indexes idx current \<longleftrightarrow>
     (\<forall>k i. dget idx k = Some i \<longleftrightarrow> k \<noteq> [] \<and> i < length current \<and> item_id (current ! i) = k)"

lemma update_item_id [simp]: "item_id (update_item d x) = item_id x"
  by (simp add: update_item_def Let_def)

lemma validate_given: "given_id v \<noteq> [] \<Longrightarrow> item_id (validate_item v) = given_id v"
  by (cases v) (simp_all add: given_id_def validate_item_def raw_id_def Let_def)

lemma indexes_snoc:
  assumes "indexes idx pre" and "item_id x \<notin> item_id ` set pre"
  shows "indexes (if item_id x = [] then idx else dset (item_id x) (length pre) idx) (pre @ [x])"
proof -
  have "item_id (pre ! i) \<noteq> item_id x" if "i < length pre" for i
    using assms(2) nth_mem [OF that] by (metis image_eqI)
  then show ?thesis
    using assms(1) by (auto simp: indexes_def nth_append less_Suc_eq split: if_splits)
qed

lemma indexes_items:
  "distinct (map item_id (pre @ xs)) \<Longrightarrow> indexes idx pre \<Longrightarrow>
     indexes (index_items (length pre) xs idx) (pre @ xs)"
proof (induction xs arbitrary: pre idx)
  case (Cons x xs)
  have "indexes (if item_id x = [] then idx else dset (item_id x) (length pre) idx) (pre @ [x])"
    using Cons.prems by (intro indexes_snoc) auto
  then show ?case using Cons.IH [of "pre @ [x]"] Cons.prems by simp
qed simp

lemma indexes_current: "distinct (map item_id current) \<Longrightarrow> indexes (index_items 0 current []) current"
  using indexes_items [of "[]" current "[]"] by (simp add: indexes_def)

lemma indexes_None:
  assumes "indexes idx current" and "k \<noteq> []"
  shows "dget idx k = None \<longleftrightarrow> k \<notin> item_id ` set current"
proof -
  have "(\<exists>i. dget idx k = Some i) \<longleftrightarrow> (\<exists>i. i < length current \<and> item_id (current ! i) = k)"
    using assms by (simp add: indexes_def)
  also have "\<dots> \<longleftrightarrow> k \<in> item_id ` set current"
    unfolding set_conv_nth by blast
  finally show ?thesis by (metis not_None_eq)
qed

lemma update_other: "item_id x \<noteq> k \<Longrightarrow> given_id v = k \<Longrightarrow> update_from (v # vs) x = update_from vs x"
  by (auto simp: update_from_def)

lemma update_none: "item_id x \<notin> given_id ` set vs \<Longrightarrow> update_from vs x = x"
proof -
  assume "item_id x \<notin> given_id ` set vs"
  then have "find (\<lambda>v. given_id v = item_id x) vs = None" by (force simp: find_None_iff)
  then show ?thesis by (simp add: update_from_def)
qed

lemma merge_is_spec:
  "list_all is_dict vs \<Longrightarrow> distinct (map item_id current) \<Longrightarrow> indexes idx current \<Longrightarrow>
     distinct (filter (\<lambda>k. k \<noteq> []) (map given_id vs)) \<Longrightarrow> [] \<notin> item_id ` set current \<Longrightarrow>
     merge_todos vs current idx = merge_spec vs current"
proof (induction vs arbitrary: current idx)
  case Nil
  then show ?case by (simp add: merge_spec_def update_from_def map_idI)
next
  case (Cons v vs)
  obtain d where v: "v = PDict d" using Cons.prems(1) by (cases v) (auto simp: is_dict_def)
  define k where "k = given_id v"
  have kd: "text_of d ''id'' [] = k" by (simp add: k_def v given_id_def)
  have fresh: "k \<noteq> [] \<Longrightarrow> k \<notin> given_id ` set vs" and ds: "distinct (filter (\<lambda>k. k \<noteq> []) (map given_id vs))"
    using Cons.prems(4) by (auto simp: k_def split: if_splits)
  show ?case
  proof (cases "k = []")
    case True
    have "update_from (v # vs) x = update_from vs x" if "x \<in> set current" for x
      using that Cons.prems(5) True by (intro update_other [of x k]) (force simp: k_def)+
    then have "merge_spec (v # vs) current = merge_spec vs current"
      using True by (auto simp: merge_spec_def k_def)
    then show ?thesis using Cons.IH [OF _ Cons.prems(2,3) ds Cons.prems(5)] Cons.prems(1) kd True
      by (simp add: v)
  next
    case k: False
    show ?thesis
    proof (cases "dget idx k")
      case None
      then have out: "k \<notin> item_id ` set current" using indexes_None [OF Cons.prems(3) k] by blast
      define y where "y = validate_item v"
      have y: "item_id y = k" using validate_given [of v] k by (simp add: y_def k_def)
      have ix: "indexes (dset k (length current) idx) (current @ [y])"
        using indexes_snoc [OF Cons.prems(3), of y] y k out by simp
      have "merge_todos vs (current @ [y]) (dset k (length current) idx) = merge_spec vs (current @ [y])"
        using Cons.prems out y k ds ix by (intro Cons.IH) auto
      also have "\<dots> = merge_spec (v # vs) current"
      proof -
        have "update_from vs y = y" using fresh [OF k] y by (intro update_none) simp
        moreover have "update_from vs x = update_from (v # vs) x" if "x \<in> set current" for x
          using that out by (intro update_other [of x k, symmetric]) (force simp: k_def)+
        moreover have "filter (\<lambda>w. given_id w \<noteq> [] \<and> given_id w \<notin> item_id ` set (current @ [y])) vs
            = filter (\<lambda>w. given_id w \<noteq> [] \<and> given_id w \<notin> item_id ` set current) vs"
          using fresh [OF k] y by (intro filter_cong) (force+)
        ultimately show ?thesis using out k by (simp add: merge_spec_def k_def [symmetric] y_def)
      qed
      finally show ?thesis using None kd k by (simp add: v y_def)
    next
      case (Some i)
      then have i: "i < length current" "item_id (current ! i) = k" using Cons.prems(3) by (auto simp: indexes_def)
      define c where "c = current[i := update_item d (current ! i)]"
      have ids: "map item_id c = map item_id current"
        using i by (simp add: c_def map_update list_update_same_conv)
      then have idset: "item_id ` set c = item_id ` set current" by (metis set_map)
      have ix: "indexes idx c"
        using Cons.prems(3) ids i by (simp add: indexes_def c_def nth_list_update)
      have "merge_todos vs c idx = merge_spec vs c"
        using Cons.prems ids idset ds ix by (intro Cons.IH) auto
      also have "\<dots> = merge_spec (v # vs) current"
      proof -
        have "map (update_from vs) c = map (update_from (v # vs)) current"
        proof (rule nth_equalityI)
          show "length (map (update_from vs) c) = length (map (update_from (v # vs)) current)" by (simp add: c_def)
          show "map (update_from vs) c ! j = map (update_from (v # vs)) current ! j" if "j < length (map (update_from vs) c)" for j
          proof (cases "j = i")
            case True
            have "update_from vs (update_item d (current ! i)) = update_item d (current ! i)"
              using fresh [OF k] i by (intro update_none) simp
            moreover have "update_from (v # vs) (current ! i) = update_item d (current ! i)"
              using i by (simp add: update_from_def k_def v)
            ultimately show ?thesis using that True i by (simp add: c_def)
          next
            case False
            have "item_id (current ! j) \<noteq> k"
              using Cons.prems(2) that False i by (auto simp: c_def distinct_conv_nth)
            then show ?thesis using that False by (simp add: c_def update_other [of _ k] k_def)
          qed
        qed
        moreover have "k \<in> item_id ` set current" using i by force
        ultimately show ?thesis using idset by (simp add: merge_spec_def k_def)
      qed
      finally show ?thesis using Some kd k by (simp add: v c_def)
    qed
  qed
qed

lemma keep_last_sub: "set (keep_last vs) \<subseteq> set vs"
  by (induction vs) auto

lemma keep_last_dict: "list_all is_dict vs \<Longrightarrow> list_all is_dict (keep_last vs)"
  using keep_last_sub by (fastforce simp: list_all_iff)

lemma keep_last_distinct: "distinct (map todo_id (keep_last vs))"
proof (induction vs)
  case (Cons v vs)
  then show ?case using keep_last_sub [of vs] by auto
qed simp

lemma given_of_todo: "is_dict v \<Longrightarrow> given_id v \<noteq> [] \<Longrightarrow> todo_id v = given_id v"
  by (cases v) (simp_all add: given_id_def todo_id_def raw_id_def)

lemma given_distinct: "list_all is_dict vs \<Longrightarrow> distinct (filter (\<lambda>k. k \<noteq> []) (map given_id (keep_last vs)))"
proof (induction vs)
  case (Cons v vs)
  show ?case
  proof (cases "todo_id v \<in> todo_id ` set vs \<or> given_id v = []")
    case False
    have "given_id v \<notin> given_id ` set (keep_last vs)"
    proof
      assume "given_id v \<in> given_id ` set (keep_last vs)"
      then obtain w where w: "w \<in> set vs" "given_id w = given_id v" using keep_last_sub by force
      then have "todo_id w = todo_id v" using given_of_todo False Cons.prems by (auto simp: list_all_iff)
      then show False using w(1) False by (metis image_eqI)
    qed
    then show ?thesis using Cons False by simp
  qed (use Cons in auto)
qed simp

text \<open>
  Merging a batch into a board changes exactly the items it names, in place and by the last entry of
  their id, keeps the others, appends one item for every new id in the order of the batch, and cuts
  the list at its maximum.
\<close>

theorem merge_updates_and_appends:
  assumes "list_all is_dict todos" and "distinct (map item_id current)" and "[] \<notin> item_id ` set current"
  shows "batch_items todos True current = take max_todo_items (merge_spec (keep_last todos) current)"
proof -
  have m: "merge_todos (dedupe_by_id todos) current (index_items 0 current []) = merge_spec (keep_last todos) current"
    using merge_is_spec [OF keep_last_dict [OF assms(1)] assms(2) indexes_current [OF assms(2)] given_distinct [OF assms(1)] assms(3)]
    by (simp add: dedupe_keeps_last [OF assms(1)])
  have ids: "map item_id (merge_spec (keep_last todos) current)
      = map item_id current @ filter (\<lambda>k. k \<noteq> [] \<and> k \<notin> item_id ` set current) (map given_id (keep_last todos))"
  proof -
    have "item_id (update_from vs x) = item_id x" for vs x
      by (simp add: update_from_def split: option.splits pyval.splits)
    moreover have "map (item_id \<circ> validate_item) (filter (\<lambda>v. given_id v \<noteq> [] \<and> given_id v \<notin> item_id ` set current) vs)
        = filter (\<lambda>k. k \<noteq> [] \<and> k \<notin> item_id ` set current) (map given_id vs)" for vs
      by (induction vs) (auto simp: validate_given)
    ultimately show ?thesis by (simp add: merge_spec_def o_def)
  qed
  have "distinct (map item_id (merge_spec (keep_last todos) current))"
  proof -
    have "filter (\<lambda>k. k \<noteq> [] \<and> k \<notin> item_id ` set current) ks
        = filter (\<lambda>k. k \<notin> item_id ` set current) (filter (\<lambda>k. k \<noteq> []) ks)" for ks :: "string list"
      by (simp add: conj_commute)
    moreover have "distinct (filter (\<lambda>k. k \<notin> item_id ` set current) (filter (\<lambda>k. k \<noteq> []) (map given_id (keep_last todos))))"
      by (rule distinct_filter) (rule given_distinct [OF assms(1)])
    ultimately show ?thesis unfolding ids using assms(2) by auto
  qed
  moreover have "distinct (map item_id xs) \<Longrightarrow> item_id ` set xs \<inter> set seen = {} \<Longrightarrow> first_by_id xs seen = xs" for xs seen
    by (induction xs seen rule: first_by_id.induct) auto
  ultimately show ?thesis by (simp add: batch_items_def m)
qed

section \<open>Well-formed boards\<close>

lemma read_write [simp]: "read_board b (write_board b' items st) = (if b = b' then items else read_board b st)"
  using boards.look_put [where k' = b and k = b' and v = items and s = st] by (simp split: if_splits)

definition item_ok :: "todo_item \<Rightarrow> bool" where
  "item_ok x \<longleftrightarrow> item_id x \<noteq> [] \<and> item_content x \<noteq> [] \<and> length (item_content x) \<le> max_todo_content_chars
     \<and> item_status x \<in> set valid_statuses"

definition board_ok :: "todo_item list \<Rightarrow> bool" where
  "board_ok items \<longleftrightarrow> list_all item_ok items \<and> distinct (map item_id items)"

lemma cap_ok: "c \<noteq> [] \<Longrightarrow> cap_content c \<noteq> [] \<and> length (cap_content c) \<le> max_todo_content_chars"
  by (simp add: cap_content_def max_todo_content_chars_def truncation_marker_def)

lemma pending_valid [simp]: "''pending'' \<in> set valid_statuses" "''completed'' \<in> set valid_statuses"
  by (simp_all add: valid_statuses_def)

lemma validate_ok: "item_ok (validate_item v)"
proof (cases v)
  case (PDict d)
  have "length ''(no description)'' \<le> max_todo_content_chars" by (simp add: max_todo_content_chars_def)
  moreover have "raw_id d \<noteq> []" by (simp add: raw_id_def)
  ultimately show ?thesis using cap_ok [of "text_of d ''content'' []"]
    by (auto simp: PDict validate_item_def Let_def item_ok_def)
qed (simp_all add: validate_item_def item_ok_def invalid_item_def max_todo_content_chars_def)

lemma update_ok: "item_ok x \<Longrightarrow> item_ok (update_item d x)"
  using cap_ok by (auto simp: update_item_def Let_def item_ok_def)

lemma changed_ok: "item_ok x \<Longrightarrow> item_ok (changed b c x)"
  using cap_ok by (auto simp: changed_def Let_def item_ok_def)

lemma changed_id [simp]: "item_id (changed b c x) = item_id x"
  by (simp add: changed_def Let_def)

lemma list_update_ok: "list_all item_ok xs \<Longrightarrow> list_all item_ok (xs[i := update_item d (xs ! i)])"
  by (cases "i < length xs") (auto simp: list_all_iff update_ok list_update_beyond dest!: set_update_subset_insert [THEN subsetD])

lemma merge_ok: "list_all item_ok current \<Longrightarrow> list_all item_ok (merge_todos vs current idx)"
proof (induction vs current idx rule: merge_todos.induct)
  case (2 v vs current idx)
  then show ?case
    by (cases v) (auto simp: Let_def list_update_ok validate_ok split: option.splits)
qed simp

lemma first_by_id_ok: "list_all item_ok xs \<Longrightarrow> list_all item_ok (first_by_id xs seen)"
  by (induction xs seen rule: first_by_id.induct) auto

lemma first_by_id_distinct: "distinct (map item_id (first_by_id xs seen)) \<and> item_id ` set (first_by_id xs seen) \<inter> set seen = {}"
  by (induction xs seen rule: first_by_id.induct) auto

lemma validate_todo_id: "is_dict v \<Longrightarrow> item_id (validate_item v) = todo_id v"
  by (cases v) (simp_all add: is_dict_def validate_item_def todo_id_def Let_def)

lemma board_ok_take: "board_ok items \<Longrightarrow> board_ok (take n items)"
  by (auto simp: board_ok_def list_all_iff take_map [symmetric] dest: in_set_takeD)

lemma batch_ok:
  assumes "list_all is_dict todos \<or> merge" and "board_ok current"
  shows "board_ok (batch_items todos merge current) \<and> length (batch_items todos merge current) \<le> max_todo_items"
proof (cases merge)
  case True
  have "board_ok (first_by_id (merge_todos (dedupe_by_id todos) current (index_items 0 current [])) [])"
    using assms(2) merge_ok first_by_id_ok first_by_id_distinct by (auto simp: board_ok_def)
  then show ?thesis using True board_ok_take by (simp add: batch_items_def)
next
  case False
  then have d: "list_all is_dict todos" using assms(1) by simp
  have "map item_id (map validate_item (keep_last todos)) = map todo_id (keep_last todos)"
    using keep_last_dict [OF d] by (auto simp: list_all_iff validate_todo_id)
  then have "board_ok (map validate_item (keep_last todos))"
    using keep_last_distinct [of todos] by (simp add: board_ok_def list_all_iff validate_ok del: map_map)
  then show ?thesis using False board_ok_take by (simp add: batch_items_def dedupe_keeps_last [OF d])
qed

lemma change_first_ids [simp]: "(\<And>x. item_id (f x) = item_id x) \<Longrightarrow> map item_id (change_first k f xs) = map item_id xs"
  by (induction k f xs rule: change_first.induct) auto

lemma change_first_ok: "list_all item_ok xs \<Longrightarrow> list_all item_ok (change_first k (changed b c) xs)"
  by (induction xs) (auto simp: changed_ok)

text \<open>What a caller must respect: batches of dictionaries, and a drawn id that is not on the board.\<close>

definition call_ok :: "(string \<Rightarrow> pyval option) \<Rightarrow> todo_call \<Rightarrow> todo_store \<Rightarrow> bool" where
  "call_ok loads c st =
     ((case batch c of
         None \<Rightarrow> True
       | Some v \<Rightarrow>
           (case (case v of PStr s \<Rightarrow> loads s | _ \<Rightarrow> Some v) of
              Some (PList todos) \<Rightarrow> list_all is_dict todos \<or> merging c
            | _ \<Rightarrow> True))
      \<and> item_id (new_item c) \<notin> item_id ` set (read_board (strip (board_id c)) st))"


lemma summary_adds_up:
  "list_all item_ok items \<Longrightarrow>
     total (summary items) = pending_count (summary items) + in_progress_count (summary items)
       + completed_count (summary items) + cancelled_count (summary items)"
  by (induction items) (auto simp: summary_def with_status_def item_ok_def valid_statuses_def)

section \<open>Where the actions surprise\<close>

text \<open>
  An update that does not name a status resets it: the schema fills in the default pending, which
  the action takes for the wish of the caller, so rewording a finished item reopens it.
\<close>

theorem update_without_status_reopens:
  assumes "lower_text (strip (act_name c)) = ''update''" and "strip (board_id c) \<noteq> []" and "batch c = None"
    and "status_text c = ''pending''" and "find_item (strip (task_ref c)) (read_board (strip (board_id c)) st) = Some x"
  shows "\<exists>x' s. fst (run_todo loads c st) = Item x' s \<and> item_id x' = item_id x \<and> item_status x' = ''pending''
    \<and> find_item (strip (task_ref c)) (read_board (strip (board_id c)) (snd (run_todo loads c st))) = Some x'"
proof -
  have s: "lower_text (strip ''pending'') = ''pending''" by code_simp
  have cf: "find_item k xs = Some x \<Longrightarrow> find_item k (change_first k (changed False c) xs) = Some (changed False c x)" for k xs
    by (induction xs) (auto simp: find_item_def split: if_splits)
  have "item_status (changed False c x) = ''pending''" by (simp add: changed_def assms(4) s Let_def)
  then show ?thesis using assms cf
    by (auto simp: run_todo_def run_action_def Let_def)
qed

text \<open>The answer to a deletion counts the item that is gone.\<close>

lemma deletion_counts_the_deleted:
  assumes "lower_text (strip (act_name c)) = ''delete''" and "strip (board_id c) \<noteq> []" and "batch c = None"
    and "find_item (strip (task_ref c)) (read_board (strip (board_id c)) st) = Some x"
  shows "fst (run_todo loads c st) = DeletedTask (strip (task_ref c)) (summary (read_board (strip (board_id c)) st))"
  using assms by (simp add: run_todo_def run_action_def Let_def)

section \<open>A concrete board\<close>

definition demo_item :: todo_item where
  "demo_item = \<lparr>item_id = ''t-1'', item_content = ''plan'', item_status = ''completed''\<rparr>"

definition demo_store :: todo_store where
  "demo_store = \<lparr>redis_on = True, redis_boards = [(''agent:todo:b'', [demo_item])], memory_boards = []\<rparr>"

definition demo_update :: todo_call where
  "demo_update = \<lparr>act_name = ''Update'', board_id = '' b '', task_text = ''plan again'', task_ref = ''t-1'',
     status_text = ''pending'', batch = None, merging = False, fresh_hex = ''0123456789abcdef''\<rparr>"

definition demo_batch :: "pyval list" where
  "demo_batch = [PDict [(''id'', PStr ''n''), (''content'', PStr ''old'')], PDict [(''id'', PStr ''t-1''), (''status'', PStr ''Cancelled'')],
     PDict [(''id'', PStr '' n ''), (''content'', PStr ''new'')]]"

theorem merge_updates_and_appends_witness:
  "batch_items demo_batch True [demo_item] =
     [demo_item\<lparr>item_status := ''cancelled''\<rparr>, \<lparr>item_id = ''n'', item_content = ''new'', item_status = ''pending''\<rparr>]"
proof -
  have "list_all is_dict demo_batch" "distinct (map item_id [demo_item])" "[] \<notin> item_id ` set [demo_item]" by code_simp+
  moreover have "take max_todo_items (merge_spec (keep_last demo_batch) [demo_item]) =
      [demo_item\<lparr>item_status := ''cancelled''\<rparr>, \<lparr>item_id = ''n'', item_content = ''new'', item_status = ''pending''\<rparr>]"
    by code_simp
  ultimately show ?thesis using merge_updates_and_appends by metis
qed


theorem update_without_status_reopens_witness:
  "\<exists>x' s. fst (run_todo (\<lambda>s. None) demo_update demo_store) = Item x' s \<and> item_status x' = ''pending'' \<and> item_status demo_item = ''completed''"
proof -
  have "lower_text (strip (act_name demo_update)) = ''update''" "strip (board_id demo_update) \<noteq> []" "batch demo_update = None"
    "status_text demo_update = ''pending''"
    "find_item (strip (task_ref demo_update)) (read_board (strip (board_id demo_update)) demo_store) = Some demo_item"
    by code_simp+
  from update_without_status_reopens [OF this, of "\<lambda>s. None"] show ?thesis by (auto simp: demo_item_def)
qed

end
