(* ===== verification/Budget_Gate.thy ===== *)
theory Budget_Gate
  imports Retry Kv_Store
begin

text \<open>
  The budget gate of administrator agents (\<^verbatim>\<open>core/admin_agent_budget.py\<close>): limits from the stored
  configuration, counters per agent, metric and period in Redis, the check and the recording, and what
  the gate promises for one agent in one period.  A date is year, month and day; a limit that is no
  integer, boolean or text is none.
\<close>

section \<open>Limits and keys\<close>

record budget_limits =
  daily_executions :: "int option"
  monthly_executions :: "int option"
  daily_tokens :: "int option"
  monthly_tokens :: "int option"

definition limit_of :: "pyval dict \<Rightarrow> string \<Rightarrow> int option" where
  "limit_of cfg key =
     (let value = (case dget_or cfg key PNone of
          PInt n \<Rightarrow> Some n
        | PBool b \<Rightarrow> Some (if b then 1 else 0)
        | PStr s \<Rightarrow> int_of_text s
        | _ \<Rightarrow> None)
      in case value of Some n \<Rightarrow> if 0 < n then Some n else None | None \<Rightarrow> None)"

definition limits :: "pyval dict \<Rightarrow> budget_limits" where
  "limits cfg =
     \<lparr>daily_executions = limit_of cfg ''daily_executions'', monthly_executions = limit_of cfg ''monthly_executions'',
      daily_tokens = limit_of cfg ''daily_tokens'', monthly_tokens = limit_of cfg ''monthly_tokens''\<rparr>"

datatype metric = Executions | Tokens

datatype period = Daily | Monthly

type_synonym date = "nat \<times> nat \<times> nat"

definition pad_two :: "nat \<Rightarrow> string" where
  "pad_two n = [digit_char (n div 10 mod 10), digit_char (n mod 10)]"

definition pad_four :: "nat \<Rightarrow> string" where
  "pad_four n = pad_two (n div 100) @ pad_two n"

definition period_key :: "period \<Rightarrow> date \<Rightarrow> string" where
  "period_key p d =
     (case d of (y, m, dd) \<Rightarrow>
       (case p of Daily \<Rightarrow> pad_four y @ pad_two m @ pad_two dd | Monthly \<Rightarrow> pad_four y @ pad_two m))"

definition metric_text :: "metric \<Rightarrow> string" where
  "metric_text k = (case k of Executions \<Rightarrow> ''executions'' | Tokens \<Rightarrow> ''tokens'')"

definition period_text :: "period \<Rightarrow> string" where
  "period_text p = (case p of Daily \<Rightarrow> ''daily'' | Monthly \<Rightarrow> ''monthly'')"

definition budget_key :: "string \<Rightarrow> metric \<Rightarrow> period \<Rightarrow> date \<Rightarrow> string" where
  "budget_key agent k p d =
     join '':'' [''budget'', agent, metric_text k, period_text p, period_key p d]"

section \<open>Counters\<close>

text \<open>Redis, when there is one; a key in \<open>unreadable\<close> raises when it is read, and \<open>writable\<close> says whether a pipeline runs.\<close>

record counters =
  counts :: "(string \<times> int) list"
  unreadable :: "string list"
  writable :: bool

definition count_of :: "counters \<Rightarrow> string \<Rightarrow> int" where
  "count_of r key = (if key \<in> set (unreadable r) then 0 else dget_or (counts r) key 0)"

definition incr :: "string \<Rightarrow> int \<Rightarrow> counters \<Rightarrow> counters" where
  "incr key delta r = r\<lparr>counts := dset key (dget_or (counts r) key 0 + delta) (counts r)\<rparr>"

section \<open>The gate\<close>

text \<open>The checks in their order: the limit, its metric and period, and what the call adds.\<close>

definition checks :: "budget_limits \<Rightarrow> int \<Rightarrow> (int option \<times> metric \<times> period \<times> int) list" where
  "checks ls tokens =
     [(daily_executions ls, Executions, Daily, 1), (monthly_executions ls, Executions, Monthly, 1),
      (daily_tokens ls, Tokens, Daily, tokens), (monthly_tokens ls, Tokens, Monthly, tokens)]"

fun first_exceeded :: "string \<Rightarrow> date \<Rightarrow> counters \<Rightarrow> (int option \<times> metric \<times> period \<times> int) list \<Rightarrow> (metric \<times> period) option" where
  "first_exceeded agent d r [] = None"
| "first_exceeded agent d r ((limit, k, p, delta) # cs) =
     (case limit of
        None \<Rightarrow> first_exceeded agent d r cs
      | Some n \<Rightarrow> if n < count_of r (budget_key agent k p d) + delta then Some (k, p) else first_exceeded agent d r cs)"

definition assert_allowed :: "string \<Rightarrow> pyval dict \<Rightarrow> int \<Rightarrow> date \<Rightarrow> counters option \<Rightarrow> exn + unit" where
  "assert_allowed agent cfg tokens d redis =
     (case redis of
        None \<Rightarrow> Inr ()
      | Some r \<Rightarrow>
          (case first_exceeded agent d r (checks (limits cfg) tokens) of
             None \<Rightarrow> Inr ()
           | Some kp \<Rightarrow> Inl (ValueError ''budget exceeded'')))"

definition record_usage :: "string \<Rightarrow> int \<Rightarrow> int \<Rightarrow> date \<Rightarrow> counters option \<Rightarrow> counters option" where
  "record_usage agent tokens executions_delta d redis =
     (case redis of
        None \<Rightarrow> None
      | Some r \<Rightarrow>
          if \<not> writable r then Some r
          else
            (let r1 = (if executions_delta \<noteq> 0
                       then incr (budget_key agent Executions Monthly d) executions_delta
                              (incr (budget_key agent Executions Daily d) executions_delta r) else r)
             in Some (if 0 < tokens
                      then incr (budget_key agent Tokens Monthly d) tokens (incr (budget_key agent Tokens Daily d) tokens r1)
                      else r1)))"

definition check_and_record :: "string \<Rightarrow> pyval dict \<Rightarrow> int \<Rightarrow> date \<Rightarrow> counters option \<Rightarrow> (exn + unit) \<times> counters option" where
  "check_and_record agent cfg tokens d redis =
     (case assert_allowed agent cfg tokens d redis of
        Inl e \<Rightarrow> (Inl e, redis)
      | Inr u \<Rightarrow> (Inr u, record_usage agent tokens 1 d redis))"

definition budget_usage :: "string \<Rightarrow> date \<Rightarrow> counters option \<Rightarrow> (metric \<times> period) \<Rightarrow> int" where
  "budget_usage agent d redis kp =
     (case redis of None \<Rightarrow> 0 | Some r \<Rightarrow> count_of r (budget_key agent (fst kp) (snd kp) d))"

section \<open>What the gate promises\<close>

lemma budget_key_inject [simp]:
  "budget_key agent k p d = budget_key agent k' p' d \<longleftrightarrow> k = k' \<and> p = p'"
  by (cases d; cases k; cases k'; cases p; cases p')
    (simp_all add: budget_key_def metric_text_def period_text_def period_key_def)

lemma dget_or_incr: "dget_or (counts (incr key delta r)) key' 0 = dget_or (counts r) key' 0 + (if key' = key then delta else 0)"
  by (simp add: incr_def dget_or_def)

definition limit_for :: "budget_limits \<Rightarrow> metric \<Rightarrow> period \<Rightarrow> int option" where
  "limit_for ls k p =
     (case (k, p) of
        (Executions, Daily) \<Rightarrow> daily_executions ls
      | (Executions, Monthly) \<Rightarrow> monthly_executions ls
      | (Tokens, Daily) \<Rightarrow> daily_tokens ls
      | (Tokens, Monthly) \<Rightarrow> monthly_tokens ls)"

definition in_budget :: "string \<Rightarrow> pyval dict \<Rightarrow> date \<Rightarrow> counters \<Rightarrow> bool" where
  "in_budget agent cfg d r \<longleftrightarrow>
     (\<forall>k p n. limit_for (limits cfg) k p = Some n \<longrightarrow> dget_or (counts r) (budget_key agent k p d) 0 \<le> n)"

lemma all_checks: "(\<forall>k p. Q k p) \<longleftrightarrow> Q Executions Daily \<and> Q Executions Monthly \<and> Q Tokens Daily \<and> Q Tokens Monthly"
  by (metis metric.exhaust period.exhaust)

lemma gate_open:
  "first_exceeded agent d r (checks ls tokens) = None \<longleftrightarrow>
     (\<forall>k p n. limit_for ls k p = Some n \<longrightarrow>
        count_of r (budget_key agent k p d) + (if k = Executions then 1 else tokens) \<le> n)"
  unfolding all_checks
  by (auto simp: checks_def limit_for_def not_less split: option.splits)

lemma incr_simps [simp]: "unreadable (incr key delta r) = unreadable r" "writable (incr key delta r) = writable r"
  by (simp_all add: incr_def)

lemma record_ok:
  assumes "writable r" and "0 \<le> tokens"
  shows "\<exists>r'. record_usage agent tokens 1 d (Some r) = Some r' \<and> unreadable r' = unreadable r \<and> writable r' \<and>
    (\<forall>k p. dget_or (counts r') (budget_key agent k p d) 0 =
       dget_or (counts r) (budget_key agent k p d) 0 + (if k = Executions then 1 else tokens))"
  unfolding all_checks using assms
  by (cases "0 < tokens") (simp_all add: record_usage_def Let_def dget_or_incr)

text \<open>
  C40. While Redis answers, no sequence of gated calls takes a counter beyond its limit: the gate refuses
  exactly the calls that would, in either period and for either metric, and a refused call counts
  nothing; without Redis every call passes.
\<close>

theorem budget_limits_hold:
  assumes "in_budget agent cfg d r" and "unreadable r = []" and "writable r" and "0 \<le> tokens"
    and "check_and_record agent cfg tokens d (Some r) = (res, redis')"
  shows "(\<exists>r'. redis' = Some r' \<and> in_budget agent cfg d r' \<and> unreadable r' = [] \<and> writable r')
    \<and> (res = Inr () \<longleftrightarrow> (\<forall>k p n. limit_for (limits cfg) k p = Some n \<longrightarrow>
          dget_or (counts r) (budget_key agent k p d) 0 + (if k = Executions then 1 else tokens) \<le> n))
    \<and> (res \<noteq> Inr () \<longrightarrow> redis' = Some r)
    \<and> check_and_record agent cfg tokens d None = (Inr (), None)"
proof -
  have c: "count_of r key = dget_or (counts r) key 0" for key using assms(2) by (simp add: count_of_def)
  have none: "check_and_record agent cfg tokens d None = (Inr (), None)"
    by (simp add: check_and_record_def assert_allowed_def record_usage_def)
  show ?thesis
  proof (cases "first_exceeded agent d r (checks (limits cfg) tokens)")
    case None
    then have open': "\<forall>k p n. limit_for (limits cfg) k p = Some n \<longrightarrow>
        dget_or (counts r) (budget_key agent k p d) 0 + (if k = Executions then 1 else tokens) \<le> n"
      using gate_open [of agent d r "limits cfg" tokens] by (simp add: c)
    obtain r' where r': "record_usage agent tokens 1 d (Some r) = Some r'" "unreadable r' = []" "writable r'"
      and n: "\<And>k p. dget_or (counts r') (budget_key agent k p d) 0 =
        dget_or (counts r) (budget_key agent k p d) 0 + (if k = Executions then 1 else tokens)"
      using record_ok [OF assms(3,4)] assms(2) by metis
    have "redis' = Some r'" "res = Inr ()"
      using assms(5) None r'(1) by (auto simp: check_and_record_def assert_allowed_def)
    moreover have "in_budget agent cfg d r'" using open' n by (auto simp: in_budget_def)
    ultimately show ?thesis using open' none r' by blast
  next
    case (Some kp)
    then have "\<not> (\<forall>k p n. limit_for (limits cfg) k p = Some n \<longrightarrow>
        dget_or (counts r) (budget_key agent k p d) 0 + (if k = Executions then 1 else tokens) \<le> n)"
      using gate_open [of agent d r "limits cfg" tokens] by (simp add: c)
    moreover have "res \<noteq> Inr ()" "redis' = Some r"
      using Some assms(5) by (auto simp: check_and_record_def assert_allowed_def)
    ultimately show ?thesis using assms(1-3) none by blast
  qed
qed

text \<open>
  The check and the recording are separate calls: two calls that both check before either records take
  the counter beyond its limit.
\<close>

lemma concurrent_calls_overshoot:
  assumes "limit_for (limits cfg) Executions Daily = Some n" and "unreadable r = []" and "writable r"
    and "dget_or (counts r) (budget_key agent Executions Daily d) 0 = n - 1"
  shows "dget_or (counts (the (record_usage agent 0 1 d (record_usage agent 0 1 d (Some r)))))
      (budget_key agent Executions Daily d) 0 = n + 1"
  using assms by (simp add: record_usage_def Let_def dget_or_incr)

theorem budget_limits_hold_witness:
  "fst (check_and_record ''a'' [(''daily_executions'', PInt 2), (''daily_tokens'', PStr ''90'')] 50 (2026, 7, 4)
     (Some \<lparr>counts = [(''budget:a:executions:daily:20260704'', 1), (''budget:a:tokens:daily:20260704'', 60)],
        unreadable = [], writable = True\<rparr>)) \<noteq> Inr ()"
proof -
  let ?cfg = "[(''daily_executions'', PInt 2), (''daily_tokens'', PStr ''90'')]"
  let ?r = "\<lparr>counts = [(''budget:a:executions:daily:20260704'', 1), (''budget:a:tokens:daily:20260704'', 60)],
        unreadable = [], writable = True\<rparr>"
  have l: "limit_for (limits ?cfg) Executions Daily = Some 2" "limit_for (limits ?cfg) Executions Monthly = None"
      "limit_for (limits ?cfg) Tokens Daily = Some 90" "limit_for (limits ?cfg) Tokens Monthly = None"
    by code_simp+
  have c: "dget_or (counts ?r) (budget_key ''a'' Executions Daily (2026, 7, 4)) 0 = 1"
      "dget_or (counts ?r) (budget_key ''a'' Tokens Daily (2026, 7, 4)) 0 = 60"
    by code_simp+
  have "in_budget ''a'' ?cfg (2026, 7, 4) ?r"
    unfolding in_budget_def all_checks using l c by simp
  from budget_limits_hold [OF this _ _ _ prod.collapse [symmetric], of 50] l c show ?thesis
    unfolding all_checks by auto
qed

end
