(* ===== verification/Balance.thy ===== *)
theory Balance
  imports Db_Base Py_Float Kv_Store
begin

text \<open>
  The money wallet (\<^verbatim>\<open>service/balance_service.py\<close>, rows in \<^verbatim>\<open>model/distribution.py\<close>): accounts, their
  transactions, crediting and debiting, and the books of every wallet reached by them.  Money is a
  rational; a query is a search in a list, and ids are the numbers of the UUIDs.
\<close>

section \<open>Rows\<close>

record balance_account =
  balance :: rat
  total_recharged :: rat
  total_commission :: rat
  total_withdrawn :: rat
  total_purchased :: rat
  high_rate_locked :: bool
  balance_updated :: int

record balance_transaction =
  bt_account :: int
  bt_amount :: rat
  bt_after :: rat
  bt_type :: string
  bt_rate :: "rat option"
  bt_source :: string
  bt_source_id :: int

record wallet =
  wallet_accounts :: "(int \<times> balance_account) list"
  wallet_transactions :: "balance_transaction list"

text \<open>\<open>Decimal(...).quantize(Decimal("0.01"))\<close>.\<close>

definition money :: "rat \<Rightarrow> rat" where
  "money x = of_int (round_half_even (x * 100)) / 100"

section \<open>The service\<close>

definition fresh_account :: balance_account where
  "fresh_account = \<lparr>balance = 0, total_recharged = 0, total_commission = 0, total_withdrawn = 0,
     total_purchased = 0, high_rate_locked = False, balance_updated = 0\<rparr>"

definition get_balance_account :: "wallet \<Rightarrow> int \<Rightarrow> balance_account option" where
  "get_balance_account w account = dget (wallet_accounts w) account"

definition put_balance_account :: "int \<Rightarrow> balance_account \<Rightarrow> wallet \<Rightarrow> wallet" where
  "put_balance_account account a w = w\<lparr>wallet_accounts := dset account a (wallet_accounts w)\<rparr>"

interpretation wallet_store: kv_store put_balance_account get_balance_account
  by unfold_locales (simp add: put_balance_account_def get_balance_account_def)

definition ensure_account :: "int \<Rightarrow> wallet \<Rightarrow> balance_account \<times> wallet" where
  "ensure_account account w =
     (case get_balance_account w account of
        Some a \<Rightarrow> (a, w)
      | None \<Rightarrow> (fresh_account, put_balance_account account fresh_account w))"

definition find_transaction :: "wallet \<Rightarrow> int \<Rightarrow> string \<Rightarrow> int \<Rightarrow> string \<Rightarrow> exn + balance_transaction option" where
  "find_transaction w account source source_id kind =
     one_or_none (filter
       (\<lambda>t. bt_account t = account \<and> bt_source t = source \<and> bt_source_id t = source_id \<and> bt_type t = kind)
       (wallet_transactions w))"

definition get_balance :: "wallet \<Rightarrow> int \<Rightarrow> rat" where
  "get_balance w account = (case get_balance_account w account of None \<Rightarrow> 0 | Some a \<Rightarrow> money (balance a))"

definition add_balance_transaction :: "balance_transaction \<Rightarrow> wallet \<Rightarrow> wallet" where
  "add_balance_transaction t w = w\<lparr>wallet_transactions := wallet_transactions w @ [t]\<rparr>"

definition credited :: "int \<Rightarrow> rat \<Rightarrow> string \<Rightarrow> balance_account \<Rightarrow> balance_account" where
  "credited now x kind a =
     (let a1 = a\<lparr>balance := money (balance a) + x, balance_updated := now\<rparr> in
      if kind = ''recharge'' then a1\<lparr>total_recharged := money (total_recharged a) + x\<rparr>
      else if kind = ''commission'' then a1\<lparr>total_commission := money (total_commission a) + x\<rparr>
      else a1)"

definition wallet_credit ::
  "int \<Rightarrow> int \<Rightarrow> rat \<Rightarrow> string \<Rightarrow> int \<Rightarrow> string \<Rightarrow> rat option \<Rightarrow> wallet \<Rightarrow> (exn + balance_transaction) \<times> wallet" where
  "wallet_credit now account amt source source_id kind rate w =
     (let x = money amt in
      if x \<le> 0 then (Inl (ValueError ''credit must be positive''), w)
      else (case find_transaction w account source source_id kind of
          Inl e \<Rightarrow> (Inl e, w)
        | Inr (Some t) \<Rightarrow> (Inr t, w)
        | Inr None \<Rightarrow>
            (case ensure_account account w of (a, w1) \<Rightarrow>
               (let a1 = credited now x kind a;
                    t = \<lparr>bt_account = account, bt_amount = x, bt_after = balance a1, bt_type = kind,
                         bt_rate = map_option money rate, bt_source = source, bt_source_id = source_id\<rparr>
                in (Inr t, add_balance_transaction t (put_balance_account account a1 w1))))))"

definition debited :: "int \<Rightarrow> rat \<Rightarrow> string \<Rightarrow> balance_account \<Rightarrow> balance_account" where
  "debited now x kind a =
     (let a1 = a\<lparr>balance := money (balance a) - x, balance_updated := now\<rparr> in
      if kind = ''purchase'' then a1\<lparr>total_purchased := money (total_purchased a) + x\<rparr>
      else if kind = ''withdraw'' then a1\<lparr>total_withdrawn := money (total_withdrawn a) + x\<rparr>
      else a1)"

definition wallet_debit ::
  "int \<Rightarrow> int \<Rightarrow> rat \<Rightarrow> string \<Rightarrow> int \<Rightarrow> string \<Rightarrow> wallet \<Rightarrow> (exn + balance_transaction) \<times> wallet" where
  "wallet_debit now account amt source source_id kind w =
     (let x = money amt in
      if x \<le> 0 then (Inl (ValueError ''debit must be positive''), w)
      else
        (case ensure_account account w of (a, w1) \<Rightarrow>
           if money (balance a) < x then (Inl (ValueError ''insufficient balance''), w1)
           else
             (let a1 = debited now x kind a;
                  t = \<lparr>bt_account = account, bt_amount = - x, bt_after = balance a1, bt_type = kind,
                       bt_rate = None, bt_source = source, bt_source_id = source_id\<rparr>
              in (Inr t, add_balance_transaction t (put_balance_account account a1 w1)))))"

section \<open>Money\<close>

definition cents :: "rat \<Rightarrow> bool" where
  "cents x \<longleftrightarrow> money x = x"

lemma money_cents [simp]: "cents x \<Longrightarrow> money x = x"
  by (simp add: cents_def)

lemma cents_iff: "cents x \<longleftrightarrow> (\<exists>n. x = of_int n / 100)"
proof
  assume "cents x"
  then have "x = of_int (round_half_even (x * 100)) / 100" by (simp add: cents_def money_def)
  then show "\<exists>n. x = of_int n / 100" ..
next
  assume "\<exists>n. x = of_int n / 100"
  then show "cents x" by (auto simp: cents_def money_def)
qed

lemma cents_money [simp]: "cents (money x)"
  by (auto simp: cents_iff money_def)

lemma cents_0 [simp]: "cents 0"
  by (auto simp: cents_iff intro: exI [of _ 0])

lemma cents_add [simp]: "cents x \<Longrightarrow> cents y \<Longrightarrow> cents (x + y)"
  unfolding cents_iff by (metis add_divide_distrib of_int_add)

lemma cents_diff [simp]: "cents x \<Longrightarrow> cents y \<Longrightarrow> cents (x - y)"
  unfolding cents_iff by (metis diff_divide_distrib of_int_diff)

section \<open>The books of the wallet\<close>

definition sum_of :: "wallet \<Rightarrow> int \<Rightarrow> rat" where
  "sum_of w account = sum_list (map bt_amount (filter (\<lambda>t. bt_account t = account) (wallet_transactions w)))"

definition account_or_fresh :: "wallet \<Rightarrow> int \<Rightarrow> balance_account" where
  "account_or_fresh w account = (case get_balance_account w account of None \<Rightarrow> fresh_account | Some a \<Rightarrow> a)"

definition wallet_ok :: "wallet \<Rightarrow> bool" where
  "wallet_ok w \<longleftrightarrow>
     (\<forall>k. balance (account_or_fresh w k) = sum_of w k \<and> 0 \<le> sum_of w k \<and> cents (sum_of w k))
     \<and> (\<forall>t \<in> set (wallet_transactions w). 0 \<le> bt_after t)"

lemma account_or_fresh_put: "account_or_fresh (put_balance_account k a w) k' = (if k' = k then a else account_or_fresh w k')"
  by (simp add: account_or_fresh_def wallet_store.look_put)

lemma account_or_fresh_add [simp]: "account_or_fresh (add_balance_transaction t w) = account_or_fresh w"
  by (simp add: account_or_fresh_def add_balance_transaction_def get_balance_account_def fun_eq_iff)

lemma wallet_transactions_simps [simp]:
  "wallet_transactions (put_balance_account k a w) = wallet_transactions w"
  "wallet_transactions (add_balance_transaction t w) = wallet_transactions w @ [t]"
  by (simp_all add: put_balance_account_def add_balance_transaction_def)

lemma sum_of_simps [simp]:
  "sum_of (put_balance_account k' a w) k = sum_of w k"
  "sum_of (add_balance_transaction t w) k = sum_of w k + (if bt_account t = k then bt_amount t else 0)"
  by (simp_all add: sum_of_def)

lemma ensure_fresh:
  assumes "ensure_account k w = (a, w')"
  shows "a = account_or_fresh w k" and "account_or_fresh w' = account_or_fresh w"
    and "wallet_transactions w' = wallet_transactions w"
proof (atomize (full), cases "get_balance_account w k")
  case None
  then have "account_or_fresh w k = fresh_account" by (simp add: account_or_fresh_def)
  then show "a = account_or_fresh w k \<and> account_or_fresh w' = account_or_fresh w \<and> wallet_transactions w' = wallet_transactions w"
    using assms None by (auto simp: ensure_account_def account_or_fresh_put fun_eq_iff)
next
  case (Some b)
  then show "a = account_or_fresh w k \<and> account_or_fresh w' = account_or_fresh w \<and> wallet_transactions w' = wallet_transactions w"
    using assms by (auto simp: ensure_account_def account_or_fresh_def)
qed

lemma ensure_ok: "ensure_account k w = (a, w') \<Longrightarrow> wallet_ok w' = wallet_ok w"
  by (simp add: wallet_ok_def ensure_fresh sum_of_def)

lemma balance_moved [simp]:
  "balance (credited now x kind a) = money (balance a) + x" "balance (debited now x kind a) = money (balance a) - x"
  by (simp_all add: credited_def debited_def Let_def)

text \<open>An entry moves the balance of its account by its amount and touches no other.\<close>

lemma entry_ok:
  assumes "wallet_ok w" and "ensure_account (bt_account t) w = (a, w1)"
    and "balance a1 = balance a + bt_amount t" and "bt_after t = balance a1" and "0 \<le> balance a1" and "cents (balance a1)"
  shows "wallet_ok (add_balance_transaction t (put_balance_account (bt_account t) a1 w1))"
proof -
  note E = ensure_fresh [OF assms(2)]
  have "sum_of w1 = sum_of w" by (simp add: sum_of_def E(3) fun_eq_iff)
  then show ?thesis using assms(1,3-6) E by (auto simp: wallet_ok_def account_or_fresh_put)
qed

lemma wallet_ok_account: "wallet_ok w \<Longrightarrow> ensure_account k w = (a, w1) \<Longrightarrow> cents (balance a) \<and> 0 \<le> balance a"
  unfolding wallet_ok_def by (metis ensure_fresh(1))

lemma credit_ok:
  assumes "wallet_ok w" and "wallet_credit now k amt source sid kind rate w = (r, w')"
  shows "wallet_ok w'"
proof (cases "money amt \<le> 0 \<or> find_transaction w k source sid kind \<noteq> Inr None")
  case True
  then have "w' = w" using assms(2) by (auto simp: wallet_credit_def Let_def split: if_splits option.splits sum.splits)
  then show ?thesis using assms(1) by simp
next
  case False
  obtain a w1 where e: "ensure_account k w = (a, w1)" by (cases "ensure_account k w")
  let ?t = "\<lparr>bt_account = k, bt_amount = money amt, bt_after = balance (credited now (money amt) kind a), bt_type = kind,
    bt_rate = map_option money rate, bt_source = source, bt_source_id = sid\<rparr>"
  note a = wallet_ok_account [OF assms(1) e]
  have "wallet_ok (add_balance_transaction ?t (put_balance_account (bt_account ?t) (credited now (money amt) kind a) w1))"
    using assms(1) e a False by (intro entry_ok) auto
  then show ?thesis using assms(2) False e by (auto simp: wallet_credit_def Let_def)
qed

lemma debit_ok:
  assumes "wallet_ok w" and "wallet_debit now k amt source sid kind w = (r, w')"
  shows "wallet_ok w'"
proof -
  obtain a w1 where e: "ensure_account k w = (a, w1)" by (cases "ensure_account k w")
  note a = wallet_ok_account [OF assms(1) e]
  show ?thesis
  proof (cases "money amt \<le> 0 \<or> balance a < money amt")
    case True
    then show ?thesis using assms e a ensure_ok [OF e] by (auto simp: wallet_debit_def Let_def split: if_splits)
  next
    case False
    let ?t = "\<lparr>bt_account = k, bt_amount = - money amt, bt_after = balance (debited now (money amt) kind a), bt_type = kind,
      bt_rate = None, bt_source = source, bt_source_id = sid\<rparr>"
    have "wallet_ok (add_balance_transaction ?t (put_balance_account (bt_account ?t) (debited now (money amt) kind a) w1))"
      using assms(1) e a False by (intro entry_ok) auto
    then show ?thesis using assms(2) False e a by (auto simp: wallet_debit_def Let_def)
  qed
qed

lemma wallet_ok_empty: "wallet_ok \<lparr>wallet_accounts = [], wallet_transactions = []\<rparr>"
  by (simp add: wallet_ok_def account_or_fresh_def get_balance_account_def fresh_account_def sum_of_def)

end
