(* ===== verification/Shop.thy ===== *)
theory Shop
  imports Balance Credit
begin

text \<open>
  The tables behind buying (\<^verbatim>\<open>model/distribution.py\<close>, \<^verbatim>\<open>model/billing.py\<close>): plans, orders, return
  requests, automatic renewals and the distribution relations, beside the wallet, the credit accounts
  and the memberships; and the session's unit of work over them.
\<close>

section \<open>Rows\<close>

record sale_plan = plan +
  sale_type :: string
  sale_active :: bool
  purchase_limit :: int
  purchase_limit_period :: string
  quota_refresh_period :: string
  auto_renew_default :: bool
  auto_renew_threshold_percent :: int
  auto_renew_threshold_days :: int

record purchase_order =
  order_id :: int
  order_no :: string
  order_account :: int
  order_plan :: int
  order_type :: string
  order_amount :: rat
  pay_method :: string
  order_source :: string
  order_status :: string
  transaction_id :: "string option"
  paid_at :: "int option"
  refund_at :: "int option"

record return_request =
  return_id :: int
  return_account :: int
  return_order :: int
  return_amount :: rat
  return_status :: string

record auto_renewal =
  renewal_id :: int
  renewal_account :: int
  renewal_plan :: int
  renewal_type :: string
  renewal_method :: string
  renewal_status :: string
  next_renew_at :: "int option"
  last_renewed_at :: "int option"
  renew_count :: int
  fail_count :: int

record shop =
  sale_plans :: "sale_plan list"
  purchase_orders :: "purchase_order list"
  returns :: "return_request list"
  renewals :: "auto_renewal list"
  relations :: "(int \<times> int) list"
  referral_codes :: "(int \<times> string) list"
  shop_wallet :: wallet
  credit_rows :: "(int \<times> credit_account) list"
  credit_log :: "credit_transaction list"
  membership_rows :: "membership list"

text \<open>
  What a request reads besides the tables: the clock (one reading per request) and its reading when the process started, the ids the database
  would give to new rows, the candidates the generators of order numbers and codes would draw, the enabled payment
  channels, the switch of distribution, and the accounts that may invite.
\<close>

record shop_env =
  now :: int
  process_started :: int
  new_order_id :: int
  new_membership_id :: int
  new_renewal_id :: int
  new_return_id :: int
  order_nos :: "string list"
  plain_codes :: "string list"
  channel_enabled :: "string \<Rightarrow> bool"
  distribution_enabled :: bool
  account_active :: "int \<Rightarrow> bool"

section \<open>Queries and writes\<close>

definition find_plan :: "shop \<Rightarrow> int \<Rightarrow> sale_plan option" where
  "find_plan s i = find (\<lambda>p. plan_id p = i) (sale_plans s)"

definition plan_rows :: "shop \<Rightarrow> plan list" where
  "plan_rows s = map plan.truncate (sale_plans s)"

definition find_order :: "shop \<Rightarrow> int \<Rightarrow> purchase_order option" where
  "find_order s i = find (\<lambda>o'. order_id o' = i) (purchase_orders s)"

definition put_order :: "purchase_order \<Rightarrow> shop \<Rightarrow> shop" where
  "put_order r s = s\<lparr>purchase_orders := map (\<lambda>q. if order_id q = order_id r then r else q) (purchase_orders s)\<rparr>"

definition put_renewal :: "auto_renewal \<Rightarrow> shop \<Rightarrow> shop" where
  "put_renewal r s = s\<lparr>renewals := map (\<lambda>q. if renewal_id q = renewal_id r then r else q) (renewals s)\<rparr>"

definition put_return :: "return_request \<Rightarrow> shop \<Rightarrow> shop" where
  "put_return r s = s\<lparr>returns := map (\<lambda>q. if return_id q = return_id r then r else q) (returns s)\<rparr>"

section \<open>Units of work\<close>

text \<open>
  The unique constraints of the tables: one wallet entry per account, source, source id and type, one
  order per number, one return request per order, one superior per account, a code for one account, and one credit entry per
  source, source id and type.
\<close>

definition entry_key :: "balance_transaction \<Rightarrow> int \<times> string \<times> int \<times> string" where
  "entry_key t = (bt_account t, bt_source t, bt_source_id t, bt_type t)"

definition constraints_hold :: "shop \<Rightarrow> bool" where
  "constraints_hold s =
     (distinct (map entry_key (wallet_transactions (shop_wallet s))) \<and>
      distinct (map order_no (purchase_orders s)) \<and>
      distinct (map return_order (returns s)) \<and>
      distinct (map fst (relations s)) \<and>
      distinct (map snd (referral_codes s)) \<and>
      distinct (map (\<lambda>t. (tx_source t, tx_source_id t, tx_kind t)) (credit_log s)))"

type_synonym 'a step = "shop \<Rightarrow> (exn + 'a) \<times> shop"

text \<open>A query flushes what the session holds, and the database checks its constraints then.\<close>

definition autoflush :: "'a step \<Rightarrow> 'a step" where
  "autoflush f s = (if constraints_hold s then f s else (Inl IntegrityError, s))"

definition and_then :: "'a step \<Rightarrow> ('a \<Rightarrow> 'b step) \<Rightarrow> 'b step" where
  "and_then f g s = (case f s of (Inl e, s') \<Rightarrow> (Inl e, s') | (Inr x, s') \<Rightarrow> g x s')"

definition on_wallet :: "(wallet \<Rightarrow> (exn + 'a) \<times> wallet) \<Rightarrow> 'a step" where
  "on_wallet f s = (case f (shop_wallet s) of (r, w) \<Rightarrow> (r, s\<lparr>shop_wallet := w\<rparr>))"

text \<open>The session: what the database holds, and what the request sees.\<close>

record session =
  saved :: shop
  work :: shop

type_synonym 'a request = "session \<Rightarrow> (exn + 'a) \<times> session"

definition commit :: "unit request" where
  "commit u = (if constraints_hold (work u) then (Inr (), u\<lparr>saved := work u\<rparr>) else (Inl IntegrityError, u))"

definition rollback :: "session \<Rightarrow> session" where
  "rollback u = u\<lparr>work := saved u\<rparr>"

definition in_session :: "'a step \<Rightarrow> 'a request" where
  "in_session f u = (case f (work u) of (r, s) \<Rightarrow> (r, u\<lparr>work := s\<rparr>))"

definition then_do :: "'a request \<Rightarrow> ('a \<Rightarrow> 'b request) \<Rightarrow> 'b request" where
  "then_do f g u = (case f u of (Inl e, u') \<Rightarrow> (Inl e, u') | (Inr x, u') \<Rightarrow> g x u')"

text \<open>A whole request: a new session over the database, and nothing uncommitted outlives it.\<close>

definition serve :: "'a request \<Rightarrow> shop \<Rightarrow> (exn + 'a) \<times> shop" where
  "serve f s = (case f \<lparr>saved = s, work = s\<rparr> of (r, u) \<Rightarrow> (r, saved u))"

lemma step_simps [simp]:
  "(and_then f g s = (Inl e, s')) \<longleftrightarrow> f s = (Inl e, s') \<or> (\<exists>x t. f s = (Inr x, t) \<and> g x t = (Inl e, s'))"
  "(and_then f g s = (Inr y, s')) \<longleftrightarrow> (\<exists>x t. f s = (Inr x, t) \<and> g x t = (Inr y, s'))"
  by (auto simp: and_then_def split: prod.splits sum.splits)

lemma request_simps [simp]:
  "(then_do f g u = (Inl e, u')) \<longleftrightarrow> f u = (Inl e, u') \<or> (\<exists>x v. f u = (Inr x, v) \<and> g x v = (Inl e, u'))"
  "(then_do f g u = (Inr y, u')) \<longleftrightarrow> (\<exists>x v. f u = (Inr x, v) \<and> g x v = (Inr y, u'))"
  by (auto simp: then_do_def split: prod.splits sum.splits)

lemma find_order_put: 
  "find_order (put_order r s) i =
     (if find_order s i \<noteq> None \<and> order_id r = i then Some r else find_order s i)"
proof -
  have "find (\<lambda>x. order_id x = i) (map (\<lambda>q. if order_id q = order_id r then r else q) os) =
      (if find (\<lambda>x. order_id x = i) os \<noteq> None \<and> order_id r = i then Some r else find (\<lambda>x. order_id x = i) os)" for os
    by (induction os) auto
  then show ?thesis by (simp add: find_order_def put_order_def)
qed

end
