(* ===== verification/Distribution.thy ===== *)
theory Distribution
  imports Shop
begin

text \<open>
  The distribution of commissions (\<^verbatim>\<open>service/distribution_service.py\<close>): referral codes, the one-level
  relation between an account and its superior, the commission rate with its lock, and the settlement
  of a paid order.
\<close>

section \<open>Referral codes\<close>

text \<open>
  \<^verbatim>\<open>str.upper\<close> on Latin-1.  The micro sign and the y with diaeresis have their upper case outside
  Latin-1; they stay, and no pattern accepts them or what they become.
\<close>

definition upper_char :: "char \<Rightarrow> string" where
  "upper_char c =
     (let n = char_code c in
      if n = 223 then ''SS''
      else if 97 \<le> n \<and> n \<le> 122 \<or> 224 \<le> n \<and> n \<le> 246 \<or> 248 \<le> n \<and> n \<le> 254 then [char_of (n - 32)]
      else [c])"

definition normalize_code :: "string \<Rightarrow> string" where
  "normalize_code code = concat (map upper_char (strip code))"

definition code_start :: "char \<Rightarrow> bool" where
  "code_start c = (is_digit c \<or> (65 \<le> char_code c \<and> char_code c \<le> 90))"

definition code_char :: "char \<Rightarrow> bool" where
  "code_char c = (code_start c \<or> c = CHR ''_'' \<or> c = CHR ''-'')"

text \<open>The pattern \<^verbatim>\<open>^[A-Z0-9][A-Z0-9_-]{2,31}$\<close> on a text without a final newline.\<close>

definition invite_code_pattern :: "string \<Rightarrow> bool" where
  "invite_code_pattern code =
     (case code of [] \<Rightarrow> False
      | c # cs \<Rightarrow> code_start c \<and> 2 \<le> length cs \<and> length cs \<le> 31 \<and> list_all code_char cs)"

definition validate_new_code :: "string \<Rightarrow> exn + string" where
  "validate_new_code code =
     (let n = normalize_code code in
      if \<not> (4 \<le> length n \<and> length n \<le> 32) then Inl (FailError ''code length'')
      else if \<not> invite_code_pattern n then Inl (FailError ''code characters'')
      else Inr n)"

definition code_exists :: "string \<Rightarrow> shop \<Rightarrow> bool" where
  "code_exists code s = (\<exists>q \<in> set (referral_codes s). snd q = code)"

text \<open>\<open>for _ in range(n)\<close> over the candidates drawn; \<open>None\<close> when all of them are taken.\<close>

definition first_free :: "nat \<Rightarrow> (string \<Rightarrow> bool) \<Rightarrow> string list \<Rightarrow> string option" where
  "first_free n taken candidates = find (\<lambda>c. \<not> taken c) (take n candidates)"

definition generate_plain_code :: "shop_env \<Rightarrow> shop \<Rightarrow> exn + string" where
  "generate_plain_code env s =
     (case first_free 50 (\<lambda>c. code_exists c s) (plain_codes env) of
        None \<Rightarrow> Inl (FailError ''no code'')
      | Some c \<Rightarrow> Inr c)"

definition ensure_referral_code :: "shop_env \<Rightarrow> int \<Rightarrow> string step" where
  "ensure_referral_code env account s =
     (case dget (referral_codes s) account of
        Some code \<Rightarrow> (Inr code, s)
      | None \<Rightarrow>
          (case generate_plain_code env s of
             Inl e \<Rightarrow> (Inl e, s)
           | Inr code \<Rightarrow> (Inr code, s\<lparr>referral_codes := dset account code (referral_codes s)\<rparr>)))"

definition update_referral_code :: "shop_env \<Rightarrow> int \<Rightarrow> string \<Rightarrow> string request" where
  "update_referral_code env account new_code u =
     (case validate_new_code new_code of
        Inl e \<Rightarrow> (Inl e, u)
      | Inr code \<Rightarrow>
          if code_exists code (work u) then (Inl (FailError ''code taken''), u)
          else then_do (in_session (ensure_referral_code env account)) (\<lambda>old.
            then_do (in_session (\<lambda>s. (Inr (), s\<lparr>referral_codes := dset account code (referral_codes s)\<rparr>)))
              (\<lambda>_. then_do commit (\<lambda>_ u'. (Inr code, u')))) u)"

section \<open>Relations\<close>

definition relation_of :: "int \<Rightarrow> shop \<Rightarrow> int option" where
  "relation_of account s = dget (relations s) account"

definition put_relation :: "int \<Rightarrow> int \<Rightarrow> shop \<Rightarrow> shop" where
  "put_relation invitee inviter s = s\<lparr>relations := dset invitee inviter (relations s)\<rparr>"

interpretation relation_store: kv_store put_relation "\<lambda>s account. relation_of account s"
  by unfold_locales (simp add: put_relation_def relation_of_def)

definition shop_member :: "shop_env \<Rightarrow> int \<Rightarrow> shop \<Rightarrow> bool" where
  "shop_member env account s = has_active_membership (plan_rows s) (membership_rows s) account (now env)"

definition bind_superior :: "shop_env \<Rightarrow> int \<Rightarrow> int \<Rightarrow> unit step" where
  "bind_superior env invitee inviter s =
     (if invitee = inviter then (Inl (FailError ''own superior''), s)
      else if \<not> account_active env inviter then (Inl (FailError ''inviter unavailable''), s)
      else if \<not> shop_member env inviter s then (Inl (FailError ''inviter without membership''), s)
      else if relation_of inviter s = Some invitee then (Inl (FailError ''mutual superiors''), s)
      else (Inr (), put_relation invitee inviter s))"

definition unbind_superior :: "int \<Rightarrow> shop \<Rightarrow> bool \<times> shop" where
  "unbind_superior invitee s =
     (case relation_of invitee s of
        None \<Rightarrow> (False, s)
      | Some r \<Rightarrow> (True, s\<lparr>relations := filter (\<lambda>q. fst q \<noteq> invitee) (relations s)\<rparr>))"

definition direct_subordinate_count :: "int \<Rightarrow> shop \<Rightarrow> nat" where
  "direct_subordinate_count account s = length (filter (\<lambda>q. snd q = account) (relations s))"

definition resolve_inviter_by_code :: "shop_env \<Rightarrow> string \<Rightarrow> shop \<Rightarrow> int option" where
  "resolve_inviter_by_code env code s =
     (let n = normalize_code code in
      if n = [] then None
      else (case find (\<lambda>q. snd q = n) (referral_codes s) of
          None \<Rightarrow> None
        | Some q \<Rightarrow>
            if account_active env (fst q) \<and> shop_member env (fst q) s then Some (fst q) else None))"

section \<open>Commissions\<close>

definition commission_rate_low :: rat where "commission_rate_low = 20 / 100"

definition commission_rate_high :: rat where "commission_rate_high = 30 / 100"

definition high_rate_min_subordinates :: nat where "high_rate_min_subordinates = 5"

text \<open>The rate, and the account with its lock.\<close>

definition commission_rate :: "int \<Rightarrow> balance_account \<Rightarrow> nat \<Rightarrow> rat \<times> balance_account" where
  "commission_rate started a n =
     (if high_rate_locked a then (commission_rate_high, a)
      else if high_rate_min_subordinates \<le> n
      then (commission_rate_high, a\<lparr>high_rate_locked := True, balance_updated := started\<rparr>)
      else (commission_rate_low, a))"

definition settle :: "shop_env \<Rightarrow> int \<Rightarrow> rat \<Rightarrow> string \<Rightarrow> int \<Rightarrow> unit step" where
  "settle env account amt source source_id s =
     (case relation_of account s of
        None \<Rightarrow> (Inr (), s)
      | Some inviter \<Rightarrow>
          (case ensure_account inviter (shop_wallet s) of (a, w1) \<Rightarrow>
            (case commission_rate (process_started env) a (direct_subordinate_count inviter s) of (rate, a1) \<Rightarrow>
              (let w2 = put_balance_account inviter a1 w1;
                   s2 = s\<lparr>shop_wallet := w2\<rparr>;
                   commission = money (amt * rate) in
               if commission \<le> 0 then (Inr (), s2)
               else
                 (case wallet_credit (now env) inviter commission source source_id ''commission'' (Some rate) w2 of
                    (Inl e, w3) \<Rightarrow> (Inl e, s2\<lparr>shop_wallet := w3\<rparr>)
                  | (Inr t, w3) \<Rightarrow> (Inr (), s2\<lparr>shop_wallet := w3\<rparr>))))))"

definition settle_commission_for_order :: "shop_env \<Rightarrow> int \<Rightarrow> purchase_order \<Rightarrow> unit step" where
  "settle_commission_for_order env account r s =
     (if \<not> distribution_enabled env then (Inr (), s)
      else if order_type r \<noteq> ''membership'' \<and> order_type r \<noteq> ''credits'' then (Inr (), s)
      else autoflush (settle env account (money (order_amount r)) ''order'' (order_id r)) s)"

definition settle_commission_for_redeem :: "shop_env \<Rightarrow> int \<Rightarrow> sale_plan \<Rightarrow> int \<Rightarrow> unit step" where
  "settle_commission_for_redeem env account p source_id s =
     (if \<not> distribution_enabled env then (Inr (), s)
      else autoflush (settle env account (money (plan_price p)) ''redeem_code'' source_id) s)"

end
