(* ===== verification/Orders.thy ===== *)
theory Orders
  imports Distribution
begin

text \<open>
  Orders (\<^verbatim>\<open>service/order_service.py\<close>): creation under the purchase limits, payment from the balance,
  confirmation with the rights it delivers, cancelling, and the callback of a payment channel.
  An operation gets the order row the session has read: another session may have written the row since.
\<close>

section \<open>Purchase limits\<close>

text \<open>The day of the month of a day counted from 1970-01-01, in the proleptic Gregorian calendar.\<close>

definition day_of_month :: "int \<Rightarrow> int" where
  "day_of_month days =
     (let doe = (days + 719468) mod 146097;
          yoe = (doe - doe div 1460 + doe div 36524 - doe div 146096) div 365;
          doy = doe - (365 * yoe + yoe div 4 - yoe div 100);
          mp = (5 * doy + 2) div 153
      in doy - (153 * mp + 2) div 5 + 1)"

definition day_start :: "int \<Rightarrow> int" where
  "day_start t = t div day * day"

definition purchase_limit_since :: "int \<Rightarrow> string \<Rightarrow> int option" where
  "purchase_limit_since t period =
     (if period = ''day'' then Some (day_start t)
      else if period = ''week'' then Some (day_start t - (t div day + 3) mod 7 * day)
      else if period = ''month'' then Some (day_start t - (day_of_month (t div day) - 1) * day)
      else None)"

definition period_steps :: "string list" where
  "period_steps = [''all'', ''day'', ''week'', ''month'']"

definition clean :: "string \<Rightarrow> string" where
  "clean s = map lower_char (strip s)"

definition counted :: "int \<Rightarrow> int \<Rightarrow> int option \<Rightarrow> purchase_order \<Rightarrow> bool" where
  "counted account plan since r =
     (order_account r = account \<and> order_plan r = plan \<and> order_status r = ''paid'' \<and>
      (case since of None \<Rightarrow> True | Some t \<Rightarrow> (case paid_at r of None \<Rightarrow> False | Some x \<Rightarrow> t \<le> x)))"

definition enforce_purchase_limit :: "shop_env \<Rightarrow> int \<Rightarrow> sale_plan \<Rightarrow> shop \<Rightarrow> exn + unit" where
  "enforce_purchase_limit env account p s =
     (let period = clean (if purchase_limit_period p = [] then ''none'' else purchase_limit_period p) in
      if purchase_limit p \<le> 0 \<or> period \<notin> set period_steps then Inr ()
      else
        (let since = purchase_limit_since (now env) period in
         if purchase_limit p \<le> int (length (filter (counted account (plan_id p) since) (purchase_orders s)))
         then Inl (FailError ''purchase limit'')
         else Inr ()))"

section \<open>Creating an order\<close>

definition online_methods :: "string list" where
  "online_methods = [''wechat'', ''alipay'']"

definition balance_method :: string where
  "balance_method = ''balance''"

definition normalize_provider :: "string \<Rightarrow> string" where
  "normalize_provider provider =
     (let p = clean provider in if p = ''wechatpay'' then ''wechat'' else p)"

definition sale_types :: "string list" where
  "sale_types = [''balance'', ''membership'', ''credits'', ''storage_addon'']"

definition plan_type :: "sale_plan \<Rightarrow> string" where
  "plan_type p = clean (if sale_type p = [] then ''membership'' else sale_type p)"

definition generate_order_no :: "shop_env \<Rightarrow> shop \<Rightarrow> exn + string" where
  "generate_order_no env s =
     (case first_free 20 (\<lambda>n. n \<in> set (map order_no (purchase_orders s))) (order_nos env) of
        None \<Rightarrow> Inl (FailError ''no order number'')
      | Some n \<Rightarrow> Inr n)"

text \<open>The checks before the order row is made, in their order.\<close>

definition check_order :: "shop_env \<Rightarrow> int \<Rightarrow> int \<Rightarrow> string \<Rightarrow> shop \<Rightarrow> exn + sale_plan \<times> string" where
  "check_order env account i method s =
     (case find_plan s i of
        None \<Rightarrow> Inl (FailError ''no such plan'')
      | Some p \<Rightarrow>
          (let raw = normalize_provider (clean method); kind = plan_type p in
           if \<not> sale_active p then Inl (FailError ''no such plan'')
           else if kind \<notin> set sale_types then Inl (FailError ''plan type'')
           else if kind = ''balance'' \<and> raw \<notin> set online_methods then Inl (FailError ''top-up is online only'')
           else if kind \<noteq> ''balance'' \<and> raw \<notin> set (online_methods @ [balance_method])
           then Inl (FailError ''payment method'')
           else if raw \<in> set online_methods \<and> \<not> channel_enabled env raw then Inl (FailError ''channel closed'')
           else (case enforce_purchase_limit env account p s of
               Inl e \<Rightarrow> Inl e
             | Inr _ \<Rightarrow> Inr (p, raw))))"

definition new_order :: "shop_env \<Rightarrow> int \<Rightarrow> sale_plan \<Rightarrow> string \<Rightarrow> string \<Rightarrow> string \<Rightarrow> purchase_order" where
  "new_order env account p raw source n =
     \<lparr>order_id = new_order_id env, order_no = n, order_account = account, order_plan = plan_id p,
      order_type = plan_type p, order_amount = money (plan_price p), pay_method = raw,
      order_source = source, order_status = ''pending'', transaction_id = None, paid_at = None,
      refund_at = None\<rparr>"

definition create_order :: "shop_env \<Rightarrow> int \<Rightarrow> int \<Rightarrow> string \<Rightarrow> string \<Rightarrow> purchase_order request" where
  "create_order env account i method source u =
     (case check_order env account i method (work u) of
        Inl e \<Rightarrow> (Inl e, u)
      | Inr (p, raw) \<Rightarrow>
          (case generate_order_no env (work u) of
             Inl e \<Rightarrow> (Inl e, u)
           | Inr n \<Rightarrow>
               (let r = new_order env account p raw source n in
                then_do commit (\<lambda>_ u'. (Inr r, u'))
                  (u\<lparr>work := (work u)\<lparr>purchase_orders := purchase_orders (work u) @ [r]\<rparr>\<rparr>))))"

section \<open>The rights of a paid order\<close>

definition upsert_membership :: "shop_env \<Rightarrow> int \<Rightarrow> sale_plan \<Rightarrow> int \<Rightarrow> shop \<Rightarrow> shop" where
  "upsert_membership env account p source_id s =
     s\<lparr>membership_rows := snd (activate_or_extend_membership (new_membership_id env) (db_second (now env))
        (membership_rows s) account (plan.truncate p) ''order'' source_id (now env))\<rparr>"

definition granted_account :: "int \<Rightarrow> int \<Rightarrow> sale_plan option \<Rightarrow> credit_account \<Rightarrow> credit_account" where
  "granted_account t n quota_plan a =
     (let a1 = (case quota_plan of
            Some p \<Rightarrow>
              if (if quota_refresh_period p = [] then ''none'' else quota_refresh_period p) = ''cycle'' \<and> 0 < plan_days p
              then a\<lparr>quota_granted := n, quota_cycle_days := plan_days p, quota_credit := n,
                     quota_reset_at := Some (t + plan_days p * day)\<rparr>
              else a\<lparr>quota_credit := quota_credit a + n\<rparr>
          | None \<Rightarrow> a\<lparr>permanent_credit := permanent_credit a + n\<rparr>)
      in a1\<lparr>total_granted := total_granted a1 + n, account_updated := t\<rparr>)"

text \<open>The quota pool is named by the plan; \<open>None\<close> is the permanent pool.\<close>

definition grant_credits :: "shop_env \<Rightarrow> int \<Rightarrow> int \<Rightarrow> int \<Rightarrow> sale_plan option \<Rightarrow> shop \<Rightarrow> shop" where
  "grant_credits env account n source_id quota_plan s =
     (let a = granted_account (now env) n quota_plan (dget_or (credit_rows s) account new_account);
          t = \<lparr>tx_account = account, tx_amount = n, tx_balance = available_tokens a, tx_kind = OrderGrant,
               tx_source = ''order'', tx_source_id = source_id, tx_created = db_second (now env)\<rparr>
      in s\<lparr>credit_rows := dset account a (credit_rows s), credit_log := credit_log s @ [t]\<rparr>)"

definition fulfill_rights :: "shop_env \<Rightarrow> purchase_order \<Rightarrow> unit step" where
  "fulfill_rights env r = autoflush (\<lambda>s.
     (case find_plan s (order_plan r) of
        None \<Rightarrow> (Inl (FailError ''plan gone''), s)
      | Some p \<Rightarrow>
          (Inr (),
           if order_type r = ''storage_addon'' then s
           else if order_type r = ''membership''
           then grant_credits env (order_account r) (plan_grant p) (order_id r) (Some p)
                  (upsert_membership env (order_account r) p (order_id r) s)
           else if order_type r = ''credits''
           then grant_credits env (order_account r) (plan_grant p) (order_id r) None s
           else s)))"

definition lead_days :: "sale_plan option \<Rightarrow> int" where
  "lead_days p =
     (case p of
        None \<Rightarrow> 1
      | Some q \<Rightarrow> max (if auto_renew_threshold_days q = 0 then 1 else auto_renew_threshold_days q) 1)"

definition shop_membership :: "shop_env \<Rightarrow> int \<Rightarrow> shop \<Rightarrow> membership option" where
  "shop_membership env account s =
     resolve_current_membership (plan_rows s) (membership_rows s) account (now env)"

definition membership_next_renew :: "shop_env \<Rightarrow> int \<Rightarrow> sale_plan option \<Rightarrow> shop \<Rightarrow> int" where
  "membership_next_renew env account p s =
     (case shop_membership env account s of
        None \<Rightarrow> now env + 30 * day
      | Some m \<Rightarrow>
          (case ms_expires m of
             None \<Rightarrow> now env + 30 * day
           | Some t \<Rightarrow> t - lead_days p * day))"

definition open_renewal :: "int \<Rightarrow> int \<Rightarrow> auto_renewal \<Rightarrow> bool" where
  "open_renewal account i q =
     (renewal_account q = account \<and> renewal_plan q = i \<and>
      renewal_status q \<in> {''active'', ''paused'', ''failed''})"

definition maybe_enable_auto_renewal :: "shop_env \<Rightarrow> purchase_order \<Rightarrow> unit step" where
  "maybe_enable_auto_renewal env r = autoflush (\<lambda>s.
     (case find_plan s (order_plan r) of
        None \<Rightarrow> (Inr (), s)
      | Some p \<Rightarrow>
          if order_type r = ''balance'' \<or> \<not> sale_active p \<or> \<not> auto_renew_default p then (Inr (), s)
          else
            (case one_or_none (filter (open_renewal (order_account r) (plan_id p)) (renewals s)) of
               Inl e \<Rightarrow> (Inl e, s)
             | Inr existing \<Rightarrow>
                 (let next = if order_type r = ''membership''
                             then Some (membership_next_renew env (order_account r) (Some p) s) else None in
                  case existing of
                    Some q \<Rightarrow>
                      (Inr (), if renewal_status q = ''active'' then s
                               else put_renewal (q\<lparr>renewal_status := ''active'', renewal_method := balance_method,
                                      fail_count := 0, next_renew_at := next\<rparr>) s)
                  | None \<Rightarrow>
                      (Inr (), s\<lparr>renewals := renewals s @
                         [\<lparr>renewal_id = new_renewal_id env, renewal_account = order_account r,
                           renewal_plan = plan_id p, renewal_type = order_type r,
                           renewal_method = balance_method, renewal_status = ''active'',
                           next_renew_at = next, last_renewed_at = None, renew_count = 0,
                           fail_count = 0\<rparr>]\<rparr>)))))"

section \<open>Payment\<close>

text \<open>\<open>_commit_idempotent\<close>: a violated constraint of the wallet or of the order numbers is reported as a
  conflict, another one is raised as it is.\<close>

definition commit_idempotent :: "unit request" where
  "commit_idempotent u =
     (case commit u of
        (Inr x, u') \<Rightarrow> (Inr x, u')
      | (Inl e, u') \<Rightarrow>
          (if distinct (map entry_key (wallet_transactions (shop_wallet (work u))))
              \<and> distinct (map order_no (purchase_orders (work u)))
           then Inl e else Inl (FailError ''conflict''), rollback u'))"

definition deliver :: "shop_env \<Rightarrow> purchase_order \<Rightarrow> unit step" where
  "deliver env r =
     (if order_type r = ''balance''
      then autoflush (and_then
             (on_wallet (wallet_credit (now env) (order_account r) (order_amount r) ''order'' (order_id r) ''recharge'' None))
             (\<lambda>_ s. (Inr (), s)))
      else and_then (fulfill_rights env r)
             (\<lambda>_. and_then (maybe_enable_auto_renewal env r)
               (\<lambda>_. settle_commission_for_order env (order_account r) r)))"

definition with_transaction :: "string option \<Rightarrow> purchase_order \<Rightarrow> purchase_order" where
  "with_transaction tx r = (if tx = None \<or> tx = Some [] then r else r\<lparr>transaction_id := tx\<rparr>)"

definition confirm_paid :: "shop_env \<Rightarrow> string option \<Rightarrow> purchase_order \<Rightarrow> purchase_order request" where
  "confirm_paid env tx r u =
     (if order_status r = ''paid''
      then (let r' = if transaction_id r = None \<or> transaction_id r = Some [] then with_transaction tx r else r in
            (Inr r', u\<lparr>work := put_order r' (work u)\<rparr>))
      else if order_status r \<noteq> ''pending'' then (Inl (FailError ''order status''), u)
      else
        (let r' = with_transaction tx (r\<lparr>order_status := ''paid'', paid_at := Some (now env)\<rparr>) in
         then_do (in_session (deliver env r'))
           (\<lambda>_. then_do commit_idempotent (\<lambda>_ u'. (Inr r', u')))
           (u\<lparr>work := put_order r' (work u)\<rparr>)))"

definition debit_purchase :: "shop_env \<Rightarrow> purchase_order \<Rightarrow> balance_transaction step" where
  "debit_purchase env r =
     on_wallet (wallet_debit (now env) (order_account r) (order_amount r) ''order'' (order_id r) ''purchase'')"

definition pay_with_balance :: "shop_env \<Rightarrow> purchase_order \<Rightarrow> purchase_order request" where
  "pay_with_balance env r u =
     (if pay_method r \<noteq> balance_method then (Inl (FailError ''not a balance order''), u)
      else if order_status r \<noteq> ''pending'' then (Inl (FailError ''order status''), u)
      else
        (case ensure_account (order_account r) (shop_wallet (work u)) of (a, w1) \<Rightarrow>
          (let u1 = u\<lparr>work := (work u)\<lparr>shop_wallet := w1\<rparr>\<rparr> in
           if money (balance a) < money (order_amount r) then (Inl (FailError ''insufficient balance''), u1)
           else if 0 < money (order_amount r)
           then then_do (in_session (debit_purchase env r)) (\<lambda>_. confirm_paid env None r) u1
           else confirm_paid env None r u1)))"

text \<open>The request that a payment channel answers is a parameter.\<close>

definition pay_with_online :: "shop_env \<Rightarrow> (purchase_order \<Rightarrow> exn + string) \<Rightarrow> purchase_order \<Rightarrow> exn + string" where
  "pay_with_online env create_payment r =
     (if pay_method r \<notin> set online_methods then Inl (FailError ''not an online order'')
      else if order_status r \<noteq> ''pending'' then Inl (FailError ''order status'')
      else if \<not> channel_enabled env (pay_method r) then Inl (FailError ''channel closed'')
      else create_payment r)"

definition create_and_handle ::
  "shop_env \<Rightarrow> (purchase_order \<Rightarrow> exn + string) \<Rightarrow> int \<Rightarrow> int \<Rightarrow> string \<Rightarrow> string
     \<Rightarrow> (purchase_order \<times> string option) request" where
  "create_and_handle env create_payment account i method source =
     then_do (create_order env account i method source) (\<lambda>r.
       if method = balance_method
       then then_do (pay_with_balance env r) (\<lambda>paid u. (Inr (paid, None), u))
       else (\<lambda>u. (case pay_with_online env create_payment r of
           Inl e \<Rightarrow> (Inl e, u)
         | Inr params \<Rightarrow> (Inr (r, Some params), u))))"

section \<open>Orders by number\<close>

definition get_order :: "string \<Rightarrow> int option \<Rightarrow> shop \<Rightarrow> exn + purchase_order" where
  "get_order n account s =
     (case find (\<lambda>q. order_no q = n \<and> (account = None \<or> account = Some (order_account q))) (purchase_orders s) of
        None \<Rightarrow> Inl (NotFoundError ''order'')
      | Some r \<Rightarrow> Inr r)"

definition with_order :: "string \<Rightarrow> int option \<Rightarrow> (purchase_order \<Rightarrow> 'a request) \<Rightarrow> 'a request" where
  "with_order n account f u =
     (case get_order n account (work u) of Inl e \<Rightarrow> (Inl e, u) | Inr r \<Rightarrow> f r u)"

definition cancel :: "string \<Rightarrow> int option \<Rightarrow> purchase_order request" where
  "cancel n account = with_order n account (\<lambda>r u.
     if order_status r \<noteq> ''pending'' then (Inl (FailError ''only pending orders''), u)
     else (let r' = r\<lparr>order_status := ''closed''\<rparr> in
       then_do commit_idempotent (\<lambda>_ u'. (Inr r', u')) (u\<lparr>work := put_order r' (work u)\<rparr>)))"

definition mock_paid :: "shop_env \<Rightarrow> string \<Rightarrow> purchase_order request" where
  "mock_paid env n = with_order n None (\<lambda>r. confirm_paid env (Some (''MOCK-'' @ order_no r)) r)"

text \<open>What a verified callback says, and the comparison of the amounts in binary floats.\<close>

record callback =
  cb_paid :: bool
  cb_order_no :: string
  cb_amount :: "rat option"
  cb_amount_fen :: "int option"
  cb_transaction :: "string option"

definition amount_matches :: "rat \<Rightarrow> callback \<Rightarrow> bool" where
  "amount_matches amt cb =
     ((case cb_amount cb of
         None \<Rightarrow> True
       | Some x \<Rightarrow> \<bar>rnd (rnd (rnd amt * 100) - rnd (rnd x * 100))\<bar> \<le> 1) \<and>
      (case cb_amount_fen cb of
         None \<Rightarrow> True
       | Some fen \<Rightarrow> \<bar>round_half_even (rnd (rnd amt * 100)) - fen\<bar> \<le> 1))"

definition handle_notify :: "shop_env \<Rightarrow> callback \<Rightarrow> purchase_order request" where
  "handle_notify env cb =
     (if \<not> cb_paid cb \<or> cb_order_no cb = [] then (\<lambda>u. (Inl (FailError ''callback refused''), u))
      else with_order (cb_order_no cb) None (\<lambda>r.
        if amount_matches (order_amount r) cb then confirm_paid env (cb_transaction cb) r
        else (\<lambda>u. (Inl (FailError ''amount differs''), u))))"

end
