(* ===== verification/Refunds.thy ===== *)
theory Refunds
  imports Orders
begin

text \<open>
  Refunds (\<^verbatim>\<open>service/refund_service.py\<close>): the request of a buyer, and its review: the money goes back,
  the rights are reclaimed, and the superior's commission is taken back or the order is held.
\<close>

definition order_rights_consumed :: "purchase_order \<Rightarrow> shop \<Rightarrow> bool" where
  "order_rights_consumed r s =
     (\<exists>t \<in> set (credit_log s).
        tx_account t = order_account r \<and> tx_kind t = Consume \<and>
        (case paid_at r of None \<Rightarrow> False | Some x \<Rightarrow> x \<le> tx_created t))"

definition pending_return :: "int \<Rightarrow> return_request \<Rightarrow> bool" where
  "pending_return i q = (return_order q = i \<and> return_status q = ''pending'')"

definition create_refund :: "shop_env \<Rightarrow> int \<Rightarrow> string \<Rightarrow> return_request request" where
  "create_refund env account n = with_order n (Some account) (\<lambda>r u.
     if order_status r \<noteq> ''paid'' then (Inl (FailError ''only paid orders''), u)
     else
       (case one_or_none (filter (pending_return (order_id r)) (returns (work u))) of
          Inl e \<Rightarrow> (Inl e, u)
        | Inr (Some q) \<Rightarrow> (Inl (FailError ''request pending''), u)
        | Inr None \<Rightarrow>
            if order_type r \<noteq> ''balance'' \<and> order_rights_consumed r (work u)
            then (Inl (FailError ''rights consumed''), u)
            else
              (let q = \<lparr>return_id = new_return_id env, return_account = account, return_order = order_id r,
                        return_amount = order_amount r, return_status = ''pending''\<rparr> in
               then_do commit (\<lambda>_ u'. (Inr q, u')) (u\<lparr>work := (work u)\<lparr>returns := returns (work u) @ [q]\<rparr>\<rparr>))))"

section \<open>The review\<close>

definition refund_funds :: "shop_env \<Rightarrow> purchase_order \<Rightarrow> unit step" where
  "refund_funds env r =
     (if order_type r = ''balance''
      then and_then (on_wallet (wallet_debit (now env) (order_account r) (order_amount r) ''order'' (order_id r) ''refund''))
             (\<lambda>_ s. (Inr (), s))
      else if pay_method r = ''balance''
      then and_then (on_wallet (wallet_credit (now env) (order_account r) (order_amount r) ''order'' (order_id r) ''refund'' None))
             (\<lambda>_ s. (Inr (), s))
      else (\<lambda>s. (Inr (), s)))"

definition adjust_credit :: "shop_env \<Rightarrow> purchase_order \<Rightarrow> bool \<Rightarrow> shop \<Rightarrow> shop" where
  "adjust_credit env r quota s =
     (let grant = (case find_plan s (order_plan r) of None \<Rightarrow> 0 | Some p \<Rightarrow> plan_grant p) in
      case dget (credit_rows s) (order_account r) of
        None \<Rightarrow> s
      | Some a \<Rightarrow>
          (let a1 = (if quota then a\<lparr>quota_credit := 0\<rparr>
                     else a\<lparr>permanent_credit := max (permanent_credit a - grant) 0\<rparr>) in
           s\<lparr>credit_rows := dset (order_account r) (a1\<lparr>account_updated := now env\<rparr>) (credit_rows s)\<rparr>))"

definition end_membership :: "shop_env \<Rightarrow> purchase_order \<Rightarrow> shop \<Rightarrow> shop" where
  "end_membership env r s =
     (case find_membership_by_source (membership_rows s) (order_account r) ''order'' (order_id r) of
        None \<Rightarrow> s
      | Some m \<Rightarrow>
          if ms_status m = ''active''
          then s\<lparr>membership_rows := set_row (expire_row (now env) m) (membership_rows s)\<rparr>
          else s)"

definition reclaim_rights :: "shop_env \<Rightarrow> purchase_order \<Rightarrow> shop \<Rightarrow> shop" where
  "reclaim_rights env r s =
     (if order_type r = ''membership'' then adjust_credit env r True (end_membership env r s)
      else if order_type r = ''credits'' then adjust_credit env r False s
      else s)"

text \<open>\<open>True\<close> when the superior's balance does not cover the commission.\<close>

definition clawback_commission :: "shop_env \<Rightarrow> purchase_order \<Rightarrow> bool step" where
  "clawback_commission env r = autoflush (\<lambda>s.
     (case one_or_none (filter (\<lambda>t. bt_source t = ''order'' \<and> bt_source_id t = order_id r \<and> bt_type t = ''commission'')
             (wallet_transactions (shop_wallet s))) of
        Inl e \<Rightarrow> (Inl e, s)
      | Inr None \<Rightarrow> (Inr False, s)
      | Inr (Some t) \<Rightarrow>
          (case on_wallet (wallet_debit (now env) (bt_account t) (bt_amount t) ''order'' (order_id r) ''refund'') s of
             (Inr x, s') \<Rightarrow> (Inr False, s')
           | (Inl (ValueError m), s') \<Rightarrow> (Inr True, s')
           | (Inl e, s') \<Rightarrow> (Inl e, s'))))"

definition close_order :: "shop_env \<Rightarrow> string \<Rightarrow> purchase_order \<Rightarrow> return_request \<Rightarrow> return_request request" where
  "close_order env status r q u =
     (let q' = q\<lparr>return_status := ''approved''\<rparr>;
          u' = u\<lparr>work := put_return q' (put_order (r\<lparr>order_status := status, refund_at := Some (now env)\<rparr>) (work u))\<rparr>
      in (case commit u' of
            (Inr x, v) \<Rightarrow> (Inr q', v)
          | (Inl e, v) \<Rightarrow> (Inl e, rollback v)))"

definition find_return :: "int \<Rightarrow> shop \<Rightarrow> exn + return_request" where
  "find_return i s =
     (case find (\<lambda>q. return_id q = i) (returns s) of
        None \<Rightarrow> Inl (NotFoundError ''return request'')
      | Some q \<Rightarrow> Inr q)"

definition approve :: "shop_env \<Rightarrow> int \<Rightarrow> return_request request" where
  "approve env i u =
     (case find_return i (work u) of
        Inl e \<Rightarrow> (Inl e, u)
      | Inr q \<Rightarrow>
          if return_status q \<noteq> ''pending'' then (Inl (FailError ''request done''), u)
          else
            (case find_order (work u) (return_order q) of
               None \<Rightarrow> (Inl (FailError ''order state''), u)
             | Some r \<Rightarrow>
                 if order_status r \<noteq> ''paid'' then (Inl (FailError ''order state''), u)
                 else then_do (in_session (refund_funds env r)) (\<lambda>_.
                   if order_type r = ''balance'' then close_order env ''refunded'' r q
                   else then_do (in_session (autoflush (\<lambda>s. (Inr (), reclaim_rights env r s)))) (\<lambda>_.
                     then_do (in_session (clawback_commission env r)) (\<lambda>hold.
                       close_order env (if hold then ''refund_hold'' else ''refunded'') r q))) u))"

definition reject :: "int \<Rightarrow> return_request request" where
  "reject i u =
     (case find_return i (work u) of
        Inl e \<Rightarrow> (Inl e, u)
      | Inr q \<Rightarrow>
          if return_status q \<noteq> ''pending'' then (Inl (FailError ''request done''), u)
          else
            (let q' = q\<lparr>return_status := ''rejected''\<rparr> in
             case commit (u\<lparr>work := put_return q' (work u)\<rparr>) of
               (Inr x, v) \<Rightarrow> (Inr q', v)
             | (Inl e, v) \<Rightarrow> (Inl e, rollback v)))"

end
