(* ===== verification/Auto_Renewal.thy ===== *)
theory Auto_Renewal
  imports Orders
begin

text \<open>
  Automatic renewal (\<^verbatim>\<open>service/auto_renewal_service.py\<close>): opening and managing the renewals of an
  account, one run of a renewal, the check of the remaining credits and the periodic scan.
\<close>

definition max_fail_count :: int where "max_fail_count = 3"

definition compute_membership_next_renew :: "shop_env \<Rightarrow> int \<Rightarrow> sale_plan \<Rightarrow> shop \<Rightarrow> int" where
  "compute_membership_next_renew env account p s =
     (let base = (case shop_membership env account s of
            None \<Rightarrow> now env + plan_days p * day
          | Some m \<Rightarrow>
              (case ms_expires m of
                 None \<Rightarrow> now env + plan_days p * day
               | Some t \<Rightarrow> if membership_is_effective m (now env) then t else now env + plan_days p * day))
      in base - lead_days (Some p) * day)"

definition create_renewal :: "shop_env \<Rightarrow> int \<Rightarrow> int \<Rightarrow> string \<Rightarrow> auto_renewal request" where
  "create_renewal env account i method u =
     (case find_plan (work u) i of
        None \<Rightarrow> (Inl (FailError ''no such plan''), u)
      | Some p \<Rightarrow>
          (let kind = plan_type p; raw = clean method;
               next = (if kind = ''membership''
                       then Some (compute_membership_next_renew env account p (work u)) else None) in
           if \<not> sale_active p then (Inl (FailError ''no such plan''), u)
           else if kind \<noteq> ''membership'' \<and> kind \<noteq> ''credits'' then (Inl (FailError ''plan type''), u)
           else if raw \<noteq> ''balance'' then (Inl (FailError ''only the balance''), u)
           else
             (case one_or_none (filter (open_renewal account (plan_id p)) (renewals (work u))) of
                Inl e \<Rightarrow> (Inl e, u)
              | Inr (Some q) \<Rightarrow>
                  if renewal_status q = ''active'' then (Inl (FailError ''renewal open''), u)
                  else
                    (let q' = q\<lparr>renewal_status := ''active'', renewal_method := raw, fail_count := 0,
                                next_renew_at := if next = None then next_renew_at q else next\<rparr> in
                     (Inr q', u\<lparr>work := put_renewal q' (work u)\<rparr>))
              | Inr None \<Rightarrow>
                  (let q' = \<lparr>renewal_id = new_renewal_id env, renewal_account = account,
                             renewal_plan = plan_id p, renewal_type = kind, renewal_method = raw,
                             renewal_status = ''active'', next_renew_at = next, last_renewed_at = None,
                             renew_count = 0, fail_count = 0\<rparr> in
                   then_do commit (\<lambda>_ u'. (Inr q', u'))
                     (u\<lparr>work := (work u)\<lparr>renewals := renewals (work u) @ [q']\<rparr>\<rparr>)))))"

definition find_renewal :: "shop \<Rightarrow> int \<Rightarrow> auto_renewal option" where
  "find_renewal s i = find (\<lambda>q. renewal_id q = i) (renewals s)"

definition action_status :: "string \<Rightarrow> string option" where
  "action_status action =
     (if action = ''pause'' then Some ''paused''
      else if action = ''resume'' then Some ''active''
      else if action = ''cancel'' then Some ''cancelled''
      else None)"

definition set_renewal_status :: "int \<Rightarrow> int \<Rightarrow> string \<Rightarrow> auto_renewal request" where
  "set_renewal_status account i action u =
     (case find (\<lambda>q. renewal_id q = i \<and> renewal_account q = account) (renewals (work u)) of
        None \<Rightarrow> (Inl (NotFoundError ''renewal''), u)
      | Some q \<Rightarrow>
          if renewal_status q = ''cancelled'' then (Inl (FailError ''renewal cancelled''), u)
          else
            (case action_status action of
               None \<Rightarrow> (Inl (FailError ''action''), u)
             | Some status \<Rightarrow>
                 (let q' = q\<lparr>renewal_status := status\<rparr> in
                  then_do commit (\<lambda>_ u'. (Inr q', u')) (u\<lparr>work := put_renewal q' (work u)\<rparr>))))"

section \<open>One run\<close>

datatype run_result = Skipped | Cooldown | Renewed | Failed

definition next_membership_expires :: "shop_env \<Rightarrow> int \<Rightarrow> int \<Rightarrow> shop \<Rightarrow> int" where
  "next_membership_expires env account i s = membership_next_renew env account (find_plan s i) s"

definition in_cooldown :: "shop_env \<Rightarrow> auto_renewal \<Rightarrow> bool" where
  "in_cooldown env q =
     (0 < renew_count q \<and>
      (case last_renewed_at q of None \<Rightarrow> False | Some t \<Rightarrow> now env - t < 600000000))"

definition renewed_row :: "shop_env \<Rightarrow> auto_renewal \<Rightarrow> shop \<Rightarrow> auto_renewal" where
  "renewed_row env q s =
     (let q1 = q\<lparr>renew_count := renew_count q + 1, last_renewed_at := Some (now env), fail_count := 0\<rparr> in
      if renewal_type q = ''membership''
      then q1\<lparr>next_renew_at := Some (next_membership_expires env (renewal_account q) (renewal_plan q) s)\<rparr>
      else q1)"

definition failed_row :: "auto_renewal \<Rightarrow> auto_renewal" where
  "failed_row q =
     (let q1 = q\<lparr>fail_count := fail_count q + 1\<rparr> in
      if max_fail_count \<le> fail_count q1 then q1\<lparr>renewal_status := ''failed''\<rparr> else q1)"

text \<open>The row is read again after a commit or a rollback; it is the one with the id.\<close>

definition finish_renewal :: "shop_env \<Rightarrow> int \<Rightarrow> run_result request" where
  "finish_renewal env i u =
     (case find_renewal (work u) i of
        None \<Rightarrow> (Inl (NotFoundError ''renewal''), u)
      | Some q \<Rightarrow>
          then_do commit (\<lambda>_ u'. (Inr Renewed, u')) (u\<lparr>work := put_renewal (renewed_row env q (work u)) (work u)\<rparr>))"

definition miss_renewal :: "int \<Rightarrow> run_result request" where
  "miss_renewal i u =
     (let u1 = rollback u in
      case find_renewal (work u1) i of
        None \<Rightarrow> (Inl (NotFoundError ''renewal''), u1)
      | Some q \<Rightarrow>
          (case commit (u1\<lparr>work := put_renewal (failed_row q) (work u1)\<rparr>) of
             (Inr x, u2) \<Rightarrow> (Inr Failed, u2)
           | (Inl e, u2) \<Rightarrow> (Inr Failed, rollback u2)))"

definition renewal_order :: "shop_env \<Rightarrow> auto_renewal \<Rightarrow> purchase_order request" where
  "renewal_order env q =
     then_do (create_order env (renewal_account q) (renewal_plan q) ''balance'' ''auto_renew'') (pay_with_balance env)"

definition run_renew :: "shop_env \<Rightarrow> int \<Rightarrow> run_result request" where
  "run_renew env i u =
     (case find_renewal (work u) i of
        None \<Rightarrow> (Inl (NotFoundError ''renewal''), u)
      | Some q \<Rightarrow>
          if in_cooldown env q then (Inr Cooldown, u)
          else
            (case renewal_order env q u of
               (Inr r, u1) \<Rightarrow> finish_renewal env i u1
             | (Inl (FailError m), u1) \<Rightarrow> miss_renewal i u1
             | (Inl e, u1) \<Rightarrow> (Inl e, u1)))"

definition try_renew_membership :: "shop_env \<Rightarrow> auto_renewal \<Rightarrow> run_result request" where
  "try_renew_membership env q u =
     (if renewal_status q \<noteq> ''active'' \<or> renewal_type q \<noteq> ''membership'' then (Inr Skipped, u)
      else (case next_renew_at q of
          Some t \<Rightarrow> if now env < t then (Inr Skipped, u) else run_renew env (renewal_id q) u
        | None \<Rightarrow> run_renew env (renewal_id q) u))"

section \<open>Triggers\<close>

text \<open>Every run has its own clock reading and new ids: \<open>envs\<close> gives them by the renewal's id.\<close>

definition credit_threshold :: "sale_plan \<Rightarrow> int" where
  "credit_threshold p =
     (let percent = (if auto_renew_threshold_percent p = 0 then 5 else auto_renew_threshold_percent p) in
      max (truncate_rat (rnd (of_int (plan_grant p * percent) / 100))) 1)"

fun run_credit_renewals ::
  "(int \<Rightarrow> shop_env) \<Rightarrow> int \<Rightarrow> auto_renewal list \<Rightarrow> run_result \<Rightarrow> run_result request" where
  "run_credit_renewals envs permanent [] result u = (Inr result, u)"
| "run_credit_renewals envs permanent (q # qs) result u =
     (case find_plan (work u) (renewal_plan q) of
        None \<Rightarrow> run_credit_renewals envs permanent qs result u
      | Some p \<Rightarrow>
          if plan_grant p \<le> 0 \<or> credit_threshold p < permanent
          then run_credit_renewals envs permanent qs result u
          else then_do (run_renew (envs (renewal_id q)) (renewal_id q))
                 (\<lambda>r. run_credit_renewals envs permanent qs r) u)"

definition credit_renewals :: "int \<Rightarrow> shop \<Rightarrow> auto_renewal list" where
  "credit_renewals account s =
     filter (\<lambda>q. renewal_account q = account \<and> renewal_type q = ''credits'' \<and> renewal_status q = ''active'') (renewals s)"

definition check_credits_threshold :: "(int \<Rightarrow> shop_env) \<Rightarrow> int \<Rightarrow> run_result request" where
  "check_credits_threshold envs account u =
     (let permanent = (case dget (credit_rows (work u)) account of None \<Rightarrow> 0 | Some a \<Rightarrow> permanent_credit a) in
      run_credit_renewals envs permanent (credit_renewals account (work u)) Skipped u)"

definition due :: "int \<Rightarrow> auto_renewal \<Rightarrow> bool" where
  "due t q =
     (renewal_type q = ''membership'' \<and> renewal_status q = ''active'' \<and>
      (case next_renew_at q of None \<Rightarrow> False | Some x \<Rightarrow> x \<le> t))"

fun run_due :: "(int \<Rightarrow> shop_env) \<Rightarrow> auto_renewal list \<Rightarrow> nat \<times> nat \<Rightarrow> (nat \<times> nat) request" where
  "run_due envs [] n u = (Inr n, u)"
| "run_due envs (q # qs) (renewed, missed) u =
     then_do (run_renew (envs (renewal_id q)) (renewal_id q))
       (\<lambda>r. run_due envs qs (if r = Failed then (renewed, Suc missed) else (Suc renewed, missed))) u"

fun scan_accounts :: "(int \<Rightarrow> shop_env) \<Rightarrow> int list \<Rightarrow> unit request" where
  "scan_accounts envs [] u = (Inr (), u)"
| "scan_accounts envs (a # as) u = then_do (check_credits_threshold envs a) (\<lambda>_. scan_accounts envs as) u"

text \<open>The order in which \<^verbatim>\<open>SELECT DISTINCT\<close> yields the accounts is a parameter.\<close>

definition run_due_scan ::
  "(int \<Rightarrow> shop_env) \<Rightarrow> (int list \<Rightarrow> int list) \<Rightarrow> int \<Rightarrow> (nat \<times> nat \<times> nat) request" where
  "run_due_scan envs order_of t u =
     then_do (run_due envs (filter (due t) (renewals (work u))) (0, 0)) (\<lambda>(renewed, missed) u1.
       (let accounts = order_of (remdups (map renewal_account
              (filter (\<lambda>q. renewal_type q = ''credits'' \<and> renewal_status q = ''active'') (renewals (work u1))))) in
        then_do (scan_accounts envs accounts) (\<lambda>_ u2. (Inr (renewed, missed, length accounts), u2)) u1)) u"

end
