(* ===== verification/Shop_Frame.thy ===== *)
theory Shop_Frame
  imports Refunds Auto_Renewal
begin

text \<open>
  What the parts of an order, a refund and a renewal may change.  A preorder of tables is proved once
  for the combinators of steps; the frame of the shop is such a preorder.
\<close>

section \<open>Preorders of tables\<close>

locale step_order =
  fixes le :: "shop \<Rightarrow> shop \<Rightarrow> bool"
  assumes le_refl: "le s s"
    and le_trans: "le s t \<Longrightarrow> le t u \<Longrightarrow> le s u"
begin

definition obeys :: "'a step \<Rightarrow> bool" where
  "obeys f \<longleftrightarrow> (\<forall>s. le s (snd (f s)))"

lemma obeysD: "obeys f \<Longrightarrow> f s = (r, s') \<Longrightarrow> le s s'"
  unfolding obeys_def by (metis snd_conv)

lemma obeysI: "(\<And>s r s'. f s = (r, s') \<Longrightarrow> le s s') \<Longrightarrow> obeys f"
  unfolding obeys_def by (metis prod.collapse)

lemma obeys_return: "obeys (\<lambda>s. (r s, s))"
  by (simp add: obeys_def le_refl)

lemma obeys_then: "obeys f \<Longrightarrow> (\<And>x. obeys (g x)) \<Longrightarrow> obeys (and_then f g)"
  unfolding obeys_def and_then_def
  by (auto split: prod.splits sum.splits) (metis le_trans snd_conv)+

lemma obeys_autoflush: "obeys f \<Longrightarrow> obeys (autoflush f)"
  by (simp add: obeys_def autoflush_def le_refl)

lemma obeys_if: "obeys f \<Longrightarrow> obeys g \<Longrightarrow> obeys (if b then f else g)"
  by simp

lemmas obeys_intros = obeys_return obeys_then obeys_autoflush obeys_if

end

section \<open>The frame\<close>

text \<open>
  The plans, the orders, the return requests and the relations stay; the wallet and the credit ledger
  only gain entries of the order with the given id, and the books of the wallet stay right.
\<close>

definition wallet_frame :: "int \<Rightarrow> wallet \<Rightarrow> wallet \<Rightarrow> bool" where
  "wallet_frame i w v \<longleftrightarrow>
     set (wallet_transactions w) \<subseteq> set (wallet_transactions v) \<and>
     (\<forall>e \<in> set (wallet_transactions v). e \<in> set (wallet_transactions w) \<or> bt_source_id e = i) \<and>
     (wallet_ok w \<longrightarrow> wallet_ok v)"

definition frame :: "int \<Rightarrow> shop \<Rightarrow> shop \<Rightarrow> bool" where
  "frame i s t \<longleftrightarrow>
     sale_plans t = sale_plans s \<and> purchase_orders t = purchase_orders s \<and> returns t = returns s \<and>
     relations t = relations s \<and>
     wallet_frame i (shop_wallet s) (shop_wallet t) \<and>
     set (credit_log s) \<subseteq> set (credit_log t) \<and>
     (\<forall>c \<in> set (credit_log t). c \<in> set (credit_log s) \<or> tx_source_id c = i)"

lemma wallet_frame_refl [simp]: "wallet_frame i w w"
  by (simp add: wallet_frame_def)

lemma wallet_frame_trans: "wallet_frame i u v \<Longrightarrow> wallet_frame i v w \<Longrightarrow> wallet_frame i u w"
  unfolding wallet_frame_def by blast

interpretation shop_frame: step_order "frame i" for i
  by unfold_locales (auto simp: frame_def intro: wallet_frame_trans)

lemma ensure_frame: "ensure_account k w = (a, w') \<Longrightarrow> wallet_frame i w w'"
  using ensure_ok [of k w a w'] ensure_fresh(3) [of k w a w'] by (simp add: wallet_frame_def)

lemma find_transaction_None:
  "(find_transaction w k src sid kind = Inr None) \<longleftrightarrow>
     \<not> (\<exists>t \<in> set (wallet_transactions w). bt_account t = k \<and> bt_source t = src \<and> bt_source_id t = sid \<and> bt_type t = kind)"
  by (auto simp: find_transaction_def one_or_none_None filter_empty_conv)

lemma credit_transactions: "wallet_credit t k x src sid kind rate w = (r, w') \<Longrightarrow>
    set (wallet_transactions w) \<subseteq> set (wallet_transactions w') \<and>
    (\<forall>e \<in> set (wallet_transactions w'). e \<in> set (wallet_transactions w) \<or> bt_source_id e = sid)"
  by (auto simp: wallet_credit_def Let_def ensure_fresh(3) split: if_splits option.splits sum.splits prod.splits)

lemma debit_transactions: "wallet_debit t k x src sid kind w = (r, w') \<Longrightarrow>
    set (wallet_transactions w) \<subseteq> set (wallet_transactions w') \<and>
    (\<forall>e \<in> set (wallet_transactions w'). e \<in> set (wallet_transactions w) \<or> bt_source_id e = sid)"
  by (auto simp: wallet_debit_def Let_def ensure_fresh(3) split: if_splits option.splits sum.splits prod.splits)

lemma credit_frame: "wallet_credit t k x src sid kind rate w = (r, w') \<Longrightarrow> wallet_frame sid w w'"
  unfolding wallet_frame_def using credit_transactions credit_ok by metis

lemma debit_frame: "wallet_debit t k x src sid kind w = (r, w') \<Longrightarrow> wallet_frame sid w w'"
  unfolding wallet_frame_def using debit_transactions debit_ok by metis

lemma frame_wallet: "wallet_frame i (shop_wallet s) w \<Longrightarrow> frame i s (s\<lparr>shop_wallet := w\<rparr>)"
  by (simp add: frame_def)

lemma obeys_wallet:
  "(\<And>w r w'. f w = (r, w') \<Longrightarrow> wallet_frame i w w') \<Longrightarrow> step_order.obeys (frame i) (on_wallet f)"
  by (rule shop_frame.obeysI) (auto simp: on_wallet_def intro: frame_wallet split: prod.splits)

section \<open>The parts of an order\<close>

lemma locked_ok:
  assumes "wallet_ok w" and "balance a = balance (account_or_fresh w k)"
  shows "wallet_ok (put_balance_account k a w)"
proof -
  have "balance (account_or_fresh (put_balance_account k a w) k') = balance (account_or_fresh w k')" for k'
    using assms(2) by (simp add: account_or_fresh_put)
  then show ?thesis using assms(1) by (simp add: wallet_ok_def)
qed

lemma settle_frame: "step_order.obeys (frame sid) (settle env k x src sid)"
proof (rule shop_frame.obeysI)
  fix s r s' assume S: "settle env k x src sid s = (r, s')"
  show "frame sid s s'"
  proof (cases "relation_of k s")
    case None
    then show ?thesis using S by (simp add: settle_def shop_frame.le_refl)
  next
    case (Some i)
    obtain a w1 where e: "ensure_account i (shop_wallet s) = (a, w1)" by (cases "ensure_account i (shop_wallet s)")
    obtain rate b where c: "commission_rate (process_started env) a (direct_subordinate_count i s) = (rate, b)"
      by (cases "commission_rate (process_started env) a (direct_subordinate_count i s)")
    have "balance b = balance a" using c by (auto simp: commission_rate_def split: if_splits)
    then have 1: "wallet_frame sid (shop_wallet s) (put_balance_account i b w1)"
      using ensure_frame [OF e, of sid] ensure_fresh(1,2) [OF e] by (auto simp: wallet_frame_def intro!: locked_ok)
    then show ?thesis
      using S Some e c
      by (auto simp: settle_def Let_def split: if_splits prod.splits sum.splits
          intro!: frame_wallet dest!: credit_frame intro: wallet_frame_trans)
  qed
qed

lemma commission_frame: "step_order.obeys (frame (order_id r)) (settle_commission_for_order env k r)"
  unfolding settle_commission_for_order_def
  by (rule shop_frame.obeysI)
    (auto split: if_splits intro: shop_frame.le_refl shop_frame.obeysD [OF shop_frame.obeys_autoflush [OF settle_frame]])

lemma fulfill_frame: "step_order.obeys (frame (order_id r)) (fulfill_rights env r)"
  unfolding fulfill_rights_def
  by (intro shop_frame.obeys_autoflush shop_frame.obeysI)
    (auto simp: frame_def grant_credits_def upsert_membership_def Let_def split: option.splits if_splits)

lemma frame_renewals: "frame i s (s\<lparr>renewals := qs\<rparr>)"
  by (simp add: frame_def)

lemma renewal_frame: "step_order.obeys (frame (order_id r)) (maybe_enable_auto_renewal env r)"
  unfolding maybe_enable_auto_renewal_def
  by (intro shop_frame.obeys_autoflush shop_frame.obeysI)
    (auto simp: put_renewal_def Let_def intro: frame_renewals shop_frame.le_refl split: option.splits if_splits sum.splits)

lemma deliver_frame: "step_order.obeys (frame (order_id r)) (deliver env r)"
  unfolding deliver_def
  by (intro shop_frame.obeys_intros obeys_wallet fulfill_frame renewal_frame commission_frame) (rule credit_frame)

lemma debit_purchase_frame: "step_order.obeys (frame (order_id r)) (debit_purchase env r)"
  unfolding debit_purchase_def by (intro obeys_wallet) (rule debit_frame)

section \<open>The parts of a refund\<close>

lemma refund_funds_frame: "step_order.obeys (frame (order_id r)) (refund_funds env r)"
  unfolding refund_funds_def
  by (intro shop_frame.obeys_intros obeys_wallet) (rule debit_frame credit_frame, assumption)+

lemma reclaim_frame: "frame i s (reclaim_rights env r s)"
  by (auto simp: reclaim_rights_def adjust_credit_def end_membership_def frame_def Let_def split: option.splits)

lemma clawback_frame: "step_order.obeys (frame (order_id r)) (clawback_commission env r)"
  unfolding clawback_commission_def
proof (intro shop_frame.obeys_autoflush shop_frame.obeysI)
  fix s x s'
  assume "(case one_or_none (filter (\<lambda>t. bt_source t = ''order'' \<and> bt_source_id t = order_id r \<and> bt_type t = ''commission'')
             (wallet_transactions (shop_wallet s))) of
        Inl e \<Rightarrow> (Inl e, s)
      | Inr None \<Rightarrow> (Inr False, s)
      | Inr (Some t) \<Rightarrow>
          (case on_wallet (wallet_debit (now env) (bt_account t) (bt_amount t) ''order'' (order_id r) ''refund'') s of
             (Inr x, s') \<Rightarrow> (Inr False, s')
           | (Inl (ValueError m), s') \<Rightarrow> (Inr True, s')
           | (Inl e, s') \<Rightarrow> (Inl e, s'))) = (x, s')"
  then show "frame (order_id r) s s'"
    by (auto simp: on_wallet_def split: sum.splits option.splits prod.splits exn.splits
        intro: shop_frame.le_refl frame_wallet dest: debit_frame)
qed

end
