(* ===== verification/Shop_Props.thy ===== *)
theory Shop_Props
  imports Shop_Frame
begin

text \<open>
  What the requests of the shop do to the database: the outcomes of every operation, and the invariant
  that ties the orders to the wallet and to the credit ledger.
\<close>

section \<open>Outcomes\<close>

lemma commit_Inr: "commit u = (Inr x, v) \<longleftrightarrow> constraints_hold (work u) \<and> v = u\<lparr>saved := work u\<rparr>"
  by (auto simp: commit_def)

lemma commit_Inl: "commit u = (Inl e, v) \<longleftrightarrow> \<not> constraints_hold (work u) \<and> e = IntegrityError \<and> v = u"
  by (auto simp: commit_def)

lemma commit_idempotent_Inr: "commit_idempotent u = (Inr x, v) \<longleftrightarrow> constraints_hold (work u) \<and> v = u\<lparr>saved := work u\<rparr>"
  by (auto simp: commit_idempotent_def commit_def)

lemma commit_idempotent_Inl: "commit_idempotent u = (Inl e, v) \<Longrightarrow> v = rollback u"
  by (auto simp: commit_idempotent_def commit_def split: if_splits)

lemma in_session_eq: "in_session f u = (r, v) \<longleftrightarrow> f (work u) = (r, work v) \<and> saved v = saved u"
  by (auto simp: in_session_def split: prod.splits)

lemma rollback_simps [simp]: "saved (rollback u) = saved u" "work (rollback u) = saved u"
  by (simp_all add: rollback_def)

lemma create_order_outcome:
  assumes "create_order env account i method source u = (x, v)"
  shows "(\<exists>e. x = Inl e) \<and> saved v = saved u \<or>
    (\<exists>p raw n. check_order env account i method (work u) = Inr (p, raw) \<and> generate_order_no env (work u) = Inr n \<and>
       x = Inr (new_order env account p raw source n) \<and>
       work v = (work u)\<lparr>purchase_orders := purchase_orders (work u) @ [new_order env account p raw source n]\<rparr> \<and>
       saved v = work v \<and> constraints_hold (work v))"
  using assms
  by (auto simp: create_order_def then_do_def commit_def Let_def split: sum.splits prod.splits if_splits)

lemma confirm_outcome:
  assumes "confirm_paid env tx r u = (x, v)"
  shows "saved v = saved u \<and> (order_status r = ''paid'' \<or> (\<exists>e. x = Inl e)) \<or>
    (order_status r = ''pending'' \<and> constraints_hold (saved v) \<and> work v = saved v \<and>
     (\<exists>r'. r' = with_transaction tx (r\<lparr>order_status := ''paid'', paid_at := Some (now env)\<rparr>) \<and> x = Inr r' \<and>
        deliver env r' (put_order r' (work u)) = (Inr (), saved v)))"
proof (cases "order_status r = ''pending''")
  case False
  then show ?thesis using assms by (auto simp: confirm_paid_def Let_def split: if_splits)
next
  case True
  define r' where "r' = with_transaction tx (r\<lparr>order_status := ''paid'', paid_at := Some (now env)\<rparr>)"
  let ?u = "u\<lparr>work := put_order r' (work u)\<rparr>"
  obtain y t where d: "deliver env r' (put_order r' (work u)) = (y, t)" by fastforce
  have e: "in_session (deliver env r') ?u = (y, u\<lparr>work := t\<rparr>)" by (simp add: in_session_def d)
  have c: "confirm_paid env tx r u = then_do (in_session (deliver env r'))
      (\<lambda>_. then_do commit_idempotent (\<lambda>_ u'. (Inr r', u'))) ?u"
    using True by (simp add: confirm_paid_def Let_def r'_def)
  show ?thesis
  proof (cases "y = Inr () \<and> constraints_hold t")
    case True
    then have "x = Inr r' \<and> v = u\<lparr>work := t, saved := t\<rparr>"
      using assms unfolding c by (simp add: then_do_def e commit_idempotent_def commit_def)
    then show ?thesis using True d \<open>order_status r = ''pending''\<close> by (auto simp: r'_def)
  next
    case False
    then have "saved v = saved u \<and> (\<exists>e. x = Inl e)"
      using assms unfolding c
      by (auto simp: then_do_def e commit_idempotent_def commit_def split: sum.splits if_splits)
    then show ?thesis by simp
  qed
qed

lemma debit_outcome:
  assumes "wallet_debit t k x src sid kind w = (Inr e, w')"
  shows "e \<in> set (wallet_transactions w')" and "bt_account e = k" and "bt_source e = src" and "bt_source_id e = sid"
    and "bt_type e = kind" and "bt_amount e = - money x"
  using assms by (auto simp: wallet_debit_def Let_def split: if_splits prod.splits)

lemma credit_outcome:
  assumes "wallet_credit t k x src sid kind rate w = (Inr e, w')"
  shows "e \<in> set (wallet_transactions w')" and "bt_account e = k" and "bt_source e = src" and "bt_source_id e = sid"
    and "bt_type e = kind"
  using assms
  by (auto simp: wallet_credit_def Let_def find_transaction_def one_or_none_Some filter_eq_Cons_iff
      split: if_splits option.splits sum.splits prod.splits)

definition purchase_entry :: "purchase_order \<Rightarrow> balance_transaction \<Rightarrow> bool" where
  "purchase_entry r e \<longleftrightarrow>
     bt_account e = order_account r \<and> bt_source e = ''order'' \<and> bt_source_id e = order_id r \<and>
     bt_type e = ''purchase'' \<and> bt_amount e = - money (order_amount r)"

text \<open>Paying from the balance: nothing is committed, or the order is confirmed on tables that hold the
  debit.\<close>

lemma pay_outcome:
  assumes "pay_with_balance env r u = (x, v)"
  shows "saved v = saved u \<and> (\<exists>e. x = Inl e) \<or>
    (\<exists>s. frame (order_id r) (work u) s \<and> order_status r = ''pending'' \<and> pay_method r = balance_method \<and>
       (0 < money (order_amount r) \<longrightarrow> (\<exists>e \<in> set (wallet_transactions (shop_wallet s)). purchase_entry r e)) \<and>
       confirm_paid env None r (u\<lparr>work := s\<rparr>) = (x, v))"
proof -
  obtain a w1 where e: "ensure_account (order_account r) (shop_wallet (work u)) = (a, w1)" by fastforce
  let ?s1 = "(work u)\<lparr>shop_wallet := w1\<rparr>"
  have f1: "frame (order_id r) (work u) ?s1" by (intro frame_wallet ensure_frame [OF e])
  have paid: "pay_with_balance env r u =
      (if pay_method r \<noteq> balance_method then (Inl (FailError ''not a balance order''), u)
       else if order_status r \<noteq> ''pending'' then (Inl (FailError ''order status''), u)
       else if money (balance a) < money (order_amount r) then (Inl (FailError ''insufficient balance''), u\<lparr>work := ?s1\<rparr>)
       else if 0 < money (order_amount r)
       then then_do (in_session (debit_purchase env r)) (\<lambda>_. confirm_paid env None r) (u\<lparr>work := ?s1\<rparr>)
       else confirm_paid env None r (u\<lparr>work := ?s1\<rparr>))"
    by (simp add: pay_with_balance_def e)
  obtain y t where d: "debit_purchase env r ?s1 = (y, t)" by fastforce
  have i: "in_session (debit_purchase env r) (u\<lparr>work := ?s1\<rparr>) = (y, u\<lparr>work := t\<rparr>)"
    by (simp add: in_session_def d)
  have f2: "frame (order_id r) (work u) t"
    using shop_frame.obeysD [OF debit_purchase_frame d] f1 by (rule shop_frame.le_trans [rotated])
  have entry: "y = Inr z \<Longrightarrow> \<exists>e \<in> set (wallet_transactions (shop_wallet t)). purchase_entry r e" for z
    using d by (fastforce simp: debit_purchase_def on_wallet_def purchase_entry_def split: prod.splits
        dest: debit_outcome)
  show ?thesis using assms f1 f2 entry unfolding paid
    by (cases y) (auto simp: then_do_def i split: if_splits intro: exI [of _ ?s1] exI [of _ t])
qed

section \<open>Orders, money and rights\<close>

definition settled :: "shop \<Rightarrow> purchase_order \<Rightarrow> bool" where
  "settled s r \<longleftrightarrow>
     (pay_method r = balance_method \<and> 0 < money (order_amount r) \<longrightarrow>
        (\<exists>e \<in> set (wallet_transactions (shop_wallet s)). purchase_entry r e)) \<and>
     (order_type r = ''balance'' \<longrightarrow>
        (\<exists>e \<in> set (wallet_transactions (shop_wallet s)).
           bt_account e = order_account r \<and> bt_source e = ''order'' \<and> bt_source_id e = order_id r \<and>
           bt_type e = ''recharge'' \<and> bt_amount e = money (order_amount r))) \<and>
     (order_type r = ''membership'' \<or> order_type r = ''credits'' \<longrightarrow>
        (\<exists>c \<in> set (credit_log s).
           tx_account c = order_account r \<and> tx_kind c = OrderGrant \<and> tx_source c = ''order'' \<and> tx_source_id c = order_id r))"

text \<open>No money has moved and no right was delivered for the order with this id.\<close>

definition untouched :: "shop \<Rightarrow> int \<Rightarrow> bool" where
  "untouched s i \<longleftrightarrow>
     \<not> (\<exists>e \<in> set (wallet_transactions (shop_wallet s)). bt_source e = ''order'' \<and> bt_source_id e = i) \<and>
     \<not> (\<exists>c \<in> set (credit_log s). tx_kind c = OrderGrant \<and> tx_source c = ''order'' \<and> tx_source_id c = i)"

definition unpaid :: "purchase_order \<Rightarrow> bool" where
  "unpaid r \<longleftrightarrow> order_status r = ''pending'' \<or> order_status r = ''closed''"

definition order_ok :: "shop \<Rightarrow> purchase_order \<Rightarrow> bool" where
  "order_ok s r \<longleftrightarrow>
     order_status r \<in> {''pending'', ''closed'', ''paid'', ''refunded'', ''refund_hold''} \<and>
     (if unpaid r then untouched s (order_id r) else settled s r)"

definition shop_ok :: "shop \<Rightarrow> bool" where
  "shop_ok s \<longleftrightarrow>
     wallet_ok (shop_wallet s) \<and> constraints_hold s \<and> distinct (map order_id (purchase_orders s)) \<and>
     (\<forall>r \<in> set (purchase_orders s). order_ok s r)"

lemma settled_frame: "frame i s t \<Longrightarrow> settled s r \<Longrightarrow> settled t r"
  unfolding settled_def frame_def wallet_frame_def by blast

lemma untouched_frame: "frame i s t \<Longrightarrow> untouched s j \<Longrightarrow> j \<noteq> i \<Longrightarrow> untouched t j"
  unfolding untouched_def frame_def wallet_frame_def by blast

lemma order_ok_frame:
  "frame i s t \<Longrightarrow> order_ok s r \<Longrightarrow> order_id r \<noteq> i \<or> \<not> unpaid r \<Longrightarrow> order_ok t r"
  by (auto simp: order_ok_def intro: settled_frame untouched_frame split: if_splits)

text \<open>Only the orders, the wallet and the credit ledger matter to an order.\<close>

lemma order_ok_cong:
  "shop_wallet t = shop_wallet s \<Longrightarrow> credit_log t = credit_log s \<Longrightarrow> order_ok t r = order_ok s r"
  by (simp add: order_ok_def settled_def untouched_def)

lemma shop_ok_same:
  "shop_ok s \<Longrightarrow> shop_wallet t = shop_wallet s \<Longrightarrow> credit_log t = credit_log s \<Longrightarrow>
     purchase_orders t = purchase_orders s \<Longrightarrow> constraints_hold t \<Longrightarrow> shop_ok t"
  by (simp add: shop_ok_def order_ok_cong [of t s])

text \<open>Replacing one order in tables that grew for this order only.\<close>

lemma shop_ok_replace:
  assumes "shop_ok s" and "r \<in> set (purchase_orders s)" and "order_id r' = order_id r"
    and "wallet_ok (shop_wallet t)" and "constraints_hold t"
    and "purchase_orders t = purchase_orders (put_order r' s)"
    and "frame (order_id r) s (t\<lparr>purchase_orders := purchase_orders s, returns := returns s\<rparr>)" and "order_ok t r'"
  shows "shop_ok t"
proof -
  let ?t = "t\<lparr>purchase_orders := purchase_orders s, returns := returns s\<rparr>"
  have ids: "map order_id (purchase_orders t) = map order_id (purchase_orders s)"
    using assms(3,6) by (auto simp: put_order_def)
  moreover have "order_ok t q" if "q \<in> set (purchase_orders t)" for q
  proof (cases "q = r'")
    case False
    then have q: "q \<in> set (purchase_orders s)" "order_id q \<noteq> order_id r"
      using that assms(3,6) by (auto simp: put_order_def split: if_splits)
    then have "order_ok ?t q" using assms(1) by (intro order_ok_frame [OF assms(7)]) (auto simp: shop_ok_def)
    then show ?thesis by (simp add: order_ok_cong [of t ?t])
  qed (simp add: assms(8))
  ultimately show ?thesis using assms(1,4,5) by (simp add: shop_ok_def)
qed

lemma put_order_frame [simp]:
  "sale_plans (put_order r s) = sale_plans s" "returns (put_order r s) = returns s"
  "renewals (put_order r s) = renewals s" "relations (put_order r s) = relations s"
  "shop_wallet (put_order r s) = shop_wallet s" "credit_rows (put_order r s) = credit_rows s"
  "credit_log (put_order r s) = credit_log s" "membership_rows (put_order r s) = membership_rows s"
  by (simp_all add: put_order_def)

lemma frame_put_order:
  "frame i (put_order r s) t \<longleftrightarrow> frame i s (t\<lparr>purchase_orders := purchase_orders s\<rparr>) \<and>
     purchase_orders t = purchase_orders (put_order r s)"
  by (auto simp: frame_def put_order_def)

section \<open>What a delivery leaves\<close>

lemma deliver_recharge:
  assumes "deliver env r s = (Inr (), t)" and "order_type r = ''balance''" and "untouched s (order_id r)"
  shows "\<exists>e \<in> set (wallet_transactions (shop_wallet t)).
     bt_account e = order_account r \<and> bt_source e = ''order'' \<and> bt_source_id e = order_id r \<and>
     bt_type e = ''recharge'' \<and> bt_amount e = money (order_amount r)"
proof -
  have "find_transaction (shop_wallet s) (order_account r) ''order'' (order_id r) ''recharge'' = Inr None"
    using assms(3) by (auto simp: find_transaction_None untouched_def)
  then show ?thesis using assms(1,2)
    by (auto simp: deliver_def autoflush_def on_wallet_def wallet_credit_def Let_def split: if_splits prod.splits)
qed

lemma deliver_grant:
  assumes "deliver env r s = (Inr (), t)" and "order_type r = ''membership'' \<or> order_type r = ''credits''"
  shows "\<exists>c \<in> set (credit_log t). tx_account c = order_account r \<and> tx_kind c = OrderGrant \<and>
     tx_source c = ''order'' \<and> tx_source_id c = order_id r"
proof -
  obtain s1 s2 where 1: "fulfill_rights env r s = (Inr (), s1)"
    and 2: "maybe_enable_auto_renewal env r s1 = (Inr (), s2)"
    and 3: "settle_commission_for_order env (order_account r) r s2 = (Inr (), t)"
    using assms by (auto simp: deliver_def)
  have "\<exists>c \<in> set (credit_log s1). tx_account c = order_account r \<and> tx_kind c = OrderGrant \<and>
     tx_source c = ''order'' \<and> tx_source_id c = order_id r"
    using 1 assms(2)
    by (auto simp: fulfill_rights_def autoflush_def grant_credits_def Let_def split: if_splits option.splits)
  moreover have "set (credit_log s1) \<subseteq> set (credit_log t)"
    using shop_frame.obeysD [OF renewal_frame 2] shop_frame.obeysD [OF commission_frame 3]
    by (auto simp: frame_def)
  ultimately show ?thesis by blast
qed

section \<open>Every request keeps the books\<close>

definition fresh :: "shop_env \<Rightarrow> shop \<Rightarrow> bool" where
  "fresh env s \<longleftrightarrow>
     new_order_id env \<notin> set (map order_id (purchase_orders s)) \<and> untouched s (new_order_id env) \<and>
     (\<forall>e \<in> set (wallet_transactions (shop_wallet s)). bt_source_id e \<noteq> new_order_id env)"

lemma with_transaction_simps [simp]:
  "order_id (with_transaction tx r) = order_id r" "order_account (with_transaction tx r) = order_account r"
  "order_type (with_transaction tx r) = order_type r" "order_amount (with_transaction tx r) = order_amount r"
  "pay_method (with_transaction tx r) = pay_method r" "order_status (with_transaction tx r) = order_status r"
  by (simp_all add: with_transaction_def)

text \<open>A confirmation on tables \<open>t\<close> that may already hold the buyer's debit.\<close>

lemma confirm_keeps:
  assumes s: "shop_ok s" "r \<in> set (purchase_orders s)" "frame (order_id r) s t"
    and pay: "pay_method r = balance_method \<and> 0 < money (order_amount r) \<Longrightarrow>
      \<exists>e \<in> set (wallet_transactions (shop_wallet t)). purchase_entry r e"
    and top_up: "order_type r = ''balance'' \<Longrightarrow> untouched t (order_id r)"
    and c: "confirm_paid env tx r (u\<lparr>work := t\<rparr>) = (x, v)" "saved u = s"
  shows "shop_ok (saved v)"
proof -
  define r' where "r' = with_transaction tx (r\<lparr>order_status := ''paid'', paid_at := Some (now env)\<rparr>)"
  let ?t = "put_order r' t"
  consider "saved v = s" | "constraints_hold (saved v)" "deliver env r' ?t = (Inr (), saved v)"
    using confirm_outcome [OF c(1)] c(2) by (auto simp: r'_def)
  then show ?thesis
  proof cases
    case 1
    then show ?thesis using s(1) by simp
  next
    case 2
    have ids [simp]: "order_id r' = order_id r" "order_type r' = order_type r" "pay_method r' = pay_method r"
      "order_account r' = order_account r" "order_amount r' = order_amount r" "order_status r' = ''paid''"
      by (simp_all add: r'_def)
    have f: "frame (order_id r) ?t (saved v)" using shop_frame.obeysD [OF deliver_frame 2(2)] by simp
    then have orders: "purchase_orders (saved v) = purchase_orders (put_order r' s)"
      using s(3) by (simp add: frame_def put_order_def)
    have f': "frame (order_id r) s ((saved v)\<lparr>purchase_orders := purchase_orders s, returns := returns s\<rparr>)"
      using f s(3) by (auto simp: frame_def intro: wallet_frame_trans)
    have "settled (saved v) r'"
      unfolding settled_def
    proof (intro conjI impI)
      show "\<exists>e \<in> set (wallet_transactions (shop_wallet (saved v))). purchase_entry r' e"
        if "pay_method r' = balance_method \<and> 0 < money (order_amount r')"
      proof -
        have "purchase_entry r' = purchase_entry r" by (simp add: purchase_entry_def fun_eq_iff)
        moreover have "set (wallet_transactions (shop_wallet t)) \<subseteq> set (wallet_transactions (shop_wallet (saved v)))"
          using f by (simp add: frame_def wallet_frame_def)
        ultimately show ?thesis using that pay by auto
      qed
      show "\<exists>e \<in> set (wallet_transactions (shop_wallet (saved v))).
           bt_account e = order_account r' \<and> bt_source e = ''order'' \<and> bt_source_id e = order_id r' \<and>
           bt_type e = ''recharge'' \<and> bt_amount e = money (order_amount r')"
        if "order_type r' = ''balance''"
        using that top_up by (intro deliver_recharge [OF 2(2)]) (simp_all add: untouched_def)
      show "\<exists>c \<in> set (credit_log (saved v)). tx_account c = order_account r' \<and> tx_kind c = OrderGrant \<and>
           tx_source c = ''order'' \<and> tx_source_id c = order_id r'"
        if "order_type r' = ''membership'' \<or> order_type r' = ''credits''"
        using that by (intro deliver_grant [OF 2(2)])
    qed
    then have ok: "order_ok (saved v) r'" by (simp add: order_ok_def unpaid_def)
    have "wallet_ok (shop_wallet (saved v))"
      using f' s(1) by (simp add: frame_def wallet_frame_def shop_ok_def)
    from s(1,2) ids(1) this 2(1) orders f' ok show ?thesis by (rule shop_ok_replace)
  qed
qed

lemma confirm_online_keeps:
  assumes "shop_ok (saved u)" and "work u = saved u" and "r \<in> set (purchase_orders (saved u))"
    and "pay_method r \<noteq> balance_method" and "confirm_paid env tx r u = (x, v)"
  shows "shop_ok (saved v)"
proof (cases "order_status r = ''pending''")
  case True
  then have "untouched (saved u) (order_id r)" using assms(1,3) by (auto simp: shop_ok_def order_ok_def unpaid_def)
  moreover have "confirm_paid env tx r (u\<lparr>work := saved u\<rparr>) = (x, v)" using assms(2,5) by (metis session.surjective session.update_convs(2))
  ultimately show ?thesis
    using assms(1,3,4) by (intro confirm_keeps [OF assms(1,3) shop_frame.le_refl]) auto
next
  case False
  then show ?thesis using confirm_outcome [OF assms(5)] assms(1) by auto
qed

lemma pay_keeps:
  assumes "shop_ok (saved u)" and "work u = saved u" and "r \<in> set (purchase_orders (saved u))"
    and "order_type r \<noteq> ''balance''" and "pay_with_balance env r u = (x, v)"
  shows "shop_ok (saved v)"
  using pay_outcome [OF assms(5)]
proof
  assume "saved v = saved u \<and> (\<exists>e. x = Inl e)"
  then show ?thesis using assms(1) by simp
next
  assume "\<exists>s. frame (order_id r) (work u) s \<and> order_status r = ''pending'' \<and> pay_method r = balance_method \<and>
       (0 < money (order_amount r) \<longrightarrow> (\<exists>e \<in> set (wallet_transactions (shop_wallet s)). purchase_entry r e)) \<and>
       confirm_paid env None r (u\<lparr>work := s\<rparr>) = (x, v)"
  then obtain t where t: "frame (order_id r) (saved u) t"
    "0 < money (order_amount r) \<longrightarrow> (\<exists>e \<in> set (wallet_transactions (shop_wallet t)). purchase_entry r e)"
    "confirm_paid env None r (u\<lparr>work := t\<rparr>) = (x, v)" using assms(2) by auto
  show ?thesis using t(2) assms(4) by (intro confirm_keeps [OF assms(1,3) t(1) _ _ t(3) refl]) auto
qed

lemma new_order_keeps:
  assumes "shop_ok s" and "fresh env s" and "constraints_hold t"
    and "t = s\<lparr>purchase_orders := purchase_orders s @ [new_order env account p raw source n]\<rparr>"
  shows "shop_ok t"
proof -
  have "order_ok t q = order_ok s q" for q
    by (rule order_ok_cong) (simp_all add: assms(4))
  moreover have "order_ok s (new_order env account p raw source n)"
    using assms(2) by (simp add: order_ok_def unpaid_def new_order_def fresh_def)
  ultimately show ?thesis using assms by (auto simp: shop_ok_def fresh_def new_order_def)
qed

lemma check_order_type: "check_order env account i method s = Inr (p, raw) \<Longrightarrow>
    (plan_type p = ''balance'' \<longrightarrow> raw \<noteq> balance_method)"
  by (simp add: check_order_def Let_def split: option.splits if_split_asm sum.splits)
    (auto simp: online_methods_def balance_method_def)

text \<open>An order made and paid from the balance: the request of a buyer, and the one of a renewal.\<close>

lemma buy_keeps:
  assumes "shop_ok (saved u)" and "work u = saved u" and "fresh env (saved u)"
    and "create_order env account i method source u = (Inr r, u1)"
  shows "shop_ok (saved u1)" and "work u1 = saved u1"
    and "pay_with_balance env r u1 = (x, v) \<Longrightarrow> shop_ok (saved v)"
proof -
  obtain p raw n where c: "check_order env account i method (work u) = Inr (p, raw)"
    "r = new_order env account p raw source n"
    "work u1 = (work u)\<lparr>purchase_orders := purchase_orders (work u) @ [r]\<rparr>" "saved u1 = work u1" "constraints_hold (work u1)"
    using create_order_outcome [OF assms(4)] by auto
  then show ok: "shop_ok (saved u1)" and eq: "work u1 = saved u1"
    using new_order_keeps [OF assms(1,3), of "work u1" account p raw source n] assms(2) by auto
  assume pay: "pay_with_balance env r u1 = (x, v)"
  show "shop_ok (saved v)"
  proof (cases "order_type r = ''balance''")
    case True
    then have "pay_method r \<noteq> balance_method"
      using check_order_type [OF c(1)] c(2) by (simp add: new_order_def)
    then show ?thesis using pay ok by (auto simp: pay_with_balance_def)
  next
    case False
    moreover have "r \<in> set (purchase_orders (saved u1))" using c(3,4) by simp
    ultimately show ?thesis by (intro pay_keeps [OF ok eq _ _ pay])
  qed
qed

section \<open>Reviews, renewals and the other requests\<close>

lemma close_order_outcome:
  assumes "close_order env status r q u = (x, v)"
  shows "saved v = saved u \<or>
    constraints_hold (saved v) \<and> saved v = put_return (q\<lparr>return_status := ''approved''\<rparr>)
       (put_order (r\<lparr>order_status := status, refund_at := Some (now env)\<rparr>) (work u))"
  using assms by (auto simp: close_order_def commit_def rollback_def Let_def split: if_splits)

lemma put_return_frame [simp]:
  "purchase_orders (put_return q s) = purchase_orders s" "shop_wallet (put_return q s) = shop_wallet s"
  "credit_log (put_return q s) = credit_log s" "sale_plans (put_return q s) = sale_plans s"
  "relations (put_return q s) = relations s"
  by (simp_all add: put_return_def)

text \<open>An order that was paid is closed by a review, on tables that grew for it.\<close>

lemma close_order_keeps:
  assumes "shop_ok (saved u)" and "r \<in> set (purchase_orders (saved u))" and "order_status r = ''paid''"
    and "frame (order_id r) (saved u) (work u)" and "status \<in> {''refunded'', ''refund_hold''}"
    and "close_order env status r q u = (x, v)"
  shows "shop_ok (saved v)"
  using close_order_outcome [OF assms(6)]
proof
  assume "saved v = saved u"
  then show ?thesis using assms(1) by simp
next
  let ?r = "r\<lparr>order_status := status, refund_at := Some (now env)\<rparr>"
  assume v: "constraints_hold (saved v) \<and> saved v = put_return (q\<lparr>return_status := ''approved''\<rparr>) (put_order ?r (work u))"
  have "order_ok (saved u) r" using assms(1,2) by (simp add: shop_ok_def)
  then have "settled (work u) r" using assms(3) settled_frame [OF assms(4)] by (simp add: order_ok_def unpaid_def)
  then have "order_ok (saved v) ?r" using assms(5) v
    by (auto simp: order_ok_def unpaid_def settled_def purchase_entry_def)
  moreover have "wallet_ok (shop_wallet (saved v))"
    using v assms(1,4) by (simp add: frame_def wallet_frame_def shop_ok_def)
  moreover have "purchase_orders (saved v) = purchase_orders (put_order ?r (saved u))"
    using v assms(4) by (simp add: frame_def put_order_def)
  moreover have "frame (order_id r) (saved u) ((saved v)\<lparr>purchase_orders := purchase_orders (saved u),
      returns := returns (saved u)\<rparr>)"
    using v assms(4) by (simp add: frame_def)
  ultimately show ?thesis using v by (intro shop_ok_replace [OF assms(1,2), of ?r "saved v"]) auto
qed

lemma in_session_frame:
  assumes "step_order.obeys (frame i) f" and "in_session f u = (x, v)" and "frame i (saved u) (work u)"
  shows "frame i (saved v) (work v)" and "saved v = saved u"
  using assms(2,3) shop_frame.obeysD [OF assms(1)] shop_frame.le_trans [of i "saved u" "work u" "work v"]
  by (auto simp: in_session_eq)

lemma reclaim_obeys: "step_order.obeys (frame i) (autoflush (\<lambda>s. (Inr (), reclaim_rights env r s)))"
  by (intro shop_frame.obeys_autoflush shop_frame.obeysI) (auto intro: reclaim_frame)

lemma approve_keeps:
  assumes "shop_ok (saved u)" and "work u = saved u" and "approve env i u = (x, v)"
  shows "shop_ok (saved v)"
proof (cases "find_return i (saved u)")
  case (Inl e)
  then show ?thesis using assms by (simp add: approve_def)
next
  case (Inr q)
  show ?thesis
  proof (cases "return_status q = ''pending'' \<and> (\<exists>r. find_order (saved u) (return_order q) = Some r \<and> order_status r = ''paid'')")
    case False
    then show ?thesis using assms Inr by (auto simp: approve_def split: if_splits option.splits)
  next
    case True
    then obtain r where r: "find_order (saved u) (return_order q) = Some r" "order_status r = ''paid''" by auto
    then have mem: "r \<in> set (purchase_orders (saved u))" by (auto simp: find_order_def find_Some_iff)
    have f0: "frame (order_id r) (saved u) (work u)" using assms(2) by (simp add: shop_frame.le_refl)
    have a: "then_do (in_session (refund_funds env r)) (\<lambda>_.
         if order_type r = ''balance'' then close_order env ''refunded'' r q
         else then_do (in_session (autoflush (\<lambda>s. (Inr (), reclaim_rights env r s)))) (\<lambda>_.
           then_do (in_session (clawback_commission env r)) (\<lambda>hold.
             close_order env (if hold then ''refund_hold'' else ''refunded'') r q))) u = (x, v)"
      using assms(2,3) Inr True r by (simp add: approve_def)
    obtain y1 u1 where 1: "in_session (refund_funds env r) u = (y1, u1)" by fastforce
    note f1 = in_session_frame [OF refund_funds_frame 1 f0]
    obtain y2 u2 where 2: "in_session (autoflush (\<lambda>s. (Inr (), reclaim_rights env r s))) u1 = (y2, u2)" by fastforce
    note f2 = in_session_frame [OF reclaim_obeys 2 f1(1)]
    obtain y3 u3 where 3: "in_session (clawback_commission env r) u2 = (y3, u3)" by fastforce
    note f3 = in_session_frame [OF clawback_frame 3 f2(1)]
    have keep: "shop_ok (saved v)" if "close_order env st r q w = (x, v)" "saved w = saved u"
      "frame (order_id r) (saved w) (work w)" "st \<in> {''refunded'', ''refund_hold''}" for st w
      using close_order_keeps [of w r st env q x v] that assms(1) mem r(2) by simp
    show ?thesis using a f1 f2 f3 keep assms(1)
      by (cases y1; cases y2; cases y3) (auto simp: then_do_def 1 2 3 split: if_splits)
  qed
qed

text \<open>A run of a renewal fails into a rolled-back session.\<close>

lemma find_renewal_put:
  "shop_wallet (put_renewal q s) = shop_wallet s" "credit_log (put_renewal q s) = credit_log s"
  "purchase_orders (put_renewal q s) = purchase_orders s"
  by (simp_all add: put_renewal_def)

lemma commit_renewal_keeps:
  "shop_ok (work u) \<Longrightarrow> shop_ok (saved u) \<Longrightarrow>
     commit (u\<lparr>work := put_renewal q (work u)\<rparr>) = (x, v) \<Longrightarrow> shop_ok (saved v)"
  by (auto simp: commit_def find_renewal_put split: if_splits intro: shop_ok_same)

lemma pay_synchronises:
  assumes "pay_with_balance env r u = (Inr r', v)"
  shows "work v = saved v"
proof -
  obtain s where "order_status r = ''pending''" "confirm_paid env None r (u\<lparr>work := s\<rparr>) = (Inr r', v)"
    using pay_outcome [OF assms] by auto
  then show ?thesis using confirm_outcome [of env None r "u\<lparr>work := s\<rparr>" "Inr r'" v] by auto
qed

lemma renewal_order_keeps:
  assumes "shop_ok (saved u)" and "work u = saved u" and "fresh env (saved u)" and "renewal_order env q u = (y, v)"
  shows "shop_ok (saved v)" and "y = Inr r \<Longrightarrow> work v = saved v"
proof -
  obtain z w where c: "create_order env (renewal_account q) (renewal_plan q) ''balance'' ''auto_renew'' u = (z, w)"
    by fastforce
  show "shop_ok (saved v)"
  proof (cases z)
    case (Inl e)
    then have "saved v = saved u"
      using assms(4) create_order_outcome [OF c] by (auto simp: renewal_order_def then_do_def c)
    then show ?thesis using assms(1) by simp
  next
    case (Inr r')
    then show ?thesis
      using assms(4) c buy_keeps(3) [OF assms(1-3), of _ _ _ _ r' w y v] by (simp add: renewal_order_def then_do_def)
  qed
  show "y = Inr r \<Longrightarrow> work v = saved v"
    using assms(4) by (cases z) (auto simp: renewal_order_def then_do_def c dest: pay_synchronises)
qed

lemma finish_renewal_keeps:
  "shop_ok (saved u) \<Longrightarrow> work u = saved u \<Longrightarrow> finish_renewal env i u = (x, v) \<Longrightarrow> shop_ok (saved v)"
  using commit_renewal_keeps [of u]
  by (auto simp: finish_renewal_def then_do_def split: option.splits prod.splits sum.splits)

lemma miss_renewal_keeps: "shop_ok (saved u) \<Longrightarrow> miss_renewal i u = (x, v) \<Longrightarrow> shop_ok (saved v)"
  using commit_renewal_keeps [of "rollback u"]
  by (auto simp: miss_renewal_def Let_def split: option.splits prod.splits sum.splits)

lemma run_renew_keeps:
  assumes "shop_ok (saved u)" and "work u = saved u" and "fresh env (saved u)" and "run_renew env i u = (x, v)"
  shows "shop_ok (saved v)"
proof (cases "find_renewal (saved u) i")
  case None
  then show ?thesis using assms by (simp add: run_renew_def)
next
  case (Some q)
  obtain y u1 where b: "renewal_order env q u = (y, u1)" by fastforce
  note keeps = renewal_order_keeps [OF assms(1-3) b]
  show ?thesis
    using assms Some keeps finish_renewal_keeps [of u1 env i x v] miss_renewal_keeps [of u1 i x v]
    by (auto simp: run_renew_def b split: if_splits sum.splits exn.splits)
qed

end
