(* ===== verification/Shop_Reach.thy ===== *)
theory Shop_Reach
  imports Shop_Props
begin

text \<open>
  The requests as steps of the database, and the invariant of every reachable shop.
\<close>

section \<open>Reachable shops\<close>

text \<open>
  One step is one request that ran to its end, by any session and with any outcome.  New order ids are
  fresh, and a payment channel calls back for the orders it was asked to take.  \<open>elsewhere\<close> stands for
  everything else: plans, memberships, relations, codes, requests and spent credits change, orders,
  wallet entries and the grants of orders do not.
\<close>

inductive shop_request :: "shop \<Rightarrow> shop \<Rightarrow> bool" where
  buy: "fresh env s \<Longrightarrow> serve (create_and_handle env create_payment account i method source) s = (x, t) \<Longrightarrow>
    shop_request s t"
| notify: "\<forall>r \<in> set (purchase_orders s). order_no r = cb_order_no cb \<longrightarrow> pay_method r \<noteq> balance_method \<Longrightarrow>
    serve (handle_notify env cb) s = (y, t) \<Longrightarrow> shop_request s t"
| cancel: "serve (cancel n who) s = (y, t) \<Longrightarrow> shop_request s t"
| ask: "serve (create_refund env account n) s = (q, t) \<Longrightarrow> shop_request s t"
| approve: "serve (approve env i) s = (q, t) \<Longrightarrow> shop_request s t"
| reject: "serve (reject i) s = (q, t) \<Longrightarrow> shop_request s t"
| subscribe: "serve (create_renewal env account i method) s = (p, t) \<Longrightarrow> shop_request s t"
| manage: "serve (set_renewal_status account i action) s = (p, t) \<Longrightarrow> shop_request s t"
| renew: "fresh env s \<Longrightarrow> serve (run_renew env i) s = (z, t) \<Longrightarrow> shop_request s t"
| elsewhere: "shop_wallet t = shop_wallet s \<Longrightarrow> purchase_orders t = purchase_orders s \<Longrightarrow>
    credit_log t = credit_log s @ cs \<Longrightarrow> \<forall>c \<in> set cs. tx_kind c \<noteq> OrderGrant \<Longrightarrow> constraints_hold t \<Longrightarrow>
    shop_request s t"

definition empty_wallet :: wallet where
  "empty_wallet = \<lparr>wallet_accounts = [], wallet_transactions = []\<rparr>"

inductive shop_reached :: "shop \<Rightarrow> bool" where
  start: "shop_wallet s = empty_wallet \<Longrightarrow> purchase_orders s = [] \<Longrightarrow> credit_log s = [] \<Longrightarrow> constraints_hold s \<Longrightarrow>
    shop_reached s"
| step: "shop_reached s \<Longrightarrow> shop_request s t \<Longrightarrow> shop_reached t"

text \<open>A request keeps the invariant when it does in a session that has seen what is saved.\<close>

lemma serve_keeps:
  assumes "serve f s = (x, t)" and "shop_ok s"
    and "\<And>u v y. work u = saved u \<Longrightarrow> saved u = s \<Longrightarrow> f u = (y, v) \<Longrightarrow> shop_ok (saved v)"
  shows "shop_ok t"
proof -
  obtain y v where "f \<lparr>saved = s, work = s\<rparr> = (y, v)" by fastforce
  then show ?thesis using assms(1) assms(3) [of "\<lparr>saved = s, work = s\<rparr>" y v] by (simp add: serve_def)
qed

lemma with_order_keeps:
  assumes "with_order n who f u = (y, v)" and "shop_ok (saved u)" and "work u = saved u"
    and "\<And>r. r \<in> set (purchase_orders (saved u)) \<Longrightarrow> order_no r = n \<Longrightarrow> f r u = (y, v) \<Longrightarrow> shop_ok (saved v)"
  shows "shop_ok (saved v)"
proof (cases "find (\<lambda>q. order_no q = n \<and> (who = None \<or> who = Some (order_account q))) (purchase_orders (work u))")
  case None
  then show ?thesis using assms(1,2) by (auto simp: with_order_def get_order_def)
next
  case (Some r)
  then have "r \<in> set (purchase_orders (saved u))" "order_no r = n" using assms(3) by (auto simp: find_Some_iff)
  then show ?thesis using assms(1,4) Some by (simp add: with_order_def get_order_def)
qed

lemma create_and_handle_keeps:
  assumes "work u = saved u" and "shop_ok (saved u)" and "fresh env (saved u)"
    and "create_and_handle env create_payment account i method source u = (x, v)"
  shows "shop_ok (saved v)"
proof -
  obtain z w where c: "create_order env account i method source u = (z, w)" by fastforce
  show ?thesis
  proof (cases z)
    case (Inl e)
    then have "saved v = saved u"
      using assms(4) create_order_outcome [OF c] by (auto simp: create_and_handle_def then_do_def c)
    then show ?thesis using assms(2) by simp
  next
    case (Inr r)
    note b = buy_keeps [OF assms(2,1,3) c [unfolded Inr]]
    obtain y w' where p: "pay_with_balance env r w = (y, w')" by fastforce
    show ?thesis using assms(4) b b(3) [OF p]
      by (auto simp: create_and_handle_def then_do_def c Inr p split: if_splits sum.splits)
  qed
qed

lemma confirm_notify_keeps:
  assumes "work u = saved u" and "shop_ok (saved u)" and "r \<in> set (purchase_orders (saved u))"
    and "pay_method r \<noteq> balance_method"
    and "(if amount_matches (order_amount r) cb then confirm_paid env (cb_transaction cb) r
          else (\<lambda>u. (Inl (FailError ''amount differs''), u))) u = (y, v)"
  shows "shop_ok (saved v)"
  using assms confirm_online_keeps [of u r env "cb_transaction cb" y v] by (auto split: if_splits)

lemma cancel_keeps:
  assumes "work u = saved u" and "shop_ok (saved u)" and "r \<in> set (purchase_orders (saved u))"
    and "(if order_status r \<noteq> ''pending'' then (Inl (FailError ''only pending orders''), u)
     else (let r' = r\<lparr>order_status := ''closed''\<rparr> in
       then_do commit_idempotent (\<lambda>_ u'. (Inr r', u')) (u\<lparr>work := put_order r' (work u)\<rparr>))) = (y, v)"
  shows "shop_ok (saved v)"
proof (cases "saved v = saved u")
  case False
  let ?r = "r\<lparr>order_status := ''closed''\<rparr>"
  have p: "order_status r = ''pending''" and v: "saved v = put_order ?r (saved u)" "constraints_hold (saved v)"
    using assms(1,4) False
    by (auto simp: then_do_def commit_idempotent_def commit_def rollback_def Let_def split: if_splits)
  have "untouched (saved u) (order_id r)"
    using assms(2,3) p by (auto simp: shop_ok_def order_ok_def unpaid_def)
  then have ok: "order_ok (saved v) ?r" by (simp add: order_ok_def unpaid_def untouched_def v(1))
  have w: "wallet_ok (shop_wallet (saved v))" using assms(2) by (simp add: v(1) shop_ok_def)
  have f: "frame (order_id r) (saved u)
      ((saved v)\<lparr>purchase_orders := purchase_orders (saved u), returns := returns (saved u)\<rparr>)"
    by (simp add: v(1) frame_def)
  have o: "purchase_orders (saved v) = purchase_orders (put_order ?r (saved u))" by (simp add: v(1))
  show ?thesis by (rule shop_ok_replace [OF assms(2,3) _ w v(2) o f ok]) simp
qed (simp add: assms(2))

lemma same_orders_keep:
  assumes "shop_ok (saved u)" and "commit (u\<lparr>work := s\<rparr>) = (y, v)" and "shop_wallet s = shop_wallet (saved u)"
    and "credit_log s = credit_log (saved u)" and "purchase_orders s = purchase_orders (saved u)"
  shows "shop_ok (saved v)"
  using assms by (auto simp: commit_def split: if_splits intro: shop_ok_same [of "saved u"])

lemma same_orders_work:
  assumes "commit (u\<lparr>work := s\<rparr>) = (y, v)" and "shop_ok (work u)" and "saved u = work u"
    and "shop_wallet s = shop_wallet (work u)" and "credit_log s = credit_log (work u)"
    and "purchase_orders s = purchase_orders (work u)"
  shows "shop_ok (saved v)"
  using assms same_orders_keep [of u s y v] by simp

lemma request_keeps: "shop_request s t \<Longrightarrow> shop_ok s \<Longrightarrow> shop_ok t"
proof (induction rule: shop_request.induct)
  case (buy env s create_payment account i how source x t)
  show ?case
    by (rule serve_keeps [OF buy.hyps(2) buy.prems], rule create_and_handle_keeps)
      (use buy in simp_all)
next
  case (notify s cb env y t)
  show ?case
  proof (rule serve_keeps [OF notify.hyps(2) notify.prems])
    fix u v y' assume u: "work u = saved u" "saved u = s" "handle_notify env cb u = (y', v)"
    show "shop_ok (saved v)"
    proof (cases "\<not> cb_paid cb \<or> cb_order_no cb = []")
      case True
      then show ?thesis using u notify.prems by (auto simp: handle_notify_def)
    next
      case False
      then have "with_order (cb_order_no cb) None (\<lambda>r.
          if amount_matches (order_amount r) cb then confirm_paid env (cb_transaction cb) r
          else (\<lambda>u. (Inl (FailError ''amount differs''), u))) u = (y', v)"
        using u(3) by (simp add: handle_notify_def)
      then show ?thesis
      proof (rule with_order_keeps)
        fix r assume r: "r \<in> set (purchase_orders (saved u))" "order_no r = cb_order_no cb"
          "(if amount_matches (order_amount r) cb then confirm_paid env (cb_transaction cb) r
            else (\<lambda>u. (Inl (FailError ''amount differs''), u))) u = (y', v)"
        then have "pay_method r \<noteq> balance_method" using notify.hyps(1) u(2) by simp
        then show ?thesis using confirm_notify_keeps [OF u(1) _ r(1) _ r(3)] notify.prems u(2) by simp
      qed (use u notify.prems in simp_all)
    qed
  qed
next
  case (cancel n who s y t)
  show ?case
  proof (rule serve_keeps [OF cancel.hyps cancel.prems])
    fix u v y' assume u: "work u = saved u" "saved u = s" "Orders.cancel n who u = (y', v)"
    have ok: "shop_ok (saved u)" using u(2) cancel.prems by simp
    show "shop_ok (saved v)"
      by (rule with_order_keeps [OF u(3) [unfolded cancel_def] ok u(1)])
        (rule cancel_keeps [OF u(1) ok], assumption, assumption)
  qed
next
  case (ask env account n s q t)
  show ?case
  proof (rule serve_keeps [OF ask.hyps ask.prems])
    fix u v y' assume u: "work u = saved u" "saved u = s" "create_refund env account n u = (y', v)"
    have ok: "shop_ok (saved u)" using u(2) ask.prems by simp
    show "shop_ok (saved v)"
      by (rule with_order_keeps [OF u(3) [unfolded create_refund_def] ok u(1)])
        (use ok u(1) in \<open>auto simp: then_do_def Let_def split: if_splits sum.splits option.splits prod.splits
          intro: same_orders_keep\<close>)
  qed
next
  case (approve env i s q t)
  show ?case
    by (rule serve_keeps [OF approve.hyps approve.prems], rule approve_keeps) (use approve in simp_all)
next
  case (reject i s q t)
  show ?case
  proof (rule serve_keeps [OF reject.hyps reject.prems])
    fix u v y' assume u: "work u = saved u" "saved u = s" "Refunds.reject i u = (y', v)"
    then show "shop_ok (saved v)" using reject.prems
      by (auto simp: reject_def Let_def split: if_splits sum.splits prod.splits dest: same_orders_work)
  qed
next
  case (subscribe env account i how s p t)
  show ?case
  proof (rule serve_keeps [OF subscribe.hyps subscribe.prems])
    fix u v y' assume u: "work u = saved u" "saved u = s" "create_renewal env account i how u = (y', v)"
    then show "shop_ok (saved v)" using subscribe.prems
      by (auto simp: create_renewal_def Let_def then_do_def split: if_splits sum.splits option.splits prod.splits
          dest: same_orders_work)
  qed
next
  case (manage account i action s p t)
  show ?case
  proof (rule serve_keeps [OF manage.hyps manage.prems])
    fix u v y' assume u: "work u = saved u" "saved u = s" "set_renewal_status account i action u = (y', v)"
    then show "shop_ok (saved v)" using manage.prems
      by (auto simp: set_renewal_status_def Let_def then_do_def find_renewal_put
          split: if_splits sum.splits option.splits prod.splits dest: same_orders_work)
  qed
next
  case (renew env s i z t)
  show ?case
    by (rule serve_keeps [OF renew.hyps(2) renew.prems], rule run_renew_keeps) (use renew in simp_all)
next
  case (elsewhere t s cs)
  have log: "set (credit_log t) = set (credit_log s) \<union> set cs" by (simp add: elsewhere.hyps(3))
  have "settled s r \<Longrightarrow> settled t r" for r unfolding settled_def elsewhere.hyps(1) log by blast
  moreover have "untouched s i \<Longrightarrow> untouched t i" for i
    unfolding untouched_def elsewhere.hyps(1) log using elsewhere.hyps(4) by blast
  ultimately have "order_ok s r \<Longrightarrow> order_ok t r" for r by (simp add: order_ok_def split: if_splits)
  then show ?case using elsewhere by (simp add: shop_ok_def)
qed

lemma reached_ok: "shop_reached s \<Longrightarrow> shop_ok s"
proof (induction rule: shop_reached.induct)
  case (start s)
  then show ?case using wallet_ok_empty by (simp add: shop_ok_def empty_wallet_def)
qed (rule request_keeps)

section \<open>What every reachable shop promises\<close>

lemma one_with_key:
  assumes "distinct (map f xs)" and "\<And>x. P x \<Longrightarrow> f x = k"
  shows "length (filter P xs) \<le> 1"
  using assms(1)
proof (induction xs)
  case (Cons x xs)
  show ?case
  proof (cases "P x")
    case True
    then have "filter P xs = []" using Cons.prems assms(2) by (force simp: filter_empty_conv)
    then show ?thesis by simp
  qed (use Cons in simp)
qed simp


text \<open>
  C32. The wallet of every reachable shop balances: what an account holds is the sum of its entries, it is
  never negative, and no entry records a negative balance.
\<close>

theorem wallet_balances:
  assumes "shop_reached s"
  shows "balance (account_or_fresh (shop_wallet s) k) = sum_of (shop_wallet s) k \<and>
    0 \<le> balance (account_or_fresh (shop_wallet s) k) \<and>
    (\<forall>e \<in> set (wallet_transactions (shop_wallet s)). 0 \<le> bt_after e)"
  using reached_ok [OF assms] by (simp add: shop_ok_def wallet_ok_def)

section \<open>A demonstration\<close>

definition demo_plan :: "int \<Rightarrow> string \<Rightarrow> rat \<Rightarrow> int \<Rightarrow> int \<Rightarrow> sale_plan" where
  "demo_plan i kind price n days =
     \<lparr>plan_id = i, plan_price = price, plan_grant = n, plan_days = days, sale_type = kind, sale_active = True,
      purchase_limit = 2, purchase_limit_period = ''all'', quota_refresh_period = ''none'',
      auto_renew_default = False, auto_renew_threshold_percent = 5, auto_renew_threshold_days = 1\<rparr>"

definition demo_env :: "int \<Rightarrow> int \<Rightarrow> shop_env" where
  "demo_env t i =
     \<lparr>now = t, process_started = 0, new_order_id = i, new_membership_id = i, new_renewal_id = i,
      new_return_id = i, order_nos = [nat_str (nat i)], plain_codes = [], channel_enabled = (\<lambda>_. True),
      distribution_enabled = True, account_active = (\<lambda>_. True)\<rparr>"

definition demo_plans :: "sale_plan list" where
  "demo_plans = [demo_plan 1 ''balance'' 100 0 0, demo_plan 2 ''credits'' 30 1000 0, demo_plan 3 ''membership'' 20 500 30]"

definition demo_shop :: shop where
  "demo_shop =
     \<lparr>sale_plans = demo_plans,
      purchase_orders = [], returns = [], renewals = [], relations = [(7, 8)], referral_codes = [],
      shop_wallet = empty_wallet, credit_rows = [], credit_log = [], membership_rows = []\<rparr>"

definition demo_callback :: "string \<Rightarrow> callback" where
  "demo_callback n =
     \<lparr>cb_paid = True, cb_order_no = n, cb_amount = None, cb_amount_fen = Some 10000, cb_transaction = Some ''T1''\<rparr>"

definition no_gateway :: "purchase_order \<Rightarrow> exn + string" where
  "no_gateway r = Inr ''form''"

definition demo1 :: shop where
  "demo1 = snd (serve (create_and_handle (demo_env 1000000 11) no_gateway 7 1 ''wechat'' ''normal'') demo_shop)"

definition demo2 :: shop where
  "demo2 = snd (serve (handle_notify (demo_env 2000000 12) (demo_callback ''11'')) demo1)"

lemma demo2_eq [code]: "demo2 =
   \<lparr>sale_plans = demo_plans,
       purchase_orders =
         [\<lparr>order_id = 11, order_no = ''11'', order_account = 7, order_plan = 1,
             order_type = ''balance'', order_amount = 100,
             pay_method = ''wechat'', order_source = ''normal'',
             order_status = ''paid'', transaction_id = Some ''T1'',
             paid_at = Some 2000000, refund_at = None\<rparr>],
       returns = [], renewals = [], relations = [(7, 8)], referral_codes = [],
       shop_wallet =
         \<lparr>wallet_accounts =
            [(7, \<lparr>balance = 100, total_recharged = 100, total_commission = 0,
                    total_withdrawn = 0, total_purchased = 0,
                    high_rate_locked = False, balance_updated = 2000000\<rparr>)],
            wallet_transactions =
              [\<lparr>bt_account = 7, bt_amount = 100, bt_after = 100,
                  bt_type = ''recharge'', bt_rate = None,
                  bt_source = ''order'', bt_source_id = 11\<rparr>]\<rparr>,
       credit_rows = [], credit_log = [], membership_rows = []\<rparr>"
  by code_simp

definition demo3 :: shop where
  "demo3 = snd (serve (create_and_handle (demo_env 3000000 13) no_gateway 7 2 ''balance'' ''normal'') demo2)"

lemma demo3_eq [code]: "demo3 =
   \<lparr>sale_plans = demo_plans,
       purchase_orders =
         [\<lparr>order_id = 11, order_no = ''11'', order_account = 7, order_plan = 1,
             order_type = ''balance'', order_amount = 100,
             pay_method = ''wechat'', order_source = ''normal'',
             order_status = ''paid'', transaction_id = Some ''T1'',
             paid_at = Some 2000000, refund_at = None\<rparr>,
          \<lparr>order_id = 13, order_no = ''13'', order_account = 7, order_plan = 2,
             order_type = ''credits'', order_amount = 30,
             pay_method = ''balance'', order_source = ''normal'',
             order_status = ''paid'', transaction_id = None,
             paid_at = Some 3000000, refund_at = None\<rparr>],
       returns = [], renewals = [], relations = [(7, 8)], referral_codes = [],
       shop_wallet =
         \<lparr>wallet_accounts =
            [(7, \<lparr>balance = 70, total_recharged = 100, total_commission = 0,
                    total_withdrawn = 0, total_purchased = 30,
                    high_rate_locked = False, balance_updated = 3000000\<rparr>),
             (8, \<lparr>balance = 6, total_recharged = 0, total_commission = 6,
                    total_withdrawn = 0, total_purchased = 0,
                    high_rate_locked = False, balance_updated = 3000000\<rparr>)],
            wallet_transactions =
              [\<lparr>bt_account = 7, bt_amount = 100, bt_after = 100,
                  bt_type = ''recharge'', bt_rate = None,
                  bt_source = ''order'', bt_source_id = 11\<rparr>,
               \<lparr>bt_account = 7, bt_amount = - 30, bt_after = 70,
                  bt_type = ''purchase'', bt_rate = None,
                  bt_source = ''order'', bt_source_id = 13\<rparr>,
               \<lparr>bt_account = 8, bt_amount = 6, bt_after = 6,
                  bt_type = ''commission'', bt_rate = Some (1 / 5),
                  bt_source = ''order'', bt_source_id = 13\<rparr>]\<rparr>,
       credit_rows =
         [(7, \<lparr>permanent_credit = 1000, quota_credit = 0, quota_granted = 0,
                 quota_cycle_days = 0, quota_reset_at = None,
                 total_granted = 1000, total_consumed = 0,
                 account_updated = 3000000\<rparr>)],
       credit_log =
         [\<lparr>tx_account = 7, tx_amount = 1000, tx_balance = 1000,
             tx_kind = OrderGrant, tx_source = ''order'', tx_source_id = 13,
             tx_created = 3000000\<rparr>],
       membership_rows = []\<rparr>"
  by code_simp

lemma demo_fresh: "fresh (demo_env 1000000 11) demo_shop" "fresh (demo_env 3000000 13) demo2"
  by code_simp+

lemma demo_online: "\<forall>r \<in> set (purchase_orders demo1). order_no r = ''11'' \<longrightarrow> pay_method r \<noteq> balance_method"
  by code_simp

lemma demo_shop_start: "constraints_hold demo_shop"
  by code_simp

lemma demo1_reached: "shop_reached demo1"
  unfolding demo1_def
  by (rule step [OF start buy [OF demo_fresh(1) prod.collapse [symmetric]]])
    (simp_all add: demo_shop_def demo_shop_start [unfolded demo_shop_def])

lemma demo2_reached: "shop_reached demo2"
  unfolding demo2_def
  by (rule step [OF demo1_reached notify [OF _ prod.collapse [symmetric]]])
    (use demo_online in \<open>simp add: demo_callback_def\<close>)

lemma demo3_reached: "shop_reached demo3"
  unfolding demo3_def by (rule step [OF demo2_reached buy [OF demo_fresh(2) prod.collapse [symmetric]]])


theorem wallet_balances_witness:
  "balance (account_or_fresh (shop_wallet demo3) 7) = sum_of (shop_wallet demo3) 7"
  using wallet_balances [OF demo3_reached] by blast

end
