(* ===== verification/Shop_Money.thy ===== *)
theory Shop_Money
  imports Shop_Reach
begin

text \<open>
  The effect of a purchase from the balance on every balance: the price leaves the buyer, the
  commission reaches the superior, nobody else is touched; and a purchase that fails costs nothing.
\<close>

section \<open>What the parts of a payment move\<close>

definition balance_of :: "shop \<Rightarrow> int \<Rightarrow> rat" where
  "balance_of s k = balance (account_or_fresh (shop_wallet s) k)"

definition locked :: "shop \<Rightarrow> int \<Rightarrow> bool" where
  "locked s k = high_rate_locked (account_or_fresh (shop_wallet s) k)"

text \<open>The commission that an order with this amount owes to an account.\<close>

definition commission_due :: "shop_env \<Rightarrow> shop \<Rightarrow> purchase_order \<Rightarrow> int \<Rightarrow> rat" where
  "commission_due env s r k =
     (if distribution_enabled env \<and> (order_type r = ''membership'' \<or> order_type r = ''credits'')
        \<and> relation_of (order_account r) s = Some k
      then max 0 (money (money (order_amount r) *
             (if locked s k \<or> high_rate_min_subordinates \<le> direct_subordinate_count k s
              then commission_rate_high else commission_rate_low)))
      else 0)"

lemma ensure_account_balance: "ensure_account k w = (a, w') \<Longrightarrow>
    account_or_fresh w' = account_or_fresh w \<and> a = account_or_fresh w k"
  by (simp add: ensure_fresh)

lemma moved_lock [simp]:
  "high_rate_locked (credited t x kind a) = high_rate_locked a" "high_rate_locked (debited t x kind a) = high_rate_locked a"
  by (simp_all add: credited_def debited_def Let_def)

lemma wallet_ok_money: "wallet_ok w \<Longrightarrow> money (balance (account_or_fresh w k)) = balance (account_or_fresh w k)"
  by (simp add: wallet_ok_def)

lemma credit_moves:
  assumes "wallet_credit t k x src sid kind rate w = (Inr e, w')" and "wallet_ok w"
    and "find_transaction w k src sid kind = Inr None"
  shows "balance (account_or_fresh w' j) = balance (account_or_fresh w j) + (if j = k then money x else 0)"
    and "high_rate_locked (account_or_fresh w' j) = high_rate_locked (account_or_fresh w j)"
  using assms wallet_ok_money [OF assms(2)]
  by (auto simp: wallet_credit_def Let_def account_or_fresh_put dest!: ensure_account_balance
      split: if_splits prod.splits)

lemma debit_moves:
  assumes "wallet_debit t k x src sid kind w = (Inr e, w')" and "wallet_ok w"
  shows "balance (account_or_fresh w' j) = balance (account_or_fresh w j) - (if j = k then money x else 0)"
    and "high_rate_locked (account_or_fresh w' j) = high_rate_locked (account_or_fresh w j)"
    and "wallet_transactions w' = wallet_transactions w @ [e]"
proof -
  obtain a w1 where a: "ensure_account k w = (a, w1)" by fastforce
  show "balance (account_or_fresh w' j) = balance (account_or_fresh w j) - (if j = k then money x else 0)"
    "high_rate_locked (account_or_fresh w' j) = high_rate_locked (account_or_fresh w j)"
    "wallet_transactions w' = wallet_transactions w @ [e]"
    using assms(1) wallet_ok_money [OF assms(2)] ensure_account_balance [OF a] ensure_fresh(3) [OF a]
    by (auto simp: wallet_debit_def a Let_def account_or_fresh_put split: if_splits)
qed

lemma settle_moves:
  assumes "settle env k x src sid s = (Inr (), t)" and "wallet_ok (shop_wallet s)"
    and "\<not> (\<exists>e \<in> set (wallet_transactions (shop_wallet s)). bt_source_id e = sid \<and> bt_type e = ''commission'')"
  shows "balance_of t j = balance_of s j +
    (if relation_of k s = Some j
     then max 0 (money (x * (if locked s j \<or> high_rate_min_subordinates \<le> direct_subordinate_count j s
              then commission_rate_high else commission_rate_low))) else 0)"
proof (cases "relation_of k s")
  case None
  then show ?thesis using assms(1) by (auto simp: settle_def)
next
  case (Some i)
  obtain a w1 where e: "ensure_account i (shop_wallet s) = (a, w1)" by fastforce
  note E = ensure_account_balance [OF e]
  obtain rate b where c: "commission_rate (process_started env) a (direct_subordinate_count i s) = (rate, b)" by fastforce
  have rate: "rate = (if locked s i \<or> high_rate_min_subordinates \<le> direct_subordinate_count i s
      then commission_rate_high else commission_rate_low)" and b: "balance b = balance a"
    using c E by (auto simp: commission_rate_def locked_def split: if_splits)
  let ?w = "put_balance_account i b w1"
  have bal: "balance (account_or_fresh ?w j) = balance_of s j" for j
    using b E by (simp add: account_or_fresh_put balance_of_def)
  have ok: "wallet_ok ?w"
    using assms(2) E b ensure_ok [OF e] by (intro locked_ok) auto
  have tx: "wallet_transactions ?w = wallet_transactions (shop_wallet s)" using ensure_fresh(3) [OF e] by simp
  have none: "find_transaction ?w i src sid ''commission'' = Inr None"
    using assms(3) tx by (auto simp: find_transaction_None)
  show ?thesis
  proof (cases "money (x * rate) \<le> 0")
    case True
    then have "t = s\<lparr>shop_wallet := ?w\<rparr>" using assms(1) Some by (simp add: settle_def e c Let_def)
    then show ?thesis using True bal Some rate by (cases "j = i") (simp_all add: balance_of_def)
  next
    case False
    then obtain e' w3 where w3: "wallet_credit (now env) i (money (x * rate)) src sid ''commission'' (Some rate) ?w
        = (Inr e', w3)" and t: "shop_wallet t = w3"
      using assms(1) Some by (auto simp: settle_def e c Let_def split: prod.splits sum.splits)
    show ?thesis
      using credit_moves(1) [OF w3 ok none, of j] False bal t Some rate by (auto simp: balance_of_def)
  qed
qed

lemma settle_only_wallet: "settle env k x src sid s = (r, t) \<Longrightarrow> \<exists>w. t = s\<lparr>shop_wallet := w\<rparr>"
proof (cases "relation_of k s")
  case None
  then show "settle env k x src sid s = (r, t) \<Longrightarrow> \<exists>w. t = s\<lparr>shop_wallet := w\<rparr>"
    by (auto simp: settle_def intro: exI [of _ "shop_wallet s"])
next
  case (Some i)
  then show "settle env k x src sid s = (r, t) \<Longrightarrow> \<exists>w. t = s\<lparr>shop_wallet := w\<rparr>"
    by (auto simp: settle_def Let_def split: prod.splits if_splits sum.splits)
qed

lemma fulfill_keeps:
  "fulfill_rights env r s = (Inr (), t) \<Longrightarrow> shop_wallet t = shop_wallet s \<and> relations t = relations s"
  by (auto simp: fulfill_rights_def autoflush_def grant_credits_def upsert_membership_def Let_def
      split: option.splits if_splits)

lemma enable_keeps:
  "maybe_enable_auto_renewal env r s = (Inr (), t) \<Longrightarrow> shop_wallet t = shop_wallet s \<and> relations t = relations s"
  by (auto simp: maybe_enable_auto_renewal_def autoflush_def put_renewal_def Let_def
      split: option.splits if_splits sum.splits)

text \<open>A delivery moves the commission and nothing else.\<close>

lemma deliver_moves:
  assumes "deliver env r s = (Inr (), t)" and "order_type r \<noteq> ''balance''" and "wallet_ok (shop_wallet s)"
    and "\<not> (\<exists>e \<in> set (wallet_transactions (shop_wallet s)). bt_source_id e = order_id r \<and> bt_type e = ''commission'')"
  shows "balance_of t j = balance_of s j + commission_due env s r j"
proof -
  obtain s1 s2 where 1: "fulfill_rights env r s = (Inr (), s1)" "maybe_enable_auto_renewal env r s1 = (Inr (), s2)"
    "settle_commission_for_order env (order_account r) r s2 = (Inr (), t)"
    using assms(1,2) by (auto simp: deliver_def)
  have same: "shop_wallet s2 = shop_wallet s" "relations s2 = relations s"
    using fulfill_keeps [OF 1(1)] enable_keeps [OF 1(2)] by simp_all
  have "settle env (order_account r) (money (order_amount r)) ''order'' (order_id r) s2 = (Inr (), t) \<or>
      t = s2 \<and> \<not> (distribution_enabled env \<and> (order_type r = ''membership'' \<or> order_type r = ''credits''))"
    using 1(3) by (auto simp: settle_commission_for_order_def autoflush_def split: if_splits)
  then show ?thesis
  proof
    assume S: "settle env (order_account r) (money (order_amount r)) ''order'' (order_id r) s2 = (Inr (), t)"
    show ?thesis
    proof (cases "distribution_enabled env \<and> (order_type r = ''membership'' \<or> order_type r = ''credits'')")
      case True
      then show ?thesis using settle_moves [OF S, of j] assms(3,4) same
        by (simp add: commission_due_def balance_of_def locked_def relation_of_def direct_subordinate_count_def)
    next
      case False
      then have "t = s2" using 1(3) by (auto simp: settle_commission_for_order_def split: if_splits)
      then show ?thesis using False same by (auto simp: commission_due_def balance_of_def)
    qed
  next
    assume "t = s2 \<and> \<not> (distribution_enabled env \<and> (order_type r = ''membership'' \<or> order_type r = ''credits''))"
    then show ?thesis using same by (auto simp: commission_due_def balance_of_def)
  qed
qed

section \<open>A purchase\<close>

lemma no_commission_yet:
  assumes "wallet_transactions w = wallet_transactions (shop_wallet s) @ es" and "\<forall>e \<in> set es. bt_type e = ''purchase''"
    and "\<forall>e \<in> set (wallet_transactions (shop_wallet s)). bt_source_id e \<noteq> i"
  shows "\<not> (\<exists>e \<in> set (wallet_transactions w). bt_source_id e = i \<and> bt_type e = ''commission'')"
  using assms by auto

text \<open>Paying a pending order whose id no entry has yet: the price leaves the buyer, the commission is
  due as the tables stand, and the order is paid.\<close>

lemma pay_moves:
  assumes "pay_with_balance env r u = (Inr r', v)" and "wallet_ok (shop_wallet (work u))"
    and "order_type r \<noteq> ''balance''"
    and "\<forall>e \<in> set (wallet_transactions (shop_wallet (work u))). bt_source_id e \<noteq> order_id r"
  shows "order_status r' = ''paid''" and "order_id r' = order_id r"
    and "purchase_orders (saved v) = purchase_orders (put_order r' (work u))"
    and "balance_of (saved v) k = balance_of (work u) k
      - (if k = order_account r then max 0 (money (order_amount r)) else 0) + commission_due env (work u) r k"
    and "max 0 (money (order_amount r)) \<le> balance_of (work u) (order_account r)"
proof -
  obtain a w1 where e: "ensure_account (order_account r) (shop_wallet (work u)) = (a, w1)" by fastforce
  note E = ensure_account_balance [OF e]
  let ?s1 = "(work u)\<lparr>shop_wallet := w1\<rparr>"
  have ok1: "wallet_ok w1" using ensure_ok [OF e] assms(2) by simp
  have le: "money (order_amount r) \<le> money (balance a)"
    and pending: "order_status r = ''pending''"
    using assms(1) by (auto simp: pay_with_balance_def e Let_def split: if_splits)
  have nonneg: "0 \<le> balance a" "money (balance a) = balance a"
    using wallet_ok_account [OF assms(2) e] by simp_all
  then show "max 0 (money (order_amount r)) \<le> balance_of (work u) (order_account r)"
    using le E by (simp add: balance_of_def)
  obtain s where s: "confirm_paid env None r (u\<lparr>work := s\<rparr>) = (Inr r', v)" "frame (order_id r) ?s1 s"
    "\<And>j. balance_of s j = balance_of (work u) j - (if j = order_account r then max 0 (money (order_amount r)) else 0)"
    "\<And>j. locked s j = locked (work u) j"
    "\<exists>es. wallet_transactions (shop_wallet s) = wallet_transactions (shop_wallet (work u)) @ es \<and>
       (\<forall>e \<in> set es. bt_type e = ''purchase'')"
  proof (cases "0 < money (order_amount r)")
    case True
    then obtain e' s where d: "debit_purchase env r ?s1 = (Inr e', s)" "confirm_paid env None r (u\<lparr>work := s\<rparr>) = (Inr r', v)"
      using assms(1) le by (auto simp: pay_with_balance_def e Let_def in_session_def split: if_splits prod.splits)
    obtain w2 where w2: "wallet_debit (now env) (order_account r) (order_amount r) ''order'' (order_id r) ''purchase'' w1
        = (Inr e', w2)" "s = ?s1\<lparr>shop_wallet := w2\<rparr>"
      using d(1) by (auto simp: debit_purchase_def on_wallet_def split: prod.splits)
    note m = debit_moves [OF w2(1) ok1]
    show ?thesis
    proof (rule that [OF d(2) shop_frame.obeysD [OF debit_purchase_frame d(1)]])
      show "balance_of s j = balance_of (work u) j - (if j = order_account r then max 0 (money (order_amount r)) else 0)" for j
        using m(1) True E by (simp add: balance_of_def w2(2))
      show "locked s j = locked (work u) j" for j using m(2) E by (simp add: locked_def w2(2))
      show "\<exists>es. wallet_transactions (shop_wallet s) = wallet_transactions (shop_wallet (work u)) @ es \<and>
          (\<forall>e \<in> set es. bt_type e = ''purchase'')"
        using m(3) ensure_fresh(3) [OF e] debit_outcome(5) [OF w2(1)] by (simp add: w2(2))
    qed
  next
    case False
    then have c: "confirm_paid env None r (u\<lparr>work := ?s1\<rparr>) = (Inr r', v)"
      using assms(1) le by (auto simp: pay_with_balance_def e Let_def split: if_splits)
    show ?thesis
      by (rule that [OF c shop_frame.le_refl])
        (use False E ensure_fresh(3) [OF e] in \<open>simp_all add: balance_of_def locked_def\<close>)
  qed
  have r': "r' = with_transaction None (r\<lparr>order_status := ''paid'', paid_at := Some (now env)\<rparr>)"
    and d: "deliver env r' (put_order r' s) = (Inr (), saved v)"
    using confirm_outcome [OF s(1)] pending by auto
  then have ids: "order_id r' = order_id r" "order_account r' = order_account r" "order_amount r' = order_amount r"
    "order_type r' = order_type r" "order_status r' = ''paid''" by simp_all
  then show "order_status r' = ''paid''" "order_id r' = order_id r" by simp_all
  have orders: "purchase_orders s = purchase_orders (work u)" "relations s = relations (work u)"
    using s(2) by (simp_all add: frame_def)
  then show "purchase_orders (saved v) = purchase_orders (put_order r' (work u))"
    using shop_frame.obeysD [OF deliver_frame d] by (simp add: frame_def put_order_def)
  have "wallet_ok (shop_wallet s)"
    using s(2) ok1 by (simp add: frame_def wallet_frame_def)
  moreover have "\<not> (\<exists>e \<in> set (wallet_transactions (shop_wallet s)). bt_source_id e = order_id r \<and> bt_type e = ''commission'')"
    using s(5) no_commission_yet [OF _ _ assms(4)] by blast
  ultimately have "balance_of (saved v) k = balance_of (put_order r' s) k + commission_due env (put_order r' s) r' k"
    using assms(3) ids by (intro deliver_moves [OF d]) simp_all
  also have "balance_of (put_order r' s) k = balance_of s k" by (simp add: balance_of_def)
  also have "commission_due env (put_order r' s) r' k = commission_due env (work u) r k"
    using s(4) ids orders by (auto simp: commission_due_def locked_def relation_of_def direct_subordinate_count_def)
  finally show "balance_of (saved v) k = balance_of (work u) k
      - (if k = order_account r then max 0 (money (order_amount r)) else 0) + commission_due env (work u) r k"
    using s(3) by simp
qed

lemma pay_keeps_fields:
  "pay_with_balance env r u = (Inr r', v) \<Longrightarrow> order_amount r' = order_amount r \<and>
     order_account r' = order_account r \<and> order_type r' = order_type r \<and> order_id r' = order_id r"
  using pay_outcome [of env r u "Inr r'" v] confirm_outcome [of env None r _ "Inr r'" v] by force

text \<open>
  C4. A purchase from the balance that succeeds adds one order, which is paid; the buyer's balance
  covered the price and falls by exactly the price, the superior's balance rises by exactly the
  commission at the rate in force, and no other balance moves.
\<close>

theorem purchase_moves_exactly:
  assumes "shop_reached s" and "fresh env s"
    and "serve (create_and_handle env create_payment account i ''balance'' source) s = (Inr (r, form), t)"
  shows "form = None \<and> order_status r = ''paid'' \<and> order_account r = account \<and>
    purchase_orders t = purchase_orders s @ [r] \<and>
    (\<exists>p. find_plan s i = Some p \<and> order_amount r = money (plan_price p)) \<and>
    max 0 (order_amount r) \<le> balance_of s account \<and>
    (\<forall>k. balance_of t k =
       balance_of s k - (if k = account then max 0 (order_amount r) else 0) + commission_due env s r k)"
proof -
  let ?u = "\<lparr>saved = s, work = s\<rparr>"
  have ok: "shop_ok s" using assms(1) by (rule reached_ok)
  obtain r0 u1 v where 1: "create_order env account i ''balance'' source ?u = (Inr r0, u1)"
    and 2: "pay_with_balance env r0 u1 = (Inr r, v)" and t: "t = saved v" and form: "form = None"
    using assms(3) by (auto simp: serve_def create_and_handle_def balance_method_def split: prod.splits)
  obtain p raw n where c: "check_order env account i ''balance'' s = Inr (p, raw)" "r0 = new_order env account p raw source n"
    "work u1 = s\<lparr>purchase_orders := purchase_orders s @ [r0]\<rparr>" "saved u1 = work u1"
    using create_order_outcome [OF 1] by auto
  have p: "find_plan s i = Some p" using c(1) by (auto simp: check_order_def Let_def split: option.splits if_splits sum.splits)
  have amt: "money (order_amount r0) = order_amount r0" "order_amount r0 = money (plan_price p)"
    "order_id r0 = new_order_id env" "order_account r0 = account" using c(2) by (simp_all add: new_order_def)
  have notop: "order_type r0 \<noteq> ''balance''"
  proof
    assume "order_type r0 = ''balance''"
    then have "pay_method r0 \<noteq> balance_method" using check_order_type [OF c(1)] c(2) by (simp add: new_order_def)
    then show False using 2 by (simp add: pay_with_balance_def)
  qed
  have w: "shop_wallet (work u1) = shop_wallet s" "relations (work u1) = relations s" using c(3) by simp_all
  have wok: "wallet_ok (shop_wallet (work u1))" using ok w by (simp add: shop_ok_def)
  have "\<forall>e \<in> set (wallet_transactions (shop_wallet (work u1))). bt_source_id e \<noteq> order_id r0"
    using assms(2) w amt by (simp add: fresh_def)
  note m = pay_moves [OF 2 wok notop this]
  have r: "order_amount r = order_amount r0" "order_account r = account" "order_type r = order_type r0" "order_id r = order_id r0"
    using pay_keeps_fields [OF 2] amt by simp_all
  have "map (\<lambda>q. if order_id q = order_id r then r else q) (purchase_orders s) = purchase_orders s"
    using assms(2) m(2) amt by (intro map_idI) (force simp: fresh_def)
  then have orders: "purchase_orders t = purchase_orders s @ [r]"
    using m(2,3) c(3) t by (simp add: put_order_def)
  have due: "commission_due env (work u1) r0 k = commission_due env s r k" for k
    using w r amt by (auto simp: commission_due_def locked_def relation_of_def direct_subordinate_count_def)
  have bal: "balance_of (work u1) k = balance_of s k" for k by (simp add: balance_of_def w(1))
  show ?thesis
    using m(1,5) m(4) orders form p r amt due bal t by simp
qed

theorem purchase_moves_exactly_witness:
  "\<exists>r t. serve (create_and_handle (demo_env 3000000 13) no_gateway 7 2 ''balance'' ''normal'') demo2 = (Inr (r, None), t)
     \<and> balance_of t 7 = balance_of demo2 7 - max 0 (order_amount r) + commission_due (demo_env 3000000 13) demo2 r 7"
proof -
  have "case fst (serve (create_and_handle (demo_env 3000000 13) no_gateway 7 2 ''balance'' ''normal'') demo2) of
      Inl e \<Rightarrow> False | Inr q \<Rightarrow> snd q = None" by code_simp
  then obtain r t where
    s: "serve (create_and_handle (demo_env 3000000 13) no_gateway 7 2 ''balance'' ''normal'') demo2 = (Inr (r, None), t)"
    by (cases "serve (create_and_handle (demo_env 3000000 13) no_gateway 7 2 ''balance'' ''normal'') demo2")
      (auto split: sum.splits)
  show ?thesis using s purchase_moves_exactly [OF demo2_reached demo_fresh(2) s] by simp
qed

text \<open>
  A purchase that fails costs nothing: the tables are as before, but for at most one new order, which
  is pending.
\<close>

theorem failed_purchase_costs_nothing:
  assumes "serve (create_and_handle env create_payment account i method source) s = (Inl e, t)"
  shows "t = s \<or> (\<exists>r. order_status r = ''pending'' \<and> order_account r = account \<and>
    t = s\<lparr>purchase_orders := purchase_orders s @ [r]\<rparr>)"
proof -
  let ?u = "\<lparr>saved = s, work = s\<rparr>"
  obtain z u1 where 1: "create_order env account i method source ?u = (z, u1)" by fastforce
  show ?thesis
  proof (cases z)
    case (Inl e')
    then show ?thesis using assms 1 create_order_outcome [OF 1]
      by (auto simp: serve_def create_and_handle_def then_do_def)
  next
    case (Inr r)
    then have c: "order_status r = ''pending''" "order_account r = account"
      "saved u1 = s\<lparr>purchase_orders := purchase_orders s @ [r]\<rparr>"
      using create_order_outcome [OF 1] by (auto simp: new_order_def)
    obtain y v where p: "pay_with_balance env r u1 = (y, v)" by fastforce
    have "saved v = saved u1" if "y = Inl e"
      using pay_outcome [OF p] confirm_outcome [of env None r _ y v] that by fastforce
    then have "t = saved u1" using assms
      by (auto simp: serve_def create_and_handle_def then_do_def 1 Inr p split: if_splits sum.splits)
    then show ?thesis using c by blast
  qed
qed

theorem failed_purchase_costs_nothing_witness:
  "\<exists>e t. serve (create_and_handle (demo_env 1 11) no_gateway 7 2 ''balance'' ''normal'') demo_shop = (Inl e, t) \<and>
     (t = demo_shop \<or> (\<exists>r. order_status r = ''pending'' \<and> order_account r = 7 \<and>
        t = demo_shop\<lparr>purchase_orders := purchase_orders demo_shop @ [r]\<rparr>))"
proof -
  have "\<not> (case fst (serve (create_and_handle (demo_env 1 11) no_gateway 7 2 ''balance'' ''normal'') demo_shop) of
      Inl e \<Rightarrow> False | Inr q \<Rightarrow> True)" by code_simp
  then obtain e t where
    s: "serve (create_and_handle (demo_env 1 11) no_gateway 7 2 ''balance'' ''normal'') demo_shop = (Inl e, t)"
    by (cases "serve (create_and_handle (demo_env 1 11) no_gateway 7 2 ''balance'' ''normal'') demo_shop")
      (auto split: sum.splits)
  show ?thesis using s failed_purchase_costs_nothing [OF s] by blast
qed

section \<open>Two confirmations of one order\<close>

lemma deliver_log:
  assumes "deliver env r s = (Inr (), t)" and "order_type r = ''membership'' \<or> order_type r = ''credits''"
  shows "\<exists>c. credit_log t = credit_log s @ [c] \<and> tx_kind c = OrderGrant \<and> tx_source c = ''order'' \<and>
    tx_source_id c = order_id r"
proof -
  obtain s1 s2 where 1: "fulfill_rights env r s = (Inr (), s1)" "maybe_enable_auto_renewal env r s1 = (Inr (), s2)"
    "settle_commission_for_order env (order_account r) r s2 = (Inr (), t)"
    using assms by (auto simp: deliver_def)
  have "credit_log s2 = credit_log s1"
    using 1(2) by (auto simp: maybe_enable_auto_renewal_def autoflush_def put_renewal_def Let_def
        split: option.splits if_splits sum.splits)
  moreover have "credit_log t = credit_log s2"
    using 1(3) by (auto simp: settle_commission_for_order_def settle_def autoflush_def Let_def
        split: option.splits if_splits sum.splits prod.splits)
  moreover have "\<exists>c. credit_log s1 = credit_log s @ [c] \<and> tx_kind c = OrderGrant \<and> tx_source c = ''order'' \<and>
    tx_source_id c = order_id r"
    using 1(1) assms(2) by (auto simp: fulfill_rights_def autoflush_def grant_credits_def upsert_membership_def Let_def
        split: if_splits option.splits)
  ultimately show ?thesis by simp
qed

text \<open>
  C25. Two callbacks may both read the order while it is pending.  The one that commits second finds the
  order settled, and delivers nothing again: for a plan with rights nothing it did is saved, and for a
  top-up the wallet stays as it is.
\<close>

theorem late_confirmation_delivers_nothing:
  assumes "shop_reached s" and "q \<in> set (purchase_orders s)" and "\<not> unpaid q"
    and "order_id r = order_id q" and "order_account r = order_account q" and "order_type r = order_type q"
    and "order_status r = ''pending''"
    and "confirm_paid env tx r \<lparr>saved = s, work = s\<rparr> = (x, v)"
  shows "(order_type q = ''membership'' \<or> order_type q = ''credits'' \<longrightarrow> saved v = s \<and> (\<exists>e. x = Inl e)) \<and>
    (order_type q = ''balance'' \<longrightarrow> shop_wallet (saved v) = shop_wallet s)"
proof -
  define r' where "r' = with_transaction tx (r\<lparr>order_status := ''paid'', paid_at := Some (now env)\<rparr>)"
  have f: "order_id r' = order_id q" "order_account r' = order_account q" "order_type r' = order_type q"
    using assms(4-6) by (simp_all add: r'_def)
  have settled: "settled s q"
    using reached_ok [OF assms(1)] assms(2,3) by (auto simp: shop_ok_def order_ok_def)
  consider "saved v = s" "\<exists>e. x = Inl e"
    | "constraints_hold (saved v)" "deliver env r' (put_order r' s) = (Inr (), saved v)"
    using confirm_outcome [OF assms(8)] assms(7) by (auto simp: r'_def)
  then show ?thesis
  proof cases
    case 2
    have rights: False if "order_type q = ''membership'' \<or> order_type q = ''credits''"
    proof -
      note kind = that
      obtain t where t: "credit_log (saved v) = credit_log s @ [t]"
        "tx_kind t = OrderGrant" "tx_source t = ''order''" "tx_source_id t = order_id q"
        using deliver_log [OF 2(2)] kind f by auto
      obtain c where "c \<in> set (credit_log s)" "tx_kind c = OrderGrant" "tx_source c = ''order''" "tx_source_id c = order_id q"
        using settled kind by (auto simp: settled_def)
      then show False using 2(1) t by (force simp: constraints_hold_def)
    qed
    have "shop_wallet (saved v) = shop_wallet s" if "order_type q = ''balance''"
    proof -
      have "find_transaction (shop_wallet s) (order_account q) ''order'' (order_id q) ''recharge'' \<noteq> Inr None"
        using settled that by (auto simp: settled_def find_transaction_None)
      then show ?thesis using 2(2) that f
        by (auto simp: deliver_def autoflush_def on_wallet_def wallet_credit_def Let_def
            split: if_splits prod.splits sum.splits option.splits dest!: arg_cong [where f = shop_wallet])
    qed
    with rights show ?thesis by blast
  qed simp
qed

definition demo_stale :: purchase_order where
  "demo_stale = (purchase_orders demo3 ! 1)\<lparr>order_status := ''pending''\<rparr>"

theorem late_confirmation_delivers_nothing_witness:
  "saved (snd (confirm_paid (demo_env 4000000 14) None demo_stale \<lparr>saved = demo3, work = demo3\<rparr>)) = demo3"
proof -
  have "purchase_orders demo3 ! 1 \<in> set (purchase_orders demo3)" by (simp add: demo3_eq)
  from late_confirmation_delivers_nothing [OF demo3_reached this, of demo_stale "demo_env 4000000 14" None]
  show ?thesis
    by (cases "confirm_paid (demo_env 4000000 14) None demo_stale \<lparr>saved = demo3, work = demo3\<rparr>")
      (simp add: demo_stale_def demo3_eq unpaid_def)
qed

section \<open>Purchase limits\<close>

text \<open>
  An order is only created while fewer paid orders of the plan lie in the current period than the
  plan allows.
\<close>

theorem purchase_limit_checked:
  assumes "create_order env account i method source u = (Inr r, v)" and "find_plan (work u) i = Some p"
    and "0 < purchase_limit p" and "clean (purchase_limit_period p) \<in> set period_steps"
  shows "int (length (filter (counted account (plan_id p) (purchase_limit_since (now env) (clean (purchase_limit_period p))))
      (purchase_orders (work u)))) < purchase_limit p"
proof -
  have "\<exists>raw. check_order env account i method (work u) = Inr (p, raw)"
    using create_order_outcome [OF assms(1)] assms(2)
    by (auto simp: check_order_def Let_def split: if_splits sum.splits)
  then have "enforce_purchase_limit env account p (work u) = Inr ()"
    using assms(2) by (auto simp: check_order_def Let_def split: if_splits sum.splits)
  moreover have "purchase_limit_period p \<noteq> []"
    using assms(4) by (auto simp: period_steps_def clean_def strip_def lstrip_def rstrip_def)
  ultimately show ?thesis using assms(3,4)
    by (auto simp: enforce_purchase_limit_def Let_def split: if_splits)
qed

text \<open>A plan sold twice at most, with orders opened before the first is paid.\<close>

fun open_orders :: "int \<Rightarrow> int list \<Rightarrow> shop \<Rightarrow> shop" where
  "open_orders i [] s = s"
| "open_orders i (k # ks) s =
     open_orders i ks (snd (serve (create_and_handle (demo_env (1000000 * k) k) no_gateway 7 i ''wechat'' ''normal'') s))"

fun pay_orders :: "int list \<Rightarrow> shop \<Rightarrow> shop" where
  "pay_orders [] s = s"
| "pay_orders (k # ks) s =
     pay_orders ks (snd (serve (handle_notify (demo_env (1000000 * k) k)
       (demo_callback (nat_str (nat k)) \<lparr>cb_amount_fen := None\<rparr>)) s))"

theorem purchase_limit_checked_witness:
  "int (length (filter (counted 7 2 (purchase_limit_since 21000000 ''all'')) (purchase_orders demo3))) < 2"
proof -
  let ?u = "\<lparr>saved = demo3, work = demo3\<rparr>"
  have "\<not> (case fst (create_order (demo_env 21000000 21) 7 2 ''balance'' ''normal'' ?u) of Inl e \<Rightarrow> True | Inr r \<Rightarrow> False)"
    by code_simp
  then obtain r v where o: "create_order (demo_env 21000000 21) 7 2 ''balance'' ''normal'' ?u = (Inr r, v)"
    by (cases "create_order (demo_env 21000000 21) 7 2 ''balance'' ''normal'' ?u") (auto split: sum.splits)
  have p: "find_plan (work ?u) 2 = Some (demo_plan 2 ''credits'' 30 1000 0)" by code_simp
  have f: "0 < purchase_limit (demo_plan 2 ''credits'' 30 1000 0)"
    "clean (purchase_limit_period (demo_plan 2 ''credits'' 30 1000 0)) \<in> set period_steps"
    "clean (purchase_limit_period (demo_plan 2 ''credits'' 30 1000 0)) = ''all''"
    by code_simp+
  show ?thesis using purchase_limit_checked [OF o p f(1,2)] unfolding f(3)
    by (simp add: demo_env_def demo_plan_def)
qed

text \<open>
  The limit is checked when an order is made and not when it is paid, and only paid orders count: a
  buyer who opens three orders of a plan limited to two in total can pay all of them.
\<close>

theorem limit_exceeded_by_open_orders:
  "purchase_limit (demo_plan 2 ''credits'' 30 1000 0) = 2 \<and>
   length (filter (counted 7 2 None) (purchase_orders (pay_orders [21, 22, 23] (open_orders 2 [21, 22, 23] demo_shop)))) = 3"
  by code_simp

end
