(* ===== verification/Refund_Props.thy ===== *)
theory Refund_Props
  imports Shop_Money
begin

text \<open>
  What an approved refund moves, that no order is refunded twice, and where the review gives back more
  than it takes.
\<close>

section \<open>The money of a refund\<close>

definition refund_due :: "purchase_order \<Rightarrow> int \<Rightarrow> rat" where
  "refund_due r k =
     (if k \<noteq> order_account r then 0
      else if order_type r = ''balance'' then - money (order_amount r)
      else if pay_method r = ''balance'' then money (order_amount r)
      else 0)"

text \<open>The commission entry of an order, the account it went to and what it was.\<close>

definition commission_entry :: "shop \<Rightarrow> purchase_order \<Rightarrow> balance_transaction option" where
  "commission_entry s r =
     find (\<lambda>t. bt_source t = ''order'' \<and> bt_source_id t = order_id r \<and> bt_type t = ''commission'')
       (wallet_transactions (shop_wallet s))"

definition covered :: "shop \<Rightarrow> purchase_order \<Rightarrow> balance_transaction \<Rightarrow> bool" where
  "covered s r e =
     (0 < money (bt_amount e) \<and> money (bt_amount e) \<le> balance_of s (bt_account e) + refund_due r (bt_account e))"

definition clawed :: "shop \<Rightarrow> purchase_order \<Rightarrow> int \<Rightarrow> rat" where
  "clawed s r k =
     (case commission_entry s r of
        Some e \<Rightarrow> if order_type r \<noteq> ''balance'' \<and> bt_account e = k \<and> covered s r e then money (bt_amount e) else 0
      | None \<Rightarrow> 0)"

lemma find_snoc: "\<not> P x \<Longrightarrow> find P (xs @ [x]) = find P xs"
  by (induction xs) auto

lemma credit_appends:
  assumes "wallet_credit t k x src sid kind rate w = (Inr e, w')" and "find_transaction w k src sid kind = Inr None"
  shows "wallet_transactions w' = wallet_transactions w @ [e] \<and> bt_type e = kind"
proof -
  obtain a w1 where a: "ensure_account k w = (a, w1)" by fastforce
  show ?thesis using assms ensure_fresh(3) [OF a] by (auto simp: wallet_credit_def a Let_def split: if_splits)
qed

lemma refund_funds_moves:
  assumes "refund_funds env r s = (Inr (), t)" and "wallet_ok (shop_wallet s)"
    and "\<forall>e \<in> set (wallet_transactions (shop_wallet s)). bt_source_id e = order_id r \<longrightarrow> bt_type e \<noteq> ''refund''"
  shows "balance_of t j = balance_of s j + refund_due r j" and "wallet_ok (shop_wallet t)"
    and "commission_entry t r = commission_entry s r"
proof -
  have free: "find_transaction (shop_wallet s) (order_account r) ''order'' (order_id r) ''refund'' = Inr None"
    using assms(3) by (auto simp: find_transaction_None)
  show "wallet_ok (shop_wallet t)"
    using shop_frame.obeysD [OF refund_funds_frame assms(1)] assms(2) by (simp add: frame_def wallet_frame_def)
  consider (top_up) e w where "order_type r = ''balance''" "t = s\<lparr>shop_wallet := w\<rparr>"
      "wallet_debit (now env) (order_account r) (order_amount r) ''order'' (order_id r) ''refund'' (shop_wallet s) = (Inr e, w)"
    | (paid) e w where "order_type r \<noteq> ''balance''" "pay_method r = ''balance''" "t = s\<lparr>shop_wallet := w\<rparr>"
      "wallet_credit (now env) (order_account r) (order_amount r) ''order'' (order_id r) ''refund'' None (shop_wallet s) = (Inr e, w)"
    | (online) "order_type r \<noteq> ''balance''" "pay_method r \<noteq> ''balance''" "t = s"
    using assms(1) by (auto simp: refund_funds_def on_wallet_def split: if_splits prod.splits)
  then show "balance_of t j = balance_of s j + refund_due r j" "commission_entry t r = commission_entry s r"
  proof (atomize (full), cases)
    case top_up
    note m = debit_moves [OF top_up(3) assms(2)]
    show "balance_of t j = balance_of s j + refund_due r j \<and> commission_entry t r = commission_entry s r"
      using m(1) [of j] m(3) top_up(1) debit_outcome(5) [OF top_up(3)]
      by (simp add: balance_of_def refund_due_def commission_entry_def top_up(2) find_snoc)
  next
    case paid
    obtain e' where "wallet_transactions w = wallet_transactions (shop_wallet s) @ [e']" "bt_type e' = ''refund''"
      using credit_appends [OF paid(4) free] by blast
    then show "balance_of t j = balance_of s j + refund_due r j \<and> commission_entry t r = commission_entry s r"
      using credit_moves(1) [OF paid(4) assms(2) free, of j] paid(1,2)
      by (simp add: balance_of_def refund_due_def commission_entry_def paid(3) find_snoc)
  next
    case online
    then show "balance_of t j = balance_of s j + refund_due r j \<and> commission_entry t r = commission_entry s r"
      by (simp add: refund_due_def)
  qed
qed

lemma find_filter: "find P xs = (case filter P xs of [] \<Rightarrow> None | x # _ \<Rightarrow> Some x)"
  by (induction xs) auto

lemma debit_enough:
  assumes "wallet_debit t k x src sid kind w = (Inr e, w')" and "wallet_ok w"
  shows "0 < money x \<and> money x \<le> balance (account_or_fresh w k)"
proof -
  obtain a w1 where a: "ensure_account k w = (a, w1)" by fastforce
  show ?thesis using assms(1) wallet_ok_money [OF assms(2)] ensure_account_balance [OF a]
    by (auto simp: wallet_debit_def a Let_def split: if_splits)
qed

lemma debit_refused:
  assumes "wallet_debit t k x src sid kind w = (Inl e, w')" and "wallet_ok w"
  shows "(money x \<le> 0 \<or> balance (account_or_fresh w k) < money x) \<and> account_or_fresh w' = account_or_fresh w"
proof -
  obtain a w1 where a: "ensure_account k w = (a, w1)" by fastforce
  show ?thesis using assms(1) wallet_ok_money [OF assms(2)] ensure_account_balance [OF a]
    by (auto simp: wallet_debit_def a Let_def split: if_splits)
qed

definition order_commissions :: "shop \<Rightarrow> purchase_order \<Rightarrow> balance_transaction list" where
  "order_commissions s r =
     filter (\<lambda>t. bt_source t = ''order'' \<and> bt_source_id t = order_id r \<and> bt_type t = ''commission'')
       (wallet_transactions (shop_wallet s))"

lemma clawback_cases:
  assumes "clawback_commission env r s = (Inr hold, t)"
  obtains (none) "order_commissions s r = []" "hold = False" "t = s"
    | (taken) e w x where "order_commissions s r = [e]" "hold = False" "t = s\<lparr>shop_wallet := w\<rparr>"
        "wallet_debit (now env) (bt_account e) (bt_amount e) ''order'' (order_id r) ''refund'' (shop_wallet s) = (Inr x, w)"
    | (held) e w m where "order_commissions s r = [e]" "hold = True" "t = s\<lparr>shop_wallet := w\<rparr>"
        "wallet_debit (now env) (bt_account e) (bt_amount e) ''order'' (order_id r) ''refund'' (shop_wallet s) = (Inl (ValueError m), w)"
proof (cases "one_or_none (order_commissions s r)")
  case (Inl e)
  then show ?thesis using assms(1) by (auto simp: clawback_commission_def order_commissions_def autoflush_def split: if_splits)
next
  case (Inr eo)
  show ?thesis
  proof (cases eo)
    case None
    then show ?thesis using Inr that(1) assms(1)
      by (auto simp: clawback_commission_def order_commissions_def autoflush_def one_or_none_None split: if_splits)
  next
    case (Some e)
    then have e: "order_commissions s r = [e]" using Inr by (simp add: one_or_none_Some)
    obtain y w where d: "wallet_debit (now env) (bt_account e) (bt_amount e) ''order'' (order_id r) ''refund'' (shop_wallet s) = (y, w)"
      by fastforce
    have c: "(case (y, s\<lparr>shop_wallet := w\<rparr>) of
           (Inr x, s') \<Rightarrow> (Inr False, s')
         | (Inl (ValueError m), s') \<Rightarrow> (Inr True, s')
         | (Inl e, s') \<Rightarrow> (Inl e, s')) = (Inr hold, t)"
      using assms(1) Inr Some d by (simp add: clawback_commission_def order_commissions_def autoflush_def on_wallet_def split: if_splits)
    show ?thesis
    proof (cases y)
      case (Inr x)
      then show ?thesis using c d by (intro that(2) [OF e]) simp_all
    next
      case (Inl x)
      then show ?thesis using c d that(3) [OF e] by (cases x) auto
    qed
  qed
qed

lemma clawback_moves:
  assumes "clawback_commission env r s = (Inr hold, t)" and "wallet_ok (shop_wallet s)"
  shows "balance_of t j = balance_of s j -
      (case commission_entry s r of
         Some e \<Rightarrow> if bt_account e = j \<and> 0 < money (bt_amount e) \<and> money (bt_amount e) \<le> balance_of s j then money (bt_amount e) else 0
       | None \<Rightarrow> 0)"
    and "hold \<longleftrightarrow> (case commission_entry s r of
         Some e \<Rightarrow> balance_of s (bt_account e) < money (bt_amount e) \<or> money (bt_amount e) \<le> 0 | None \<Rightarrow> False)"
proof -
  have head: "commission_entry s r = (case order_commissions s r of [] \<Rightarrow> None | e # _ \<Rightarrow> Some e)"
    unfolding commission_entry_def order_commissions_def by (rule find_filter)
  from assms(1)
  have "(balance_of t j = balance_of s j -
      (case commission_entry s r of
         Some e \<Rightarrow> if bt_account e = j \<and> 0 < money (bt_amount e) \<and> money (bt_amount e) \<le> balance_of s j then money (bt_amount e) else 0
       | None \<Rightarrow> 0)) \<and> (hold \<longleftrightarrow> (case commission_entry s r of
         Some e \<Rightarrow> balance_of s (bt_account e) < money (bt_amount e) \<or> money (bt_amount e) \<le> 0 | None \<Rightarrow> False))"
    (is ?both)
  proof (cases rule: clawback_cases)
    case none
    then show ?both by (simp add: head)
  next
    case (taken e w x)
    show ?both
      using debit_moves(1) [OF taken(4) assms(2), of j] debit_enough [OF taken(4) assms(2)] taken(1-3)
      by (auto simp: head balance_of_def)
  next
    case (held e w m)
    show ?both
      using debit_refused [OF held(4) assms(2)] held(1-3) by (auto simp: head balance_of_def)
  qed
  then show "balance_of t j = balance_of s j -
      (case commission_entry s r of
         Some e \<Rightarrow> if bt_account e = j \<and> 0 < money (bt_amount e) \<and> money (bt_amount e) \<le> balance_of s j then money (bt_amount e) else 0
       | None \<Rightarrow> 0)"
    "hold \<longleftrightarrow> (case commission_entry s r of
         Some e \<Rightarrow> balance_of s (bt_account e) < money (bt_amount e) \<or> money (bt_amount e) \<le> 0 | None \<Rightarrow> False)"
    by simp_all
qed

lemma find_order_return: "find_order (put_return q s) i = find_order s i"
  by (simp add: find_order_def)

definition held :: "shop \<Rightarrow> purchase_order \<Rightarrow> bool" where
  "held s r \<longleftrightarrow> order_type r \<noteq> ''balance'' \<and>
     (case commission_entry s r of Some e \<Rightarrow> \<not> covered s r e | None \<Rightarrow> False)"

lemma reclaim_wallet: "shop_wallet (reclaim_rights env r s) = shop_wallet s"
  by (auto simp: reclaim_rights_def adjust_credit_def end_membership_def Let_def split: option.splits)

text \<open>The steps of an approval, on the tables of the order.\<close>

lemma approve_steps:
  assumes "approve env i \<lparr>saved = s, work = s\<rparr> = (Inr q', v)"
  obtains q r a b c hold where "find_return i s = Inr q" "return_status q = ''pending''" "q' = q\<lparr>return_status := ''approved''\<rparr>"
    and "find_order s (return_order q) = Some r" "order_status r = ''paid''"
    and "refund_funds env r s = (Inr (), a)"
    and "if order_type r = ''balance'' then b = a \<and> \<not> hold
         else clawback_commission env r (reclaim_rights env r a) = (Inr hold, b)"
    and "c = put_return q' (put_order (r\<lparr>order_status := if hold then ''refund_hold'' else ''refunded'',
           refund_at := Some (now env)\<rparr>) b)"
    and "saved v = c"
proof -
  obtain q where q: "find_return i s = Inr q" "return_status q = ''pending''"
    using assms by (auto simp: approve_def split: sum.splits if_splits)
  obtain r where r: "find_order s (return_order q) = Some r" "order_status r = ''paid''"
    using assms q by (auto simp: approve_def split: option.splits if_splits)
  have run: "then_do (in_session (refund_funds env r)) (\<lambda>_.
         if order_type r = ''balance'' then close_order env ''refunded'' r q
         else then_do (in_session (autoflush (\<lambda>s. (Inr (), reclaim_rights env r s)))) (\<lambda>_.
           then_do (in_session (clawback_commission env r)) (\<lambda>hold.
             close_order env (if hold then ''refund_hold'' else ''refunded'') r q))) \<lparr>saved = s, work = s\<rparr> = (Inr q', v)"
    using assms q r by (simp add: approve_def)
  then obtain a where a: "refund_funds env r s = (Inr (), a)"
    by (auto simp: in_session_def split: prod.splits)
  have close: "q' = q\<lparr>return_status := ''approved''\<rparr> \<and> saved v = put_return q'
      (put_order (r\<lparr>order_status := st, refund_at := Some (now env)\<rparr>) (work w))"
    if "close_order env st r q w = (Inr q', v)" for st w
    using that by (auto simp: close_order_def commit_def Let_def split: if_splits)
  show ?thesis
  proof (cases "order_type r = ''balance''")
    case True
    then have "close_order env ''refunded'' r q \<lparr>saved = s, work = a\<rparr> = (Inr q', v)"
      using run a by (simp add: then_do_def in_session_def)
    from close [OF this] show ?thesis using True by (intro that [OF q _ r a, of a False]) auto
  next
    case False
    then obtain hold b where b: "clawback_commission env r (reclaim_rights env r a) = (Inr hold, b)"
      and c: "close_order env (if hold then ''refund_hold'' else ''refunded'') r q \<lparr>saved = s, work = b\<rparr> = (Inr q', v)"
      using run a by (auto simp: then_do_def in_session_def autoflush_def split: prod.splits sum.splits if_splits)
    from close [OF c] show ?thesis using False b by (intro that [OF q _ r a, of b hold]) auto
  qed
qed


section \<open>The demonstration refunded\<close>

definition demo_asked :: shop where
  "demo_asked = snd (serve (create_refund (demo_env 4000000 14) 7 ''13'') demo3)"

lemma demo_asked_eq [code]: "demo_asked = demo3\<lparr>returns :=
    [\<lparr>return_id = 14, return_account = 7, return_order = 13, return_amount = 30, return_status = ''pending''\<rparr>]\<rparr>"
  by code_simp


section \<open>One request per order\<close>

text \<open>
  An order has one refund request for ever: once a request was rejected, asking again fails, because
  the table allows one row per order, although the check only looks for pending requests.
\<close>

theorem rejected_refund_is_final:
  assumes "get_order n (Some account) s = Inr r" and "q \<in> set (returns s)" and "return_order q = order_id r"
  shows "\<exists>e. serve (create_refund env account n) s = (Inl e, s)"
proof -
  have no: "\<not> constraints_hold (s\<lparr>returns := returns s @ [q']\<rparr>)" if "return_order q' = order_id r" for q'
    using that assms(2,3) by (force simp: constraints_hold_def)
  show ?thesis
  proof (cases "one_or_none (filter (pending_return (order_id r)) (returns s))")
    case (Inl e)
    then show ?thesis by (simp add: serve_def create_refund_def with_order_def assms(1))
  next
    case (Inr qo)
    then show ?thesis
      by (cases qo) (auto simp: serve_def create_refund_def with_order_def assms(1) Let_def then_do_def commit_def no)
  qed
qed

definition demo_rejected :: shop where
  "demo_rejected = snd (serve (reject 14) demo_asked)"

theorem rejected_refund_is_final_witness:
  "map return_status (returns demo_rejected) = [''rejected''] \<and>
   (\<exists>e. serve (create_refund (demo_env 6000000 16) 7 ''13'') demo_rejected = (Inl e, demo_rejected))"
proof -
  have s: "map return_status (returns demo_rejected) = [''rejected'']" "map return_order (returns demo_rejected) = [13]"
    "case get_order ''13'' (Some 7) demo_rejected of Inl e \<Rightarrow> False | Inr r \<Rightarrow> order_id r = 13"
    by code_simp+
  obtain r q where "get_order ''13'' (Some 7) demo_rejected = Inr r" "order_id r = 13" "returns demo_rejected = [q]" "return_order q = 13"
    using s(2,3) by (auto split: sum.splits)
  then show ?thesis using s(1) rejected_refund_is_final [of "''13''" 7 demo_rejected r q] by simp
qed

section \<open>What a review gives back too easily\<close>

definition demo_spent :: shop where
  "demo_spent = demo_asked\<lparr>
     credit_rows := [(7, new_account\<lparr>permanent_credit := 100, total_granted := 1000, total_consumed := 900\<rparr>)],
     credit_log := credit_log demo_asked @ [\<lparr>tx_account = 7, tx_amount = - 900, tx_balance = 100, tx_kind = Consume,
       tx_source = ''message'', tx_source_id = 77, tx_created = 5000000\<rparr>]\<rparr>"

text \<open>
  Consumption is only checked when the refund is asked for.  Credits spent between the request and
  its approval are not noticed: the buyer has spent 900 of the 1000 credits and still gets the whole
  price back.
\<close>

theorem refund_after_spending:
  "shop_request demo_asked demo_spent \<and>
   order_rights_consumed (purchase_orders demo_spent ! 1) demo_spent \<and>
   balance_of demo_spent 7 = 70 \<and>
   balance_of (snd (serve (approve (demo_env 6000000 16) 14) demo_spent)) 7 = 100"
proof (intro conjI)
  show "shop_request demo_asked demo_spent"
  proof (rule elsewhere)
    show "credit_log demo_spent = credit_log demo_asked @ [\<lparr>tx_account = 7, tx_amount = - 900, tx_balance = 100, tx_kind = Consume,
       tx_source = ''message'', tx_source_id = 77, tx_created = 5000000\<rparr>]" by (simp add: demo_spent_def)
    show "constraints_hold demo_spent" by code_simp
  qed (simp_all add: demo_spent_def)
qed code_simp+

text \<open>A membership bought twice: the second order extends the row of the first and takes over its source.\<close>

definition demo_twice :: shop where
  "demo_twice =
     snd (serve (create_and_handle (demo_env 5000000 22) no_gateway 7 3 ''balance'' ''normal'')
       (snd (serve (create_and_handle (demo_env 4000000 21) no_gateway 7 3 ''balance'' ''normal'')
         (demo3\<lparr>relations := []\<rparr>))))"

definition refunded :: "string \<Rightarrow> shop \<Rightarrow> shop" where
  "refunded n s =
     snd (serve (approve (demo_env 7000000 24) 23) (snd (serve (create_refund (demo_env 6000000 23) 7 n) s)))"

text \<open>
  After two orders of one membership a refund ends either nothing or everything: refunding the first
  order leaves all sixty days running, refunding the second ends the membership at once, with the
  thirty days that stay paid.
\<close>

theorem refund_of_extended_membership:
  "map (\<lambda>m. (ms_status m, ms_expires m)) (membership_rows demo_twice) = [(''active'', Some (4000000 + 60 * day))] \<and>
   balance_of demo_twice 7 = 30 \<and>
   map ms_status (membership_rows (refunded ''21'' demo_twice)) = [''active''] \<and>
   balance_of (refunded ''21'' demo_twice) 7 = 50 \<and>
   map ms_status (membership_rows (refunded ''22'' demo_twice)) = [''expired''] \<and>
   balance_of (refunded ''22'' demo_twice) 7 = 50"
  by code_simp

end
