(* ===== verification/Renewal_Props.thy ===== *)
theory Renewal_Props
  imports Shop_Money
begin

text \<open>
  What a run of a renewal does, when it stops trying, and when it charges too often.
\<close>

lemma find_map_same:
  assumes "find (\<lambda>q. f q = i) qs = Some q" and "f r = i"
  shows "find (\<lambda>q. f q = i) (map (\<lambda>x. if f x = i then r else x) qs) = Some r"
  using assms by (induction qs) (auto split: if_splits)

lemma find_renewal_same: "find_renewal s i = Some q \<Longrightarrow> renewal_id r = i \<Longrightarrow> find_renewal (put_renewal r s) i = Some r"
  unfolding find_renewal_def put_renewal_def by (simp add: find_map_same)

lemma find_renewal_id: "find_renewal s i = Some q \<Longrightarrow> renewal_id q = i"
  by (auto simp: find_renewal_def find_Some_iff)

lemma row_ids [simp]: "renewal_id (renewed_row env q s) = renewal_id q" "renewal_id (failed_row q) = renewal_id q"
  by (simp_all add: renewed_row_def failed_row_def Let_def)

lemma put_renewal_constraints [simp]: "constraints_hold (put_renewal q s) = constraints_hold s"
  by (simp add: constraints_hold_def put_renewal_def)

lemma orders_keep_renewals [simp]: "find_renewal (s\<lparr>purchase_orders := os\<rparr>) i = find_renewal s i"
  by (simp add: find_renewal_def)

text \<open>The order of a renewal: paid, or the tables are as before but for a pending order.\<close>

lemma renewal_order_outcome:
  assumes "renewal_order env q u = (y, v)" and "work u = saved u" and "shop_ok (saved u)" and "fresh env (saved u)"
  shows "case y of
      Inl e \<Rightarrow> saved v = saved u \<or> (\<exists>r. order_status r = ''pending'' \<and> constraints_hold (saved v) \<and>
        saved v = (saved u)\<lparr>purchase_orders := purchase_orders (saved u) @ [r]\<rparr>)
    | Inr r \<Rightarrow> work v = saved v \<and> order_status r = ''paid'' \<and> order_account r = renewal_account q \<and>
        purchase_orders (saved v) = purchase_orders (saved u) @ [r]"
proof -
  obtain z w where c: "create_order env (renewal_account q) (renewal_plan q) ''balance'' ''auto_renew'' u = (z, w)"
    by fastforce
  show ?thesis
  proof (cases z)
    case (Inl e)
    then show ?thesis using assms(1) create_order_outcome [OF c] by (auto simp: renewal_order_def then_do_def c)
  next
    case (Inr r0)
    then obtain p raw n where r0: "check_order env (renewal_account q) (renewal_plan q) ''balance'' (saved u) = Inr (p, raw)"
      "r0 = new_order env (renewal_account q) p raw ''auto_renew'' n"
      "work w = (saved u)\<lparr>purchase_orders := purchase_orders (saved u) @ [r0]\<rparr>" "saved w = work w" "constraints_hold (work w)"
      using create_order_outcome [OF c] assms(2) by auto
    have pay: "pay_with_balance env r0 w = (y, v)"
      using assms(1) Inr by (simp add: renewal_order_def then_do_def c)
    show ?thesis
    proof (cases y)
      case (Inl e)
      then have "saved v = saved w"
        using pay_outcome [OF pay] confirm_outcome [of env None r0 _ y v] by fastforce
      then have "saved v = (saved u)\<lparr>purchase_orders := purchase_orders (saved u) @ [r0]\<rparr>" "constraints_hold (saved v)"
        using r0(3-5) by simp_all
      moreover have "order_status r0 = ''pending''" using r0(2) by (simp add: new_order_def)
      ultimately show ?thesis using Inl by auto
    next
      case (Inr r)
      have "order_type r0 \<noteq> ''balance''"
      proof
        assume "order_type r0 = ''balance''"
        then have "pay_method r0 \<noteq> balance_method" using check_order_type [OF r0(1)] r0(2) by (simp add: new_order_def)
        then show False using pay Inr by (simp add: pay_with_balance_def)
      qed
      moreover have "wallet_ok (shop_wallet (work w))" using assms(3) r0(3) by (simp add: shop_ok_def)
      moreover have "\<forall>e \<in> set (wallet_transactions (shop_wallet (work w))). bt_source_id e \<noteq> order_id r0"
        using assms(4) r0(2,3) by (simp add: fresh_def new_order_def)
      ultimately have m: "order_status r = ''paid''" "order_id r = order_id r0"
        "purchase_orders (saved v) = purchase_orders (put_order r (work w))"
        using pay_moves [OF pay [unfolded Inr]] by simp_all
      have "map (\<lambda>x. if order_id x = order_id r then r else x) (purchase_orders (saved u)) = purchase_orders (saved u)"
        using assms(4) m(2) r0(2) by (intro map_idI) (force simp: fresh_def new_order_def)
      then have "purchase_orders (saved v) = purchase_orders (saved u) @ [r]"
        using m(2,3) r0(3) by (simp add: put_order_def)
      then show ?thesis using m(1) pay_synchronises [OF pay [unfolded Inr]] pay_keeps_fields [OF pay [unfolded Inr]] Inr r0(2)
        by (simp add: new_order_def)
    qed
  qed
qed

text \<open>
  C31. A run of a renewal has one of three outcomes.  Renewed: one order more, paid, of the renewal's
  account, and the count of failures is cleared.  Failed: no money moved and no right was given; the
  count of failures grows, and with the third the renewal stops.  Cooldown: nothing happened.
\<close>

theorem renewal_run_outcome:
  assumes "shop_reached s" and "fresh env s" and "find_renewal s i = Some q"
    and "serve (run_renew env i) s = (Inr z, t)"
  shows "case z of
      Cooldown \<Rightarrow> t = s
    | Skipped \<Rightarrow> False
    | Renewed \<Rightarrow>
        (\<exists>r. purchase_orders t = purchase_orders s @ [r] \<and> order_status r = ''paid'' \<and> order_account r = renewal_account q) \<and>
        (\<exists>q'. find_renewal t i = Some q' \<and> fail_count q' = 0 \<and> last_renewed_at q' = Some (now env))
    | Failed \<Rightarrow>
        shop_wallet t = shop_wallet s \<and> credit_rows t = credit_rows s \<and> credit_log t = credit_log s \<and>
        membership_rows t = membership_rows s \<and>
        (\<exists>q'. find_renewal t i = Some q' \<and> fail_count q' = fail_count q + 1 \<and>
           renewal_status q' = (if 3 \<le> fail_count q + 1 then ''failed'' else renewal_status q))"
proof -
  let ?u = "\<lparr>saved = s, work = s\<rparr>"
  have ok: "shop_ok s" using assms(1) by (rule reached_ok)
  obtain y u1 where b: "renewal_order env q ?u = (y, u1)" by fastforce
  have "saved ?u = s" "work ?u = saved ?u" by simp_all
  note out = renewal_order_outcome [OF b this(2), unfolded this(1), OF ok assms(2)]
  obtain v where run: "run_renew env i ?u = (Inr z, v)" and t: "t = saved v"
    using assms(4) by (auto simp: serve_def split: prod.splits)
  show ?thesis
  proof (cases "in_cooldown env q")
    case True
    then show ?thesis using run t assms(3) by (auto simp: run_renew_def)
  next
    case no_cooldown: False
    show ?thesis
    proof (cases y)
      case (Inr r)
      then have "finish_renewal env i u1 = (Inr z, v)" using run assms(3) no_cooldown b by (simp add: run_renew_def)
      then obtain q1 where q1: "find_renewal (work u1) i = Some q1"
        and zv: "z = Renewed" "saved v = put_renewal (renewed_row env q1 (work u1)) (work u1)"
        by (auto simp: finish_renewal_def then_do_def commit_def split: option.splits prod.splits if_splits)
      have "find_renewal t i = Some (renewed_row env q1 (work u1))"
        using find_renewal_same [OF q1] find_renewal_id [OF q1] t zv(2) by simp
      moreover have "fail_count (renewed_row env q1 (work u1)) = 0"
        "last_renewed_at (renewed_row env q1 (work u1)) = Some (now env)"
        by (simp_all add: renewed_row_def Let_def)
      ultimately show ?thesis using out Inr t zv by (auto simp: find_renewal_put)
    next
      case (Inl e)
      then have miss: "miss_renewal i u1 = (Inr z, v)"
        using run assms(3) no_cooldown b by (cases e) (simp_all add: run_renew_def)
      have same: "shop_wallet (saved u1) = shop_wallet s" "credit_rows (saved u1) = credit_rows s"
        "credit_log (saved u1) = credit_log s" "membership_rows (saved u1) = membership_rows s"
        "find_renewal (saved u1) i = Some q" "constraints_hold (saved u1)"
        using out Inl assms(3) ok by (auto simp: shop_ok_def)
      have zv: "z = Failed" "saved v = put_renewal (failed_row q) (saved u1)"
        using miss same(5,6) by (auto simp: miss_renewal_def Let_def commit_def)
      have "find_renewal t i = Some (failed_row q)"
        using find_renewal_same [OF same(5)] find_renewal_id [OF same(5)] t zv(2) by simp
      then show ?thesis using zv t same(1-4)
        by (simp add: put_renewal_def failed_row_def max_fail_count_def Let_def)
    qed
  qed
qed

definition demo_sub :: shop where
  "demo_sub = snd (serve (create_renewal (demo_env 4000000 14) 7 3 ''balance'') demo3)"

definition demo_renewal :: auto_renewal where
  "demo_renewal =
     \<lparr>renewal_id = 14, renewal_account = 7, renewal_plan = 3, renewal_type = ''membership'',
      renewal_method = ''balance'', renewal_status = ''active'', next_renew_at = Some 2505604000000,
      last_renewed_at = None, renew_count = 0, fail_count = 0\<rparr>"

lemma demo_sub_eq [code]: "demo_sub = demo3\<lparr>renewals := [demo_renewal]\<rparr>"
  by code_simp

theorem renewal_run_outcome_witness:
  "\<exists>t r. serve (run_renew (demo_env 5000000 15) 14) demo_sub = (Inr Renewed, t) \<and>
     purchase_orders t = purchase_orders demo_sub @ [r] \<and> order_status r = ''paid''"
proof -
  have reached: "shop_reached demo_sub"
    unfolding demo_sub_def by (rule step [OF demo3_reached subscribe [OF prod.collapse [symmetric]]])
  have f: "fresh (demo_env 5000000 15) demo_sub" "find_renewal demo_sub 14 = Some demo_renewal" by code_simp+
  have "fst (serve (run_renew (demo_env 5000000 15) 14) demo_sub) = Inr Renewed" by code_simp
  then obtain t where t: "serve (run_renew (demo_env 5000000 15) 14) demo_sub = (Inr Renewed, t)"
    by (metis prod.collapse)
  show ?thesis using t renewal_run_outcome [OF reached f t] by auto
qed

section \<open>Charging too often\<close>

text \<open>
  An account with two memberships: a dear one that ends in half a day, and a cheap one that ends much
  later and renews itself.
\<close>

definition demo_membership :: "int \<Rightarrow> int \<Rightarrow> int \<Rightarrow> membership" where
  "demo_membership i p t =
     \<lparr>ms_id = i, ms_account = 7, ms_plan = p, ms_status = ''active'', ms_started = 0, ms_expires = Some t,
      ms_source = ''order'', ms_source_id = Some i, ms_updated = 0, ms_created = 0\<rparr>"

definition two_memberships :: shop where
  "two_memberships = demo3\<lparr>
     sale_plans := [demo_plan 3 ''membership'' 20 500 30, demo_plan 4 ''membership'' 50 900 30],
     membership_rows := [demo_membership 1 4 (10 * day), demo_membership 2 3 (30 * day)],
     renewals := [demo_renewal\<lparr>next_renew_at := Some (9 * day)\<rparr>]\<rparr>"

definition demo_scan :: "int \<Rightarrow> int \<Rightarrow> shop \<Rightarrow> (exn + nat \<times> nat \<times> nat) \<times> shop" where
  "demo_scan t i s = serve (run_due_scan (\<lambda>_. demo_env t i) (\<lambda>as. as) t) s"

definition after_scan :: shop where
  "after_scan = snd (demo_scan (9 * day + 43200000000) 21 two_memberships)"

text \<open>
  The next run is planned from the membership the resolver shows, which is the dear one, and not from
  the one that was renewed: in the last day of the dear membership the cheap one is bought again at
  every scan that is more than ten minutes after the one before.
\<close>

theorem renewal_charges_again:
  "fst (demo_scan (9 * day + 43200000000) 21 two_memberships) = Inr (1, 0, 0) \<and>
   fst (demo_scan (9 * day + 43860000000) 22 after_scan) = Inr (1, 0, 0) \<and>
   (let t = snd (demo_scan (9 * day + 43860000000) 22 after_scan) in
     map balance (map snd (wallet_accounts (shop_wallet two_memberships))) = [70, 6] \<and>
     map balance (map snd (wallet_accounts (shop_wallet t))) = [30, 14] \<and>
     map ms_expires (membership_rows t) = [Some (10 * day), Some (90 * day)])"
  by code_simp

text \<open>A scan inside the ten minutes buys nothing, and still reports a renewal.\<close>

theorem scan_counts_cooldown:
  "fst (demo_scan (9 * day + 43260000000) 22 after_scan) = Inr (1, 0, 0) \<and>
   snd (demo_scan (9 * day + 43260000000) 22 after_scan) = after_scan"
  by code_simp

end
