(* ===== verification/Withdrawals.thy ===== *)
theory Withdrawals
  imports Balance
begin

text \<open>
  Withdrawals (\<^verbatim>\<open>service/withdrawal_service.py\<close>): a request takes the money out of the wallet at once, a
  rejection or a cancelling puts it back, an approval is paid outside the program.  A request of the
  service commits at its end, so it saves all of its work or nothing.
\<close>

record withdrawal =
  wd_id :: int
  wd_account :: int
  wd_amount :: rat
  wd_status :: string

record cash_desk =
  withdrawals :: "withdrawal list"
  desk_wallet :: wallet

definition min_withdraw_amount :: rat where "min_withdraw_amount = 1"

definition normalize_amount :: "rat \<Rightarrow> exn + rat" where
  "normalize_amount x = (if money x < min_withdraw_amount then Inl (FailError ''minimum'') else Inr (money x))"

definition find_withdrawal :: "int \<Rightarrow> cash_desk \<Rightarrow> exn + withdrawal" where
  "find_withdrawal i d =
     (case find (\<lambda>w. wd_id w = i) (withdrawals d) of
        None \<Rightarrow> Inl (NotFoundError ''withdrawal'')
      | Some w \<Rightarrow> Inr w)"

definition get_mine :: "int \<Rightarrow> int \<Rightarrow> cash_desk \<Rightarrow> exn + withdrawal" where
  "get_mine account i d =
     (case find (\<lambda>w. wd_id w = i \<and> wd_account w = account) (withdrawals d) of
        None \<Rightarrow> Inl (NotFoundError ''withdrawal'')
      | Some w \<Rightarrow> Inr w)"

definition put_withdrawal :: "withdrawal \<Rightarrow> cash_desk \<Rightarrow> cash_desk" where
  "put_withdrawal w d = d\<lparr>withdrawals := map (\<lambda>v. if wd_id v = wd_id w then w else v) (withdrawals d)\<rparr>"

definition wallet_key :: "balance_transaction \<Rightarrow> int \<times> string \<times> int \<times> string" where
  "wallet_key t = (bt_account t, bt_source t, bt_source_id t, bt_type t)"

definition save_desk :: "cash_desk \<Rightarrow> cash_desk \<Rightarrow> 'a \<Rightarrow> (exn + 'a) \<times> cash_desk" where
  "save_desk old new x =
     (if distinct (map wallet_key (wallet_transactions (desk_wallet new))) then (Inr x, new) else (Inl IntegrityError, old))"

definition withdraw :: "int \<Rightarrow> int \<Rightarrow> int \<Rightarrow> rat \<Rightarrow> cash_desk \<Rightarrow> (exn + withdrawal) \<times> cash_desk" where
  "withdraw now new_id account amt d =
     (case normalize_amount amt of
        Inl e \<Rightarrow> (Inl e, d)
      | Inr x \<Rightarrow>
          (let w = \<lparr>wd_id = new_id, wd_account = account, wd_amount = x, wd_status = ''pending''\<rparr> in
           case wallet_debit now account x ''withdrawal_request'' new_id ''withdraw'' (desk_wallet d) of
             (Inl e, v) \<Rightarrow> (Inl (FailError ''amount or balance''), d)
           | (Inr t, v) \<Rightarrow> save_desk d \<lparr>withdrawals = withdrawals d @ [w], desk_wallet = v\<rparr> w))"

definition put_back :: "int \<Rightarrow> withdrawal \<Rightarrow> string \<Rightarrow> cash_desk \<Rightarrow> (exn + withdrawal) \<times> cash_desk" where
  "put_back now w status d =
     (case wallet_credit now (wd_account w) (wd_amount w) ''withdrawal_request'' (wd_id w) ''refund'' None (desk_wallet d) of
        (Inl e, v) \<Rightarrow> (Inl e, d)
      | (Inr t, v) \<Rightarrow>
          (let w' = w\<lparr>wd_status := status\<rparr> in save_desk d ((put_withdrawal w' d)\<lparr>desk_wallet := v\<rparr>) w'))"

text \<open>The three ends of a request, on the row the session has read.\<close>

definition cancel_row :: "int \<Rightarrow> withdrawal \<Rightarrow> cash_desk \<Rightarrow> (exn + withdrawal) \<times> cash_desk" where
  "cancel_row now w d =
     (if wd_status w \<noteq> ''pending'' then (Inl (FailError ''only pending requests''), d)
      else put_back now w ''cancelled'' d)"

definition approve_row :: "withdrawal \<Rightarrow> cash_desk \<Rightarrow> (exn + withdrawal) \<times> cash_desk" where
  "approve_row w d =
     (if wd_status w \<noteq> ''pending'' then (Inl (FailError ''request done''), d)
      else (let w' = w\<lparr>wd_status := ''approved''\<rparr> in save_desk d (put_withdrawal w' d) w'))"

definition reject_row :: "int \<Rightarrow> withdrawal \<Rightarrow> cash_desk \<Rightarrow> (exn + withdrawal) \<times> cash_desk" where
  "reject_row now w d =
     (if wd_status w \<noteq> ''pending'' then (Inl (FailError ''request done''), d)
      else put_back now w ''rejected'' d)"

definition cancel_withdrawal :: "int \<Rightarrow> int \<Rightarrow> int \<Rightarrow> cash_desk \<Rightarrow> (exn + withdrawal) \<times> cash_desk" where
  "cancel_withdrawal now account i d =
     (case get_mine account i d of Inl e \<Rightarrow> (Inl e, d) | Inr w \<Rightarrow> cancel_row now w d)"

definition approve_withdrawal :: "int \<Rightarrow> cash_desk \<Rightarrow> (exn + withdrawal) \<times> cash_desk" where
  "approve_withdrawal i d = (case find_withdrawal i d of Inl e \<Rightarrow> (Inl e, d) | Inr w \<Rightarrow> approve_row w d)"

definition reject_withdrawal :: "int \<Rightarrow> int \<Rightarrow> cash_desk \<Rightarrow> (exn + withdrawal) \<times> cash_desk" where
  "reject_withdrawal now i d = (case find_withdrawal i d of Inl e \<Rightarrow> (Inl e, d) | Inr w \<Rightarrow> reject_row now w d)"

section \<open>The money of every request\<close>

text \<open>What the wallet holds for a request: its entries, and their sum.\<close>

definition entries_of :: "cash_desk \<Rightarrow> int \<Rightarrow> balance_transaction list" where
  "entries_of d i =
     filter (\<lambda>t. bt_source t = ''withdrawal_request'' \<and> bt_source_id t = i) (wallet_transactions (desk_wallet d))"

definition moved_for :: "cash_desk \<Rightarrow> int \<Rightarrow> rat" where
  "moved_for d i = sum_list (map bt_amount (entries_of d i))"

definition expected_for :: "withdrawal \<Rightarrow> rat" where
  "expected_for w = (if wd_status w = ''pending'' \<or> wd_status w = ''approved'' then - wd_amount w else 0)"

definition free_to_return :: "cash_desk \<Rightarrow> withdrawal \<Rightarrow> bool" where
  "free_to_return d w \<longleftrightarrow> (\<forall>t \<in> set (entries_of d (wd_id w)). bt_type t \<noteq> ''refund'')"

definition row_ok :: "cash_desk \<Rightarrow> withdrawal \<Rightarrow> bool" where
  "row_ok d w \<longleftrightarrow>
     wd_status w \<in> {''pending'', ''approved'', ''cancelled'', ''rejected''} \<and>
     cents (wd_amount w) \<and> moved_for d (wd_id w) = expected_for w \<and>
     (\<forall>t \<in> set (entries_of d (wd_id w)). bt_account t = wd_account w) \<and>
     (wd_status w = ''pending'' \<longrightarrow> free_to_return d w)"

definition desk_ok :: "cash_desk \<Rightarrow> bool" where
  "desk_ok d \<longleftrightarrow>
     wallet_ok (desk_wallet d) \<and> distinct (map wd_id (withdrawals d)) \<and> (\<forall>w \<in> set (withdrawals d). row_ok d w)"

inductive desk_step :: "cash_desk \<Rightarrow> cash_desk \<Rightarrow> bool" where
  ask: "new_id \<notin> set (map wd_id (withdrawals d)) \<Longrightarrow>
    \<forall>t \<in> set (wallet_transactions (desk_wallet d)). bt_source_id t \<noteq> new_id \<Longrightarrow>
    withdraw now new_id account amt d = (x, d') \<Longrightarrow> desk_step d d'"
| cancel: "cancel_withdrawal now account i d = (x, d') \<Longrightarrow> desk_step d d'"
| approve: "approve_withdrawal i d = (x, d') \<Longrightarrow> desk_step d d'"
| reject: "reject_withdrawal now i d = (x, d') \<Longrightarrow> desk_step d d'"
| paid_in: "src \<noteq> ''withdrawal_request'' \<Longrightarrow> wallet_credit now k amt src sid kind rate (desk_wallet d) = (x, v) \<Longrightarrow>
    desk_step d (d\<lparr>desk_wallet := v\<rparr>)"
| paid_out: "src \<noteq> ''withdrawal_request'' \<Longrightarrow> wallet_debit now k amt src sid kind (desk_wallet d) = (x, v) \<Longrightarrow>
    desk_step d (d\<lparr>desk_wallet := v\<rparr>)"

inductive desk_reached :: "cash_desk \<Rightarrow> bool" where
  open_desk: "desk_reached \<lparr>withdrawals = [], desk_wallet = \<lparr>wallet_accounts = [], wallet_transactions = []\<rparr>\<rparr>"
| next_request: "desk_reached d \<Longrightarrow> desk_step d d' \<Longrightarrow> desk_reached d'"

lemma credit_list:
  assumes "wallet_credit now k x src sid kind rate w = (r, w')"
  shows "wallet_transactions w' = wallet_transactions w \<or>
    (\<exists>t. wallet_transactions w' = wallet_transactions w @ [t] \<and> bt_account t = k \<and> bt_source t = src \<and> bt_source_id t = sid \<and>
       bt_type t = kind \<and> bt_amount t = money x)"
  using assms by (auto simp: wallet_credit_def Let_def ensure_fresh(3) split: if_splits sum.splits option.splits prod.splits)

lemma debit_list:
  assumes "wallet_debit now k x src sid kind w = (r, w')"
  shows "(\<exists>e. r = Inl e) \<and> wallet_transactions w' = wallet_transactions w \<or>
    (\<exists>t. wallet_transactions w' = wallet_transactions w @ [t] \<and> bt_account t = k \<and> bt_source t = src \<and> bt_source_id t = sid \<and>
       bt_type t = kind \<and> bt_amount t = - money x)"
  using assms by (auto simp: wallet_debit_def Let_def ensure_fresh(3) split: if_splits prod.splits)

text \<open>A refund entry that was not there yet is written.\<close>

lemma credit_new:
  assumes "wallet_credit now k x src sid kind rate w = (Inr e, w')"
    and "\<not> (\<exists>t \<in> set (wallet_transactions w). bt_source t = src \<and> bt_source_id t = sid \<and> bt_type t = kind)"
  shows "wallet_transactions w' = wallet_transactions w @ [e] \<and> bt_account e = k \<and> bt_source e = src \<and> bt_source_id e = sid \<and>
    bt_type e = kind \<and> bt_amount e = money x"
proof -
  have "find_transaction w k src sid kind = Inr None"
    using assms(2) by (auto simp: find_transaction_def one_or_none_None filter_empty_conv)
  then show ?thesis using assms(1)
    by (auto simp: wallet_credit_def Let_def ensure_fresh(3) split: if_splits prod.splits)
qed

lemma put_withdrawal_simps [simp]:
  "desk_wallet (put_withdrawal w d) = desk_wallet d"
  "map wd_id (withdrawals (put_withdrawal w d)) = map wd_id (withdrawals d)"
  by (auto simp: put_withdrawal_def)

lemma entries_put [simp]: "entries_of (put_withdrawal w d) = entries_of d"
  by (simp add: entries_of_def fun_eq_iff)

lemma row_ok_cong: "entries_of d (wd_id w) = entries_of d' (wd_id w) \<Longrightarrow> row_ok d w = row_ok d' w"
  by (simp add: row_ok_def moved_for_def free_to_return_def)

text \<open>An end of a request: its row is replaced and only its own entries may change.\<close>

lemma desk_replace:
  assumes "desk_ok d" and "w \<in> set (withdrawals d)" and "wd_id w' = wd_id w" and "wallet_ok v"
    and "row_ok (d\<lparr>desk_wallet := v\<rparr>) w'"
    and "\<And>i. i \<noteq> wd_id w \<Longrightarrow> entries_of (d\<lparr>desk_wallet := v\<rparr>) i = entries_of d i"
  shows "desk_ok ((put_withdrawal w' d)\<lparr>desk_wallet := v\<rparr>)"
proof -
  let ?d = "(put_withdrawal w' d)\<lparr>desk_wallet := v\<rparr>"
  have e: "entries_of ?d = entries_of (d\<lparr>desk_wallet := v\<rparr>)" by (simp add: entries_of_def fun_eq_iff)
  have "row_ok ?d u" if u: "u \<in> set (withdrawals ?d)" for u
  proof (cases "u = w'")
    case True
    then show ?thesis using assms(5) row_ok_cong [of ?d w' "d\<lparr>desk_wallet := v\<rparr>"] e by simp
  next
    case False
    then have "u \<in> set (withdrawals d)" "wd_id u \<noteq> wd_id w"
      using u assms(3) by (auto simp: put_withdrawal_def split: if_splits)
    then show ?thesis using assms(1) assms(6) [of "wd_id u"] row_ok_cong [of ?d u d] e by (simp add: desk_ok_def)
  qed
  then show ?thesis using assms(1,4) by (simp add: desk_ok_def)
qed

lemma put_back_ok:
  assumes ok: "desk_ok d" and w: "w \<in> set (withdrawals d)" and p: "wd_status w = ''pending''"
    and st: "status \<in> {''cancelled'', ''rejected''}" and run: "put_back now w status d = (x, d')"
  shows "desk_ok d'"
proof -
  obtain r v where c: "wallet_credit now (wd_account w) (wd_amount w) ''withdrawal_request'' (wd_id w) ''refund'' None (desk_wallet d) = (r, v)"
    by fastforce
  have row: "row_ok d w" using ok w by (simp add: desk_ok_def)
  show ?thesis
  proof (cases r)
    case (Inl e)
    then show ?thesis using run c ok by (simp add: put_back_def)
  next
    case (Inr t)
    have t: "wallet_transactions v = wallet_transactions (desk_wallet d) @ [t] \<and> bt_account t = wd_account w \<and> bt_source t = ''withdrawal_request'' \<and>
        bt_source_id t = wd_id w \<and> bt_type t = ''refund'' \<and> bt_amount t = money (wd_amount w)"
      using credit_new [OF c [unfolded Inr]] row p by (auto simp: row_ok_def free_to_return_def entries_of_def)
    let ?w = "w\<lparr>wd_status := status\<rparr>"
    have "desk_ok ((put_withdrawal ?w d)\<lparr>desk_wallet := v\<rparr>)"
    proof (rule desk_replace [OF ok w])
      show "wallet_ok v" using credit_ok [OF _ c] ok by (simp add: desk_ok_def)
      show "row_ok (d\<lparr>desk_wallet := v\<rparr>) ?w"
        using row st p t by (auto simp: row_ok_def moved_for_def expected_for_def entries_of_def)
    qed (use t in \<open>auto simp: entries_of_def\<close>)
    then show ?thesis using run c Inr ok by (auto simp: put_back_def save_desk_def Let_def split: if_splits)
  qed
qed

lemma approve_ok:
  assumes ok: "desk_ok d" and w: "w \<in> set (withdrawals d)" and run: "approve_row w d = (x, d')"
  shows "desk_ok d'"
proof (cases "wd_status w = ''pending''")
  case True
  have row: "row_ok d w" using ok w by (simp add: desk_ok_def)
  let ?w = "w\<lparr>wd_status := ''approved''\<rparr>"
  have "desk_ok ((put_withdrawal ?w d)\<lparr>desk_wallet := desk_wallet d\<rparr>)"
    by (rule desk_replace [OF ok w]) (use ok row True in \<open>auto simp: desk_ok_def row_ok_def moved_for_def expected_for_def entries_of_def\<close>)
  moreover have "(put_withdrawal ?w d)\<lparr>desk_wallet := desk_wallet d\<rparr> = put_withdrawal ?w d" by (simp add: put_withdrawal_def)
  ultimately show ?thesis using run ok True by (auto simp: approve_row_def save_desk_def Let_def split: if_splits)
qed (use run ok in \<open>auto simp: approve_row_def\<close>)

lemma end_ok:
  assumes "desk_ok d" and "w \<in> set (withdrawals d)"
  shows "cancel_row now w d = (x, d') \<Longrightarrow> desk_ok d'" and "reject_row now w d = (x, d') \<Longrightarrow> desk_ok d'"
  using put_back_ok [OF assms, of "''cancelled''"] put_back_ok [OF assms, of "''rejected''"] assms(1)
  by (auto simp: cancel_row_def reject_row_def split: if_splits)

lemma withdraw_ok:
  assumes ok: "desk_ok d" and new: "new_id \<notin> set (map wd_id (withdrawals d))"
    and free: "\<forall>t \<in> set (wallet_transactions (desk_wallet d)). bt_source_id t \<noteq> new_id"
    and run: "withdraw now new_id account amt d = (x, d')"
  shows "desk_ok d'"
proof (cases "money amt < min_withdraw_amount")
  case True
  then show ?thesis using run ok by (simp add: withdraw_def normalize_amount_def)
next
  case False
  obtain r v where c: "wallet_debit now account (money amt) ''withdrawal_request'' new_id ''withdraw'' (desk_wallet d) = (r, v)"
    by fastforce
  show ?thesis
  proof (cases r)
    case (Inl e)
    then show ?thesis using run c ok False by (simp add: withdraw_def normalize_amount_def Let_def)
  next
    case (Inr t)
    let ?w = "\<lparr>wd_id = new_id, wd_account = account, wd_amount = money amt, wd_status = ''pending''\<rparr>"
    let ?d = "\<lparr>withdrawals = withdrawals d @ [?w], desk_wallet = v\<rparr>"
    obtain t' where t: "wallet_transactions v = wallet_transactions (desk_wallet d) @ [t']" "bt_account t' = account" "bt_source t' = ''withdrawal_request''"
        "bt_source_id t' = new_id" "bt_type t' = ''withdraw''" "bt_amount t' = - money amt"
      using debit_list [OF c] Inr by auto
    have old: "entries_of ?d i = entries_of d i" if "i \<noteq> new_id" for i using t that by (simp add: entries_of_def)
    have none: "entries_of ?d new_id = [t']" using t free by (simp add: entries_of_def)
    have "row_ok ?d ?w" using none t by (simp add: row_ok_def moved_for_def free_to_return_def expected_for_def)
    moreover have "row_ok ?d u" if "u \<in> set (withdrawals d)" for u
      using that new ok row_ok_cong [of ?d u d] old [of "wd_id u"] by (auto simp: desk_ok_def)
    moreover have "wallet_ok v" using debit_ok [OF _ c] ok by (simp add: desk_ok_def)
    ultimately have "desk_ok ?d" using ok new by (auto simp: desk_ok_def)
    then show ?thesis using run c Inr ok False
      by (auto simp: withdraw_def normalize_amount_def save_desk_def Let_def split: if_splits)
  qed
qed

text \<open>Entries of other sources leave the requests alone.\<close>

lemma foreign_ok:
  assumes ok: "desk_ok d" and "wallet_ok v"
    and t: "wallet_transactions v = wallet_transactions (desk_wallet d) \<or>
      (\<exists>t. wallet_transactions v = wallet_transactions (desk_wallet d) @ [t] \<and> bt_source t \<noteq> ''withdrawal_request'')"
  shows "desk_ok (d\<lparr>desk_wallet := v\<rparr>)"
proof -
  have "entries_of (d\<lparr>desk_wallet := v\<rparr>) i = entries_of d i" for i using t by (auto simp: entries_of_def)
  then show ?thesis using assms(1,2) row_ok_cong [of "d\<lparr>desk_wallet := v\<rparr>" _ d] by (simp add: desk_ok_def)
qed

lemma find_withdrawal_in: "find_withdrawal i d = Inr w \<Longrightarrow> w \<in> set (withdrawals d)"
  by (auto simp: find_withdrawal_def find_Some_iff split: option.splits)

lemma get_mine_in: "get_mine account i d = Inr w \<Longrightarrow> w \<in> set (withdrawals d)"
  by (auto simp: get_mine_def find_Some_iff split: option.splits)

lemma desk_step_ok: "desk_step d d' \<Longrightarrow> desk_ok d \<Longrightarrow> desk_ok d'"
proof (induction rule: desk_step.induct)
  case (ask new_id d now account amt x d')
  show ?case using withdraw_ok [OF ask.prems ask.hyps] .
next
  case (cancel now account i d x d')
  then show ?case using end_ok(1) [OF cancel.prems get_mine_in]
    by (cases "get_mine account i d") (auto simp: cancel_withdrawal_def)
next
  case (approve i d x d')
  then show ?case using approve_ok [OF approve.prems find_withdrawal_in]
    by (cases "find_withdrawal i d") (auto simp: approve_withdrawal_def)
next
  case (reject now i d x d')
  then show ?case using end_ok(2) [OF reject.prems find_withdrawal_in]
    by (cases "find_withdrawal i d") (auto simp: reject_withdrawal_def)
next
  case (paid_in src now k amt sid kind rate d x v)
  have "wallet_ok v" using credit_ok [OF _ paid_in.hyps(2)] paid_in.prems by (simp add: desk_ok_def)
  then show ?case using foreign_ok [OF paid_in.prems] credit_list [OF paid_in.hyps(2)] paid_in.hyps(1) by auto
next
  case (paid_out src now k amt sid kind d x v)
  have "wallet_ok v" using debit_ok [OF _ paid_out.hyps(2)] paid_out.prems by (simp add: desk_ok_def)
  then show ?case using foreign_ok [OF paid_out.prems] debit_list [OF paid_out.hyps(2)] paid_out.hyps(1) by auto
qed

lemma desk_reached_ok: "desk_reached d \<Longrightarrow> desk_ok d"
proof (induction rule: desk_reached.induct)
  case open_desk
  show ?case by (simp add: desk_ok_def wallet_ok_empty)
next
  case (next_request d d')
  show ?case using desk_step_ok [OF next_request.hyps(2) next_request.IH] .
qed


section \<open>What holds of every request\<close>

text \<open>C22. Withdrawals follow the money: in every state reached by asking, cancelling, approving and rejecting,
  interleaved with any other entries of the wallet, a request that is pending or approved has taken
  exactly its amount out of the wallet of its account, a cancelled or rejected one has in sum moved
  nothing, all entries of a request are of its own account, and no balance is below zero.\<close>

theorem withdrawals_follow_money:
  assumes "desk_reached d" and "w \<in> set (withdrawals d)"
  shows "moved_for d (wd_id w) = expected_for w \<and>
    (\<forall>t \<in> set (entries_of d (wd_id w)). bt_account t = wd_account w) \<and>
    0 \<le> get_balance (desk_wallet d) k \<and> get_balance (desk_wallet d) k = sum_of (desk_wallet d) k"
proof -
  have ok: "wallet_ok (desk_wallet d)" "row_ok d w" using desk_reached_ok [OF assms(1)] assms(2) by (auto simp: desk_ok_def)
  then have "get_balance (desk_wallet d) k = sum_of (desk_wallet d) k" "0 \<le> sum_of (desk_wallet d) k"
    by (auto simp: wallet_ok_def get_balance_def account_or_fresh_def fresh_account_def split: option.splits dest!: spec [of _ k])
  then show ?thesis using ok by (simp add: row_ok_def)
qed

definition demo_desk :: cash_desk where
  "demo_desk = (let d = \<lparr>withdrawals = [], desk_wallet = \<lparr>wallet_accounts = [], wallet_transactions = []\<rparr>\<rparr> in
     d\<lparr>desk_wallet := snd (wallet_credit 0 7 10 ''recharge'' 1 ''recharge'' None (desk_wallet d))\<rparr>)"

definition asked_desk :: cash_desk where
  "asked_desk = snd (withdraw 5 3 7 4 demo_desk)"

lemma asked_reached: "desk_reached asked_desk"
proof (rule next_request [OF next_request [OF open_desk]])
  show "desk_step \<lparr>withdrawals = [], desk_wallet = \<lparr>wallet_accounts = [], wallet_transactions = []\<rparr>\<rparr> demo_desk"
    unfolding demo_desk_def Let_def by (rule paid_in [OF _ prod.collapse [symmetric]]) simp
  show "desk_step demo_desk asked_desk"
    unfolding asked_desk_def by (rule ask [OF _ _ prod.collapse [symmetric]]) code_simp+
qed

theorem withdrawals_follow_money_witness:
  "moved_for asked_desk 3 = - 4 \<and> get_balance (desk_wallet asked_desk) 7 = 6"
proof -
  have "hd (withdrawals asked_desk) \<in> set (withdrawals asked_desk)" by code_simp
  note m = withdrawals_follow_money [OF asked_reached this, of 7]
  have "wd_id (hd (withdrawals asked_desk)) = 3" "expected_for (hd (withdrawals asked_desk)) = - 4"
    "sum_of (desk_wallet asked_desk) 7 = 6" by code_simp+
  then show ?thesis using m by simp
qed

text \<open>No lock stands between reading a request and ending it: when a user cancels a request while the
  reviewer's session has already read it as pending, the approval still succeeds.  The request is then
  approved, so paid outside, although its money went back to the wallet; the other order, a cancelling
  that read the row before the approval, returns the money of an approved request as well.\<close>

theorem withdrawal_paid_and_returned:
  defines "row \<equiv> hd (withdrawals asked_desk)"
  shows "(case cancel_row 6 row asked_desk of (r1, d1) \<Rightarrow>
      (case approve_row row d1 of (r2, d2) \<Rightarrow>
         isl r1 = False \<and> isl r2 = False \<and> map wd_status (withdrawals d2) = [''approved''] \<and> moved_for d2 3 = 0 \<and>
         get_balance (desk_wallet d2) 7 = 10)) \<and>
    (case approve_row row asked_desk of (r1, d1) \<Rightarrow>
      (case cancel_row 6 row d1 of (r2, d2) \<Rightarrow> isl r1 = False \<and> isl r2 = False \<and> moved_for d2 3 = 0))"
  unfolding row_def by code_simp

end
