(* ===== verification/Redeem.thy ===== *)
theory Redeem
  imports Orders
begin

text \<open>
  Redeem codes (\<^verbatim>\<open>service/redeem_code_service.py\<close>, \<^verbatim>\<open>service/admin_redeem_code_service.py\<close>, rows in
  \<^verbatim>\<open>model/billing.py\<close>): an administrator generates and disables codes of a plan, a user redeems one and
  gets what the plan sells.  The digest of a code (SHA-256 of the standard library) is a parameter, and so are the random draws; a
  request commits at its end, so it saves all of its work or nothing.
\<close>

section \<open>Rows\<close>

record redeem_batch =
  batch_id :: int
  batch_plan :: int
  batch_quantity :: int
  batch_status :: string
  batch_expires :: "int option"
  batch_disabled_at :: "int option"

record redeem_code =
  code_id :: int
  code_batch :: "int option"
  code_plan :: int
  code_hash :: string
  code_mask :: string
  code_status :: string
  redeemed_by :: "int option"
  redeemed_at :: "int option"
  code_expires :: "int option"
  code_disabled_at :: "int option"

record redeem_desk =
  batches :: "redeem_batch list"
  codes :: "redeem_code list"
  code_shop :: shop

definition put_code :: "redeem_code \<Rightarrow> redeem_desk \<Rightarrow> redeem_desk" where
  "put_code r d = d\<lparr>codes := map (\<lambda>q. if code_id q = code_id r then r else q) (codes d)\<rparr>"

definition put_batch :: "redeem_batch \<Rightarrow> redeem_desk \<Rightarrow> redeem_desk" where
  "put_batch b d = d\<lparr>batches := map (\<lambda>q. if batch_id q = batch_id b then b else q) (batches d)\<rparr>"

section \<open>The administrator\<close>

text \<open>A draw is what \<^verbatim>\<open>secrets.token_urlsafe(18)\<close> returned.\<close>

definition url_char :: "char \<Rightarrow> char" where
  "url_char c = (if c = CHR ''_'' then CHR ''A'' else if c = CHR ''-'' then CHR ''B'' else c)"

definition draw_code :: "string \<Rightarrow> string" where
  "draw_code token = ''OA-'' @ concat (map upper_char (take 24 (map url_char token)))"

definition mask_code :: "string \<Rightarrow> string" where
  "mask_code plain =
     (let c = filter (\<lambda>x. x \<noteq> CHR ''-'') plain in take 4 c @ ''****'' @ drop (length c - 4) c)"

definition new_code :: "(string \<Rightarrow> string) \<Rightarrow> redeem_batch \<Rightarrow> int \<times> string \<Rightarrow> redeem_code" where
  "new_code hash b draw =
     (let plain = draw_code (snd draw) in
      \<lparr>code_id = fst draw, code_batch = Some (batch_id b), code_plan = batch_plan b, code_hash = hash plain,
       code_mask = mask_code plain, code_status = ''unused'', redeemed_by = None, redeemed_at = None,
       code_expires = batch_expires b, code_disabled_at = None\<rparr>)"

definition code_plan_or_raise :: "int \<Rightarrow> shop \<Rightarrow> exn + sale_plan" where
  "code_plan_or_raise i s = (case find_plan s i of None \<Rightarrow> Inl (NotFoundError ''plan'') | Some p \<Rightarrow> Inr p)"

text \<open>The draws name the ids of the rows with their tokens; an id or a hash that is taken
  violates a unique index.\<close>

definition generate_codes ::
  "(string \<Rightarrow> string) \<Rightarrow> int \<Rightarrow> (int \<times> string) list \<Rightarrow> int \<Rightarrow> int option \<Rightarrow> int option \<Rightarrow> redeem_desk \<Rightarrow>
     (exn + string list) \<times> redeem_desk" where
  "generate_codes hash new_batch draws i quantity expires d =
     (case code_plan_or_raise i (code_shop d) of
        Inl e \<Rightarrow> (Inl e, d)
      | Inr p \<Rightarrow>
          (let n = max (case quantity of None \<Rightarrow> 1 | Some q \<Rightarrow> if q = 0 then 1 else q) 1 in
           if \<not> sale_active p then (Inl (FailError ''plan disabled''), d)
           else if 1000 < n then (Inl (FailError ''too many codes''), d)
           else
             (let b = \<lparr>batch_id = new_batch, batch_plan = plan_id p, batch_quantity = n, batch_status = ''active'',
                       batch_expires = expires, batch_disabled_at = None\<rparr>;
                  rows = map (new_code hash b) (take (nat n) draws);
                  d' = d\<lparr>batches := batches d @ [b], codes := codes d @ rows\<rparr>
              in if distinct (map code_hash (codes d')) \<and> distinct (map code_id (codes d'))
                 then (Inr (map (\<lambda>q. draw_code (snd q)) (take (nat n) draws)), d')
                 else (Inl IntegrityError, d))))"

definition disable_code :: "int \<Rightarrow> int \<Rightarrow> redeem_desk \<Rightarrow> (exn + redeem_code) \<times> redeem_desk" where
  "disable_code t i d =
     (case find (\<lambda>q. code_id q = i) (codes d) of
        None \<Rightarrow> (Inl (NotFoundError ''code''), d)
      | Some r \<Rightarrow> (let r' = r\<lparr>code_status := ''disabled'', code_disabled_at := Some t\<rparr> in (Inr r', put_code r' d)))"

definition disable_batch :: "int \<Rightarrow> int \<Rightarrow> redeem_desk \<Rightarrow> (exn + redeem_batch) \<times> redeem_desk" where
  "disable_batch t i d =
     (case find (\<lambda>q. batch_id q = i) (batches d) of
        None \<Rightarrow> (Inl (NotFoundError ''batch''), d)
      | Some b \<Rightarrow> (let b' = b\<lparr>batch_status := ''disabled'', batch_disabled_at := Some t\<rparr> in (Inr b', put_batch b' d)))"

section \<open>Redeeming\<close>

definition upper_alnum :: "char \<Rightarrow> bool" where
  "upper_alnum c = (is_digit c \<or> (65 \<le> char_code c \<and> char_code c \<le> 90))"

text \<open>The pattern \<^verbatim>\<open>^OA-[A-Z0-9]{24}$\<close> on a stripped text.\<close>

definition code_pattern :: "string \<Rightarrow> bool" where
  "code_pattern s = (take 3 s = ''OA-'' \<and> length s = 27 \<and> list_all upper_alnum (drop 3 s))"

definition normalize_plain_code :: "string \<Rightarrow> exn + string" where
  "normalize_plain_code plain =
     (let n = normalize_code plain in
      if n = [] then Inl (FailError ''no code'')
      else if \<not> code_pattern n then Inl (FailError ''code format'')
      else Inr n)"

definition get_code_by_plain_code :: "(string \<Rightarrow> string) \<Rightarrow> string \<Rightarrow> redeem_desk \<Rightarrow> exn + redeem_code option" where
  "get_code_by_plain_code hash plain d = one_or_none (filter (\<lambda>r. code_hash r = hash plain) (codes d))"

definition ensure_code_redeemable :: "int \<Rightarrow> redeem_code \<Rightarrow> exn + unit" where
  "ensure_code_redeemable t r =
     (if code_status r = ''used'' then Inl (FailError ''used'')
      else if code_status r = ''disabled'' \<or> code_disabled_at r \<noteq> None then Inl (FailError ''disabled'')
      else if (case code_expires r of None \<Rightarrow> False | Some x \<Rightarrow> x < t) then Inl (FailError ''expired'')
      else if code_status r \<noteq> ''unused'' then Inl (FailError ''status'')
      else Inr ())"

definition get_batch :: "int option \<Rightarrow> redeem_desk \<Rightarrow> exn + redeem_batch" where
  "get_batch i d =
     (case i of
        None \<Rightarrow> Inl (NotFoundError ''batch'')
      | Some j \<Rightarrow> (case find (\<lambda>b. batch_id b = j) (batches d) of None \<Rightarrow> Inl (NotFoundError ''batch'') | Some b \<Rightarrow> Inr b))"

definition ensure_batch_redeemable :: "redeem_batch \<Rightarrow> exn + unit" where
  "ensure_batch_redeemable b =
     (if batch_status b = ''disabled'' \<or> batch_disabled_at b \<noteq> None then Inl (FailError ''batch disabled'') else Inr ())"

definition redeem_grant_transaction :: "int \<Rightarrow> shop \<Rightarrow> exn + credit_transaction option" where
  "redeem_grant_transaction i s =
     one_or_none (filter (\<lambda>t. tx_source t = ''redeem_code'' \<and> tx_source_id t = i \<and> tx_kind t = RedeemGrant) (credit_log s))"

definition ensure_code_not_redeemed :: "string \<Rightarrow> int \<Rightarrow> int \<Rightarrow> shop \<Rightarrow> exn + unit" where
  "ensure_code_not_redeemed type i account s =
     (if type = ''balance''
      then (case find_transaction (shop_wallet s) account ''redeem_code'' i ''recharge'' of
              Inl e \<Rightarrow> Inl e | Inr None \<Rightarrow> Inr () | Inr (Some t) \<Rightarrow> Inl (FailError ''redeemed''))
      else (case redeem_grant_transaction i s of
              Inl e \<Rightarrow> Inl e | Inr None \<Rightarrow> Inr () | Inr (Some t) \<Rightarrow> Inl (FailError ''redeemed'')))"

definition redeemed_account :: "int \<Rightarrow> int \<Rightarrow> bool \<Rightarrow> credit_account \<Rightarrow> credit_account" where
  "redeemed_account t n quota a =
     (let a1 = (if quota then a\<lparr>quota_credit := quota_credit a + n\<rparr> else a\<lparr>permanent_credit := permanent_credit a + n\<rparr>)
      in a1\<lparr>total_granted := total_granted a1 + n, account_updated := t\<rparr>)"

definition grant_redeemed :: "shop_env \<Rightarrow> int \<Rightarrow> int \<Rightarrow> int \<Rightarrow> bool \<Rightarrow> unit step" where
  "grant_redeemed env account n source_id quota = autoflush (\<lambda>s.
     (let a = redeemed_account (now env) n quota (dget_or (credit_rows s) account new_account);
          t = \<lparr>tx_account = account, tx_amount = n, tx_balance = available_tokens a, tx_kind = RedeemGrant,
               tx_source = ''redeem_code'', tx_source_id = source_id, tx_created = db_second (now env)\<rparr>
      in (Inr (), s\<lparr>credit_rows := dset account a (credit_rows s), credit_log := credit_log s @ [t]\<rparr>)))"

definition redeem_membership :: "shop_env \<Rightarrow> int \<Rightarrow> sale_plan \<Rightarrow> int \<Rightarrow> unit step" where
  "redeem_membership env account p source_id s =
     (Inr (), s\<lparr>membership_rows := snd (activate_or_extend_membership (new_membership_id env) (db_second (now env))
        (membership_rows s) account (plan.truncate p) ''redeem_code'' source_id (now env))\<rparr>)"

definition deliver_code :: "shop_env \<Rightarrow> int \<Rightarrow> sale_plan \<Rightarrow> int \<Rightarrow> unit step" where
  "deliver_code env account p i =
     (if plan_type p = ''balance''
      then and_then (on_wallet (wallet_credit (now env) account (plan_price p) ''redeem_code'' i ''recharge'' None))
             (\<lambda>_ s. (Inr (), s))
      else if plan_type p = ''membership''
      then and_then (redeem_membership env account p i)
             (\<lambda>_. and_then (grant_redeemed env account (plan_grant p) i True)
               (\<lambda>_. settle_commission_for_redeem env account p i))
      else and_then (grant_redeemed env account (plan_grant p) i False)
             (\<lambda>_. settle_commission_for_redeem env account p i))"

text \<open>What \<open>redeem\<close> checks before it changes anything: the code, its batch, its plan.\<close>

definition check_redeem ::
  "(string \<Rightarrow> string) \<Rightarrow> shop_env \<Rightarrow> int \<Rightarrow> string \<Rightarrow> redeem_desk \<Rightarrow> exn + redeem_code \<times> sale_plan" where
  "check_redeem hash env account plain d =
     (case normalize_plain_code plain of Inl e \<Rightarrow> Inl e | Inr n \<Rightarrow>
     (case get_code_by_plain_code hash n d of Inl e \<Rightarrow> Inl e | Inr None \<Rightarrow> Inl (NotFoundError ''code'') | Inr (Some r) \<Rightarrow>
     (case ensure_code_redeemable (now env) r of Inl e \<Rightarrow> Inl e | Inr u \<Rightarrow>
     (case get_batch (code_batch r) d of Inl e \<Rightarrow> Inl e | Inr b \<Rightarrow>
     (case ensure_batch_redeemable b of Inl e \<Rightarrow> Inl e | Inr u \<Rightarrow>
     (case code_plan_or_raise (code_plan r) (code_shop d) of Inl e \<Rightarrow> Inl e | Inr p \<Rightarrow>
        if \<not> sale_active p then Inl (FailError ''plan disabled'')
        else if plan_type p \<notin> {''balance'', ''membership'', ''credits''} then Inl (FailError ''plan type'')
        else (case ensure_code_not_redeemed (plan_type p) (code_id r) account (code_shop d) of
                Inl e \<Rightarrow> Inl e | Inr u \<Rightarrow> Inr (r, p))))))))"

definition redeem ::
  "(string \<Rightarrow> string) \<Rightarrow> shop_env \<Rightarrow> int \<Rightarrow> string \<Rightarrow> redeem_desk \<Rightarrow> (exn + redeem_code) \<times> redeem_desk" where
  "redeem hash env account plain d =
     (case check_redeem hash env account plain d of
        Inl e \<Rightarrow> (Inl e, d)
      | Inr (r, p) \<Rightarrow>
          (case deliver_code env account p (code_id r) (code_shop d) of
             (Inl e, s) \<Rightarrow> (Inl e, d)
           | (Inr u, s) \<Rightarrow>
               (let r' = r\<lparr>code_status := ''used'', redeemed_by := Some account, redeemed_at := Some (now env)\<rparr> in
                if constraints_hold s then (Inr r', (put_code r' d)\<lparr>code_shop := s\<rparr>)
                else
                  (Inl (if distinct (map entry_key (wallet_transactions (shop_wallet s)))
                           \<and> distinct (map (\<lambda>t. (tx_source t, tx_source_id t, tx_kind t)) (credit_log s))
                        then IntegrityError else FailError ''redeemed''), d))))"

section \<open>The end of a membership\<close>

text \<open>
  Reading the summary settles memberships that have run out; when none is in force any more the quota
  is cleared and the permanent credits stay.
\<close>

definition expire_membership_if_due :: "shop_env \<Rightarrow> int \<Rightarrow> shop \<Rightarrow> shop" where
  "expire_membership_if_due env account s =
     (case expire_due_memberships (membership_rows s) account (now env) of (rows, due) \<Rightarrow>
        if due = [] then s
        else
          (let s1 = s\<lparr>membership_rows := rows\<rparr> in
           if resolve_effective_membership (plan_rows s1) rows account (now env) \<noteq> None then s1
           else (case dget (credit_rows s1) account of
                   None \<Rightarrow> s1
                 | Some a \<Rightarrow>
                     if quota_credit a = 0 then s1
                     else s1\<lparr>credit_rows :=
                            dset account (a\<lparr>quota_credit := 0, account_updated := now env\<rparr>) (credit_rows s1)\<rparr>)))"

end
