(* ===== verification/Redeem_Props.thy ===== *)
theory Redeem_Props
  imports Redeem Shop_Money
begin

text \<open>
  Redeem codes: what is drawn is accepted, a code is redeemed once, a redemption delivers exactly what
  the plan sells, and how the quota of a membership begins and ends.
\<close>

section \<open>Drawn codes\<close>

definition url_safe :: "char \<Rightarrow> bool" where
  "url_safe c = (upper_alnum c \<or> (97 \<le> char_code c \<and> char_code c \<le> 122) \<or> c = CHR ''_'' \<or> c = CHR ''-'')"

lemma char_code_of [simp]: "n < 256 \<Longrightarrow> char_code (char_of n) = n"
  by (simp add: char_code_def)

lemma char_of_code [simp]: "char_of (char_code c) = c"
  by (simp add: char_code_def)

lemma drawn_char:
  assumes "url_safe c"
  shows "\<exists>d. upper_char (url_char c) = [d] \<and> upper_alnum d"
proof (cases "c = CHR ''_'' \<or> c = CHR ''-''")
  case True
  then show ?thesis by (auto simp: url_char_def upper_char_def upper_alnum_def is_digit_def char_code_def)
next
  case False
  then have "upper_char (url_char c) = upper_char c" by (simp add: url_char_def)
  then show ?thesis using assms False
    by (auto simp: url_safe_def upper_char_def upper_alnum_def is_digit_def Let_def)
qed

lemma back_up:
  assumes "upper_alnum c \<or> c = CHR ''-''"
  shows "upper_char (lower_char c) = [c]" and "\<not> py_space (lower_char c)"
proof -
  have "(48 \<le> char_code c \<and> char_code c \<le> 57) \<or> (65 \<le> char_code c \<and> char_code c \<le> 90) \<or> char_code c = 45"
    using assms by (auto simp: upper_alnum_def is_digit_def char_code_def)
  then have "upper_char (lower_char c) = [c] \<and> \<not> py_space (lower_char c)"
    by (elim disjE conjE) (simp_all add: upper_char_def lower_char_def py_space_def Let_def)
  then show "upper_char (lower_char c) = [c]" "\<not> py_space (lower_char c)" by simp_all
qed

lemma strip_padded:
  assumes "\<forall>c \<in> set a. py_space c" and "\<forall>c \<in> set b. py_space c" and "m \<noteq> []" and "\<forall>c \<in> set m. \<not> py_space c"
  shows "strip (a @ m @ b) = m"
proof -
  have "dropWhile py_space (a @ m @ b) = m @ b"
    using assms by (subst dropWhile_append2) (auto simp: neq_Nil_conv)
  moreover have "dropWhile py_space (rev b @ rev m) = rev m"
    using assms by (subst dropWhile_append2) (auto intro: dropWhile_hd simp: hd_rev)
  ultimately show ?thesis by (simp add: strip_def rstrip_def lstrip_def)
qed

lemma drawn_chars:
  assumes "length token = 24" and "list_all url_safe token"
  shows "\<exists>ds. draw_code token = ''OA-'' @ ds \<and> length ds = 24 \<and> list_all upper_alnum ds"
proof -
  have "\<exists>ds. concat (map upper_char (map url_char t)) = ds \<and> length ds = length t \<and> list_all upper_alnum ds"
    if "list_all url_safe t" for t
    using that by (induction t) (auto dest!: drawn_char)
  then show ?thesis using assms by (auto simp: draw_code_def)
qed

lemma any_case:
  assumes "list_all2 (\<lambda>x c. x = c \<or> x = lower_char c) m ds" and "\<forall>c \<in> set ds. upper_alnum c \<or> c = CHR ''-''"
  shows "concat (map upper_char m) = ds \<and> (\<forall>c \<in> set m. \<not> py_space c)"
  using assms
proof (induction rule: list_all2_induct)
  case (Cons x xs c cs)
  have "upper_char c = [c] \<and> \<not> py_space c"
    using Cons.prems by (auto simp: upper_char_def py_space_def upper_alnum_def is_digit_def Let_def char_code_def)
  then show ?case using Cons back_up [of c] by auto
qed simp

text \<open>Every code that can be drawn is accepted when it is typed in: with white space around it and each
  letter in either case, the text is read back as the code itself.\<close>

theorem drawn_code_accepted:
  assumes "length token = 24" and "list_all url_safe token" and "list_all py_space a" and "list_all py_space b"
    and "list_all2 (\<lambda>x c. x = c \<or> x = lower_char c) typed (draw_code token)"
  shows "normalize_plain_code (a @ typed @ b) = Inr (draw_code token)"
proof -
  obtain ds where ds: "draw_code token = ''OA-'' @ ds" "length ds = 24" "list_all upper_alnum ds"
    using drawn_chars [OF assms(1,2)] by blast
  have "\<forall>c \<in> set (draw_code token). upper_alnum c \<or> c = CHR ''-''"
    using ds by (auto simp: list_all_iff upper_alnum_def char_code_def)
  note t = any_case [OF assms(5) this]
  have "typed \<noteq> []" using assms(5) ds by auto
  then have "strip (a @ typed @ b) = typed" using t assms(3,4) by (intro strip_padded) (auto simp: list_all_iff)
  then have "normalize_code (a @ typed @ b) = draw_code token" using t by (simp add: normalize_code_def)
  moreover have "code_pattern (draw_code token)" using ds by (simp add: code_pattern_def)
  ultimately show ?thesis using ds(1) by (simp add: normalize_plain_code_def)
qed

theorem drawn_code_accepted_witness:
  "normalize_plain_code '' oa-abBcdefghijklmnopqrstuv0 '' = Inr ''OA-ABBCDEFGHIJKLMNOPQRSTUV0''"
proof -
  have d: "draw_code ''ab-cdefghijklmnopqrstuv0'' = ''OA-ABBCDEFGHIJKLMNOPQRSTUV0''" by code_simp
  have "list_all url_safe ''ab-cdefghijklmnopqrstuv0''" "list_all py_space '' ''"
    "list_all2 (\<lambda>x c. x = c \<or> x = lower_char c) ''oa-abBcdefghijklmnopqrstuv0'' (draw_code ''ab-cdefghijklmnopqrstuv0'')"
    by code_simp+
  from drawn_code_accepted [OF _ this(1,2,2,3)] show ?thesis by (simp add: d)
qed

section \<open>A code is redeemed once\<close>

text \<open>
  Everything that happens to the codes, and any change of the tables by the other services.
\<close>

inductive redeem_step :: "(string \<Rightarrow> string) \<Rightarrow> redeem_desk \<Rightarrow> redeem_desk \<Rightarrow> bool" for hash where
  generated: "generate_codes hash new_batch draws i quantity expires d = (x, d') \<Longrightarrow> redeem_step hash d d'"
| redeemed: "redeem hash env account plain d = (x, d') \<Longrightarrow> redeem_step hash d d'"
| code_disabled: "disable_code t i d = (x, d') \<Longrightarrow> redeem_step hash d d'"
| batch_disabled: "disable_batch t i d = (x, d') \<Longrightarrow> redeem_step hash d d'"
| elsewhere: "redeem_step hash d (d\<lparr>code_shop := s\<rparr>)"

definition spent :: "redeem_desk \<Rightarrow> string \<Rightarrow> bool" where
  "spent d h \<longleftrightarrow> (\<exists>r \<in> set (codes d). code_hash r = h \<and> code_status r \<noteq> ''unused'')"

lemma deliver_or_not:
  "redeem hash env account plain d = (x, d') \<Longrightarrow>
     (\<exists>e. x = Inl e) \<and> d' = d \<or>
     (\<exists>r p s. check_redeem hash env account plain d = Inr (r, p) \<and>
        deliver_code env account p (code_id r) (code_shop d) = (Inr (), s) \<and> constraints_hold s \<and>
        x = Inr (r\<lparr>code_status := ''used'', redeemed_by := Some account, redeemed_at := Some (now env)\<rparr>) \<and>
        d' = (put_code (r\<lparr>code_status := ''used'', redeemed_by := Some account, redeemed_at := Some (now env)\<rparr>) d)\<lparr>code_shop := s\<rparr>)"
  by (auto simp: redeem_def Let_def split: sum.splits prod.splits if_splits)

inductive redeem_reached :: "(string \<Rightarrow> string) \<Rightarrow> redeem_desk \<Rightarrow> bool" for hash where
  no_codes: "redeem_reached hash \<lparr>batches = [], codes = [], code_shop = s\<rparr>"
| next_event: "redeem_reached hash d \<Longrightarrow> redeem_step hash d d' \<Longrightarrow> redeem_reached hash d'"

definition codes_ok :: "redeem_desk \<Rightarrow> bool" where
  "codes_ok d \<longleftrightarrow> distinct (map code_id (codes d)) \<and> distinct (map code_hash (codes d))"

text \<open>Replacing a row by one with the same id and hash.\<close>

lemma same_row: "codes_ok d \<Longrightarrow> q \<in> set (codes d) \<Longrightarrow> r \<in> set (codes d) \<Longrightarrow> code_id q = code_id r \<Longrightarrow> q = r"
  by (auto simp: codes_ok_def distinct_map inj_on_def)

lemma put_code_ok:
  assumes "codes_ok d" and "r \<in> set (codes d)" and "code_id r' = code_id r" and "code_hash r' = code_hash r"
  shows "codes_ok (put_code r' d)"
    and "code_status r' \<noteq> ''unused'' \<Longrightarrow> spent d h \<Longrightarrow> spent (put_code r' d) h"
    and "code_status r' \<noteq> ''unused'' \<Longrightarrow> spent (put_code r' d) (code_hash r)"
proof -
  have ids: "map code_id (codes (put_code r' d)) = map code_id (codes d)" by (auto simp: put_code_def)
  have hashes: "map code_hash (codes (put_code r' d)) = map code_hash (codes d)"
    using assms same_row [OF assms(1) _ assms(2)] by (auto simp: put_code_def)
  show "codes_ok (put_code r' d)" using assms(1) ids hashes by (simp add: codes_ok_def)
  have r': "r' \<in> set (codes (put_code r' d))" using assms(2,3) by (auto simp: put_code_def)
  then show "code_status r' \<noteq> ''unused'' \<Longrightarrow> spent (put_code r' d) (code_hash r)" using assms(4) by (auto simp: spent_def)
  assume st: "code_status r' \<noteq> ''unused''" and "spent d h"
  then obtain q where q: "q \<in> set (codes d)" "code_hash q = h" "code_status q \<noteq> ''unused''" by (auto simp: spent_def)
  show "spent (put_code r' d) h"
  proof (cases "code_id q = code_id r")
    case True
    then have "q = r" using same_row [OF assms(1) q(1) assms(2)] by simp
    then show ?thesis using r' st assms(4) q(2) by (auto simp: spent_def)
  next
    case False
    then have "q \<in> set (codes (put_code r' d))" using q(1) assms(3) by (auto simp: put_code_def image_iff intro!: bexI [of _ q])
    then show ?thesis using q by (auto simp: spent_def)
  qed
qed

lemma check_redeem_row:
  assumes "check_redeem hash env account plain d = Inr (r, p)"
  shows "\<exists>n. normalize_plain_code plain = Inr n \<and> filter (\<lambda>q. code_hash q = hash n) (codes d) = [r] \<and> code_status r = ''unused''"
  using assms by (auto simp: check_redeem_def get_code_by_plain_code_def one_or_none_Some ensure_code_redeemable_def
      split: sum.splits option.splits if_splits)

lemma generate_outcome:
  "generate_codes hash new_batch draws i quantity expires d = (x, d') \<Longrightarrow>
     d' = d \<or> codes_ok d' \<and> set (codes d) \<subseteq> set (codes d')"
  unfolding codes_ok_def generate_codes_def Let_def
  by (auto simp del: map_append distinct_append split: sum.splits if_splits)

lemma redeem_step_ok:
  "redeem_step hash d d' \<Longrightarrow> codes_ok d \<Longrightarrow> codes_ok d' \<and> (spent d h \<longrightarrow> spent d' h)"
proof (induction rule: redeem_step.induct)
  case (generated new_batch draws i quantity expires d x d')
  then show ?case using generate_outcome [OF generated.hyps] by (auto simp: spent_def)
next
  case (redeemed env account plain d x d')
  show ?case
  proof (cases "d' = d")
    case True
    then show ?thesis using redeemed by simp
  next
    case False
    then obtain r p s where c: "check_redeem hash env account plain d = Inr (r, p)"
      and d': "d' = (put_code (r\<lparr>code_status := ''used'', redeemed_by := Some account, redeemed_at := Some (now env)\<rparr>) d)\<lparr>code_shop := s\<rparr>"
      using deliver_or_not [OF redeemed.hyps] by blast
    obtain n where "filter (\<lambda>q. code_hash q = hash n) (codes d) = [r]" using check_redeem_row [OF c] by blast
    then have "r \<in> set (codes d)" by (auto simp: filter_eq_Cons_iff)
    note put_code_ok [OF redeemed.prems this, of "r\<lparr>code_status := ''used'', redeemed_by := Some account, redeemed_at := Some (now env)\<rparr>"]
    then show ?thesis by (simp add: d' codes_ok_def spent_def)
  qed
next
  case (code_disabled t i d x d')
  show ?case
  proof (cases "find (\<lambda>q. code_id q = i) (codes d)")
    case None
    then show ?thesis using code_disabled by (simp add: disable_code_def)
  next
    case (Some r)
    then have "r \<in> set (codes d)" by (auto simp: find_Some_iff)
    note put_code_ok [OF code_disabled.prems this, of "r\<lparr>code_status := ''disabled'', code_disabled_at := Some t\<rparr>"]
    then show ?thesis using code_disabled.hyps Some by (auto simp: disable_code_def Let_def)
  qed
next
  case (batch_disabled t i d x d')
  then have "codes d' = codes d" by (auto simp: disable_batch_def put_batch_def Let_def split: option.splits)
  then show ?case using batch_disabled.prems by (simp add: codes_ok_def spent_def)
qed (simp add: codes_ok_def spent_def)

lemma redeem_reached_ok: "redeem_reached hash d \<Longrightarrow> codes_ok d"
proof (induction rule: redeem_reached.induct)
  case (next_event d d')
  show ?case using redeem_step_ok [OF next_event.hyps(2) next_event.IH] by simp
qed (simp add: codes_ok_def)


text \<open>C23. A code is redeemed at most once: once a code has been redeemed, whatever codes are generated,
  redeemed or disabled and whatever the other services do to the tables, every later attempt with the
  same code, typed in any way and by any account, fails and changes nothing.\<close>

theorem code_redeemed_once:
  assumes "redeem_reached hash d" and "redeem hash env account plain d = (Inr r, d1)"
    and "(redeem_step hash)\<^sup>*\<^sup>* d1 d2" and "normalize_plain_code plain2 = normalize_plain_code plain"
  shows "\<exists>e. redeem hash env2 account2 plain2 d2 = (Inl e, d2)"
proof -
  obtain r0 p s where c: "check_redeem hash env account plain d = Inr (r0, p)"
    and d1: "d1 = (put_code (r0\<lparr>code_status := ''used'', redeemed_by := Some account, redeemed_at := Some (now env)\<rparr>) d)\<lparr>code_shop := s\<rparr>"
    using deliver_or_not [OF assms(2)] by auto
  obtain n where n: "normalize_plain_code plain = Inr n" "filter (\<lambda>q. code_hash q = hash n) (codes d) = [r0]"
    using check_redeem_row [OF c] by blast
  then have r0: "r0 \<in> set (codes d)" "code_hash r0 = hash n" by (auto simp: filter_eq_Cons_iff)
  have ok: "codes_ok d" by (rule redeem_reached_ok [OF assms(1)])
  have "codes_ok d1 \<and> spent d1 (hash n)"
    using put_code_ok(1,3) [OF ok r0(1), of "r0\<lparr>code_status := ''used'', redeemed_by := Some account, redeemed_at := Some (now env)\<rparr>"] r0(2)
    by (simp add: d1 codes_ok_def spent_def)
  with assms(3) have "codes_ok d2 \<and> spent d2 (hash n)"
    by (induction rule: rtranclp_induct) (use redeem_step_ok in blast)+
  then obtain q where q: "q \<in> set (codes d2)" "code_hash q = hash n" "code_status q \<noteq> ''unused''" by (auto simp: spent_def)
  have False if ok2: "check_redeem hash env2 account2 plain2 d2 = Inr (r', p')" for r' p'
  proof -
    have "filter (\<lambda>q. code_hash q = hash n) (codes d2) = [r'] \<and> code_status r' = ''unused''"
      using check_redeem_row [OF ok2] n(1) assms(4) by auto
    moreover have "q \<in> set (filter (\<lambda>q. code_hash q = hash n) (codes d2))" using q by simp
    ultimately show False using q(3) by simp
  qed
  then show ?thesis by (cases "check_redeem hash env2 account2 plain2 d2") (auto simp: redeem_def)
qed

definition demo_hash :: "string \<Rightarrow> string" where
  "demo_hash s = ''sha256:'' @ s"

definition demo_token :: string where
  "demo_token = ''ab-cdefghijklmnopqrstuv0''"

definition demo_codes :: redeem_desk where
  "demo_codes = snd (generate_codes demo_hash 91 [(92, demo_token)] 3 None None \<lparr>batches = [], codes = [], code_shop = demo_shop\<rparr>)"

definition demo_redeemed :: redeem_desk where
  "demo_redeemed = snd (redeem demo_hash (demo_env 1000000 93) 7 (draw_code demo_token) demo_codes)"

lemma demo_codes_reached: "redeem_reached demo_hash demo_codes"
  unfolding demo_codes_def by (rule next_event [OF no_codes generated [OF prod.collapse [symmetric]]])

lemma demo_redeems:
  "\<exists>r. redeem demo_hash (demo_env 1000000 93) 7 (draw_code demo_token) demo_codes = (Inr r, demo_redeemed)"
proof -
  have "\<not> isl (fst (redeem demo_hash (demo_env 1000000 93) 7 (draw_code demo_token) demo_codes))" by code_simp
  then show ?thesis unfolding demo_redeemed_def by (metis isl_def prod.collapse sum.exhaust_sel)
qed

theorem code_redeemed_once_witness:
  "\<exists>e. redeem demo_hash (demo_env 5000000 94) 8 '' oa-abBcdefghijklmnopqrstuv0'' (snd (disable_code 9 92 demo_redeemed))
     = (Inl e, snd (disable_code 9 92 demo_redeemed))"
proof -
  obtain r where r: "redeem demo_hash (demo_env 1000000 93) 7 (draw_code demo_token) demo_codes = (Inr r, demo_redeemed)"
    using demo_redeems by blast
  have s: "redeem_step demo_hash demo_redeemed (snd (disable_code 9 92 demo_redeemed))"
    by (rule code_disabled [OF prod.collapse [symmetric]])
  have "normalize_plain_code '' oa-abBcdefghijklmnopqrstuv0'' = normalize_plain_code (draw_code demo_token)" by code_simp
  then show ?thesis by (rule code_redeemed_once [OF demo_codes_reached r r_into_rtranclp [of "redeem_step demo_hash", OF s]])
qed

section \<open>What a code delivers\<close>

definition credits_of :: "shop \<Rightarrow> int \<Rightarrow> int" where
  "credits_of s k = available_tokens (dget_or (credit_rows s) k new_account)"

definition redeem_commission :: "shop_env \<Rightarrow> shop \<Rightarrow> int \<Rightarrow> sale_plan \<Rightarrow> int \<Rightarrow> rat" where
  "redeem_commission env s account p k =
     (if distribution_enabled env \<and> relation_of account s = Some k
      then max 0 (money (money (plan_price p) *
             (if locked s k \<or> high_rate_min_subordinates \<le> direct_subordinate_count k s
              then commission_rate_high else commission_rate_low)))
      else 0)"

lemma grant_redeemed_moves:
  assumes "grant_redeemed env account n i quota s = (Inr (), t)"
  shows "credits_of t k = credits_of s k + (if k = account then n else 0)"
    and "\<exists>c l. t = s\<lparr>credit_rows := c, credit_log := l\<rparr>"
  using assms
  by (auto simp: grant_redeemed_def autoflush_def credits_of_def dget_or_def redeemed_account_def available_tokens_def Let_def
      split: if_splits)

lemma settle_redeem_moves:
  assumes "settle_commission_for_redeem env account p i s = (Inr (), t)" and "wallet_ok (shop_wallet s)"
    and "\<forall>e \<in> set (wallet_transactions (shop_wallet s)). bt_source_id e \<noteq> i"
  shows "balance_of t k = balance_of s k + redeem_commission env s account p k" and "\<exists>w. t = s\<lparr>shop_wallet := w\<rparr>"
proof -
  have "settle env account (money (plan_price p)) ''redeem_code'' i s = (Inr (), t) \<or> \<not> distribution_enabled env \<and> t = s"
    using assms(1) by (auto simp: settle_commission_for_redeem_def autoflush_def split: if_splits)
  then show "balance_of t k = balance_of s k + redeem_commission env s account p k"
  proof
    assume S: "settle env account (money (plan_price p)) ''redeem_code'' i s = (Inr (), t)"
    show ?thesis
    proof (cases "distribution_enabled env")
      case True
      have "\<not> (\<exists>e \<in> set (wallet_transactions (shop_wallet s)). bt_source_id e = i \<and> bt_type e = ''commission'')"
        using assms(3) by blast
      then show ?thesis using settle_moves [OF S assms(2), of k] True by (auto simp: redeem_commission_def)
    next
      case False
      then show ?thesis using assms(1) by (simp add: settle_commission_for_redeem_def redeem_commission_def)
    qed
  qed (simp add: redeem_commission_def)
  show "\<exists>w. t = s\<lparr>shop_wallet := w\<rparr>"
    using assms(1) settle_only_wallet
    by (auto simp: settle_commission_for_redeem_def autoflush_def intro: exI [of _ "shop_wallet s"] split: if_splits)
qed

text \<open>What the database holds of a plan's delivery.\<close>

definition delivered :: "shop_env \<Rightarrow> int \<Rightarrow> sale_plan \<Rightarrow> int \<Rightarrow> shop \<Rightarrow> shop \<Rightarrow> bool" where
  "delivered env account p i s t \<longleftrightarrow>
     (\<forall>k. balance_of t k = balance_of s k +
        (if plan_type p = ''balance'' then (if k = account then money (plan_price p) else 0)
         else redeem_commission env s account p k)) \<and>
     (\<forall>k. credits_of t k = credits_of s k + (if k = account \<and> plan_type p \<noteq> ''balance'' then plan_grant p else 0)) \<and>
     membership_rows t = (if plan_type p = ''membership''
        then snd (activate_or_extend_membership (new_membership_id env) (db_second (now env))
               (membership_rows s) account (plan.truncate p) ''redeem_code'' i (now env))
        else membership_rows s) \<and>
     purchase_orders t = purchase_orders s \<and> returns t = returns s \<and> renewals t = renewals s \<and>
     relations t = relations s \<and> sale_plans t = sale_plans s"

lemma deliver_code_exact:
  assumes "deliver_code env account p i s = (Inr (), t)" and "wallet_ok (shop_wallet s)"
    and "\<forall>e \<in> set (wallet_transactions (shop_wallet s)). bt_source_id e \<noteq> i"
  shows "delivered env account p i s t"
proof (cases "plan_type p = ''balance''")
  case True
  obtain e w where w: "wallet_credit (now env) account (plan_price p) ''redeem_code'' i ''recharge'' None (shop_wallet s) = (Inr e, w)"
    and t: "t = s\<lparr>shop_wallet := w\<rparr>"
    using assms(1) True by (auto simp: deliver_code_def on_wallet_def split: prod.splits)
  have "find_transaction (shop_wallet s) account ''redeem_code'' i ''recharge'' = Inr None"
    using assms(3) by (auto simp: find_transaction_None)
  note m = credit_moves(1) [OF w assms(2) this]
  show ?thesis using True m by (simp add: delivered_def t balance_of_def credits_of_def)
next
  case False
  define rows where "rows = (if plan_type p = ''membership''
    then membership_rows (snd (redeem_membership env account p i s)) else membership_rows s)"
  let ?s1 = "s\<lparr>membership_rows := rows\<rparr>"
  obtain s2 where g: "grant_redeemed env account (plan_grant p) i (plan_type p = ''membership'') ?s1 = (Inr (), s2)"
    and c: "settle_commission_for_redeem env account p i s2 = (Inr (), t)"
    using assms(1) False by (auto simp: deliver_code_def rows_def redeem_membership_def split: if_splits)
  obtain cr cl where s2: "s2 = ?s1\<lparr>credit_rows := cr, credit_log := cl\<rparr>" using grant_redeemed_moves(2) [OF g] by blast
  have wallet: "wallet_ok (shop_wallet s2)" "\<forall>e \<in> set (wallet_transactions (shop_wallet s2)). bt_source_id e \<noteq> i"
    using assms(2,3) by (simp_all add: s2)
  note m = settle_redeem_moves [OF c wallet]
  obtain w where t: "t = s2\<lparr>shop_wallet := w\<rparr>" using m(2) by blast
  have "balance_of s2 k = balance_of s k" "redeem_commission env s2 account p k = redeem_commission env s account p k" for k
    by (simp_all add: s2 balance_of_def redeem_commission_def locked_def relation_of_def direct_subordinate_count_def)
  then have bal: "balance_of t k = balance_of s k + redeem_commission env s account p k" for k using m(1) by simp
  have "credits_of t k = credits_of s2 k" "credits_of ?s1 k = credits_of s k" for k by (simp_all add: t credits_of_def)
  then have cred: "credits_of t k = credits_of s k + (if k = account then plan_grant p else 0)" for k
    using grant_redeemed_moves(1) [OF g] by simp
  show ?thesis using False bal cred by (simp add: delivered_def t s2 rows_def redeem_membership_def)
qed


definition unused_fresh :: "redeem_desk \<Rightarrow> bool" where
  "unused_fresh d \<longleftrightarrow> (\<forall>c \<in> set (codes d). code_status c = ''unused'' \<longrightarrow>
     (\<forall>e \<in> set (wallet_transactions (shop_wallet (code_shop d))). bt_source_id e \<noteq> code_id c))"

text \<open>C24. A redemption is all or nothing.  If it fails, nothing changes.  If it succeeds, the code belongs to an
  active plan and is marked as used by the account; of the other codes and batches nothing changes; a
  balance plan adds exactly its price to the balance of the account; another plan adds exactly its
  credits, for a membership also the term of the membership, and pays the superior exactly the
  commission at the rate in force; and no other balance, credit, order or relation moves.\<close>

theorem redeem_delivers_exactly:
  assumes "redeem hash env account plain d = (x, d')"
    and "wallet_ok (shop_wallet (code_shop d))" and "unused_fresh d"
  shows "case x of
      Inl e \<Rightarrow> d' = d
    | Inr r \<Rightarrow>
        (\<exists>p. find_plan (code_shop d) (code_plan r) = Some p \<and> sale_active p \<and>
           delivered env account p (code_id r) (code_shop d) (code_shop d')) \<and>
        code_status r = ''used'' \<and> redeemed_by r = Some account \<and> batches d' = batches d \<and>
        codes d' = map (\<lambda>q. if code_id q = code_id r then r else q) (codes d)"
proof (cases x)
  case (Inl e)
  then show ?thesis using deliver_or_not [OF assms(1)] by auto
next
  case (Inr r)
  then obtain r0 p s where c: "check_redeem hash env account plain d = Inr (r0, p)"
    and dc: "deliver_code env account p (code_id r0) (code_shop d) = (Inr (), s)"
    and r: "r = r0\<lparr>code_status := ''used'', redeemed_by := Some account, redeemed_at := Some (now env)\<rparr>"
    and d': "d' = (put_code r d)\<lparr>code_shop := s\<rparr>"
    using deliver_or_not [OF assms(1)] by auto
  obtain n where n: "filter (\<lambda>q. code_hash q = hash n) (codes d) = [r0]" "code_status r0 = ''unused''"
    using check_redeem_row [OF c] by blast
  then have "r0 \<in> set (codes d)" by (auto simp: filter_eq_Cons_iff)
  then have "\<forall>e \<in> set (wallet_transactions (shop_wallet (code_shop d))). bt_source_id e \<noteq> code_id r0"
    using assms(3) n(2) by (simp add: unused_fresh_def)
  note del = deliver_code_exact [OF dc assms(2) this]
  have "find_plan (code_shop d) (code_plan r0) = Some p \<and> sale_active p"
    using c by (auto simp: check_redeem_def code_plan_or_raise_def split: sum.splits option.splits if_splits)
  then show ?thesis using Inr del by (simp add: r d' put_code_def)
qed

theorem redeem_delivers_exactly_witness:
  "credits_of (code_shop demo_redeemed) 7 = 500 \<and> balance_of (code_shop demo_redeemed) 8 = 4"
proof -
  obtain r where r: "redeem demo_hash (demo_env 1000000 93) 7 (draw_code demo_token) demo_codes = (Inr r, demo_redeemed)"
    using demo_redeems by blast
  have w: "wallet_transactions (shop_wallet (code_shop demo_codes)) = []" "shop_wallet (code_shop demo_codes) = empty_wallet"
    by code_simp+
  have "wallet_ok (shop_wallet (code_shop demo_codes))" "unused_fresh demo_codes"
    using wallet_ok_empty by (simp_all add: w unused_fresh_def empty_wallet_def)
  note redeem_delivers_exactly [OF r this]
  then obtain p where p: "find_plan (code_shop demo_codes) (code_plan r) = Some p"
    "delivered (demo_env 1000000 93) 7 p (code_id r) (code_shop demo_codes) (code_shop demo_redeemed)" by auto
  let ?q = "demo_plan 3 ''membership'' 20 500 30"
  have "r = projr (fst (redeem demo_hash (demo_env 1000000 93) 7 (draw_code demo_token) demo_codes))" using r by simp
  moreover have "find_plan (code_shop demo_codes)
      (code_plan (projr (fst (redeem demo_hash (demo_env 1000000 93) 7 (draw_code demo_token) demo_codes)))) = Some ?q" by code_simp
  ultimately have "p = ?q" using p(1) by simp
  moreover have "plan_type ?q = ''membership''" "plan_grant ?q = 500" "credits_of (code_shop demo_codes) 7 = 0"
    "balance_of (code_shop demo_codes) 8 = 0" "redeem_commission (demo_env 1000000 93) (code_shop demo_codes) 7 ?q 8 = 4" by code_simp+
  ultimately show ?thesis using p(2) by (simp add: delivered_def)
qed

section \<open>The quota of a membership\<close>

text \<open>When the summary is read after a membership has run out, the memberships that are overdue are
  marked expired; if then none is in force, the quota is cleared, and otherwise it stays.  The
  permanent credits stay in every case, and so does everything of the other accounts.\<close>

theorem quota_ends_with_membership:
  fixes env account s
  defines "t \<equiv> expire_membership_if_due env account s"
  shows "filter (overdue account (now env)) (membership_rows t) = [] \<and>
    permanent_credit (dget_or (credit_rows t) k new_account) = permanent_credit (dget_or (credit_rows s) k new_account) \<and>
    quota_credit (dget_or (credit_rows t) k new_account) =
      (if k = account \<and> filter (overdue account (now env)) (membership_rows s) \<noteq> [] \<and> \<not> shop_member env account t then 0
       else quota_credit (dget_or (credit_rows s) k new_account))"
proof -
  let ?rows = "map (\<lambda>m. if overdue account (now env) m then expire_row (now env) m else m) (membership_rows s)"
  have e: "expire_due_memberships (membership_rows s) account (now env) =
      (?rows, map (expire_row (now env)) (filter (overdue account (now env)) (membership_rows s)))"
    by (simp add: expire_due_memberships_def)
  have "\<not> overdue account (now env) (expire_row (now env) m)" for m
    by (simp add: overdue_def expire_row_def)
  then have none: "filter (overdue account (now env)) ?rows = []" by (auto simp: filter_empty_conv)
  show ?thesis
  proof (cases "filter (overdue account (now env)) (membership_rows s) = []")
    case True
    then show ?thesis by (simp add: t_def expire_membership_if_due_def e)
  next
    case False
    let ?s = "s\<lparr>membership_rows := ?rows\<rparr>"
    have u: "t = (if resolve_effective_membership (plan_rows ?s) ?rows account (now env) \<noteq> None then ?s
        else case dget (credit_rows s) account of None \<Rightarrow> ?s | Some a \<Rightarrow> if quota_credit a = 0 then ?s
          else ?s\<lparr>credit_rows := dset account (a\<lparr>quota_credit := 0, account_updated := now env\<rparr>) (credit_rows s)\<rparr>)"
      using False by (simp add: t_def expire_membership_if_due_def e Let_def cong: option.case_cong if_cong)
    have r: "membership_rows t = ?rows" "sale_plans t = sale_plans s" unfolding u by (simp_all split: option.split)
    then have m: "shop_member env account t = (resolve_effective_membership (plan_rows ?s) ?rows account (now env) \<noteq> None)"
      by (simp add: shop_member_def has_active_membership_def plan_rows_def)
    show ?thesis
    proof (cases "resolve_effective_membership (plan_rows ?s) ?rows account (now env) \<noteq> None")
      case True
      then have "t = ?s" unfolding u by (rule if_P)
      then show ?thesis using m True none by simp
    next
      case none': False
      then have t: "t = (case dget (credit_rows s) account of None \<Rightarrow> ?s | Some a \<Rightarrow> if quota_credit a = 0 then ?s
          else ?s\<lparr>credit_rows := dset account (a\<lparr>quota_credit := 0, account_updated := now env\<rparr>) (credit_rows s)\<rparr>)"
        unfolding u by (rule if_not_P)
      show ?thesis
      proof (cases "dget (credit_rows s) account")
        case None
        then have "credit_rows t = credit_rows s" "quota_credit (dget_or (credit_rows s) account new_account) = 0"
          by (simp_all add: t dget_or_def new_account_def)
        then show ?thesis using m none none' r(1) by auto
      next
        case (Some a)
        then have "dget_or (credit_rows t) k new_account = (if k = account then a\<lparr>quota_credit := 0,
            account_updated := (if quota_credit a = 0 then account_updated a else now env)\<rparr> else dget_or (credit_rows s) k new_account)"
          by (auto simp: t dget_or_def)
        then show ?thesis using m none none' r(1) False Some by (auto simp: dget_or_def)
      qed
    qed
  qed
qed

text \<open>The anchors of a refreshed quota outlive the membership that set them.  Let an account hold the
  anchors of an earlier plan whose reset time has come, and let it buy or redeem a plan that has no
  refreshed quota: as soon as it has any membership in force, the next charge sets the quota to the
  grant of the earlier plan, whatever the new plan granted, and goes on doing so every cycle.\<close>

theorem old_cycle_refills_new_membership:
  assumes "quota_reset_at a = Some reset" and "0 < quota_granted a" and "0 < quota_cycle_days a"
    and "in_force m t" and "reset \<le> t"
    and "quota_refresh_period p \<noteq> ''cycle'' \<or> plan_days p \<le> 0"
  shows "quota_credit (refresh_quota_if_due (granted_account t0 n (Some p) a) m t) = quota_granted a \<and>
    quota_credit (refresh_quota_if_due (redeemed_account t0 n True a) m t) = quota_granted a"
  using assms by (auto simp: refresh_quota_if_due_def granted_account_def redeemed_account_def Let_def)

theorem old_cycle_refills_new_membership_witness:
  "quota_credit (refresh_quota_if_due (granted_account 0 9000 (Some (demo_plan 3 ''membership'' 20 9000 0))
     (new_account\<lparr>quota_granted := 500, quota_cycle_days := 30, quota_reset_at := Some 5\<rparr>))
     (Some (new_membership 1 2 7 (plan.truncate (demo_plan 3 ''membership'' 20 9000 30)) ''order'' 4 0)) 6) = 500"
proof -
  have "in_force (Some (new_membership 1 2 7 (plan.truncate (demo_plan 3 ''membership'' 20 9000 30)) ''order'' 4 0)) 6" by code_simp
  from old_cycle_refills_new_membership [OF _ _ _ this, of "new_account\<lparr>quota_granted := 500, quota_cycle_days := 30, quota_reset_at := Some 5\<rparr>" 5
      "demo_plan 3 ''membership'' 20 9000 0" 0 9000]
  show ?thesis by (simp add: demo_plan_def)
qed

text \<open>A plan with a refreshed quota that is redeemed instead of bought sets no anchor: on an account without
  one the quota is granted once and never refilled.\<close>

lemma redeemed_cycle_never_refilled:
  "quota_reset_at a = None \<Longrightarrow>
     refresh_quota_if_due (redeemed_account t0 n True a) m t = redeemed_account t0 n True a"
  by (simp add: refresh_quota_if_due_def redeemed_account_def Let_def)


end
