(* ===== verification/Task_Flow.thy ===== *)
theory Task_Flow
  imports Credit
begin

text \<open>
  The flow of credits shown to a user (\<^verbatim>\<open>service/redeem_code_service.py\<close>, \<^verbatim>\<open>_build_task_flow_rows\<close> and its two
  callers): consumption is gathered into one row per question, every other transaction is a row of
  its own, and the rows are shown newest first in pages.  Descriptions and texts are left out.
\<close>

section \<open>Rows\<close>

record flow_row =
  fr_amount :: int
  fr_kind :: tx_type
  fr_sort :: int
  fr_last :: int
  fr_count :: "nat option"
  fr_key :: "int option"

text \<open>A question: its time and its id.\<close>

type_synonym anchor = "int \<times> int"

definition is_task :: "credit_transaction \<Rightarrow> bool" where
  "is_task t = (\<not> (0 \<le> tx_amount t \<or> tx_kind t \<noteq> Consume))"

definition own_row :: "credit_transaction \<Rightarrow> flow_row" where
  "own_row t = \<lparr>fr_amount = tx_amount t, fr_kind = tx_kind t, fr_sort = tx_created t, fr_last = tx_created t,
     fr_count = None, fr_key = None\<rparr>"

definition new_task :: "credit_transaction \<Rightarrow> int option \<Rightarrow> flow_row" where
  "new_task t owner = \<lparr>fr_amount = 0, fr_kind = Consume, fr_sort = tx_created t, fr_last = tx_created t,
     fr_count = Some 0, fr_key = owner\<rparr>"

text \<open>The latest question that is not later: the loop over the anchors with its \<open>break\<close>.\<close>

fun owner_of :: "anchor list \<Rightarrow> int \<Rightarrow> int option \<Rightarrow> int option" where
  "owner_of [] t owner = owner"
| "owner_of ((asked, q) # rest) t owner = (if asked \<le> t then owner_of rest t (Some q) else owner)"

definition add_to_task :: "credit_transaction \<Rightarrow> flow_row \<Rightarrow> flow_row" where
  "add_to_task t r =
     (let l = max (fr_last r) (tx_created t) in
      r\<lparr>fr_amount := fr_amount r + tx_amount t,
        fr_count := Some ((case fr_count r of None \<Rightarrow> 0 | Some n \<Rightarrow> n) + 1), fr_last := l, fr_sort := l\<rparr>)"

text \<open>One turn of the loop, on the finished rows and the tasks under way.\<close>

definition flow_turn :: "anchor list \<Rightarrow> credit_transaction \<Rightarrow>
    flow_row list \<times> (int \<times> flow_row) list \<Rightarrow> flow_row list \<times> (int \<times> flow_row) list" where
  "flow_turn anchors t st =
     (case st of (rows, pending) \<Rightarrow>
        if \<not> is_task t then (rows @ [own_row t], pending)
        else
          (case owner_of anchors (tx_created t) None of
             None \<Rightarrow> (rows @ [new_task t None], pending)
           | Some q \<Rightarrow>
               (let r = (case dget pending q of None \<Rightarrow> new_task t (Some q) | Some r \<Rightarrow> r)
                in (rows, dset q (add_to_task t r) pending))))"

definition build_task_flow_rows :: "credit_transaction list \<Rightarrow> anchor list \<Rightarrow> flow_row list" where
  "build_task_flow_rows txs anchors =
     (case fold (flow_turn anchors) txs ([], []) of (rows, pending) \<Rightarrow>
        filter (\<lambda>r. case fr_key r of None \<Rightarrow> True | Some q \<Rightarrow> q \<notin> set (dkeys pending)) rows @ map snd pending)"

text \<open>\<open>rows.sort(key=..., reverse=True)\<close> keeps the order of equal rows.\<close>

definition newest_first :: "flow_row list \<Rightarrow> flow_row list" where
  "newest_first rows = sort_key (\<lambda>r. - fr_sort r) rows"

section \<open>The two lists\<close>

definition page_number :: "int option \<Rightarrow> int" where
  "page_number p = max (case p of None \<Rightarrow> 1 | Some n \<Rightarrow> if n = 0 then 1 else n) 1"

definition page_length :: "int option \<Rightarrow> int" where
  "page_length n = min (max (case n of None \<Rightarrow> 20 | Some k \<Rightarrow> if k = 0 then 20 else k) 1) 100"

definition page_of :: "int \<Rightarrow> int \<Rightarrow> 'a list \<Rightarrow> 'a list" where
  "page_of p n xs = take (nat n) (drop (nat ((p - 1) * n)) xs)"

record flow_page =
  fp_list :: "flow_row list"
  fp_total :: nat
  fp_consumed :: int

definition of_account :: "int \<Rightarrow> credit_transaction list \<Rightarrow> credit_transaction list" where
  "of_account account txs = sort_key tx_created (filter (\<lambda>t. tx_account t = account) txs)"

definition list_credit_transactions ::
  "credit_transaction list \<Rightarrow> anchor list \<Rightarrow> int \<Rightarrow> int option \<Rightarrow> int option \<Rightarrow> flow_page" where
  "list_credit_transactions txs anchors account p n =
     (let rows = newest_first (build_task_flow_rows (of_account account txs) anchors) in
      \<lparr>fp_list = page_of (page_number p) (page_length n) rows, fp_total = length rows,
       fp_consumed = sum_list (map (\<lambda>t. - tx_amount t) (filter (\<lambda>t. tx_account t = account \<and> tx_amount t < 0) txs))\<rparr>)"

definition build_recent_tasks :: "credit_transaction list \<Rightarrow> anchor list \<Rightarrow> flow_row list" where
  "build_recent_tasks txs anchors =
     (let consume = filter (\<lambda>t. tx_kind t = Consume \<or> tx_amount t < 0) txs in
      if consume = [] then []
      else take 6 (newest_first
             (filter (\<lambda>r. fr_kind r = Consume \<and> fr_amount r < 0) (build_task_flow_rows consume anchors))))"

section \<open>Gathering by question\<close>

text \<open>The reference: the other rows in their order, then one row for each question that owns a
  consumption, in the order of their first one.\<close>

definition task_owner :: "anchor list \<Rightarrow> credit_transaction \<Rightarrow> int option" where
  "task_owner anchors t = (if is_task t then owner_of anchors (tx_created t) None else None)"

definition charges_of :: "anchor list \<Rightarrow> credit_transaction list \<Rightarrow> int \<Rightarrow> credit_transaction list" where
  "charges_of anchors txs q = filter (\<lambda>t. task_owner anchors t = Some q) txs"

definition questions_of :: "anchor list \<Rightarrow> credit_transaction list \<Rightarrow> int list" where
  "questions_of anchors txs = rev (remdups (rev (List.map_filter (task_owner anchors) txs)))"

definition gathered :: "credit_transaction list \<Rightarrow> int \<Rightarrow> flow_row" where
  "gathered ts q = (let l = Max (set (map tx_created ts)) in
     \<lparr>fr_amount = sum_list (map tx_amount ts), fr_kind = Consume, fr_sort = l, fr_last = l,
      fr_count = Some (length ts), fr_key = Some q\<rparr>)"

definition single_row :: "credit_transaction \<Rightarrow> flow_row" where
  "single_row t = (if is_task t then new_task t None else own_row t)"

definition flow_reference :: "credit_transaction list \<Rightarrow> anchor list \<Rightarrow> flow_row list" where
  "flow_reference txs anchors =
     map single_row (filter (\<lambda>t. task_owner anchors t = None) txs) @
     map (\<lambda>q. gathered (charges_of anchors txs q) q) (questions_of anchors txs)"

lemma questions_simps:
  "distinct (questions_of anchors txs)"
  "set (questions_of anchors txs) = {q. charges_of anchors txs q \<noteq> []}"
  by (force simp: questions_of_def charges_of_def filter_empty_conv List.map_filter_def image_iff)+

lemma questions_snoc:
  "questions_of anchors (txs @ [t]) =
     (case task_owner anchors t of None \<Rightarrow> questions_of anchors txs
      | Some q \<Rightarrow> if q \<in> set (questions_of anchors txs) then questions_of anchors txs else questions_of anchors txs @ [q])"
  by (auto simp: questions_of_def List.map_filter_def split: option.splits)

lemma gathered_snoc:
  "ts \<noteq> [] \<Longrightarrow> add_to_task t (gathered ts q) = gathered (ts @ [t]) q"
  by (simp add: add_to_task_def gathered_def Let_def max.commute)

lemma gathered_first: "is_task t \<Longrightarrow> add_to_task t (new_task t (Some q)) = gathered [t] q"
  by (simp add: add_to_task_def gathered_def new_task_def)

lemma dget_rows: "dget (map (\<lambda>q. (q, f q)) qs) q = (if q \<in> set qs then Some (f q) else None)"
  by (induction qs) auto

lemma dset_rows:
  "distinct qs \<Longrightarrow> q \<in> set qs \<Longrightarrow> dset q v (map (\<lambda>q. (q, f q)) qs) = map (\<lambda>p. (p, if p = q then v else f p)) qs"
  by (induction qs) (auto intro!: map_cong)

lemma flow_fold:
  "fold (flow_turn anchors) txs ([], []) =
     (map single_row (filter (\<lambda>t. task_owner anchors t = None) txs),
      map (\<lambda>q. (q, gathered (charges_of anchors txs q) q)) (questions_of anchors txs))"
proof (induction txs rule: rev_induct)
  case Nil
  show ?case by (simp add: questions_of_def List.map_filter_def)
next
  case (snoc t txs)
  let ?qs = "questions_of anchors txs"
  have same: "charges_of anchors (txs @ [t]) p = charges_of anchors txs p" if "task_owner anchors t \<noteq> Some p" for p
    using that by (simp add: charges_of_def)
  show ?case
  proof (cases "task_owner anchors t")
    case None
    then show ?thesis using snoc same
      by (auto simp: flow_turn_def questions_snoc single_row_def task_owner_def split: if_splits)
  next
    case (Some q)
    then have t: "is_task t" "owner_of anchors (tx_created t) None = Some q" by (auto simp: task_owner_def split: if_splits)
    have new: "charges_of anchors (txs @ [t]) q = charges_of anchors txs q @ [t]" using Some by (simp add: charges_of_def)
    show ?thesis
    proof (cases "q \<in> set ?qs")
      case True
      then have g: "add_to_task t (gathered (charges_of anchors txs q) q) = gathered (charges_of anchors (txs @ [t]) q) q"
        unfolding new by (intro gathered_snoc) (simp add: questions_simps)
      show ?thesis using snoc t Some True same
        by (auto simp: flow_turn_def questions_snoc dget_rows dset_rows questions_simps(1) g)
    next
      case False
      then have "charges_of anchors txs q = []" by (simp add: questions_simps)
      then have g: "add_to_task t (new_task t (Some q)) = gathered (charges_of anchors (txs @ [t]) q) q"
        using gathered_first [OF t(1)] new by simp
      have "dset q v (map (\<lambda>q. (q, f q)) ?qs) = map (\<lambda>q. (q, f q)) ?qs @ [(q, v)]" for v and f :: "int \<Rightarrow> flow_row"
        using False by (intro dset_new) (simp add: comp_def)
      moreover have "map (\<lambda>p. (p, gathered (charges_of anchors (txs @ [t]) p) p)) ?qs = map (\<lambda>p. (p, gathered (charges_of anchors txs p) p)) ?qs"
        using False Some same by (intro map_cong refl) (metis option.inject prod.inject)
      ultimately show ?thesis using snoc t Some False g by (simp add: flow_turn_def questions_snoc dget_rows)
    qed
  qed
qed

lemma single_row_key [simp]: "fr_key (single_row t) = None"
  by (simp add: single_row_def new_task_def own_row_def)


section \<open>Totals\<close>

lemma sum_by_key:
  fixes f :: "'a \<Rightarrow> int"
  assumes "distinct qs" and "\<And>x q. x \<in> set xs \<Longrightarrow> g x = Some q \<Longrightarrow> q \<in> set qs"
  shows "sum_list (map (\<lambda>q. sum_list (map f (filter (\<lambda>x. g x = Some q) xs))) qs) =
    sum_list (map f (filter (\<lambda>x. g x \<noteq> None) xs))"
  using assms(2)
proof (induction xs)
  case (Cons x xs)
  have "sum_list (map (\<lambda>q. sum_list (map f (filter (\<lambda>x. g x = Some q) (x # xs)))) qs) =
      sum_list (map (\<lambda>q. (if g x = Some q then f x else 0) + sum_list (map f (filter (\<lambda>x. g x = Some q) xs))) qs)"
    by (intro arg_cong [where f = sum_list] map_cong) auto
  also have "\<dots> = sum_list (map (\<lambda>q. if g x = Some q then f x else 0) qs) + sum_list (map f (filter (\<lambda>x. g x \<noteq> None) xs))"
    using Cons.IH [OF Cons.prems [OF list.set_intros(2)]] by (simp add: sum_list_addf)
  also have "sum_list (map (\<lambda>q. if g x = Some q then f x else 0) qs) = (if g x = None then 0 else f x)"
  proof (cases "g x")
    case (Some q)
    then have "q \<in> set qs" by (rule Cons.prems [OF list.set_intros(1)])
    then show ?thesis using Some assms(1) by (simp add: sum.distinct_set_conv_list [symmetric] sum.delta)
  qed simp
  finally show ?case by auto
qed simp

definition orphans :: "anchor list \<Rightarrow> credit_transaction list \<Rightarrow> credit_transaction list" where
  "orphans anchors txs = filter (\<lambda>t. is_task t \<and> task_owner anchors t = None) txs"

lemma sum_split:
  fixes f :: "'a \<Rightarrow> int"
  shows "sum_list (map f xs) = sum_list (map f (filter P xs)) + sum_list (map f (filter (\<lambda>x. \<not> P x) xs))"
  by (induction xs) auto

text \<open>The amounts of the shown rows and the consumption without a question add up to all transactions.
  So the rows account for everything exactly when no consumption is older than every question the
  user still has; such consumption is shown as a row of amount zero.\<close>

theorem flow_total:
  "sum_list (map fr_amount (build_task_flow_rows txs anchors)) + sum_list (map tx_amount (orphans anchors txs)) =
     sum_list (map tx_amount txs) \<and>
   (\<forall>t \<in> set (orphans anchors txs). new_task t None \<in> set (build_task_flow_rows txs anchors) \<and>
      fr_amount (new_task t None) = 0 \<and> tx_amount t < 0)"
proof
  let ?no = "filter (\<lambda>t. task_owner anchors t = None) txs"
  have "sum_list (map fr_amount (map (\<lambda>q. gathered (charges_of anchors txs q) q) (questions_of anchors txs))) =
      sum_list (map (\<lambda>q. sum_list (map tx_amount (filter (\<lambda>t. task_owner anchors t = Some q) txs))) (questions_of anchors txs))"
    by (simp add: gathered_def charges_of_def comp_def Let_def)
  also have "\<dots> = sum_list (map tx_amount (filter (\<lambda>t. task_owner anchors t \<noteq> None) txs))"
    by (rule sum_by_key) (auto simp: questions_simps charges_of_def filter_empty_conv)
  finally have tasks: "sum_list (map fr_amount (map (\<lambda>q. gathered (charges_of anchors txs q) q) (questions_of anchors txs))) = \<dots>" .
  have "sum_list (map fr_amount (map single_row ys)) + sum_list (map tx_amount (filter is_task ys)) = sum_list (map tx_amount ys)" for ys
    by (induction ys) (auto simp: single_row_def new_task_def own_row_def)
  from this [of ?no] have "sum_list (map fr_amount (map single_row ?no)) + sum_list (map tx_amount (orphans anchors txs)) =
      sum_list (map tx_amount ?no)" by (simp add: orphans_def conj_commute)
  then show "sum_list (map fr_amount (build_task_flow_rows txs anchors)) + sum_list (map tx_amount (orphans anchors txs)) =
      sum_list (map tx_amount txs)"
    using tasks sum_split [of tx_amount txs "\<lambda>t. task_owner anchors t = None"]
    by (simp add: build_task_flow_rows_def flow_fold comp_def)
  have "new_task t None \<in> set (map single_row ?no)" if "t \<in> set (orphans anchors txs)" for t
    using that by (force simp: orphans_def single_row_def)
  then show "\<forall>t \<in> set (orphans anchors txs). new_task t None \<in> set (build_task_flow_rows txs anchors) \<and>
      fr_amount (new_task t None) = 0 \<and> tx_amount t < 0"
    by (auto simp: build_task_flow_rows_def flow_fold new_task_def orphans_def is_task_def)
qed

section \<open>Pages\<close>

lemma pages_concat: "concat (map (\<lambda>i. take m (drop (i * m) xs)) [0..<j]) = take (j * m) xs"
proof (induction j)
  case (Suc j)
  have "take (Suc j * m) xs = take (j * m) xs @ take m (drop (j * m) xs)"
    by (simp only: mult_Suc add.commute [of m] take_add)
  then show ?case using Suc by simp
qed simp

text \<open>The pages are a partition: turning through all pages of any length shows every row of the flow
  exactly once and in order, newest first.\<close>

theorem pages_cover_flow:
  fixes txs anchors account k
  defines "rows \<equiv> build_task_flow_rows (of_account account txs) anchors"
  defines "pages \<equiv> (int (length rows) + page_length k - 1) div page_length k"
  shows "concat (map (\<lambda>p. fp_list (list_credit_transactions txs anchors account (Some p) k)) [1..pages]) = newest_first rows \<and>
    sorted (map (\<lambda>r. - fr_sort r) (newest_first rows)) \<and> mset (newest_first rows) = mset rows"
proof -
  let ?n = "page_length k"
  have n: "1 \<le> ?n" by (simp add: page_length_def)
  have p0: "0 \<le> pages" using n by (simp add: pages_def pos_imp_zdiv_nonneg_iff)
  have page: "fp_list (list_credit_transactions txs anchors account (Some p) k) =
      take (nat ?n) (drop (nat (p - 1) * nat ?n) (newest_first rows))" if "1 \<le> p" for p
    using that n by (simp add: list_credit_transactions_def page_of_def page_number_def rows_def Let_def nat_mult_distrib)
  have ps: "[1..pages] = map (\<lambda>i. int i + 1) [0..<nat pages]"
    using p0 by (intro nth_equalityI) auto
  have "map (\<lambda>p. fp_list (list_credit_transactions txs anchors account (Some p) k)) [1..pages] =
      map (\<lambda>i. take (nat ?n) (drop (i * nat ?n) (newest_first rows))) [0..<nat pages]"
    unfolding ps map_map by (intro map_cong refl) (simp add: page)
  moreover have "length (newest_first rows) \<le> nat pages * nat ?n"
  proof -
    have "int (length rows) \<le> pages * ?n" using n unfolding pages_def
      by (smt (verit) div_mult_mod_eq pos_mod_bound)
    then have "length rows \<le> nat (pages * ?n)" by simp
    then show ?thesis using p0 by (simp add: newest_first_def nat_mult_distrib)
  qed
  ultimately show ?thesis by (simp add: pages_concat newest_first_def)
qed

end
