(* ===== verification/Admin_Rbac.thy ===== *)
theory Admin_Rbac
  imports Db_Base "HOL-Library.List_Lexorder" "HOL-Library.Char_ord"
begin

text \<open>
  The permissions of the administration (\<^verbatim>\<open>core/rbac.py\<close>) and what an administrator may hand down to an
  agent (\<^verbatim>\<open>core/admin_agent_authorization.py\<close>).  Names and descriptions of permissions and roles are left out.
\<close>

section \<open>The catalogue\<close>

record permission_spec =
  perm_code :: string
  perm_resource :: string
  perm_action :: string

record role_spec =
  spec_code :: string
  spec_permissions :: "string list"

definition permission :: "string \<Rightarrow> string \<Rightarrow> string \<Rightarrow> permission_spec" where
  "permission code resource action = \<lparr>perm_code = code, perm_resource = resource, perm_action = action\<rparr>"

definition permission_catalog :: "permission_spec list" where
  "permission_catalog =
    [permission ''admin:access'' ''admin'' ''access'',
     permission ''admin_user:read'' ''admin_user'' ''read'',
     permission ''admin_user:create'' ''admin_user'' ''create'',
     permission ''admin_user:update'' ''admin_user'' ''update'',
     permission ''admin_user:disable'' ''admin_user'' ''disable'',
     permission ''admin_user:delete'' ''admin_user'' ''delete'',
     permission ''role:read'' ''role'' ''read'',
     permission ''role:create'' ''role'' ''create'',
     permission ''role:update'' ''role'' ''update'',
     permission ''role:delete'' ''role'' ''delete'',
     permission ''permission:read'' ''permission'' ''read'',
     permission ''audit_log:read'' ''audit_log'' ''read'',
     permission ''order:view'' ''order'' ''view'',
     permission ''order:manage'' ''order'' ''manage'',
     permission ''refund:view'' ''refund'' ''view'',
     permission ''refund:manage'' ''refund'' ''manage'',
     permission ''withdraw:view'' ''withdraw'' ''view'',
     permission ''withdraw:manage'' ''withdraw'' ''manage'',
     permission ''payment_config:read'' ''payment_config'' ''read'',
     permission ''payment_config:manage'' ''payment_config'' ''manage'',
     permission ''system_config:read'' ''system_config'' ''read'',
     permission ''system_config:manage'' ''system_config'' ''manage'',
     permission ''app:read'' ''app'' ''read'',
     permission ''app:create'' ''app'' ''create'',
     permission ''app:update'' ''app'' ''update'',
     permission ''app:delete'' ''app'' ''delete'',
     permission ''workflow:read'' ''workflow'' ''read'',
     permission ''workflow:create'' ''workflow'' ''create'',
     permission ''workflow:update'' ''workflow'' ''update'',
     permission ''workflow:delete'' ''workflow'' ''delete'',
     permission ''dataset:read'' ''dataset'' ''read'',
     permission ''dataset:update'' ''dataset'' ''update'',
     permission ''tool:read'' ''tool'' ''read'',
     permission ''tool:create'' ''tool'' ''create'',
     permission ''tool:update'' ''tool'' ''update'',
     permission ''tool:delete'' ''tool'' ''delete'',
     permission ''mcp:read'' ''mcp'' ''read'',
     permission ''mcp:create'' ''mcp'' ''create'',
     permission ''mcp:update'' ''mcp'' ''update'',
     permission ''mcp:delete'' ''mcp'' ''delete'',
     permission ''skill:read'' ''skill'' ''read'',
     permission ''skill:create'' ''skill'' ''create'',
     permission ''skill:update'' ''skill'' ''update'',
     permission ''skill:delete'' ''skill'' ''delete'',
     permission ''cli:read'' ''cli'' ''read'',
     permission ''cli:create'' ''cli'' ''create'',
     permission ''cli:update'' ''cli'' ''update'',
     permission ''cli:delete'' ''cli'' ''delete'',
     permission ''user:read'' ''user'' ''read'',
     permission ''user:create'' ''user'' ''create'',
     permission ''user:update'' ''user'' ''update'',
     permission ''user:disable'' ''user'' ''disable'',
     permission ''user:delete'' ''user'' ''delete'',
     permission ''plan:read'' ''plan'' ''read'',
     permission ''plan:update'' ''plan'' ''update'',
     permission ''redeem_code:read'' ''redeem_code'' ''read'',
     permission ''redeem_code:update'' ''redeem_code'' ''update'',
     permission ''setting:read'' ''setting'' ''read'',
     permission ''schedule_task:read'' ''schedule_task'' ''read'',
     permission ''schedule_task:create'' ''schedule_task'' ''create'',
     permission ''schedule_task:update'' ''schedule_task'' ''update'',
     permission ''schedule_task:delete'' ''schedule_task'' ''delete'',
     permission ''prompt_template:read'' ''prompt_template'' ''read'',
     permission ''prompt_template:update'' ''prompt_template'' ''update'',
     permission ''prompt_template:delete'' ''prompt_template'' ''delete'',
     permission ''builtin_tool:read'' ''builtin_tool'' ''read'',
     permission ''builtin_tool:update'' ''builtin_tool'' ''update'',
     permission ''public_ai_feature:read'' ''public_ai_feature'' ''read'',
     permission ''public_ai_feature:update'' ''public_ai_feature'' ''update'',
     permission ''storage:read'' ''storage'' ''read'',
     permission ''storage:update'' ''storage'' ''update'',
     permission ''sandbox:read'' ''sandbox'' ''read'',
     permission ''sandbox:update'' ''sandbox'' ''update'',
     permission ''agent_pool:read'' ''agent_pool'' ''read'',
     permission ''agent_pool:manage'' ''agent_pool'' ''manage'',
     permission ''model_provider:read'' ''model_provider'' ''read'',
     permission ''model_provider:create'' ''model_provider'' ''create'',
     permission ''model_provider:update'' ''model_provider'' ''update'',
     permission ''model_provider:delete'' ''model_provider'' ''delete'',
     permission ''model_pool:read'' ''model_pool'' ''read'',
     permission ''model_pool:create'' ''model_pool'' ''create'',
     permission ''model_pool:update'' ''model_pool'' ''update'',
     permission ''model_pool:delete'' ''model_pool'' ''delete'',
     permission ''model_pool:manage'' ''model_pool'' ''manage'',
     permission ''tool_governance:read'' ''tool_governance'' ''read'',
     permission ''tool_governance:manage'' ''tool_governance'' ''manage'',
     permission ''orchestration_flag:read'' ''orchestration_flag'' ''read'',
     permission ''orchestration_flag:update'' ''orchestration_flag'' ''update'',
     permission ''orchestration_release:read'' ''orchestration_release'' ''read'',
     permission ''routing_log:read'' ''routing_log'' ''read'',
     permission ''routing_log:update'' ''routing_log'' ''update'',
     permission ''routing_quality:read'' ''routing_quality'' ''read'',
     permission ''routing_quality:feedback'' ''routing_quality'' ''feedback'',
     permission ''routing_quality:accept'' ''routing_quality'' ''accept'',
     permission ''routing_quality:dismiss'' ''routing_quality'' ''dismiss'',
     permission ''routing_quality:apply'' ''routing_quality'' ''apply'',
     permission ''routing_quality:rollback'' ''routing_quality'' ''rollback'',
     permission ''recycle_bin:read'' ''recycle_bin'' ''read'',
     permission ''recycle_bin:write'' ''recycle_bin'' ''write'',
     permission ''cost_stats:read'' ''cost_stats'' ''read'',
     permission ''openapi:read'' ''openapi'' ''read'',
     permission ''openapi:create'' ''openapi'' ''create'',
     permission ''openapi:update'' ''openapi'' ''update'',
     permission ''openapi:delete'' ''openapi'' ''delete'',
     permission ''system_knowledge:read'' ''system_knowledge'' ''read'',
     permission ''system_knowledge:write'' ''system_knowledge'' ''write'']"

text \<open>A dictionary comprehension: a later entry with the same code would win.\<close>

definition permission_by_code :: "string \<Rightarrow> permission_spec option" where
  "permission_by_code = map_of (rev (map (\<lambda>p. (perm_code p, p)) permission_catalog))"

definition all_permission_codes :: "string list" where
  "all_permission_codes = map perm_code permission_catalog"

definition super_admin :: string where
  "super_admin = ''super_admin''"

definition default_roles :: "role_spec list" where
  "default_roles =
    [\<lparr>spec_code = super_admin, spec_permissions =
       []\<rparr>,
     \<lparr>spec_code = ''operator'', spec_permissions =
       [''app:read'', ''app:create'', ''app:update'', ''app:delete'', ''workflow:read'', ''workflow:create'',
        ''workflow:update'', ''workflow:delete'', ''dataset:read'', ''dataset:update'',
        ''system_knowledge:read'', ''system_knowledge:write'', ''tool:read'', ''tool:create'', ''tool:update'',
        ''tool:delete'', ''mcp:read'', ''mcp:create'', ''mcp:update'', ''mcp:delete'', ''skill:read'',
        ''skill:create'', ''skill:update'', ''skill:delete'', ''cli:read'', ''cli:create'', ''cli:update'',
        ''cli:delete'', ''user:read'', ''user:create'', ''user:update'', ''user:disable'', ''user:delete'',
        ''schedule_task:read'', ''schedule_task:create'', ''schedule_task:update'', ''schedule_task:delete'',
        ''routing_log:read'', ''routing_log:update'', ''routing_quality:read'', ''routing_quality:feedback'',
        ''routing_quality:accept'', ''routing_quality:dismiss'', ''routing_quality:apply'',
        ''routing_quality:rollback'', ''orchestration_flag:read'', ''orchestration_flag:update'',
        ''orchestration_release:read'', ''cost_stats:read'']\<rparr>,
     \<lparr>spec_code = ''finance'', spec_permissions =
       [''plan:read'', ''plan:update'', ''redeem_code:read'', ''redeem_code:update'', ''cost_stats:read'']\<rparr>,
     \<lparr>spec_code = ''support'', spec_permissions =
       [''user:read'', ''app:read'', ''workflow:read'', ''routing_log:read'']\<rparr>,
     \<lparr>spec_code = ''auditor'', spec_permissions =
       [''user:read'', ''app:read'', ''workflow:read'', ''tool:read'', ''skill:read'', ''mcp:read'',
        ''audit_log:read'', ''orchestration_release:read'', ''routing_quality:read'']\<rparr>,
     \<lparr>spec_code = ''viewer'', spec_permissions =
       [''app:read'', ''workflow:read'', ''dataset:read'', ''system_knowledge:read'', ''tool:read'',
        ''mcp:read'', ''skill:read'', ''user:read'', ''plan:read'', ''redeem_code:read'', ''setting:read'',
        ''schedule_task:read'', ''prompt_template:read'', ''builtin_tool:read'', ''public_ai_feature:read'',
        ''storage:read'', ''sandbox:read'', ''agent_pool:read'', ''model_provider:read'', ''model_pool:read'',
        ''tool_governance:read'', ''orchestration_flag:read'', ''orchestration_release:read'',
        ''routing_log:read'', ''routing_quality:read'', ''recycle_bin:read'', ''cost_stats:read'',
        ''openapi:read'', ''audit_log:read'']\<rparr>]"

text \<open>\<open>_permission_codes\<close> checks the codes of a default role when the module is loaded.\<close>

definition checked_codes :: "string list \<Rightarrow> exn + string list" where
  "checked_codes codes =
     (if \<exists>c \<in> set codes. permission_by_code c = None then Inl (ValueError ''unknown permission'') else Inr codes)"

section \<open>What an agent may be given\<close>

definition banned_permission_codes :: "string list" where
  "banned_permission_codes =
    [''admin:access'', ''admin_user:read'', ''admin_user:create'', ''admin_user:update'', ''admin_user:disable'',
     ''admin_user:delete'', ''role:read'', ''role:create'', ''role:update'', ''role:delete'', ''permission:read'']"

definition read_only_assignable_resources :: "string list" where
  "read_only_assignable_resources = [''user'']"

definition assignable_resources :: "string list" where
  "assignable_resources =
    [''agent_pool'', ''app'', ''audit_log'', ''builtin_tool'', ''cost_stats'', ''dataset'',
     ''mcp'', ''model_pool'', ''model_provider'', ''openapi'', ''orchestration_flag'',
     ''orchestration_release'', ''order'', ''payment_config'', ''plan'', ''prompt_template'',
     ''public_ai_feature'', ''recycle_bin'', ''redeem_code'', ''refund'', ''routing_log'',
     ''routing_quality'', ''schedule_task'', ''setting'', ''skill'', ''storage'',
     ''system_config'', ''system_knowledge'', ''tool'', ''tool_governance'', ''user'',
     ''withdraw'', ''workflow'']"

definition is_assignable :: "string \<Rightarrow> bool" where
  "is_assignable code =
     (if code \<in> set banned_permission_codes then False
      else (case permission_by_code code of
          None \<Rightarrow> False
        | Some p \<Rightarrow>
            if perm_resource p \<notin> set assignable_resources then False
            else if perm_resource p \<in> set read_only_assignable_resources \<and> perm_action p \<noteq> ''read'' then False
            else True))"

definition assignable_permissions :: "string set" where
  "assignable_permissions = set (filter is_assignable all_permission_codes)"

definition compute_effective_permissions :: "string set \<Rightarrow> string set \<Rightarrow> string set" where
  "compute_effective_permissions admin granted = admin \<inter> granted \<inter> assignable_permissions"

definition assert_grantable :: "string list \<Rightarrow> string set \<Rightarrow> exn + unit" where
  "assert_grantable requested admin =
     (if set requested - admin \<noteq> {} then Inl (ValueError ''beyond the administrator'')
      else if filter (\<lambda>c. \<not> is_assignable c) requested \<noteq> [] then Inl (ValueError ''not assignable'')
      else Inr ())"

lemma by_code_in: "permission_by_code c = Some p \<Longrightarrow> p \<in> set permission_catalog \<and> perm_code p = c"
  by (auto simp: permission_by_code_def dest: map_of_SomeD)

lemma assignable_iff: "c \<in> assignable_permissions \<longleftrightarrow> is_assignable c"
proof
  assume a: "is_assignable c"
  then obtain p where "permission_by_code c = Some p" by (auto simp: is_assignable_def split: if_splits option.splits)
  then have "c \<in> set all_permission_codes" using by_code_in by (auto simp: all_permission_codes_def)
  then show "c \<in> assignable_permissions" using a by (simp add: assignable_permissions_def)
qed (simp add: assignable_permissions_def)

lemma codes_name_their_parts: "list_all (\<lambda>p. perm_code p = perm_resource p @ '':'' @ perm_action p) permission_catalog"
  by code_simp

lemma known_code: "permission_by_code c = None \<longleftrightarrow> c \<notin> set all_permission_codes"
  by (simp add: permission_by_code_def all_permission_codes_def map_of_eq_None_iff image_image)

text \<open>The module loads: every code of a default role is in the catalogue, at these places.\<close>

definition role_places :: "nat list list" where
  "role_places =
      [[],
       [22, 23, 24, 25, 26, 27, 28, 29, 30, 31, 104, 105, 32, 33, 34, 35, 36, 37, 38, 39, 40, 41, 42, 43, 44,
        45, 46, 47, 48, 49, 50, 51, 52, 58, 59, 60, 61, 89, 90, 91, 92, 93, 94, 95, 96, 86, 87, 88, 99],
       [53, 54, 55, 56, 99],
       [48, 22, 26, 89],
       [48, 22, 26, 32, 40, 36, 11, 88, 91],
       [22, 26, 30, 104, 32, 36, 40, 48, 53, 55, 57, 58, 62, 65, 67, 69, 71, 73, 75, 79, 84, 86, 88, 89, 91,
        97, 99, 100, 11]]"

lemma default_role_places:
  "map spec_permissions default_roles = map (map (\<lambda>i. all_permission_codes ! i)) role_places \<and>
     list_all (list_all (\<lambda>i. i < length all_permission_codes)) role_places"
  by code_simp

lemma default_roles_known:
  assumes "r \<in> set default_roles" shows "set (spec_permissions r) \<subseteq> set all_permission_codes"
proof -
  have "spec_permissions r \<in> set (map (map (\<lambda>i. all_permission_codes ! i)) role_places)"
    using assms default_role_places by (metis image_eqI list.set_map)
  then obtain is' where i: "is' \<in> set role_places" "spec_permissions r = map (\<lambda>i. all_permission_codes ! i) is'" by auto
  then have "\<forall>i \<in> set is'. i < length all_permission_codes" using default_role_places by (simp add: list_all_iff)
  then show ?thesis using i(2) by auto
qed

lemma default_roles_load: "r \<in> set default_roles \<Longrightarrow> checked_codes (spec_permissions r) = Inr (spec_permissions r)"
  using default_roles_known by (auto simp: checked_codes_def known_code)

end
