(* ===== verification/Admin_Users.thy ===== *)
theory Admin_Users
  imports Admin_Rbac
begin

text \<open>
  The administrators (\<^verbatim>\<open>service/admin_user_service.py\<close>), their roles (\<^verbatim>\<open>service/admin_rbac_service.py\<close>), their
  sessions and passwords (\<^verbatim>\<open>pkg/password/password.py\<close>), rows in \<^verbatim>\<open>model/admin.py\<close> and \<^verbatim>\<open>model/admin_agent.py\<close>.
  A request commits at its end, so it saves all of its work or nothing.  The digest of a password
  (PBKDF2 of the standard library), the random salts and the ids of new rows are parameters (the upgrade of an old digest at a login is saved with its session); a
  permission is named by its code, which is unique.  Audit rows, names and avatars are left out.
\<close>

section \<open>Rows\<close>

record admin_user =
  au_id :: int
  au_username :: string
  au_email :: string
  au_password :: string
  au_salt :: string
  au_version :: int
  au_changed :: "int option"
  au_status :: string
  au_deleted_by :: "int option"
  au_last_login :: "int option"

record admin_session =
  as_id :: int
  as_user :: int
  as_created :: int
  as_active :: int
  as_expires :: "int option"
  as_revoked :: "int option"

record admin_role =
  role_id :: int
  role_code :: string
  role_system :: bool

record admin_agent =
  ag_id :: int
  ag_owner :: int
  ag_granted :: "string list"
  ag_policy :: "(string \<times> string) list"
  ag_enabled :: bool

record admin_db =
  admin_users :: "admin_user list"
  admin_sessions :: "admin_session list"
  admin_roles :: "admin_role list"
  user_roles :: "(int \<times> int) list"
  permission_rows :: "string list"
  role_permissions :: "(int \<times> string) list"
  admin_agents :: "admin_agent list"

record admin_env =
  ad_now :: int
  ad_hash :: "string \<Rightarrow> string \<Rightarrow> int \<Rightarrow> string"
  ad_salt :: string
  ad_new_id :: int

definition put_admin :: "admin_user \<Rightarrow> admin_db \<Rightarrow> admin_db" where
  "put_admin u d = d\<lparr>admin_users := map (\<lambda>v. if au_id v = au_id u then u else v) (admin_users d)\<rparr>"

definition put_admin_session :: "admin_session \<Rightarrow> admin_db \<Rightarrow> admin_db" where
  "put_admin_session s d = d\<lparr>admin_sessions := map (\<lambda>v. if as_id v = as_id s then s else v) (admin_sessions d)\<rparr>"

definition find_admin :: "int \<Rightarrow> admin_db \<Rightarrow> exn + admin_user" where
  "find_admin i d =
     (case find (\<lambda>u. au_id u = i) (admin_users d) of
        None \<Rightarrow> Inl (NotFoundError ''administrator'') | Some u \<Rightarrow> Inr u)"

text \<open>The unique constraints of the tables, checked when a request writes.\<close>

definition admin_constraints :: "admin_db \<Rightarrow> bool" where
  "admin_constraints d =
     (distinct (map au_id (admin_users d)) \<and> distinct (map au_username (admin_users d)) \<and>
      distinct (map au_email (admin_users d)) \<and> distinct (map as_id (admin_sessions d)) \<and>
      distinct (map role_id (admin_roles d)) \<and> distinct (map role_code (admin_roles d)) \<and>
      distinct (user_roles d) \<and> distinct (role_permissions d))"

definition save_admins :: "admin_db \<Rightarrow> admin_db \<Rightarrow> 'a \<Rightarrow> (exn + 'a) \<times> admin_db" where
  "save_admins old new x = (if admin_constraints new then (Inr x, new) else (Inl IntegrityError, old))"

section \<open>Passwords\<close>

definition current_password_version :: int where "current_password_version = 2"

definition iterations_for_version :: "int \<Rightarrow> int" where
  "iterations_for_version v = (if 2 \<le> (if v = 0 then 1 else v) then 600000 else 10000)"

text \<open>
  The pattern \<^verbatim>\<open>^(?=.*[a-zA-Z])(?=.*\d)[A-Za-z\d._@#$%*!?\-]{6,32}$\<close> with \<^verbatim>\<open>re.match\<close>: the final anchor also
  matches in front of a last newline.
\<close>

definition password_char :: "char \<Rightarrow> bool" where
  "password_char c = (is_letter c \<or> is_digit c \<or> c \<in> set ''._@#$%*!?-'')"

definition validate_password :: "string \<Rightarrow> exn + unit" where
  "validate_password p =
     (let q = (if p \<noteq> [] \<and> last p = CHR 0x0A then butlast p else p) in
      if list_ex is_letter q \<and> list_ex is_digit q \<and> list_all password_char q \<and> 6 \<le> length q \<and> length q \<le> 32
      then Inr () else Inl (ValueError ''password''))"

definition weak_admin_passwords :: "string list" where
  "weak_admin_passwords =
     [''admin'', ''admin123'', ''administrator'', ''password'', ''password123'', ''root'', ''root123'', ''root123456'',
      ''123456'', ''12345678'', ''123456789'', ''1234567890'', ''123123'', ''666666'', ''888888'', ''abc123'', ''qwerty'',
      ''qwerty123'', ''a123456'', ''yujianwo123'', ''Root123456'', ''P@ssw0rd'', ''P@ssw0rd123'']"

definition check_new_password :: "string \<Rightarrow> exn + unit" where
  "check_new_password p =
     (case validate_password p of
        Inl e \<Rightarrow> Inl (FailError ''password rule'')
      | Inr u \<Rightarrow> if lower_text p \<in> set weak_admin_passwords then Inl (FailError ''weak password'') else Inr ())"

definition with_password :: "admin_env \<Rightarrow> string \<Rightarrow> admin_user \<Rightarrow> admin_user" where
  "with_password env p u =
     u\<lparr>au_password := ad_hash env p (ad_salt env) (iterations_for_version current_password_version),
       au_salt := ad_salt env, au_version := current_password_version\<rparr>"

definition compare_password :: "admin_env \<Rightarrow> string \<Rightarrow> admin_user \<Rightarrow> bool" where
  "compare_password env p u = (ad_hash env p (au_salt u) (iterations_for_version (au_version u)) = au_password u)"

section \<open>Roles and permissions of an administrator\<close>

definition get_role_codes :: "int \<Rightarrow> admin_db \<Rightarrow> string list" where
  "get_role_codes i d =
     concat (map (\<lambda>q. map role_code (filter (\<lambda>r. role_id r = snd q) (admin_roles d))) (filter (\<lambda>q. fst q = i) (user_roles d)))"

definition get_permission_codes :: "string list \<Rightarrow> admin_db \<Rightarrow> string set" where
  "get_permission_codes codes d =
     (if codes = [] then {}
      else if super_admin \<in> set codes then set all_permission_codes
      else set (map snd (filter
        (\<lambda>q. snd q \<in> set (permission_rows d) \<and>
             (\<exists>r \<in> set (admin_roles d). role_id r = fst q \<and> role_code r \<in> set codes)) (role_permissions d))))"

definition get_permission_codes_for :: "int \<Rightarrow> admin_db \<Rightarrow> string set" where
  "get_permission_codes_for i d = get_permission_codes (get_role_codes i d) d"

definition get_active_super_admin_user :: "int option \<Rightarrow> admin_db \<Rightarrow> exn + admin_user option" where
  "get_active_super_admin_user exclude d =
     one_or_none (filter
       (\<lambda>u. super_admin \<in> set (get_role_codes (au_id u) d) \<and> au_status u = ''active'' \<and> exclude \<noteq> Some (au_id u))
       (admin_users d))"

definition ensure_super_admin_assignment_allowed :: "string list \<Rightarrow> int option \<Rightarrow> admin_db \<Rightarrow> exn + unit" where
  "ensure_super_admin_assignment_allowed codes current d =
     (if super_admin \<notin> set codes then Inr ()
      else (case get_active_super_admin_user current d of
          Inl e \<Rightarrow> Inl e
        | Inr None \<Rightarrow> Inr ()
        | Inr (Some u) \<Rightarrow> Inl (FailError ''second super administrator'')))"

definition ensure_super_admin_still_available ::
  "int \<Rightarrow> string list \<Rightarrow> string list \<Rightarrow> string \<Rightarrow> admin_db \<Rightarrow> exn + unit" where
  "ensure_super_admin_still_available i before target status d =
     (if super_admin \<notin> set before then Inr ()
      else if super_admin \<in> set target \<and> status = ''active'' then Inr ()
      else (case get_active_super_admin_user (Some i) d of
          Inl e \<Rightarrow> Inl e
        | Inr None \<Rightarrow> Inl (FailError ''last super administrator'')
        | Inr (Some u) \<Rightarrow> Inr ()))"

definition resolve_role_ids :: "string list \<Rightarrow> admin_db \<Rightarrow> exn + int list" where
  "resolve_role_ids codes d =
     (let normalized = map strip codes; ids = map (\<lambda>r. (role_code r, role_id r)) (admin_roles d) in
      if \<not> distinct normalized then Inl (FailError ''roles twice'')
      else if \<exists>c \<in> set normalized. dget ids c = None then Inl (FailError ''unknown role'')
      else Inr (map (\<lambda>c. the (dget ids c)) normalized))"

definition replace_admin_user_roles :: "int \<Rightarrow> string list \<Rightarrow> admin_db \<Rightarrow> exn + admin_db" where
  "replace_admin_user_roles i codes d =
     (case resolve_role_ids codes d of
        Inl e \<Rightarrow> Inl e
      | Inr ids \<Rightarrow> Inr (d\<lparr>user_roles := filter (\<lambda>q. fst q \<noteq> i) (user_roles d) @ map (\<lambda>r. (i, r)) ids\<rparr>))"

text \<open>The permissions an agent has lost with its owner (\<^verbatim>\<open>service/admin_agent_service.py\<close>).\<close>

definition prune_agent :: "int \<Rightarrow> string set \<Rightarrow> admin_agent \<Rightarrow> admin_agent" where
  "prune_agent i admin a =
     (if ag_owner a = i
      then a\<lparr>ag_granted := filter (\<lambda>c. c \<in> admin \<inter> assignable_permissions) (ag_granted a)\<rparr> else a)"

definition prune_revoked_permissions :: "int \<Rightarrow> string set \<Rightarrow> admin_db \<Rightarrow> admin_db" where
  "prune_revoked_permissions i admin d = d\<lparr>admin_agents := map (prune_agent i admin) (admin_agents d)\<rparr>"

section \<open>Managing administrators\<close>

definition normalize_email :: "string \<Rightarrow> string" where
  "normalize_email e = lower_text (strip e)"

definition create_admin_user ::
  "admin_env \<Rightarrow> string \<Rightarrow> string \<Rightarrow> string \<Rightarrow> string list \<Rightarrow> admin_db \<Rightarrow> (exn + int) \<times> admin_db" where
  "create_admin_user env email0 username0 password roles d =
     (let email = normalize_email email0; explicit = strip username0;
          username = (if explicit = [] then email else explicit) in
      if username = [] then (Inl (FailError ''no account''), d)
      else if \<exists>u \<in> set (admin_users d). au_username u = username then (Inl (FailError ''account taken''), d)
      else if explicit \<noteq> [] \<and> email \<noteq> [] \<and> (\<exists>u \<in> set (admin_users d). au_email u = email)
      then (Inl (FailError ''email taken''), d)
      else (case check_new_password password of Inl e \<Rightarrow> (Inl e, d) | Inr x \<Rightarrow>
        (case ensure_super_admin_assignment_allowed roles None d of Inl e \<Rightarrow> (Inl e, d) | Inr x \<Rightarrow>
          (let u = with_password env password \<lparr>au_id = ad_new_id env, au_username = username, au_email = email,
                 au_password = [], au_salt = [], au_version = 1, au_changed = None, au_status = ''active'',
                 au_deleted_by = None, au_last_login = None\<rparr> in
           case replace_admin_user_roles (au_id u) roles (d\<lparr>admin_users := admin_users d @ [u]\<rparr>) of
             Inl e \<Rightarrow> (Inl e, d)
           | Inr d' \<Rightarrow> save_admins d d' (au_id u)))))"

text \<open>
  The first super administrator, from the environment of the process; the answer is whether it was
  created.  The super administrator's role is looked up by its code.
\<close>

definition initialize_super_admin_from_env :: "admin_env \<Rightarrow> string \<Rightarrow> string \<Rightarrow> string \<Rightarrow> admin_db \<Rightarrow> (exn + bool) \<times> admin_db" where
  "initialize_super_admin_from_env env username0 email0 password d =
     (let username = strip username0; email = lower_text (strip email0) in
      if username = [] \<or> password = [] then (Inr False, d)
      else if isl (validate_password password) then (Inr False, d)
      else if lower_text password \<in> set weak_admin_passwords \<or> password = ''Root123456'' then (Inr False, d)
      else if \<exists>u \<in> set (admin_users d). au_username u = username then (Inr False, d)
      else (case find (\<lambda>r. role_code r = super_admin) (admin_roles d) of
          None \<Rightarrow> (Inr False, d)
        | Some r \<Rightarrow>
            (case get_active_super_admin_user None d of
               Inl e \<Rightarrow> (Inl e, d)
             | Inr (Some v) \<Rightarrow> (Inr False, d)
             | Inr None \<Rightarrow>
                 if email \<noteq> [] \<and> (\<exists>u \<in> set (admin_users d). au_email u = email) then (Inr False, d)
                 else
                   (let u = with_password env password \<lparr>au_id = ad_new_id env, au_username = username, au_email = email,
                          au_password = [], au_salt = [], au_version = 1, au_changed = None, au_status = ''active'',
                          au_deleted_by = None, au_last_login = None\<rparr> in
                    save_admins d (d\<lparr>admin_users := admin_users d @ [u], user_roles := user_roles d @ [(au_id u, role_id r)]\<rparr>) True))))"

definition update_admin_user ::
  "int option \<Rightarrow> int \<Rightarrow> string option \<Rightarrow> string option \<Rightarrow> string list option \<Rightarrow> admin_db \<Rightarrow> (exn + unit) \<times> admin_db" where
  "update_admin_user operator i email status roles d =
     (case find_admin i d of Inl e \<Rightarrow> (Inl e, d) | Inr u \<Rightarrow>
       (let before = get_role_codes i d in
        if operator = Some i \<and> roles = Some [] then (Inl (FailError ''own roles''), d)
        else (case (case roles of None \<Rightarrow> Inr () | Some cs \<Rightarrow> ensure_super_admin_assignment_allowed cs (Some i) d) of
          Inl e \<Rightarrow> (Inl e, d)
        | Inr x \<Rightarrow>
          (let target = (case roles of None \<Rightarrow> before | Some cs \<Rightarrow> cs);
               target_status = (case status of None \<Rightarrow> au_status u | Some s \<Rightarrow> s) in
           case ensure_super_admin_still_available i before target target_status d of Inl e \<Rightarrow> (Inl e, d) | Inr x \<Rightarrow>
             (let address = (case email of None \<Rightarrow> au_email u | Some e \<Rightarrow> normalize_email e) in
              if email \<noteq> None \<and> address \<noteq> [] \<and> (\<exists>v \<in> set (admin_users d). au_email v = address \<and> au_id v \<noteq> i)
              then (Inl (FailError ''email taken''), d)
              else
                (let d1 = put_admin (u\<lparr>au_email := address, au_status := target_status\<rparr>) d in
                 case roles of
                   None \<Rightarrow> save_admins d d1 ()
                 | Some cs \<Rightarrow>
                     (case replace_admin_user_roles i cs d1 of
                        Inl e \<Rightarrow> (Inl e, d)
                      | Inr d2 \<Rightarrow> save_admins d (prune_revoked_permissions i (get_permission_codes_for i d2) d2) ())))))))"

definition disable_admin_user :: "int \<Rightarrow> admin_db \<Rightarrow> (exn + unit) \<times> admin_db" where
  "disable_admin_user i d =
     (case find_admin i d of Inl e \<Rightarrow> (Inl e, d) | Inr u \<Rightarrow>
       (let before = get_role_codes i d in
        if super_admin \<in> set before then (Inl (FailError ''super administrator''), d)
        else (case ensure_super_admin_still_available i before before ''disabled'' d of Inl e \<Rightarrow> (Inl e, d) | Inr x \<Rightarrow>
          save_admins d (prune_revoked_permissions i {} (put_admin (u\<lparr>au_status := ''disabled''\<rparr>) d)) ())))"

definition enable_admin_user :: "int \<Rightarrow> admin_db \<Rightarrow> (exn + unit) \<times> admin_db" where
  "enable_admin_user i d =
     (case find_admin i d of Inl e \<Rightarrow> (Inl e, d) | Inr u \<Rightarrow> save_admins d (put_admin (u\<lparr>au_status := ''active''\<rparr>) d) ())"

text \<open>Every session of the administrator that is not revoked yet is revoked now.\<close>

definition revoke_session :: "int \<Rightarrow> int \<Rightarrow> admin_session \<Rightarrow> admin_session" where
  "revoke_session t i s = (if as_user s = i \<and> as_revoked s = None then s\<lparr>as_revoked := Some t\<rparr> else s)"

definition revoke_all_admin_sessions :: "int \<Rightarrow> int \<Rightarrow> admin_db \<Rightarrow> admin_db" where
  "revoke_all_admin_sessions t i d = d\<lparr>admin_sessions := map (revoke_session t i) (admin_sessions d)\<rparr>"

definition delete_admin_user :: "admin_env \<Rightarrow> int option \<Rightarrow> int \<Rightarrow> admin_db \<Rightarrow> (exn + unit) \<times> admin_db" where
  "delete_admin_user env operator i d =
     (case find_admin i d of Inl e \<Rightarrow> (Inl e, d) | Inr u \<Rightarrow>
       (let roles = get_role_codes i d in
        if au_status u = ''deleted'' then (Inl (FailError ''deleted before''), d)
        else if super_admin \<in> set roles then (Inl (FailError ''super administrator''), d)
        else (case ensure_super_admin_still_available i roles roles ''deleted'' d of Inl e \<Rightarrow> (Inl e, d) | Inr x \<Rightarrow>
          if operator = Some i then (Inl (FailError ''own account''), d)
          else save_admins d (revoke_all_admin_sessions (ad_now env) i
                 (put_admin (u\<lparr>au_status := ''deleted'', au_deleted_by := operator\<rparr>) d)) ())))"

definition reset_admin_user_password :: "admin_env \<Rightarrow> int \<Rightarrow> string \<Rightarrow> admin_db \<Rightarrow> (exn + unit) \<times> admin_db" where
  "reset_admin_user_password env i password d =
     (case find_admin i d of Inl e \<Rightarrow> (Inl e, d) | Inr u \<Rightarrow>
        if super_admin \<in> set (get_role_codes i d) then (Inl (FailError ''super administrator''), d)
        else (case check_new_password password of Inl e \<Rightarrow> (Inl e, d) | Inr x \<Rightarrow>
          save_admins d (revoke_all_admin_sessions (ad_now env) i
            (put_admin ((with_password env password u)\<lparr>au_changed := Some (ad_now env)\<rparr>) d)) ()))"

definition change_own_password :: "admin_env \<Rightarrow> int \<Rightarrow> string \<Rightarrow> string \<Rightarrow> admin_db \<Rightarrow> (exn + unit) \<times> admin_db" where
  "change_own_password env i old password d =
     (case find_admin i d of Inl e \<Rightarrow> (Inl (UnauthorizedError ''account''), d) | Inr u \<Rightarrow>
        if au_status u \<noteq> ''active'' then (Inl (UnauthorizedError ''account''), d)
        else if au_password u = [] \<or> \<not> compare_password env old u then (Inl (FailError ''current password''), d)
        else (case check_new_password password of Inl e \<Rightarrow> (Inl e, d) | Inr x \<Rightarrow>
          save_admins d (revoke_all_admin_sessions (ad_now env) i
            (put_admin ((with_password env password u)\<lparr>au_changed := Some (ad_now env)\<rparr>) d)) ()))"

text \<open>Kicking an administrator out revokes the sessions that have not run out.\<close>

definition live_session :: "int \<Rightarrow> int \<Rightarrow> admin_session \<Rightarrow> bool" where
  "live_session t i s =
     (as_user s = i \<and> as_revoked s = None \<and> (case as_expires s of None \<Rightarrow> True | Some x \<Rightarrow> t \<le> x))"

definition revoke_admin_sessions :: "admin_env \<Rightarrow> int \<Rightarrow> admin_db \<Rightarrow> (exn + nat) \<times> admin_db" where
  "revoke_admin_sessions env i d =
     (case find_admin i d of Inl e \<Rightarrow> (Inl e, d) | Inr u \<Rightarrow>
        if super_admin \<in> set (get_role_codes i d) then (Inl (FailError ''super administrator''), d)
        else save_admins d
          (d\<lparr>admin_sessions := map (\<lambda>s. if live_session (ad_now env) i s then s\<lparr>as_revoked := Some (ad_now env)\<rparr> else s) (admin_sessions d)\<rparr>)
          (length (filter (live_session (ad_now env) i) (admin_sessions d))))"

section \<open>Sessions\<close>

definition token_expire :: int where "token_expire = 604800 * 1000000"

definition touch_interval :: int where "touch_interval = 300 * 1000000"

text \<open>What a token that \<^verbatim>\<open>JwtService\<close> accepts says.\<close>

record admin_token =
  tk_realm :: string
  tk_sub :: "int option"
  tk_session :: "int option"

definition rehash_admin_password_if_outdated :: "admin_env \<Rightarrow> string \<Rightarrow> admin_user \<Rightarrow> admin_user" where
  "rehash_admin_password_if_outdated env p u =
     (if current_password_version \<le> (if au_version u = 0 then 1 else au_version u) then u else with_password env p u)"

definition password_login :: "admin_env \<Rightarrow> string \<Rightarrow> string \<Rightarrow> admin_db \<Rightarrow> (exn + admin_token) \<times> admin_db" where
  "password_login env identifier password d =
     (let name = strip identifier; email = normalize_email name in
      case one_or_none (filter (\<lambda>u. au_username u = name \<or> au_email u = email) (admin_users d)) of
        Inl e \<Rightarrow> (Inl e, d)
      | Inr None \<Rightarrow> (Inl (FailError ''no account''), d)
      | Inr (Some u) \<Rightarrow>
          if au_password u = [] then (Inl (FailError ''no account''), d)
          else if au_status u \<noteq> ''active'' then (Inl (FailError ''disabled''), d)
          else if \<not> compare_password env password u then (Inl (FailError ''password''), d)
          else
            (let u1 = (rehash_admin_password_if_outdated env password u)\<lparr>au_last_login := Some (ad_now env)\<rparr>;
                 s = \<lparr>as_id = ad_new_id env, as_user = au_id u, as_created = db_second (ad_now env),
                      as_active = ad_now env, as_expires = Some (ad_now env + token_expire), as_revoked = None\<rparr>;
                 d1 = put_admin u1 d
             in save_admins d (d1\<lparr>admin_sessions := admin_sessions d1 @ [s]\<rparr>)
                  \<lparr>tk_realm = ''admin'', tk_sub = Some (au_id u), tk_session = Some (as_id s)\<rparr>))"

definition parse_admin_token :: "admin_token \<Rightarrow> exn + int \<times> int" where
  "parse_admin_token t =
     (case (tk_realm t = ''admin'', tk_sub t, tk_session t) of
        (True, Some i, Some j) \<Rightarrow> Inr (i, j)
      | _ \<Rightarrow> Inl (UnauthorizedError ''token''))"

definition session_is_active :: "int \<Rightarrow> admin_session \<Rightarrow> bool" where
  "session_is_active t s =
     (as_revoked s = None \<and> (case as_expires s of None \<Rightarrow> True | Some x \<Rightarrow> t \<le> x))"

definition touch_admin_session :: "int \<Rightarrow> admin_session \<Rightarrow> admin_session" where
  "touch_admin_session t s = (if t - as_active s < touch_interval then s else s\<lparr>as_active := t\<rparr>)"

definition resolve_admin :: "int \<Rightarrow> admin_token \<Rightarrow> admin_db \<Rightarrow> (exn + admin_user \<times> admin_session) \<times> admin_db" where
  "resolve_admin t tok d =
     (case parse_admin_token tok of Inl e \<Rightarrow> (Inl e, d) | Inr (i, j) \<Rightarrow>
     (case find (\<lambda>u. au_id u = i) (admin_users d) of None \<Rightarrow> (Inl (UnauthorizedError ''account''), d) | Some u \<Rightarrow>
        if au_status u \<noteq> ''active'' then (Inl (UnauthorizedError ''account''), d)
        else
     (case find (\<lambda>s. as_id s = j) (admin_sessions d) of None \<Rightarrow> (Inl (UnauthorizedError ''session''), d) | Some s \<Rightarrow>
        if as_user s \<noteq> au_id u \<or> \<not> session_is_active t s then (Inl (UnauthorizedError ''session''), d)
        else if (case au_changed u of None \<Rightarrow> False | Some c \<Rightarrow> as_created s < c) then (Inl (UnauthorizedError ''password changed''), d)
        else (let s' = touch_admin_session t s in (Inr (u, s'), put_admin_session s' d)))))"

definition logout :: "int \<Rightarrow> admin_token \<Rightarrow> admin_db \<Rightarrow> (exn + unit) \<times> admin_db" where
  "logout t tok d =
     (case resolve_admin t tok d of
        (Inl e, d') \<Rightarrow> (Inl e, d')
      | (Inr (u, s), d') \<Rightarrow> (Inr (), put_admin_session (s\<lparr>as_revoked := Some t\<rparr>) d'))"

section \<open>Managing roles\<close>

definition lower_letter :: "char \<Rightarrow> bool" where
  "lower_letter c = (97 \<le> char_code c \<and> char_code c \<le> 122)"

text \<open>\<^verbatim>\<open>[a-z][a-z0-9_]{1,63}\<close>, the whole text.\<close>

definition role_code_pattern :: "string \<Rightarrow> bool" where
  "role_code_pattern code =
     (case code of [] \<Rightarrow> False
      | c # cs \<Rightarrow> lower_letter c \<and> 1 \<le> length cs \<and> length cs \<le> 63 \<and>
          list_all (\<lambda>x. lower_letter x \<or> is_digit x \<or> x = CHR ''_'') cs)"

definition normalize_permission_codes :: "string list \<Rightarrow> exn + string list" where
  "normalize_permission_codes codes =
     (let normalized = filter (\<lambda>c. c \<noteq> []) (map strip codes) in
      if \<not> distinct normalized then Inl (FailError ''permissions twice'')
      else if \<exists>c \<in> set normalized. permission_by_code c = None then Inl (FailError ''unknown permission'')
      else Inr normalized)"

definition replace_role_permissions :: "int \<Rightarrow> string list \<Rightarrow> admin_db \<Rightarrow> exn + admin_db" where
  "replace_role_permissions i codes d =
     (case normalize_permission_codes codes of
        Inl e \<Rightarrow> Inl e
      | Inr cs \<Rightarrow>
          if \<exists>c \<in> set cs. c \<notin> set (permission_rows d) then Inl (FailError ''unknown permission'')
          else Inr (d\<lparr>role_permissions := filter (\<lambda>q. fst q \<noteq> i) (role_permissions d) @ map (\<lambda>c. (i, c)) cs\<rparr>))"

definition create_role :: "admin_env \<Rightarrow> string \<Rightarrow> string list \<Rightarrow> admin_db \<Rightarrow> (exn + unit) \<times> admin_db" where
  "create_role env code0 codes d =
     (let code = strip code0 in
      if \<not> role_code_pattern code then (Inl (FailError ''role code''), d)
      else if code \<in> set (map spec_code default_roles) then (Inl (FailError ''system role''), d)
      else if \<exists>r \<in> set (admin_roles d). role_code r = code then (Inl (FailError ''role taken''), d)
      else (case normalize_permission_codes codes of Inl e \<Rightarrow> (Inl e, d) | Inr cs \<Rightarrow>
        (case replace_role_permissions (ad_new_id env) cs
            (d\<lparr>admin_roles := admin_roles d @ [\<lparr>role_id = ad_new_id env, role_code = code, role_system = False\<rparr>]\<rparr>) of
           Inl e \<Rightarrow> (Inl e, d)
         | Inr d' \<Rightarrow> save_admins d d' ())))"

definition find_role :: "string \<Rightarrow> admin_db \<Rightarrow> admin_role option" where
  "find_role code d = find (\<lambda>r. role_code r = code) (admin_roles d)"

definition update_role :: "string \<Rightarrow> string list option \<Rightarrow> admin_db \<Rightarrow> (exn + unit) \<times> admin_db" where
  "update_role code codes d =
     (case find_role code d of None \<Rightarrow> (Inl (NotFoundError ''role''), d) | Some r \<Rightarrow>
        if role_system r then (Inl (FailError ''system role''), d)
        else (case codes of
            None \<Rightarrow> (Inr (), d)
          | Some cs0 \<Rightarrow>
              (case normalize_permission_codes cs0 of Inl e \<Rightarrow> (Inl e, d) | Inr cs \<Rightarrow>
                (case replace_role_permissions (role_id r) cs d of
                   Inl e \<Rightarrow> (Inl e, d) | Inr d' \<Rightarrow> save_admins d d' ()))))"

definition delete_role :: "string \<Rightarrow> admin_db \<Rightarrow> (exn + unit) \<times> admin_db" where
  "delete_role code d =
     (case find_role code d of None \<Rightarrow> (Inl (NotFoundError ''role''), d) | Some r \<Rightarrow>
        if role_system r then (Inl (FailError ''system role''), d)
        else if \<exists>q \<in> set (user_roles d). snd q = role_id r then (Inl (FailError ''role in use''), d)
        else save_admins d
          (d\<lparr>role_permissions := filter (\<lambda>q. fst q \<noteq> role_id r) (role_permissions d),
             admin_roles := filter (\<lambda>x. role_id x \<noteq> role_id r) (admin_roles d)\<rparr>) ())"

text \<open>The defaults: what is missing is added, nothing is taken away.  A new role takes the next of the ids.\<close>

definition ensure_permissions :: "admin_db \<Rightarrow> admin_db" where
  "ensure_permissions d =
     d\<lparr>permission_rows := permission_rows d @
         remdups (filter (\<lambda>c. c \<notin> set (permission_rows d)) all_permission_codes)\<rparr>"

fun ensure_roles :: "role_spec list \<Rightarrow> int list \<Rightarrow> admin_db \<Rightarrow> admin_db" where
  "ensure_roles (s # ss) (i # is) d =
     ensure_roles ss is
       (case find_role (spec_code s) d of
          Some r \<Rightarrow> d\<lparr>admin_roles := map (\<lambda>x. if role_id x = role_id r then x\<lparr>role_system := True\<rparr> else x) (admin_roles d)\<rparr>
        | None \<Rightarrow> d\<lparr>admin_roles := admin_roles d @ [\<lparr>role_id = i, role_code = spec_code s, role_system = True\<rparr>]\<rparr>)"
| "ensure_roles _ _ d = d"

definition target_codes :: "role_spec \<Rightarrow> string list" where
  "target_codes s = (if spec_code s = super_admin then all_permission_codes else spec_permissions s)"

fun ensure_role_permissions :: "role_spec list \<Rightarrow> admin_db \<Rightarrow> admin_db" where
  "ensure_role_permissions [] d = d"
| "ensure_role_permissions (s # ss) d =
     ensure_role_permissions ss
       (case find_role (spec_code s) d of
          None \<Rightarrow> d
        | Some r \<Rightarrow>
            d\<lparr>role_permissions := role_permissions d @ map (\<lambda>c. (role_id r, c))
                (remdups (filter (\<lambda>c. c \<in> set (permission_rows d) \<and> (role_id r, c) \<notin> set (role_permissions d)) (target_codes s)))\<rparr>)"

definition initialize_defaults :: "int list \<Rightarrow> admin_db \<Rightarrow> (exn + unit) \<times> admin_db" where
  "initialize_defaults ids d =
     save_admins d (ensure_role_permissions default_roles (ensure_roles default_roles ids (ensure_permissions d))) ()"

end
