(* ===== verification/Admin_Agents.thy ===== *)
theory Admin_Agents
  imports Admin_Users
begin

text \<open>
  Agents that act for an administrator: their definition and grants (\<^verbatim>\<open>service/admin_agent_service.py\<close>,
  \<^verbatim>\<open>entity/admin_agent_entity.py\<close>), the registry of actions (\<^verbatim>\<open>core/admin_agent_boards.py\<close>), and the gate
  every action passes (\<^verbatim>\<open>service/admin_agent_board_tools.py\<close>, \<^verbatim>\<open>service/admin_agent_execution_service.py\<close>,
  \<^verbatim>\<open>service/admin_change_draft_service.py\<close>).  The services that carry out an action are a parameter; names,
  prompts and budgets of agents and the contents of drafts and audit rows are left out.
\<close>

section \<open>Levels of automation\<close>

datatype automation_level = Supervised | Autonomous | Blocked

definition level_of_text :: "string \<Rightarrow> automation_level option" where
  "level_of_text s =
     (if s = ''supervised'' then Some Supervised else if s = ''autonomous'' then Some Autonomous
      else if s = ''blocked'' then Some Blocked else None)"

record agent_principal =
  pr_admin :: int
  pr_agent :: int
  pr_permissions :: "string set"
  pr_policy :: "(string \<times> automation_level) list"

definition has_permission :: "agent_principal \<Rightarrow> string \<Rightarrow> bool" where
  "has_permission p code = (code \<in> pr_permissions p)"

definition automation_level_for :: "agent_principal \<Rightarrow> string \<Rightarrow> automation_level" where
  "automation_level_for p board = (case dget (pr_policy p) board of None \<Rightarrow> Supervised | Some l \<Rightarrow> l)"

section \<open>Agents\<close>

definition validate_policy :: "(string \<times> string) list \<Rightarrow> exn + (string \<times> string) list" where
  "validate_policy policy =
     (if \<exists>q \<in> set policy. level_of_text (snd q) = None then Inl (ValueError ''automation level'') else Inr policy)"

definition get_agent :: "int \<Rightarrow> int \<Rightarrow> admin_db \<Rightarrow> exn + admin_agent option" where
  "get_agent agent admin d =
     (case find (\<lambda>a. ag_id a = agent) (admin_agents d) of
        None \<Rightarrow> Inr None
      | Some a \<Rightarrow> if ag_owner a \<noteq> admin then Inl (PermissionError ''not the creator'') else Inr (Some a))"

definition valid_levels :: "(string \<times> string) list \<Rightarrow> (string \<times> automation_level) list" where
  "valid_levels policy =
     List.map_filter (\<lambda>q. map_option (\<lambda>l. (fst q, l)) (level_of_text (snd q))) policy"

definition get_principal :: "int \<Rightarrow> int \<Rightarrow> string set \<Rightarrow> admin_db \<Rightarrow> exn + agent_principal option" where
  "get_principal agent admin permissions d =
     (case get_agent agent admin d of
        Inl e \<Rightarrow> Inl e
      | Inr None \<Rightarrow> Inr None
      | Inr (Some a) \<Rightarrow>
          if \<not> ag_enabled a then Inl (PermissionError ''disabled'')
          else Inr (Some \<lparr>pr_admin = admin, pr_agent = ag_id a,
                 pr_permissions = compute_effective_permissions permissions (set (ag_granted a)),
                 pr_policy = valid_levels (ag_policy a)\<rparr>))"

text \<open>A scheduled task has no token: the permissions are those of the owner's roles.\<close>

definition scheduled_principal :: "admin_agent \<Rightarrow> admin_db \<Rightarrow> exn + agent_principal option" where
  "scheduled_principal a d = get_principal (ag_id a) (ag_owner a) (get_permission_codes_for (ag_owner a) d) d"

definition create_agent ::
  "int \<Rightarrow> int \<Rightarrow> string set \<Rightarrow> string list \<Rightarrow> (string \<times> string) list \<Rightarrow> admin_db \<Rightarrow> (exn + unit) \<times> admin_db" where
  "create_agent new_id admin permissions granted policy d =
     (case assert_grantable granted permissions of Inl e \<Rightarrow> (Inl e, d) | Inr x \<Rightarrow>
     (case validate_policy policy of Inl e \<Rightarrow> (Inl e, d) | Inr p \<Rightarrow>
        (Inr (), d\<lparr>admin_agents := admin_agents d @
           [\<lparr>ag_id = new_id, ag_owner = admin, ag_granted = granted, ag_policy = p, ag_enabled = True\<rparr>]\<rparr>)))"

definition put_agent :: "admin_agent \<Rightarrow> admin_db \<Rightarrow> admin_db" where
  "put_agent a d = d\<lparr>admin_agents := map (\<lambda>b. if ag_id b = ag_id a then a else b) (admin_agents d)\<rparr>"

definition update_agent ::
  "int \<Rightarrow> int \<Rightarrow> string set \<Rightarrow> string list option \<Rightarrow> (string \<times> string) list option \<Rightarrow> bool option \<Rightarrow> admin_db \<Rightarrow>
     (exn + unit) \<times> admin_db" where
  "update_agent agent admin permissions granted policy enabled d =
     (case get_agent agent admin d of
        Inl e \<Rightarrow> (Inl e, d)
      | Inr None \<Rightarrow> (Inl (LookupError ''agent''), d)
      | Inr (Some a) \<Rightarrow>
          (case (case granted of None \<Rightarrow> Inr () | Some g \<Rightarrow> assert_grantable g permissions) of Inl e \<Rightarrow> (Inl e, d) | Inr x \<Rightarrow>
          (case (case policy of None \<Rightarrow> Inr (ag_policy a) | Some p \<Rightarrow> validate_policy p) of Inl e \<Rightarrow> (Inl e, d) | Inr p \<Rightarrow>
             (Inr (), put_agent
                (a\<lparr>ag_granted := (case granted of None \<Rightarrow> ag_granted a | Some g \<Rightarrow> g), ag_policy := p,
                   ag_enabled := (case enabled of None \<Rightarrow> ag_enabled a | Some b \<Rightarrow> b)\<rparr>) d))))"

definition delete_agent :: "int \<Rightarrow> int \<Rightarrow> admin_db \<Rightarrow> (exn + unit) \<times> admin_db" where
  "delete_agent agent admin d =
     (case get_agent agent admin d of
        Inl e \<Rightarrow> (Inl e, d)
      | Inr None \<Rightarrow> (Inl (LookupError ''agent''), d)
      | Inr (Some a) \<Rightarrow> (Inr (), d\<lparr>admin_agents := filter (\<lambda>b. ag_id b \<noteq> agent) (admin_agents d)\<rparr>))"

section \<open>The registry of actions\<close>

datatype action_kind = ReadAction | WriteAction | DeleteAction

record board_action =
  ba_board :: string
  ba_action :: string
  ba_kind :: action_kind
  ba_permission :: string

definition board_actions :: "board_action list" where
  "board_actions =
     [\<lparr>ba_board = ''builtin_tool'', ba_action = ''list'', ba_kind = ReadAction, ba_permission = ''builtin_tool:read''\<rparr>,
      \<lparr>ba_board = ''builtin_tool'', ba_action = ''update_enabled'', ba_kind = WriteAction, ba_permission = ''builtin_tool:update''\<rparr>,
      \<lparr>ba_board = ''builtin_tool'', ba_action = ''update_metadata'', ba_kind = WriteAction, ba_permission = ''builtin_tool:update''\<rparr>,
      \<lparr>ba_board = ''schedule_task'', ba_action = ''list'', ba_kind = ReadAction, ba_permission = ''schedule_task:read''\<rparr>,
      \<lparr>ba_board = ''schedule_task'', ba_action = ''create'', ba_kind = WriteAction, ba_permission = ''schedule_task:create''\<rparr>,
      \<lparr>ba_board = ''schedule_task'', ba_action = ''delete'', ba_kind = DeleteAction, ba_permission = ''schedule_task:delete''\<rparr>]"

definition is_write :: "board_action \<Rightarrow> bool" where
  "is_write b = (ba_kind b \<noteq> ReadAction)"

definition resolve_action :: "string \<Rightarrow> string \<Rightarrow> exn + board_action" where
  "resolve_action board action =
     (if strip board = [] \<or> strip action = [] then Inl (ValueError ''empty'')
      else (case find (\<lambda>b. ba_board b = strip board \<and> ba_action b = strip action) board_actions of
          None \<Rightarrow> Inl (ValueError ''not registered'')
        | Some b \<Rightarrow> Inr b))"

section \<open>The gate\<close>

definition assert_board_allowed :: "agent_principal \<Rightarrow> string \<Rightarrow> string \<Rightarrow> exn + board_action" where
  "assert_board_allowed p board action =
     (case resolve_action board action of
        Inl e \<Rightarrow> Inl e
      | Inr b \<Rightarrow>
          if \<not> has_permission p (ba_permission b) then Inl (PermissionError ''no permission'')
          else if automation_level_for p board = Blocked then Inl (PermissionError ''blocked'')
          else Inr b)"

definition requires_draft :: "agent_principal \<Rightarrow> string \<Rightarrow> bool" where
  "requires_draft p board = (automation_level_for p board = Supervised)"

text \<open>
  The handlers branch on the names as they were given; \<open>service\<close> is what the branch calls with its
  payload.  The result of a call is not looked at.
\<close>

type_synonym 'w board_service = "agent_principal \<Rightarrow> string \<Rightarrow> string \<Rightarrow> 'w \<Rightarrow> (exn + unit) \<times> 'w"

definition handled :: "string \<Rightarrow> string \<Rightarrow> bool" where
  "handled board action =
     (board = ''builtin_tool'' \<and> action \<in> {''list'', ''update_enabled'', ''update_metadata''} \<or>
      board = ''schedule_task'' \<and> action \<in> {''list'', ''create'', ''delete''})"

definition execute_action :: "'w board_service \<Rightarrow> agent_principal \<Rightarrow> string \<Rightarrow> string \<Rightarrow> 'w \<Rightarrow> (exn + unit) \<times> 'w" where
  "execute_action service p board action w =
     (case assert_board_allowed p board action of
        Inl e \<Rightarrow> (Inl e, w)
      | Inr b \<Rightarrow> if handled board action then service p board action w else (Inl (FailError ''not implemented''), w))"

datatype execution_outcome = Executed | Drafted

datatype audit_mark = AuditDenied | AuditDrafted | AuditDone

text \<open>A draft of the ledger, and an audit row with the agent, the names and what happened.\<close>

record change_draft =
  dr_board :: string
  dr_agent :: int
  dr_creator :: int
  dr_status :: string
  dr_applied_by :: "int option"

record 'w agent_world =
  aw_drafts :: "change_draft list"
  aw_audit :: "(int \<times> int \<times> string \<times> string \<times> audit_mark) list"
  aw_rest :: 'w

definition create_draft :: "string \<Rightarrow> int \<Rightarrow> int \<Rightarrow> 'w agent_world \<Rightarrow> 'w agent_world" where
  "create_draft board admin agent w =
     w\<lparr>aw_drafts := aw_drafts w @
        [\<lparr>dr_board = board, dr_agent = agent, dr_creator = admin, dr_status = ''pending'', dr_applied_by = None\<rparr>]\<rparr>"

definition audit :: "agent_principal \<Rightarrow> string \<Rightarrow> string \<Rightarrow> audit_mark \<Rightarrow> 'w agent_world \<Rightarrow> 'w agent_world" where
  "audit p board action mark w = w\<lparr>aw_audit := aw_audit w @ [(pr_admin p, pr_agent p, board, action, mark)]\<rparr>"

definition run_agent_action ::
  "'w board_service \<Rightarrow> agent_principal \<Rightarrow> string \<Rightarrow> string \<Rightarrow> 'w agent_world \<Rightarrow> (exn + execution_outcome) \<times> 'w agent_world" where
  "run_agent_action service p board action w =
     (case assert_board_allowed p board action of
        Inl e \<Rightarrow> (Inl e, audit p board action AuditDenied w)
      | Inr b \<Rightarrow>
          if is_write b \<and> requires_draft p board
          then (Inr Drafted, audit p board action AuditDrafted (create_draft board (pr_admin p) (pr_agent p) w))
          else
            (case execute_action service p board action (aw_rest w) of
               (Inl e, r) \<Rightarrow> (Inl e, w\<lparr>aw_rest := r\<rparr>)
             | (Inr x, r) \<Rightarrow> (Inr Executed, audit p board action AuditDone (w\<lparr>aw_rest := r\<rparr>))))"

section \<open>Drafts\<close>

definition apply_draft :: "int \<Rightarrow> change_draft \<Rightarrow> exn + change_draft" where
  "apply_draft admin r =
     (if dr_status r \<noteq> ''pending'' then Inl (ValueError ''not pending'')
      else Inr (r\<lparr>dr_status := ''applied'', dr_applied_by := Some admin\<rparr>))"

definition rollback_draft :: "change_draft \<Rightarrow> exn + change_draft" where
  "rollback_draft r =
     (if dr_status r \<noteq> ''applied'' then Inl (ValueError ''not applied'') else Inr (r\<lparr>dr_status := ''rolled_back''\<rparr>))"

end
