(* ===== verification/Admin_History.thy ===== *)
theory Admin_History
  imports Admin_Agents
begin

text \<open>
  The administration as a whole: every request as a step, the one super administrator and how a second
  one comes about, revoked sessions, what an agent can do, and what deleting an administrator leaves.
\<close>

section \<open>Requests\<close>

text \<open>\<open>ok\<close> says which lists of role codes the requests carry.\<close>

inductive admin_step :: "(string list \<Rightarrow> bool) \<Rightarrow> admin_db \<Rightarrow> admin_db \<Rightarrow> bool" for ok where
  created: "ok roles \<Longrightarrow> create_admin_user env email name password roles d = (x, d') \<Longrightarrow> admin_step ok d d'"
| first_admin: "initialize_super_admin_from_env env name email password d = (y, d') \<Longrightarrow> admin_step ok d d'"
| updated: "(case roles of None \<Rightarrow> True | Some cs \<Rightarrow> ok cs) \<Longrightarrow>
    update_admin_user operator i mail status roles d = (u, d') \<Longrightarrow> admin_step ok d d'"
| disabled: "disable_admin_user i d = (u, d') \<Longrightarrow> admin_step ok d d'"
| enabled: "enable_admin_user i d = (u, d') \<Longrightarrow> admin_step ok d d'"
| deleted: "delete_admin_user env operator i d = (u, d') \<Longrightarrow> admin_step ok d d'"
| reset: "reset_admin_user_password env i password d = (u, d') \<Longrightarrow> admin_step ok d d'"
| changed: "change_own_password env i old password d = (u, d') \<Longrightarrow> admin_step ok d d'"
| kicked: "revoke_admin_sessions env i d = (n, d') \<Longrightarrow> admin_step ok d d'"
| logged_in: "password_login env name password d = (tk, d') \<Longrightarrow> admin_step ok d d'"
| resolved: "resolve_admin t tok d = (z, d') \<Longrightarrow> admin_step ok d d'"
| logged_out: "logout t tok d = (u, d') \<Longrightarrow> admin_step ok d d'"
| role_created: "create_role env code codes d = (u, d') \<Longrightarrow> admin_step ok d d'"
| role_updated: "update_role code perms d = (u, d') \<Longrightarrow> admin_step ok d d'"
| role_deleted: "delete_role code d = (u, d') \<Longrightarrow> admin_step ok d d'"
| defaults: "initialize_defaults ids d = (u, d') \<Longrightarrow> admin_step ok d d'"
| agents: "admin_step ok d (d\<lparr>admin_agents := as\<rparr>)"

text \<open>A preorder that every request respects relates the ends of every history.\<close>

locale admin_history =
  fixes ok :: "string list \<Rightarrow> bool" and le :: "admin_db \<Rightarrow> admin_db \<Rightarrow> bool"
  assumes le_refl: "le d d"
    and le_trans: "le d e \<Longrightarrow> le e f \<Longrightarrow> le d f"
    and le_step: "admin_step ok d e \<Longrightarrow> le d e"
begin

lemma history: "(admin_step ok)\<^sup>*\<^sup>* d e \<Longrightarrow> le d e"
  by (induction rule: rtranclp_induct) (auto intro: le_refl le_trans le_step)

end

section \<open>What the requests change\<close>

lemma save_cases: "save_admins old new x = (r, d') \<Longrightarrow> (\<exists>e. r = Inl e) \<and> d' = old \<or> r = Inr x \<and> d' = new \<and> admin_constraints new"
  by (auto simp: save_admins_def split: if_splits)

lemma put_simps [simp]:
  "admin_sessions (put_admin u d) = admin_sessions d" "admin_roles (put_admin u d) = admin_roles d"
  "user_roles (put_admin u d) = user_roles d" "role_permissions (put_admin u d) = role_permissions d"
  "permission_rows (put_admin u d) = permission_rows d" "admin_agents (put_admin u d) = admin_agents d"
  "admin_users (put_admin_session s d) = admin_users d" "admin_roles (put_admin_session s d) = admin_roles d"
  "user_roles (put_admin_session s d) = user_roles d" "role_permissions (put_admin_session s d) = role_permissions d"
  "permission_rows (put_admin_session s d) = permission_rows d" "admin_agents (put_admin_session s d) = admin_agents d"
  "admin_users (prune_revoked_permissions i p d) = admin_users d" "admin_sessions (prune_revoked_permissions i p d) = admin_sessions d"
  "admin_roles (prune_revoked_permissions i p d) = admin_roles d" "user_roles (prune_revoked_permissions i p d) = user_roles d"
  "role_permissions (prune_revoked_permissions i p d) = role_permissions d"
  "permission_rows (prune_revoked_permissions i p d) = permission_rows d"
  "admin_users (revoke_all_admin_sessions t i d) = admin_users d" "admin_roles (revoke_all_admin_sessions t i d) = admin_roles d"
  "user_roles (revoke_all_admin_sessions t i d) = user_roles d" "role_permissions (revoke_all_admin_sessions t i d) = role_permissions d"
  "permission_rows (revoke_all_admin_sessions t i d) = permission_rows d" "admin_agents (revoke_all_admin_sessions t i d) = admin_agents d"
  by (simp_all add: put_admin_def put_admin_session_def prune_revoked_permissions_def revoke_all_admin_sessions_def)

lemma role_codes_iff:
  "c \<in> set (get_role_codes i d) \<longleftrightarrow>
     (\<exists>q \<in> set (user_roles d). \<exists>r \<in> set (admin_roles d). fst q = i \<and> role_id r = snd q \<and> role_code r = c)"
  by (force simp: get_role_codes_def)

lemma role_codes_cong: "user_roles d = user_roles e \<Longrightarrow> admin_roles d = admin_roles e \<Longrightarrow> get_role_codes i d = get_role_codes i e"
  by (simp add: get_role_codes_def)

lemma replace_roles_cases:
  "replace_admin_user_roles i codes d = Inr e \<Longrightarrow>
     \<exists>ids. resolve_role_ids codes d = Inr ids \<and>
       e = d\<lparr>user_roles := filter (\<lambda>q. fst q \<noteq> i) (user_roles d) @ map (\<lambda>r. (i, r)) ids\<rparr>"
  by (auto simp: replace_admin_user_roles_def split: sum.splits)

lemma filter_eq_single: "distinct xs \<Longrightarrow> u \<in> set xs \<Longrightarrow> filter (\<lambda>v. v = u) xs = [u]"
  by (induction xs) (auto simp: filter_empty_conv)

text \<open>The outcome of the two requests that assign roles.\<close>

lemma create_cases:
  assumes "create_admin_user env email name password roles d = (x, d')"
  shows "(\<exists>e. x = Inl e) \<and> d' = d \<or>
    (\<exists>u ids. ensure_super_admin_assignment_allowed roles None d = Inr () \<and>
       resolve_role_ids roles d = Inr ids \<and> au_id u = ad_new_id env \<and> au_status u = ''active'' \<and> admin_constraints d' \<and>
       d' = d\<lparr>admin_users := admin_users d @ [u],
              user_roles := filter (\<lambda>q. fst q \<noteq> au_id u) (user_roles d) @ map (\<lambda>r. (au_id u, r)) ids\<rparr>)"
proof -
  define email' where "email' = normalize_email email"
  define name' where "name' = (if strip name = [] then email' else strip name)"
  define u where "u = with_password env password \<lparr>au_id = ad_new_id env, au_username = name', au_email = email',
                 au_password = [], au_salt = [], au_version = 1, au_changed = None, au_status = ''active'',
                 au_deleted_by = None, au_last_login = None\<rparr>"
  have u: "au_id u = ad_new_id env" "au_status u = ''active''" by (simp_all add: u_def with_password_def)
  have r: "resolve_role_ids roles (d\<lparr>admin_users := us\<rparr>) = resolve_role_ids roles d" for us by (simp add: resolve_role_ids_def)
  show ?thesis
    using assms u unfolding create_admin_user_def Let_def email'_def [symmetric] name'_def [symmetric] u_def [symmetric]
    by (auto simp: replace_admin_user_roles_def r split: if_splits sum.splits dest!: save_cases)
qed

lemma update_cases:
  assumes "update_admin_user operator i mail status roles d = (x, d')"
  shows "(\<exists>e. x = Inl e) \<and> d' = d \<or>
    (\<exists>u m st. find_admin i d = Inr u \<and> admin_constraints d' \<and> x = Inr () \<and> st = (case status of None \<Rightarrow> au_status u | Some s \<Rightarrow> s) \<and>
       (case roles of None \<Rightarrow> True | Some cs \<Rightarrow> ensure_super_admin_assignment_allowed cs (Some i) d = Inr ()) \<and>
       ensure_super_admin_still_available i (get_role_codes i d) (case roles of None \<Rightarrow> get_role_codes i d | Some cs \<Rightarrow> cs) st d = Inr () \<and>
       (case roles of
          None \<Rightarrow> d' = put_admin (u\<lparr>au_email := m, au_status := st\<rparr>) d
        | Some cs \<Rightarrow> \<exists>ids e. resolve_role_ids cs d = Inr ids \<and>
            e = (put_admin (u\<lparr>au_email := m, au_status := st\<rparr>) d)\<lparr>user_roles := filter (\<lambda>q. fst q \<noteq> i) (user_roles d) @ map (\<lambda>r. (i, r)) ids\<rparr> \<and>
            d' = prune_revoked_permissions i (get_permission_codes_for i e) e))"
proof (cases "find_admin i d")
  case (Inl e)
  then show ?thesis using assms by (auto simp: update_admin_user_def)
next
  case (Inr u)
  have r: "resolve_role_ids cs (put_admin v d) = resolve_role_ids cs d" for cs v by (simp add: resolve_role_ids_def)
  let ?st = "case status of None \<Rightarrow> au_status u | Some s \<Rightarrow> s"
  let ?target = "case roles of None \<Rightarrow> get_role_codes i d | Some cs \<Rightarrow> cs"
  let ?m = "case mail of None \<Rightarrow> au_email u | Some e \<Rightarrow> normalize_email e"
  let ?v = "u\<lparr>au_email := ?m, au_status := ?st\<rparr>"
  show ?thesis
  proof (cases "\<exists>e. x = Inl e")
    case True
    then show ?thesis using assms Inr
      by (auto simp: update_admin_user_def Let_def save_admins_def split: if_splits sum.splits option.splits)
  next
    case False
    then have a: "(case roles of None \<Rightarrow> True | Some cs \<Rightarrow> ensure_super_admin_assignment_allowed cs (Some i) d = Inr ())"
      and s: "ensure_super_admin_still_available i (get_role_codes i d) ?target ?st d = Inr ()"
      and c: "(case roles of None \<Rightarrow> save_admins d (put_admin ?v d) ()
        | Some cs \<Rightarrow> (case replace_admin_user_roles i cs (put_admin ?v d) of
             Inl e \<Rightarrow> (Inl e, d)
           | Inr d2 \<Rightarrow> save_admins d (prune_revoked_permissions i (get_permission_codes_for i d2) d2) ())) = (x, d')"
      using assms Inr by (auto simp: update_admin_user_def Let_def split: if_splits sum.splits option.splits)
    have "x = Inr () \<and> admin_constraints d' \<and>
       (case roles of
          None \<Rightarrow> d' = put_admin ?v d
        | Some cs \<Rightarrow> \<exists>ids e. resolve_role_ids cs d = Inr ids \<and>
            e = (put_admin ?v d)\<lparr>user_roles := filter (\<lambda>q. fst q \<noteq> i) (user_roles d) @ map (\<lambda>r. (i, r)) ids\<rparr> \<and>
            d' = prune_revoked_permissions i (get_permission_codes_for i e) e)"
      using c False r [of _ ?v] by (cases roles) (auto simp: replace_admin_user_roles_def save_admins_def split: if_splits sum.splits)
    then show ?thesis using Inr a s by blast
  qed
qed


section \<open>One super administrator\<close>

definition holder :: "admin_db \<Rightarrow> int \<Rightarrow> bool" where
  "holder d i \<longleftrightarrow> super_admin \<in> set (get_role_codes i d)"

definition super_one :: "int \<Rightarrow> admin_db \<Rightarrow> bool" where
  "super_one S d \<longleftrightarrow> admin_constraints d \<and> (\<forall>i. holder d i \<longleftrightarrow> i = S) \<and>
     (\<exists>u \<in> set (admin_users d). au_id u = S \<and> au_status u = ''active'') \<and>
     (\<exists>r \<in> set (admin_roles d). role_code r = super_admin \<and> role_system r)"

text \<open>Role codes without white space around them.\<close>

definition plain_codes_only :: "string list \<Rightarrow> bool" where
  "plain_codes_only codes \<longleftrightarrow> (\<forall>c \<in> set codes. strip c = c)"

lemma find_admin_in: "find_admin i d = Inr u \<Longrightarrow> u \<in> set (admin_users d) \<and> au_id u = i"
  by (auto simp: find_admin_def find_Some_iff split: option.splits)

lemma same_admin: "admin_constraints d \<Longrightarrow> u \<in> set (admin_users d) \<Longrightarrow> v \<in> set (admin_users d) \<Longrightarrow> au_id u = au_id v \<Longrightarrow> u = v"
  by (auto simp: admin_constraints_def distinct_map inj_on_def)

lemma same_role: "admin_constraints d \<Longrightarrow> q \<in> set (admin_roles d) \<Longrightarrow> r \<in> set (admin_roles d) \<Longrightarrow>
    role_id q = role_id r \<or> role_code q = role_code r \<Longrightarrow> q = r"
  by (auto simp: admin_constraints_def distinct_map inj_on_def)

lemma active_super:
  assumes "super_one S d"
  shows "get_active_super_admin_user (Some S) d = Inr None"
    and "exclude \<noteq> Some S \<Longrightarrow> \<exists>u. get_active_super_admin_user exclude d = Inr (Some u)"
proof -
  show "get_active_super_admin_user (Some S) d = Inr None"
    using assms by (auto simp: get_active_super_admin_user_def one_or_none_None filter_empty_conv super_one_def holder_def)
  obtain u where u: "u \<in> set (admin_users d)" "au_id u = S" "au_status u = ''active''" using assms by (auto simp: super_one_def)
  assume ex: "exclude \<noteq> Some S"
  let ?P = "\<lambda>u. super_admin \<in> set (get_role_codes (au_id u) d) \<and> au_status u = ''active'' \<and> exclude \<noteq> Some (au_id u)"
  have "?P v \<longleftrightarrow> v = u" if "v \<in> set (admin_users d)" for v
    using that u assms ex same_admin [of d v u] by (auto simp: super_one_def holder_def)
  then have "filter ?P (admin_users d) = filter (\<lambda>v. v = u) (admin_users d)" by (intro filter_cong) auto
  also have "distinct (admin_users d)" using assms by (auto simp: super_one_def admin_constraints_def distinct_map)
  then have "filter (\<lambda>v. v = u) (admin_users d) = [u]" using u(1) by (rule filter_eq_single)
  finally show "\<exists>u. get_active_super_admin_user exclude d = Inr (Some u)"
    by (simp add: get_active_super_admin_user_def)
qed

lemma assignment_allowed:
  assumes "super_one S d" and "ensure_super_admin_assignment_allowed codes current d = Inr ()"
  shows "super_admin \<in> set codes \<Longrightarrow> current = Some S"
proof (rule ccontr)
  assume super: "super_admin \<in> set codes" and "current \<noteq> Some S"
  then obtain u where "get_active_super_admin_user current d = Inr (Some u)" using active_super(2) [OF assms(1)] by blast
  then show False using assms(2) super by (simp add: ensure_super_admin_assignment_allowed_def)
qed

text \<open>The ids that plain codes resolve to.\<close>

lemma resolved_role:
  assumes "resolve_role_ids codes d = Inr ids" and "admin_constraints d" and "plain_codes_only codes"
    and "r \<in> set (admin_roles d)"
  shows "role_id r \<in> set ids \<longleftrightarrow> role_code r \<in> set codes"
proof -
  let ?ids = "map (\<lambda>r. (role_code r, role_id r)) (admin_roles d)"
  have plain: "map strip codes = codes" using assms(3) by (auto simp: plain_codes_only_def intro: map_idI)
  have ids: "ids = map (\<lambda>c. the (dget ?ids c)) codes" "\<forall>c \<in> set codes. dget ?ids c \<noteq> None"
    using assms(1) by (auto simp: resolve_role_ids_def plain Let_def split: if_splits)
  have d: "dget ?ids (role_code q) = Some (role_id q)" if "q \<in> set (admin_roles d)" for q
    using assms(2) that by (intro map_of_is_SomeI) (auto simp: admin_constraints_def comp_def)
  show ?thesis
  proof
    assume "role_id r \<in> set ids"
    then obtain c where c: "c \<in> set codes" "role_id r = the (dget ?ids c)" using ids(1) by auto
    then obtain i where "dget ?ids c = Some i" using ids(2) by blast
    then obtain q where q: "q \<in> set (admin_roles d)" "role_code q = c" using map_of_SomeD by fastforce
    then have "role_id r = role_id q" using c(2) d [OF q(1)] by simp
    then have "r = q" using same_role [OF assms(2,4) q(1)] by simp
    then show "role_code r \<in> set codes" using q(2) c(1) by simp
  next
    assume "role_code r \<in> set codes"
    then show "role_id r \<in> set ids" using d [OF assms(4)] ids(1) by force
  qed
qed

text \<open>Changes that leave the super administrator alone.\<close>

lemma super_one_cong:
  assumes "super_one S d" and "user_roles e = user_roles d" and "admin_roles e = admin_roles d" and "admin_constraints e"
    and "\<exists>u \<in> set (admin_users e). au_id u = S \<and> au_status u = ''active''"
  shows "super_one S e"
  using assms role_codes_cong [OF assms(2,3)] by (simp add: super_one_def holder_def)

lemma put_admin_active:
  assumes "super_one S d" and "au_id v = S \<longrightarrow> au_status v = ''active''"
  shows "\<exists>u \<in> set (admin_users (put_admin v d)). au_id u = S \<and> au_status u = ''active''"
proof -
  obtain u where u: "u \<in> set (admin_users d)" "au_id u = S" "au_status u = ''active''" using assms(1) by (auto simp: super_one_def)
  then have "(if au_id u = au_id v then v else u) \<in> set (admin_users (put_admin v d))" by (auto simp: put_admin_def)
  then show ?thesis using u assms(2) by (intro bexI [of _ "if au_id u = au_id v then v else u"]) auto
qed

lemma super_created:
  assumes one: "super_one S d" and run: "create_admin_user env email name password roles d = (x, d')"
    and plain: "plain_codes_only roles"
  shows "super_one S d'"
  using create_cases [OF run]
proof (elim disjE exE conjE)
  fix u ids
  assume a: "ensure_super_admin_assignment_allowed roles None d = Inr ()" "resolve_role_ids roles d = Inr ids"
    "au_id u = ad_new_id env" "au_status u = ''active''" "admin_constraints d'"
    and d': "d' = d\<lparr>admin_users := admin_users d @ [u],
      user_roles := filter (\<lambda>q. fst q \<noteq> au_id u) (user_roles d) @ map (\<lambda>r. (au_id u, r)) ids\<rparr>"
  have ok: "admin_constraints d" using one by (simp add: super_one_def)
  have nosuper: "super_admin \<notin> set roles" using assignment_allowed [OF one a(1)] by auto
  have ids: "role_id r \<notin> set ids" if "r \<in> set (admin_roles d)" "role_code r = super_admin" for r
    using resolved_role [OF a(2) ok plain that(1)] nosuper that(2) by simp
  have ne: "au_id u \<noteq> S" using a(5) one by (auto simp: d' admin_constraints_def super_one_def)
  have "holder d' i \<longleftrightarrow> i = S" for i
  proof -
    have "holder d' i \<longleftrightarrow> holder d i \<and> i \<noteq> au_id u"
      unfolding holder_def role_codes_iff using ids by (fastforce simp: d')
    then show ?thesis using one ne by (auto simp: super_one_def)
  qed
  then show ?thesis using one a(5) by (auto simp: super_one_def d')
qed (use one in simp)

lemma super_updated:
  assumes one: "super_one S d" and run: "update_admin_user operator i mail status roles d = (x, d')"
    and plain: "case roles of None \<Rightarrow> True | Some cs \<Rightarrow> plain_codes_only cs"
  shows "super_one S d'"
  using update_cases [OF run]
proof (elim disjE exE conjE)
  fix u m st
  assume u: "find_admin i d = Inr u" and ok': "admin_constraints d'"
    and allowed: "case roles of None \<Rightarrow> True | Some cs \<Rightarrow> ensure_super_admin_assignment_allowed cs (Some i) d = Inr ()"
    and still: "ensure_super_admin_still_available i (get_role_codes i d) (case roles of None \<Rightarrow> get_role_codes i d | Some cs \<Rightarrow> cs) st d = Inr ()"
    and d': "case roles of
          None \<Rightarrow> d' = put_admin (u\<lparr>au_email := m, au_status := st\<rparr>) d
        | Some cs \<Rightarrow> \<exists>ids e. resolve_role_ids cs d = Inr ids \<and>
            e = (put_admin (u\<lparr>au_email := m, au_status := st\<rparr>) d)\<lparr>user_roles := filter (\<lambda>q. fst q \<noteq> i) (user_roles d) @ map (\<lambda>r. (i, r)) ids\<rparr> \<and>
            d' = prune_revoked_permissions i (get_permission_codes_for i e) e"
  let ?v = "u\<lparr>au_email := m, au_status := st\<rparr>"
  have ok: "admin_constraints d" using one by (simp add: super_one_def)
  have keep: "super_admin \<in> set (case roles of None \<Rightarrow> get_role_codes i d | Some cs \<Rightarrow> cs) \<and> st = ''active''" if "i = S"
    using still that active_super(1) [OF one] one
    by (auto simp: ensure_super_admin_still_available_def super_one_def holder_def split: if_splits)
  have act: "\<exists>u \<in> set (admin_users (put_admin ?v d)). au_id u = S \<and> au_status u = ''active''"
    using find_admin_in [OF u] keep by (intro put_admin_active [OF one]) auto
  show ?thesis
  proof (cases roles)
    case None
    then show ?thesis using d' ok' act by (intro super_one_cong [OF one]) simp_all
  next
    case (Some cs)
    then obtain ids e where r: "resolve_role_ids cs d = Inr ids"
      and e: "e = (put_admin ?v d)\<lparr>user_roles := filter (\<lambda>q. fst q \<noteq> i) (user_roles d) @ map (\<lambda>r. (i, r)) ids\<rparr>"
      and d'': "d' = prune_revoked_permissions i (get_permission_codes_for i e) e" using d' by auto
    have cs: "super_admin \<in> set cs \<longleftrightarrow> i = S"
      using assignment_allowed [OF one, of cs "Some i"] allowed keep Some by auto
    have ids: "role_id r \<in> set ids \<longleftrightarrow> i = S" if "r \<in> set (admin_roles d)" "role_code r = super_admin" for r
      using resolved_role [OF r ok _ that(1)] plain Some that(2) cs by simp
    obtain rs where rs: "rs \<in> set (admin_roles d)" "role_code rs = super_admin" "role_system rs" using one by (auto simp: super_one_def)
    have "holder d' j \<longleftrightarrow> j = S" for j
    proof (cases "j = i")
      case True
      have "set (user_roles d') = {q \<in> set (user_roles d). fst q \<noteq> i} \<union> Pair i ` set ids" by (auto simp: d'' e)
      moreover have "admin_roles d' = admin_roles d" by (simp add: d'' e)
      ultimately have "holder d' j \<longleftrightarrow> (\<exists>r \<in> set (admin_roles d). role_id r \<in> set ids \<and> role_code r = super_admin)"
        unfolding holder_def role_codes_iff using True by (simp add: bex_Un) blast
      then show ?thesis using ids rs True by auto
    next
      case False
      then have "holder d' j \<longleftrightarrow> holder d j"
        unfolding holder_def role_codes_iff by (fastforce simp: d'' e)
      then show ?thesis using one by (simp add: super_one_def)
    qed
    then show ?thesis using one ok' act by (auto simp: super_one_def d'' e)
  qed
qed (use one in simp)

text \<open>The requests that assign no role.\<close>

lemma super_saved:
  assumes "super_one S d" and "save_admins d e x = (r, d')" and "user_roles e = user_roles d" and "admin_roles e = admin_roles d"
    and "\<exists>u \<in> set (admin_users e). au_id u = S \<and> au_status u = ''active''"
  shows "super_one S d'"
  using save_cases [OF assms(2)] super_one_cong [OF assms(1,3,4) _ assms(5)] assms(1) by auto

lemma super_one_active: "super_one S d \<Longrightarrow> \<exists>u \<in> set (admin_users d). au_id u = S \<and> au_status u = ''active''"
  by (simp add: super_one_def)

lemma super_put_saved:
  assumes one: "super_one S d" and save: "save_admins d e x = (r, d')" and "user_roles e = user_roles d" "admin_roles e = admin_roles d"
    and "admin_users e = admin_users (put_admin v d)" and "au_id v = S \<Longrightarrow> au_status v = ''active''"
  shows "super_one S d'"
  using put_admin_active [OF one, of v] assms by (intro super_saved [OF one save]) auto

lemma holder_super: "super_one S d \<Longrightarrow> super_admin \<in> set (get_role_codes i d) \<longleftrightarrow> i = S"
  by (simp add: super_one_def holder_def)

lemma super_disabled: "super_one S d \<Longrightarrow> disable_admin_user i d = (u, d') \<Longrightarrow> super_one S d'"
  by (auto simp: disable_admin_user_def holder_super Let_def dest: find_admin_in split: sum.splits if_splits
      elim!: super_put_saved)

lemma super_enabled: "super_one S d \<Longrightarrow> enable_admin_user i d = (u, d') \<Longrightarrow> super_one S d'"
  by (auto simp: enable_admin_user_def split: sum.splits elim!: super_put_saved)

lemma super_deleted: "super_one S d \<Longrightarrow> delete_admin_user env operator i d = (u, d') \<Longrightarrow> super_one S d'"
  by (auto simp: delete_admin_user_def holder_super Let_def dest: find_admin_in split: sum.splits if_splits
      elim!: super_put_saved)

lemma super_reset: "super_one S d \<Longrightarrow> reset_admin_user_password env i p d = (u, d') \<Longrightarrow> super_one S d'"
  by (auto simp: reset_admin_user_password_def holder_super with_password_def dest: find_admin_in split: sum.splits if_splits
      elim!: super_put_saved)

lemma super_changed: "super_one S d \<Longrightarrow> change_own_password env i old p d = (u, d') \<Longrightarrow> super_one S d'"
  by (auto simp: change_own_password_def with_password_def split: sum.splits if_splits elim!: super_put_saved)

lemma super_kicked: "super_one S d \<Longrightarrow> revoke_admin_sessions env i d = (n, d') \<Longrightarrow> super_one S d'"
  using super_one_active [of S d] by (auto simp: revoke_admin_sessions_def split: sum.splits if_splits elim!: super_saved)

lemma super_logged_in: "super_one S d \<Longrightarrow> password_login env name p d = (tk, d') \<Longrightarrow> super_one S d'"
  by (auto simp: password_login_def Let_def rehash_admin_password_if_outdated_def with_password_def
      split: sum.splits option.splits if_splits elim!: super_put_saved)

lemma put_session_constraints: "admin_constraints (put_admin_session s d) \<longleftrightarrow> admin_constraints d"
  by (simp add: admin_constraints_def put_admin_session_def comp_def) (simp cong: if_cong add: if_distrib)

lemma super_session: "super_one S d \<Longrightarrow> super_one S (put_admin_session s d)"
  using super_one_cong [of S d "put_admin_session s d"] by (auto simp: put_session_constraints super_one_def)

lemma super_resolved: "super_one S d \<Longrightarrow> resolve_admin t tok d = (z, d') \<Longrightarrow> super_one S d'"
  by (auto simp: resolve_admin_def Let_def intro: super_session split: sum.splits option.splits prod.splits if_splits)

lemma super_logged_out: "super_one S d \<Longrightarrow> logout t tok d = (u, d') \<Longrightarrow> super_one S d'"
  by (auto simp: logout_def intro: super_session dest: super_resolved split: sum.splits prod.splits)

lemma super_agents: "super_one S d \<Longrightarrow> super_one S (d\<lparr>admin_agents := as\<rparr>)"
  by (rule super_one_cong [of S d]) (auto simp: super_one_def admin_constraints_def)

lemma super_first:
  assumes "super_one S d" and "initialize_super_admin_from_env env name email p d = (y, d')" shows "super_one S d'"
proof -
  obtain v where "get_active_super_admin_user None d = Inr (Some v)" using active_super(2) [OF assms(1), of None] by auto
  then show ?thesis using assms
    by (auto simp: initialize_super_admin_from_env_def Let_def split: option.splits if_splits)
qed

text \<open>The requests about roles.\<close>

lemma super_role: "super_one S d \<Longrightarrow> \<exists>r \<in> set (admin_roles d). role_code r = super_admin \<and> role_system r"
  by (simp add: super_one_def)

lemma super_roles_changed:
  assumes "super_one S d" and "admin_users e = admin_users d" and "user_roles e = user_roles d" and "admin_constraints e"
    and "\<And>i. (\<exists>r \<in> set (admin_roles e). role_id r = i \<and> role_code r = super_admin) \<longleftrightarrow>
              (\<exists>r \<in> set (admin_roles d). role_id r = i \<and> role_code r = super_admin)"
    and "\<exists>r \<in> set (admin_roles e). role_code r = super_admin \<and> role_system r"
  shows "super_one S e"
proof -
  have "holder e i \<longleftrightarrow> holder d i" for i
    unfolding holder_def role_codes_iff assms(3) using assms(5) by metis
  then show ?thesis using assms(1,2,4,6) by (simp add: super_one_def)
qed

lemma super_role_created:
  assumes "super_one S d" and "create_role env code codes d = (u, d')" shows "super_one S d'"
proof -
  have "strip code \<noteq> super_admin" if "strip code \<notin> set (map spec_code default_roles)"
    using that by (auto simp: default_roles_def)
  moreover have "\<exists>e. d' = d \<or> admin_constraints d' \<and> d' = d\<lparr>admin_roles := admin_roles d @
      [\<lparr>role_id = ad_new_id env, role_code = strip code, role_system = False\<rparr>], role_permissions := e\<rparr> \<and>
      strip code \<notin> set (map spec_code default_roles)"
    using assms(2) by (auto simp: create_role_def Let_def replace_role_permissions_def save_admins_def split: if_splits sum.splits)
  ultimately show ?thesis using assms(1) super_role [OF assms(1)]
    by (auto intro!: super_roles_changed [of S d])
qed

lemma super_role_updated:
  assumes "super_one S d" and "update_role code codes d = (u, d')" shows "super_one S d'"
proof -
  have "\<exists>e. d' = d \<or> admin_constraints d' \<and> d' = d\<lparr>role_permissions := e\<rparr>"
    using assms(2) by (auto simp: update_role_def replace_role_permissions_def save_admins_def split: if_splits sum.splits option.splits)
  then show ?thesis using assms(1) super_role [OF assms(1)] by (auto intro!: super_roles_changed [of S d])
qed

lemma find_role_in: "find_role code d = Some r \<Longrightarrow> r \<in> set (admin_roles d) \<and> role_code r = code"
  by (auto simp: find_role_def find_Some_iff)

lemma super_role_deleted:
  assumes "super_one S d" and "delete_role code d = (u, d')" shows "super_one S d'"
proof (cases "d' = d")
  case False
  then obtain r where r: "find_role code d = Some r" "\<not> role_system r" and ok: "admin_constraints d'"
    and d': "d' = d\<lparr>role_permissions := filter (\<lambda>q. fst q \<noteq> role_id r) (role_permissions d),
       admin_roles := filter (\<lambda>x. role_id x \<noteq> role_id r) (admin_roles d)\<rparr>"
    using assms(2) by (auto simp: delete_role_def save_admins_def split: if_splits option.splits)
  obtain s where s: "s \<in> set (admin_roles d)" "role_code s = super_admin" "role_system s" using super_role [OF assms(1)] by auto
  have c: "admin_constraints d" using assms(1) by (simp add: super_one_def)
  have ne: "role_id s \<noteq> role_id r" using same_role [OF c s(1), of r] find_role_in [OF r(1)] r(2) s(3) by auto
  have only: "q = s" if "q \<in> set (admin_roles d)" "role_code q = super_admin" for q
    using same_role [OF c that(1) s(1)] that(2) s(2) by simp
  have set': "set (admin_roles d') = {x \<in> set (admin_roles d). role_id x \<noteq> role_id r}" by (simp add: d')
  show ?thesis
  proof (rule super_roles_changed [OF assms(1)])
    fix i
    show "(\<exists>x \<in> set (admin_roles d'). role_id x = i \<and> role_code x = super_admin) \<longleftrightarrow>
        (\<exists>x \<in> set (admin_roles d). role_id x = i \<and> role_code x = super_admin)"
      unfolding set' using only ne by blast
    show "\<exists>x \<in> set (admin_roles d'). role_code x = super_admin \<and> role_system x" unfolding set' using s ne by blast
  qed (simp_all add: d' ok [unfolded d'])
qed (use assms in simp)

lemma role_marked:
  "role_id (if b then x\<lparr>role_system := True\<rparr> else x) = role_id x" "role_code (if b then x\<lparr>role_system := True\<rparr> else x) = role_code x"
  by simp_all

lemma ensure_roles_super:
  "\<exists>r \<in> set (admin_roles d). role_code r = super_admin \<and> role_system r \<Longrightarrow>
     admin_users (ensure_roles ss is d) = admin_users d \<and> user_roles (ensure_roles ss is d) = user_roles d \<and>
     (\<forall>i. (\<exists>r \<in> set (admin_roles (ensure_roles ss is d)). role_id r = i \<and> role_code r = super_admin) \<longleftrightarrow>
          (\<exists>r \<in> set (admin_roles d). role_id r = i \<and> role_code r = super_admin)) \<and>
     (\<exists>r \<in> set (admin_roles (ensure_roles ss is d)). role_code r = super_admin \<and> role_system r)"
proof (induction ss "is" d rule: ensure_roles.induct)
  case (1 s ss i "is" d)
  define e where "e = (case find_role (spec_code s) d of
      Some r \<Rightarrow> d\<lparr>admin_roles := map (\<lambda>x. if role_id x = role_id r then x\<lparr>role_system := True\<rparr> else x) (admin_roles d)\<rparr>
    | None \<Rightarrow> d\<lparr>admin_roles := admin_roles d @ [\<lparr>role_id = i, role_code = spec_code s, role_system = True\<rparr>]\<rparr>)"
  have new: "spec_code s \<noteq> super_admin" if "find_role (spec_code s) d = None"
    using that "1.prems" by (auto simp: find_role_def find_None_iff)
  have e: "admin_users e = admin_users d" "user_roles e = user_roles d" by (simp_all add: e_def split: option.split)
  have codes: "(\<exists>r \<in> set (admin_roles e). role_id r = j \<and> role_code r = super_admin) \<longleftrightarrow>
      (\<exists>r \<in> set (admin_roles d). role_id r = j \<and> role_code r = super_admin)" for j
    using new by (cases "find_role (spec_code s) d") (auto simp: e_def role_marked simp del: if_image_distrib)
  have sys: "\<exists>r \<in> set (admin_roles e). role_code r = super_admin \<and> role_system r"
    using "1.prems" by (cases "find_role (spec_code s) d") (auto simp: e_def simp del: if_image_distrib)
  show ?case using "1.IH" [folded e_def, OF sys] e codes by (simp add: e_def [symmetric])
qed auto

lemma ensure_role_permissions_keep:
  "admin_users (ensure_role_permissions ss d) = admin_users d \<and> user_roles (ensure_role_permissions ss d) = user_roles d \<and>
     admin_roles (ensure_role_permissions ss d) = admin_roles d"
  by (induction ss d rule: ensure_role_permissions.induct) (auto split: option.splits)

lemma super_defaults:
  assumes one: "super_one S d" and run: "initialize_defaults ids d = (u, d')" shows "super_one S d'"
proof -
  define e where "e = ensure_roles default_roles ids (ensure_permissions d)"
  have p: "admin_users (ensure_permissions d) = admin_users d" "user_roles (ensure_permissions d) = user_roles d"
    "admin_roles (ensure_permissions d) = admin_roles d" by (simp_all add: ensure_permissions_def)
  note roles = ensure_roles_super [of "ensure_permissions d" default_roles ids, unfolded p, OF super_role [OF one], folded e_def]
  have roles': "\<And>i. (\<exists>r \<in> set (admin_roles e). role_id r = i \<and> role_code r = super_admin) \<longleftrightarrow>
        (\<exists>r \<in> set (admin_roles d). role_id r = i \<and> role_code r = super_admin)"
    and sys: "\<exists>r \<in> set (admin_roles e). role_code r = super_admin \<and> role_system r"
    and same: "admin_users e = admin_users d" "user_roles e = user_roles d"
    using roles by blast+
  note keep = ensure_role_permissions_keep [of default_roles e]
  have "super_one S (ensure_role_permissions default_roles e)" if "admin_constraints (ensure_role_permissions default_roles e)"
  proof (rule super_roles_changed [OF one])
    show "(\<exists>r \<in> set (admin_roles (ensure_role_permissions default_roles e)). role_id r = i \<and> role_code r = super_admin) \<longleftrightarrow>
        (\<exists>r \<in> set (admin_roles d). role_id r = i \<and> role_code r = super_admin)" for i
      using roles' keep by (simp only:)
  qed (use keep same sys that in \<open>simp_all only:\<close>)
  then show ?thesis using save_cases [OF run [unfolded initialize_defaults_def]] one unfolding e_def by metis
qed

lemma super_step:
  assumes step: "admin_step plain_codes_only d e" and one: "super_one S d" shows "super_one S e"
  using step one
proof (induction rule: admin_step.induct)
  case created then show ?case by (blast intro: super_created)
next
  case first_admin then show ?case by (blast intro: super_first)
next
  case updated then show ?case by (blast intro: super_updated)
next
  case disabled then show ?case by (blast intro: super_disabled)
next
  case enabled then show ?case by (blast intro: super_enabled)
next
  case deleted then show ?case by (blast intro: super_deleted)
next
  case reset then show ?case by (blast intro: super_reset)
next
  case changed then show ?case by (blast intro: super_changed)
next
  case kicked then show ?case by (blast intro: super_kicked)
next
  case logged_in then show ?case by (blast intro: super_logged_in)
next
  case resolved then show ?case by (blast intro: super_resolved)
next
  case logged_out then show ?case by (blast intro: super_logged_out)
next
  case role_created then show ?case by (blast intro: super_role_created)
next
  case role_updated then show ?case by (blast intro: super_role_updated)
next
  case role_deleted then show ?case by (blast intro: super_role_deleted)
next
  case defaults then show ?case by (blast intro: super_defaults)
next
  case agents then show ?case by (blast intro: super_agents)
qed

interpretation plain_history: admin_history plain_codes_only "\<lambda>d e. super_one S d \<longrightarrow> super_one S e" for S
  by unfold_locales (auto intro: super_step)

text \<open>A padded code passes the check for the code, and is then stripped.\<close>

lemma padded_role_resolves:
  assumes "super_one S d" and "resolve_role_ids ['' '' @ super_admin] d = Inr ids"
  shows "\<exists>r \<in> set (admin_roles d). role_code r = super_admin \<and> role_id r \<in> set ids"
proof -
  obtain r where r: "r \<in> set (admin_roles d)" "role_code r = super_admin" using super_role [OF assms(1)] by auto
  have s: "strip ('' '' @ super_admin) = super_admin" by code_simp
  have "dget (map (\<lambda>r. (role_code r, role_id r)) (admin_roles d)) super_admin = Some (role_id r)"
    using assms(1) r by (intro map_of_is_SomeI) (auto simp: super_one_def admin_constraints_def comp_def intro!: image_eqI [of _ _ r])
  then have "ids = [role_id r]" using assms(2) s by (auto simp: resolve_role_ids_def Let_def simp del: append_Cons split: if_splits)
  then show ?thesis using r by auto
qed

section \<open>Sessions that were ended\<close>

definition session_ended :: "int \<Rightarrow> admin_db \<Rightarrow> bool" where
  "session_ended j d \<longleftrightarrow> (\<exists>s \<in> set (admin_sessions d). as_id s = j \<and> as_revoked s \<noteq> None)"

definition ended_kept :: "admin_db \<Rightarrow> admin_db \<Rightarrow> bool" where
  "ended_kept d e \<longleftrightarrow> (admin_constraints d \<longrightarrow> admin_constraints e \<and> (\<forall>j. session_ended j d \<longrightarrow> session_ended j e))"

lemma ended_saved:
  "save_admins d e x = (r, d') \<Longrightarrow> (\<And>j. session_ended j d \<Longrightarrow> session_ended j e) \<Longrightarrow> ended_kept d d'"
  by (auto simp: ended_kept_def dest: save_cases)

lemma ended_same: "admin_sessions e = admin_sessions d \<Longrightarrow> session_ended j d \<Longrightarrow> session_ended j e"
  by (simp add: session_ended_def)

lemma ended_kept_refl [simp]: "ended_kept d d"
  by (simp add: ended_kept_def)

lemma ended_kept_trans: "ended_kept d e \<Longrightarrow> ended_kept e f \<Longrightarrow> ended_kept d f"
  by (simp add: ended_kept_def)

lemma ended_revoke_all: "session_ended j d \<Longrightarrow> session_ended j (revoke_all_admin_sessions t i (put_admin u d))"
  by (force simp: session_ended_def revoke_all_admin_sessions_def revoke_session_def)

lemma ended_put_session:
  assumes "s \<in> set (admin_sessions d)" "as_revoked s = None" "as_id s' = as_id s"
  shows "ended_kept d (put_admin_session s' d)"
proof (unfold ended_kept_def, intro impI conjI allI)
  assume ok: "admin_constraints d"
  then show "admin_constraints (put_admin_session s' d)" by (simp add: put_session_constraints)
  fix j assume "session_ended j d"
  then obtain v where v: "v \<in> set (admin_sessions d)" "as_id v = j" "as_revoked v \<noteq> None" by (auto simp: session_ended_def)
  then have "as_id v \<noteq> as_id s'" using assms ok by (auto simp: admin_constraints_def distinct_map inj_on_def)
  then have "v \<in> set (admin_sessions (put_admin_session s' d))" using v(1) by (auto simp: put_admin_session_def)
  then show "session_ended j (put_admin_session s' d)" using v by (auto simp: session_ended_def)
qed

lemma found: "find P xs = Some x \<Longrightarrow> x \<in> set xs \<and> P x"
  by (auto simp: find_Some_iff)

lemma resolve_cases:
  assumes "resolve_admin t tok d = (z, d')"
  shows "(\<exists>m. z = Inl (UnauthorizedError m)) \<and> d' = d \<or>
    (\<exists>u s. z = Inr (u, touch_admin_session t s) \<and> s \<in> set (admin_sessions d) \<and> tk_session tok = Some (as_id s) \<and>
       as_revoked s = None \<and> d' = put_admin_session (touch_admin_session t s) d)"
  using assms
  by (auto simp: resolve_admin_def parse_admin_token_def session_is_active_def Let_def dest!: found
      split: sum.splits option.splits prod.splits if_splits bool.splits)

lemma touch_id [simp]: "as_id (touch_admin_session t s) = as_id s" "as_revoked (touch_admin_session t s) = as_revoked s"
  by (simp_all add: touch_admin_session_def)

lemma ended_resolved: "resolve_admin t tok d = (z, d') \<Longrightarrow> ended_kept d d'"
  using resolve_cases [of t tok d z d'] ended_put_session by force

lemma ended_logged_out:
  assumes "logout t tok d = (u, d')" shows "ended_kept d d'"
proof -
  obtain z e where r: "resolve_admin t tok d = (z, e)" by fastforce
  show ?thesis
  proof (cases z)
    case (Inl x)
    then show ?thesis using assms r ended_resolved [OF r] by (simp add: logout_def)
  next
    case (Inr p)
    then obtain u s where s: "p = (u, touch_admin_session t s)" "s \<in> set (admin_sessions d)" "as_revoked s = None"
      and e: "e = put_admin_session (touch_admin_session t s) d"
      using resolve_cases [OF r] by auto
    let ?s = "touch_admin_session t s"
    have "?s \<in> set (admin_sessions e)" using s(2) unfolding e by (force simp: put_admin_session_def)
    then have "ended_kept e (put_admin_session (?s\<lparr>as_revoked := Some t\<rparr>) e)"
      using s(3) by (intro ended_put_session [of ?s]) auto
    moreover have "d' = put_admin_session (?s\<lparr>as_revoked := Some t\<rparr>) e" using assms r Inr s(1) by (simp add: logout_def)
    ultimately show ?thesis using ended_resolved [OF r] ended_kept_trans by blast
  qed
qed

lemma defaults_keep_sessions:
  "admin_sessions (ensure_role_permissions ss d) = admin_sessions d" "admin_sessions (ensure_roles ss is d) = admin_sessions d"
  "admin_sessions (ensure_permissions d) = admin_sessions d"
proof -
  show "admin_sessions (ensure_role_permissions ss d) = admin_sessions d"
    by (induction ss d rule: ensure_role_permissions.induct) (auto split: option.splits)
  show "admin_sessions (ensure_roles ss is d) = admin_sessions d"
    by (induction ss "is" d rule: ensure_roles.induct) (auto split: option.splits)
  show "admin_sessions (ensure_permissions d) = admin_sessions d" by (simp add: ensure_permissions_def)
qed

lemma ended_in_order:
  "create_admin_user env mail name p roles d = (x, d') \<Longrightarrow> ended_kept d d'"
  "initialize_super_admin_from_env env name mail p d = (y, d') \<Longrightarrow> ended_kept d d'"
  "update_admin_user operator i m status roles' d = (u, d') \<Longrightarrow> ended_kept d d'"
  "disable_admin_user i d = (u, d') \<Longrightarrow> ended_kept d d'"
  "enable_admin_user i d = (u, d') \<Longrightarrow> ended_kept d d'"
  "delete_admin_user env operator i d = (u, d') \<Longrightarrow> ended_kept d d'"
  "reset_admin_user_password env i p d = (u, d') \<Longrightarrow> ended_kept d d'"
  "change_own_password env i old p d = (u, d') \<Longrightarrow> ended_kept d d'"
proof -
  show "create_admin_user env mail name p roles d = (x, d') \<Longrightarrow> ended_kept d d'"
    by (drule create_cases) (auto simp: ended_kept_def session_ended_def)
  show "initialize_super_admin_from_env env name mail p d = (y, d') \<Longrightarrow> ended_kept d d'"
    by (auto simp: initialize_super_admin_from_env_def Let_def session_ended_def elim!: ended_saved
        split: option.splits sum.splits if_splits)
  show "update_admin_user operator i m status roles' d = (u, d') \<Longrightarrow> ended_kept d d'"
    by (drule update_cases) (auto simp: ended_kept_def split: option.splits elim!: ended_same [rotated])
  show "disable_admin_user i d = (u, d') \<Longrightarrow> ended_kept d d'"
    by (auto simp: disable_admin_user_def Let_def session_ended_def elim!: ended_saved split: sum.splits if_splits)
  show "enable_admin_user i d = (u, d') \<Longrightarrow> ended_kept d d'"
    by (auto simp: enable_admin_user_def session_ended_def elim!: ended_saved split: sum.splits if_splits)
  show "delete_admin_user env operator i d = (u, d') \<Longrightarrow> ended_kept d d'"
    by (auto simp: delete_admin_user_def Let_def intro: ended_revoke_all elim!: ended_saved split: sum.splits if_splits)
  show "reset_admin_user_password env i p d = (u, d') \<Longrightarrow> ended_kept d d'"
    by (auto simp: reset_admin_user_password_def intro: ended_revoke_all elim!: ended_saved split: sum.splits if_splits)
  show "change_own_password env i old p d = (u, d') \<Longrightarrow> ended_kept d d'"
    by (auto simp: change_own_password_def intro: ended_revoke_all elim!: ended_saved split: sum.splits if_splits)
qed

lemma ended_in_order':
  "revoke_admin_sessions env i d = (n, d') \<Longrightarrow> ended_kept d d'"
  "password_login env name p d = (tk, d') \<Longrightarrow> ended_kept d d'"
  "create_role env code codes d = (u, d') \<Longrightarrow> ended_kept d d'"
  "update_role code perms d = (u, d') \<Longrightarrow> ended_kept d d'"
  "delete_role code d = (u, d') \<Longrightarrow> ended_kept d d'"
  "initialize_defaults ids d = (u, d') \<Longrightarrow> ended_kept d d'"
proof -
  show "revoke_admin_sessions env i d = (n, d') \<Longrightarrow> ended_kept d d'"
    by (auto simp: revoke_admin_sessions_def elim!: ended_saved split: sum.splits if_splits)
      (force simp: session_ended_def live_session_def)
  show "password_login env name p d = (tk, d') \<Longrightarrow> ended_kept d d'"
    by (auto simp: password_login_def Let_def session_ended_def elim!: ended_saved split: sum.splits option.splits if_splits)
  show "create_role env code codes d = (u, d') \<Longrightarrow> ended_kept d d'"
    by (auto simp: create_role_def Let_def replace_role_permissions_def session_ended_def elim!: ended_saved split: sum.splits if_splits)
  show "update_role code perms d = (u, d') \<Longrightarrow> ended_kept d d'"
    by (auto simp: update_role_def replace_role_permissions_def session_ended_def elim!: ended_saved split: sum.splits if_splits option.splits)
  show "delete_role code d = (u, d') \<Longrightarrow> ended_kept d d'"
    by (auto simp: delete_role_def session_ended_def elim!: ended_saved split: if_splits option.splits)
  show "initialize_defaults ids d = (u, d') \<Longrightarrow> ended_kept d d'"
    by (auto simp: initialize_defaults_def session_ended_def defaults_keep_sessions elim!: ended_saved)
qed

lemma ended_step: "admin_step ok d e \<Longrightarrow> ended_kept d e"
  by (induction rule: admin_step.induct)
    (erule ended_in_order ended_in_order' ended_resolved ended_logged_out
     | simp add: ended_kept_def admin_constraints_def session_ended_def)+

interpretation any_history: admin_history ok ended_kept for ok
  by unfold_locales (auto intro: ended_kept_trans ended_step)

lemma ended_refused:
  assumes "session_ended j d" and "admin_constraints d" and "tk_session tok = Some j"
  shows "\<exists>m. resolve_admin t tok d = (Inl (UnauthorizedError m), d)"
proof -
  obtain z d' where r: "resolve_admin t tok d = (z, d')" by fastforce
  have "\<not> (s \<in> set (admin_sessions d) \<and> as_id s = j \<and> as_revoked s = None)" for s
    using assms(1,2) by (auto simp: session_ended_def admin_constraints_def distinct_map inj_on_def)
  then show ?thesis using resolve_cases [OF r] assms(3) r by force
qed

lemma all_revoked:
  assumes "s \<in> set (admin_sessions d)" and "as_user s = i"
  shows "session_ended (as_id s) (revoke_all_admin_sessions t i (put_admin u d))"
proof -
  have "revoke_session t i s \<in> set (admin_sessions (revoke_all_admin_sessions t i (put_admin u d)))"
    using assms(1) by (simp add: revoke_all_admin_sessions_def)
  moreover have "as_id (revoke_session t i s) = as_id s" "as_revoked (revoke_session t i s) \<noteq> None"
    using assms(2) by (auto simp: revoke_session_def)
  ultimately show ?thesis unfolding session_ended_def by blast
qed

section \<open>System roles\<close>

definition roles_kept :: "admin_db \<Rightarrow> admin_db \<Rightarrow> bool" where
  "roles_kept d e \<longleftrightarrow> (admin_constraints d \<longrightarrow> admin_constraints e \<and>
     (\<forall>r \<in> set (admin_roles d). role_system r \<longrightarrow> r \<in> set (admin_roles e) \<and>
        (\<forall>c. (role_id r, c) \<in> set (role_permissions d) \<longrightarrow> (role_id r, c) \<in> set (role_permissions e))))"

lemma roles_kept_refl [simp]: "roles_kept d d"
  by (simp add: roles_kept_def)

lemma roles_kept_trans: "roles_kept d e \<Longrightarrow> roles_kept e f \<Longrightarrow> roles_kept d f"
  by (simp add: roles_kept_def)

lemma roles_kept_same:
  "admin_roles e = admin_roles d \<Longrightarrow> role_permissions e = role_permissions d \<Longrightarrow> admin_constraints e \<Longrightarrow> roles_kept d e"
  by (simp add: roles_kept_def)

lemma roles_saved:
  "save_admins d e x = (r, d') \<Longrightarrow> admin_roles e = admin_roles d \<Longrightarrow> role_permissions e = role_permissions d \<Longrightarrow> roles_kept d d'"
  by (auto dest!: save_cases intro: roles_kept_same)

lemma roles_put_session: "roles_kept d (put_admin_session s d)"
  by (simp add: roles_kept_def put_session_constraints)

lemma roles_in_order:
  "create_admin_user env mail name p roles d = (x, d') \<Longrightarrow> roles_kept d d'"
  "initialize_super_admin_from_env env name mail p d = (y, d') \<Longrightarrow> roles_kept d d'"
  "update_admin_user operator i m status roles' d = (u, d') \<Longrightarrow> roles_kept d d'"
  "disable_admin_user i d = (u, d') \<Longrightarrow> roles_kept d d'"
  "enable_admin_user i d = (u, d') \<Longrightarrow> roles_kept d d'"
  "delete_admin_user env operator i d = (u, d') \<Longrightarrow> roles_kept d d'"
  "reset_admin_user_password env i p d = (u, d') \<Longrightarrow> roles_kept d d'"
  "change_own_password env i old p d = (u, d') \<Longrightarrow> roles_kept d d'"
  "revoke_admin_sessions env i d = (n, d') \<Longrightarrow> roles_kept d d'"
  "password_login env name p d = (tk, d') \<Longrightarrow> roles_kept d d'"
  "resolve_admin t tok d = (z, d') \<Longrightarrow> roles_kept d d'"
proof -
  show "create_admin_user env mail name p roles d = (x, d') \<Longrightarrow> roles_kept d d'"
    by (drule create_cases) (auto intro: roles_kept_same)
  show "initialize_super_admin_from_env env name mail p d = (y, d') \<Longrightarrow> roles_kept d d'"
    by (auto simp: initialize_super_admin_from_env_def Let_def elim!: roles_saved split: option.splits sum.splits if_splits)
  show "update_admin_user operator i m status roles' d = (u, d') \<Longrightarrow> roles_kept d d'"
    by (drule update_cases) (auto intro!: roles_kept_same split: option.splits)
  show "disable_admin_user i d = (u, d') \<Longrightarrow> roles_kept d d'"
    by (auto simp: disable_admin_user_def Let_def elim!: roles_saved split: sum.splits if_splits)
  show "enable_admin_user i d = (u, d') \<Longrightarrow> roles_kept d d'"
    by (auto simp: enable_admin_user_def elim!: roles_saved split: sum.splits if_splits)
  show "delete_admin_user env operator i d = (u, d') \<Longrightarrow> roles_kept d d'"
    by (auto simp: delete_admin_user_def Let_def elim!: roles_saved split: sum.splits if_splits)
  show "reset_admin_user_password env i p d = (u, d') \<Longrightarrow> roles_kept d d'"
    by (auto simp: reset_admin_user_password_def elim!: roles_saved split: sum.splits if_splits)
  show "change_own_password env i old p d = (u, d') \<Longrightarrow> roles_kept d d'"
    by (auto simp: change_own_password_def elim!: roles_saved split: sum.splits if_splits)
  show "revoke_admin_sessions env i d = (n, d') \<Longrightarrow> roles_kept d d'"
    by (auto simp: revoke_admin_sessions_def elim!: roles_saved split: sum.splits if_splits)
  show "password_login env name p d = (tk, d') \<Longrightarrow> roles_kept d d'"
    by (auto simp: password_login_def Let_def elim!: roles_saved split: sum.splits option.splits if_splits)
  show "resolve_admin t tok d = (z, d') \<Longrightarrow> roles_kept d d'"
    by (drule resolve_cases) (auto intro: roles_put_session)
qed

lemma roles_logged_out: "logout t tok d = (u, d') \<Longrightarrow> roles_kept d d'"
  by (auto simp: logout_def intro: roles_put_session roles_in_order(11) roles_kept_trans split: sum.splits prod.splits)

lemma roles_role_created: "create_role env code codes d = (u, d') \<Longrightarrow> roles_kept d d'"
  by (auto simp: create_role_def Let_def replace_role_permissions_def save_admins_def roles_kept_def admin_constraints_def
      image_iff split: if_splits sum.splits) metis

lemma roles_role_updated:
  assumes "update_role code codes d = (u, d')" shows "roles_kept d d'"
proof (cases "d' = d")
  case False
  then obtain r cs where r: "find_role code d = Some r" "\<not> role_system r" and ok: "admin_constraints d'"
    and d': "d' = d\<lparr>role_permissions := filter (\<lambda>q. fst q \<noteq> role_id r) (role_permissions d) @ map (\<lambda>c. (role_id r, c)) cs\<rparr>"
    using assms by (auto simp: update_role_def replace_role_permissions_def save_admins_def split: if_splits option.splits sum.splits)
  have "role_id s \<noteq> role_id r" if "admin_constraints d" "s \<in> set (admin_roles d)" "role_system s" for s
    using same_role [OF that(1,2), of r] find_role_in [OF r(1)] r(2) that(3) by auto
  then show ?thesis using ok by (simp add: roles_kept_def d')
qed simp

lemma roles_role_deleted:
  assumes "delete_role code d = (u, d')" shows "roles_kept d d'"
proof (cases "d' = d")
  case False
  then obtain r where r: "find_role code d = Some r" "\<not> role_system r" and ok: "admin_constraints d'"
    and d': "d' = d\<lparr>role_permissions := filter (\<lambda>q. fst q \<noteq> role_id r) (role_permissions d),
       admin_roles := filter (\<lambda>x. role_id x \<noteq> role_id r) (admin_roles d)\<rparr>"
    using assms by (auto simp: delete_role_def save_admins_def split: if_splits option.splits)
  have "role_id s \<noteq> role_id r" if "admin_constraints d" "s \<in> set (admin_roles d)" "role_system s" for s
    using same_role [OF that(1,2), of r] find_role_in [OF r(1)] r(2) that(3) by auto
  then show ?thesis using ok by (simp add: roles_kept_def d')
qed simp

lemma ensure_roles_system:
  "r \<in> set (admin_roles d) \<Longrightarrow> role_system r \<Longrightarrow>
     r \<in> set (admin_roles (ensure_roles ss is d)) \<and> role_permissions (ensure_roles ss is d) = role_permissions d"
  by (induction ss "is" d rule: ensure_roles.induct) (force split: option.split)+

lemma ensure_role_permissions_grow:
  "set (role_permissions d) \<subseteq> set (role_permissions (ensure_role_permissions ss d))"
  by (induction ss d rule: ensure_role_permissions.induct) (auto split: option.splits)

lemma roles_defaults: "initialize_defaults ids d = (u, d') \<Longrightarrow> roles_kept d d'"
  using ensure_role_permissions_grow ensure_roles_system [of _ "ensure_permissions d" default_roles ids]
  by (fastforce simp: initialize_defaults_def roles_kept_def ensure_role_permissions_keep ensure_permissions_def dest!: save_cases)

lemma roles_step: "admin_step ok d e \<Longrightarrow> roles_kept d e"
  by (induction rule: admin_step.induct)
    (erule roles_in_order roles_logged_out roles_role_created roles_role_updated roles_role_deleted roles_defaults
     | simp add: roles_kept_def admin_constraints_def)+

interpretation role_history: admin_history ok roles_kept for ok
  by unfold_locales (auto intro: roles_kept_trans roles_step)

end
