(* ===== verification/Admin_Props.thy ===== *)
theory Admin_Props
  imports Admin_History
begin

text \<open>
  The properties of the administration, each with an office of two administrators as its witness.
\<close>

section \<open>An office\<close>

definition office_env :: admin_env where
  "office_env = \<lparr>ad_now = 9000000, ad_hash = (\<lambda>p s n. p @ s), ad_salt = ''salt'', ad_new_id = 3\<rparr>"

definition clerk :: admin_user where
  "clerk = \<lparr>au_id = 2, au_username = ''clerk'', au_email = ''c@x'', au_password = ''clerk1s'', au_salt = ''s'', au_version = 2,
     au_changed = None, au_status = ''active'', au_deleted_by = None, au_last_login = None\<rparr>"

definition clerk_agent :: admin_agent where
  "clerk_agent = \<lparr>ag_id = 7, ag_owner = 2, ag_granted = [''schedule_task:create''], ag_policy = [(''schedule_task'', ''autonomous'')],
     ag_enabled = True\<rparr>"

definition clerk_session :: admin_session where
  "clerk_session = \<lparr>as_id = 5, as_user = 2, as_created = 0, as_active = 0, as_expires = None, as_revoked = None\<rparr>"

definition office :: admin_db where
  "office = \<lparr>
     admin_users = [clerk\<lparr>au_id := 1, au_username := ''boss'', au_email := ''b@x''\<rparr>, clerk],
     admin_sessions = [clerk_session],
     admin_roles = [\<lparr>role_id = 10, role_code = super_admin, role_system = True\<rparr>, \<lparr>role_id = 11, role_code = ''operator'', role_system = True\<rparr>],
     user_roles = [(1, 10), (2, 11)],
     permission_rows = [''schedule_task:read'', ''schedule_task:create''],
     role_permissions = [(11, ''schedule_task:read''), (11, ''schedule_task:create'')],
     admin_agents = [clerk_agent]\<rparr>"

lemma office_ok: "admin_constraints office"
  by code_simp

lemma office_super: "super_one 1 office"
proof -
  have "holder office i \<longleftrightarrow> i = 1" for i
    by (auto simp: holder_def get_role_codes_def office_def super_admin_def)
  then show ?thesis using office_ok by (auto simp: super_one_def office_def clerk_def)
qed

section \<open>The super administrator\<close>

lemma active_super_id:
  assumes "super_one S d" and "get_active_super_admin_user exclude d = Inr (Some u)" shows "au_id u = S"
proof -
  have "u \<in> set (filter (\<lambda>u. super_admin \<in> set (get_role_codes (au_id u) d) \<and> au_status u = ''active'' \<and> exclude \<noteq> Some (au_id u))
      (admin_users d))"
    using assms(2) by (simp add: get_active_super_admin_user_def one_or_none_Some)
  then show ?thesis using assms(1) by (simp add: holder_super)
qed

text \<open>
  C8. There is one super administrator.  While the requests name roles without white space around their
  codes, no history of requests (administrators created, changed, disabled, deleted, logged in and out,
  roles created, changed and deleted, defaults initialized again) gives the role to a second administrator,
  takes it from the first or makes the first inactive; the query for the active one always finds it.
\<close>

theorem one_super_admin:
  assumes "super_one S d" and "(admin_step plain_codes_only)\<^sup>*\<^sup>* d e"
  shows "{i. super_admin \<in> set (get_role_codes i e)} = {S} \<and>
    (\<exists>u. get_active_super_admin_user None e = Inr (Some u) \<and> au_id u = S)"
proof -
  have one: "super_one S e" using plain_history.history [OF assms(2)] assms(1) by blast
  then obtain u where "get_active_super_admin_user None e = Inr (Some u)" using active_super(2) [OF one] by blast
  then show ?thesis using one active_super_id [OF one] by (auto simp: super_one_def holder_def)
qed

theorem one_super_admin_witness:
  "{i. super_admin \<in> set (get_role_codes i (snd (create_admin_user office_env ''d@x'' ''dora'' ''dora-12'' [''operator''] office)))} = {1} \<and>
   fst (create_admin_user office_env ''d@x'' ''dora'' ''dora-12'' [''operator''] office) = Inr 3"
proof -
  obtain x e where run: "create_admin_user office_env ''d@x'' ''dora'' ''dora-12'' [''operator''] office = (x, e)" by fastforce
  have "plain_codes_only [''operator'']" by code_simp
  then have "(admin_step plain_codes_only)\<^sup>*\<^sup>* office e" using created run by blast
  moreover have "fst (create_admin_user office_env ''d@x'' ''dora'' ''dora-12'' [''operator''] office) = Inr 3" by code_simp
  ultimately show ?thesis using one_super_admin [OF office_super] run by simp
qed



section \<open>Sessions\<close>

text \<open>
  C17. A changed or reset password and a deletion end every session.  Once such a request has succeeded,
  no token of a session the administrator had is accepted again, after any further requests (a new
  login, enabling the administrator and another change included), and the refusal changes nothing.
\<close>

theorem ended_session_never_accepted:
  assumes "admin_constraints d" and "s \<in> set (admin_sessions d)" and "as_user s = i"
    and "reset_admin_user_password env i p d = (Inr (), d') \<or> change_own_password env i old p d = (Inr (), d') \<or>
      delete_admin_user env operator i d = (Inr (), d')"
    and "(admin_step ok)\<^sup>*\<^sup>* d' e" and "tk_session tok = Some (as_id s)"
  shows "\<exists>m. resolve_admin t tok e = (Inl (UnauthorizedError m), e)"
proof -
  have "\<exists>u. d' = revoke_all_admin_sessions (ad_now env) i (put_admin u d) \<and> admin_constraints d'"
    using assms(4)
    by (auto simp: reset_admin_user_password_def change_own_password_def delete_admin_user_def Let_def save_admins_def
        split: sum.splits if_splits)
  then have "session_ended (as_id s) d'" "admin_constraints d'" using all_revoked [OF assms(2,3)] by auto
  then have "session_ended (as_id s) e" "admin_constraints e"
    using any_history.history [OF assms(5)] by (auto simp: ended_kept_def)
  then show ?thesis using ended_refused assms(6) by blast
qed

theorem ended_session_never_accepted_witness:
  "fst (resolve_admin 1000000 \<lparr>tk_realm = ''admin'', tk_sub = Some 2, tk_session = Some 5\<rparr> office) \<noteq> Inl (UnauthorizedError ''session'') \<and>
   (\<exists>m. fst (resolve_admin 9000000 \<lparr>tk_realm = ''admin'', tk_sub = Some 2, tk_session = Some 5\<rparr>
     (snd (enable_admin_user 2 (snd (reset_admin_user_password office_env 2 ''new-pass-1'' office))))) = Inl (UnauthorizedError m))"
proof -
  let ?d = "snd (reset_admin_user_password office_env 2 ''new-pass-1'' office)"
  have "fst (reset_admin_user_password office_env 2 ''new-pass-1'' office) = Inr ()" by code_simp
  then have reset: "reset_admin_user_password office_env 2 ''new-pass-1'' office = (Inr (), ?d)" by (metis prod.collapse)
  have step: "(admin_step (\<lambda>cs. True))\<^sup>*\<^sup>* ?d (snd (enable_admin_user 2 ?d))"
    using enabled [of 2 ?d "fst (enable_admin_user 2 ?d)" "snd (enable_admin_user 2 ?d)"] by auto
  have s: "clerk_session \<in> set (admin_sessions office)" "as_user clerk_session = 2" by (simp_all add: office_def clerk_session_def)
  have "fst (resolve_admin 1000000 \<lparr>tk_realm = ''admin'', tk_sub = Some 2, tk_session = Some 5\<rparr> office) \<noteq> Inl (UnauthorizedError ''session'')"
    by code_simp
  then show ?thesis
    using ended_session_never_accepted [OF office_ok s disjI1 [OF reset] step, where tok = "\<lparr>tk_realm = ''admin'', tk_sub = Some 2, tk_session = Some 5\<rparr>" and t = 9000000]
    by (auto simp: clerk_session_def)
qed

section \<open>Roles\<close>

text \<open>
  C30. A system role keeps its grants.  Whatever requests follow, a system role stays in the table as it
  is and keeps every permission it had: updating and deleting it are refused, and initializing the
  defaults again only adds.
\<close>

theorem system_role_keeps_grants:
  assumes "admin_constraints d" and "r \<in> set (admin_roles d)" and "role_system r" and "(admin_step ok)\<^sup>*\<^sup>* d e"
  shows "r \<in> set (admin_roles e) \<and>
    {c. (role_id r, c) \<in> set (role_permissions d)} \<subseteq> {c. (role_id r, c) \<in> set (role_permissions e)}"
  using role_history.history [OF assms(4)] assms(1-3) by (auto simp: roles_kept_def)

theorem system_role_keeps_grants_witness:
  "\<lparr>role_id = 11, role_code = ''operator'', role_system = True\<rparr> \<in> set (admin_roles (snd (delete_role ''operator'' office)))"
proof -
  have "(admin_step (\<lambda>cs. True))\<^sup>*\<^sup>* office (snd (delete_role ''operator'' office))"
    using role_deleted [of "''operator''" office "fst (delete_role ''operator'' office)" "snd (delete_role ''operator'' office)"] by auto
  then show ?thesis
    using system_role_keeps_grants [OF office_ok, of "\<lparr>role_id = 11, role_code = ''operator'', role_system = True\<rparr>"]
    by (simp add: office_def)
qed

section \<open>Agents\<close>

text \<open>What a principal rests on, and what the gate has checked.\<close>

lemma principal_cases:
  "get_principal agent admin permissions d = Inr (Some p) \<Longrightarrow>
     \<exists>a \<in> set (admin_agents d). ag_id a = agent \<and> ag_owner a = admin \<and> ag_enabled a \<and>
       p = \<lparr>pr_admin = admin, pr_agent = agent,
            pr_permissions = permissions \<inter> set (ag_granted a) \<inter> assignable_permissions, pr_policy = valid_levels (ag_policy a)\<rparr>"
  by (auto simp: get_principal_def get_agent_def compute_effective_permissions_def dest!: found
      split: sum.splits option.splits if_splits)

lemma allowed_cases:
  "assert_board_allowed p board action = Inr b \<Longrightarrow>
     resolve_action board action = Inr b \<and> ba_permission b \<in> pr_permissions p \<and> automation_level_for p board \<noteq> Blocked"
  by (auto simp: assert_board_allowed_def has_permission_def split: sum.splits if_splits)

lemma audit_simps [simp]:
  "aw_rest (audit p board action mark w) = aw_rest w" "aw_drafts (audit p board action mark w) = aw_drafts w"
  "aw_rest (create_draft board admin agent w) = aw_rest w"
  by (simp_all add: audit_def create_draft_def)



text \<open>
  An agent cannot administer the administrators.  Every permission of a principal is one its
  administrator holds and granted, names a resource of the allowed list, is none of the permissions on
  administrators, roles and permissions, and on the users of the platform it only reads.
\<close>

theorem agent_never_administers:
  assumes "get_principal agent admin permissions d = Inr (Some p)" and "has_permission p code"
  shows "code \<in> permissions \<and> code \<notin> set banned_permission_codes \<and>
    (\<exists>s. permission_by_code code = Some s \<and> perm_resource s \<in> set assignable_resources \<and>
       (perm_resource s = ''user'' \<longrightarrow> perm_action s = ''read'')) \<and>
    (\<exists>a \<in> set (admin_agents d). ag_id a = agent \<and> ag_owner a = admin \<and> code \<in> set (ag_granted a))"
proof -
  obtain a where a: "a \<in> set (admin_agents d)" "ag_id a = agent" "ag_owner a = admin"
    and code: "code \<in> permissions" "code \<in> set (ag_granted a)" "is_assignable code"
    using principal_cases [OF assms(1)] assms(2) by (auto simp: has_permission_def assignable_iff)
  then show ?thesis
    by (auto simp: is_assignable_def read_only_assignable_resources_def split: if_splits option.splits)
qed

theorem agent_never_administers_witness:
  "''schedule_task:create'' \<notin> set banned_permission_codes \<and>
   (\<exists>p. get_principal 7 2 {''schedule_task:create''} office = Inr (Some p) \<and> has_permission p ''schedule_task:create'')"
proof -
  have "is_assignable ''schedule_task:create''" by code_simp
  then have "\<exists>p. get_principal 7 2 {''schedule_task:create''} office = Inr (Some p) \<and> has_permission p ''schedule_task:create''"
    by (simp add: get_principal_def get_agent_def office_def clerk_agent_def compute_effective_permissions_def has_permission_def assignable_iff)
  then show ?thesis using agent_never_administers by blast
qed

lemma principal_same:
  "admin_agents e = admin_agents d \<Longrightarrow> get_principal agent admin permissions e = get_principal agent admin permissions d"
  by (simp add: get_principal_def get_agent_def)

lemma pruned:
  "ag_owner (prune_agent i admin a) = ag_owner a" "ag_granted (prune_agent (ag_owner a) {} a) = []"
  by (simp_all add: prune_agent_def)

lemma find_replaced:
  "find (\<lambda>u. au_id u = au_id v) (map (\<lambda>w. if au_id w = au_id v then v else w) us) =
     (if \<exists>u \<in> set us. au_id u = au_id v then Some v else None)"
  by (induction us) auto

lemma put_admin_found: "find_admin i d = Inr u \<Longrightarrow> au_id v = i \<Longrightarrow> find_admin i (put_admin v d) = Inr v"
  using find_admin_in [of i d u] by (auto simp: find_admin_def put_admin_def find_replaced)

lemma put_admin_constraints:
  assumes ok: "admin_constraints d" and u: "find_admin i d = Inr u"
    and v: "au_id v = i" "au_username v = au_username u" "au_email v = au_email u"
  shows "admin_constraints (put_admin v d)"
proof -
  have "(if au_id w = au_id v then v else w) = (if w = u then v else w)" if "w \<in> set (admin_users d)" for w
    using same_admin [OF ok that, of u] find_admin_in [OF u] v(1) by metis
  then have users: "admin_users (put_admin v d) = map (\<lambda>w. if w = u then v else w) (admin_users d)"
    by (simp add: put_admin_def)
  have "au_id u = i" using find_admin_in [OF u] by simp
  then have "map au_id (admin_users (put_admin v d)) = map au_id (admin_users d)"
    "map au_username (admin_users (put_admin v d)) = map au_username (admin_users d)"
    "map au_email (admin_users (put_admin v d)) = map au_email (admin_users d)"
    using v by (simp_all add: users)
  then show ?thesis using ok by (simp add: admin_constraints_def)
qed

text \<open>
  C29. Deleting an administrator leaves its agents their permissions.  After a deletion a scheduled task of
  an agent runs with the permissions it had before, since the deletion neither takes the roles nor prunes the
  grants, and nothing asks for the owner's status; disabling instead leaves every agent of the
  administrator no permission.  Enabling a deleted administrator makes it active again with the same password.
\<close>

theorem deletion_keeps_agents:
  assumes "delete_admin_user env operator i d = (Inr (), e)" and "ag_owner a = i"
    and "disable_admin_user i d = (Inr (), f)"
  shows "scheduled_principal a e = scheduled_principal a d \<and>
    (\<forall>p code. scheduled_principal a f = Inr (Some p) \<longrightarrow> \<not> has_permission p code) \<and>
    (\<exists>u v g. find_admin i d = Inr u \<and> enable_admin_user i e = (Inr (), g) \<and> find_admin i g = Inr v \<and>
       au_status v = ''active'' \<and> au_password v = au_password u)"
proof (intro conjI)
  obtain u where u: "find_admin i d = Inr u" and e: "e = revoke_all_admin_sessions (ad_now env) i
      (put_admin (u\<lparr>au_status := ''deleted'', au_deleted_by := operator\<rparr>) d)" and ok: "admin_constraints e"
    using assms(1) by (auto simp: delete_admin_user_def Let_def save_admins_def split: sum.splits if_splits)
  have "get_permission_codes_for i e = get_permission_codes_for i d"
    using role_codes_cong [of e d i] by (simp add: e get_permission_codes_for_def get_permission_codes_def)
  then show "scheduled_principal a e = scheduled_principal a d"
    using principal_same [of e d] by (simp add: scheduled_principal_def assms(2) e)
  obtain w where f: "f = prune_revoked_permissions i {} (put_admin w d)"
    using assms(3) by (auto simp: disable_admin_user_def Let_def save_admins_def split: sum.splits if_splits)
  have "ag_granted b = []" if "b \<in> set (admin_agents f)" "ag_owner b = i" for b
  proof -
    have "b \<in> prune_agent i {} ` set (admin_agents d)" using that(1) by (simp add: f prune_revoked_permissions_def)
    then obtain x where "b = prune_agent i {} x" by blast
    then show ?thesis using that(2) pruned(2) [of x] by (simp add: pruned(1))
  qed
  then show "\<forall>p code. scheduled_principal a f = Inr (Some p) \<longrightarrow> \<not> has_permission p code"
    using assms(2) by (fastforce simp: scheduled_principal_def has_permission_def dest!: principal_cases)
  let ?u = "u\<lparr>au_status := ''deleted'', au_deleted_by := operator\<rparr>"
  have eu: "find_admin i e = Inr ?u" using put_admin_found [OF u, of ?u] find_admin_in [OF u] by (simp add: e find_admin_def)
  let ?g = "put_admin (?u\<lparr>au_status := ''active''\<rparr>) e"
  have "enable_admin_user i e = (Inr (), ?g)"
    using eu find_admin_in [OF u] put_admin_constraints [OF ok eu, of "?u\<lparr>au_status := ''active''\<rparr>"] by (simp add: enable_admin_user_def save_admins_def)
  moreover have "find_admin i ?g = Inr (?u\<lparr>au_status := ''active''\<rparr>)" using put_admin_found [OF eu] find_admin_in [OF u] by simp
  ultimately show "\<exists>u v g. find_admin i d = Inr u \<and> enable_admin_user i e = (Inr (), g) \<and> find_admin i g = Inr v \<and>
      au_status v = ''active'' \<and> au_password v = au_password u" using u by auto
qed

theorem deletion_keeps_agents_witness:
  "\<exists>p. scheduled_principal clerk_agent (snd (delete_admin_user office_env (Some 1) 2 office)) = Inr (Some p) \<and>
     has_permission p ''schedule_task:create''"
proof -
  have code: "''schedule_task:create'' \<in> assignable_permissions" "''schedule_task:create'' \<in> get_permission_codes_for 2 office"
    unfolding assignable_iff by code_simp+
  have "find (\<lambda>a. ag_id a = 7) (admin_agents office) = Some clerk_agent" by (simp add: office_def clerk_agent_def)
  then have agent: "get_agent 7 2 office = Inr (Some clerk_agent)" by (simp add: get_agent_def clerk_agent_def)
  have "scheduled_principal clerk_agent office = get_principal 7 2 (get_permission_codes_for 2 office) office"
    by (simp add: scheduled_principal_def clerk_agent_def)
  then have agents: "\<exists>p. scheduled_principal clerk_agent office = Inr (Some p) \<and> has_permission p ''schedule_task:create''"
    using code unfolding get_principal_def agent
    by (simp add: clerk_agent_def compute_effective_permissions_def has_permission_def)
  have "fst (delete_admin_user office_env (Some 1) 2 office) = Inr ()" by code_simp
  moreover have "fst (disable_admin_user 2 office) = Inr ()"
  proof -
    have u: "find_admin 2 office = Inr clerk" "get_role_codes 2 office = [''operator'']" by code_simp+
    have "admin_constraints (prune_revoked_permissions 2 {} (put_admin (clerk\<lparr>au_status := ''disabled''\<rparr>) office))"
      using put_admin_constraints [OF office_ok u(1), of "clerk\<lparr>au_status := ''disabled''\<rparr>"]
      by (simp add: admin_constraints_def clerk_def)
    then show ?thesis
      by (simp add: disable_admin_user_def u super_admin_def ensure_super_admin_still_available_def save_admins_def)
  qed
  ultimately have runs: "delete_admin_user office_env (Some 1) 2 office = (Inr (), snd (delete_admin_user office_env (Some 1) 2 office))"
    "disable_admin_user 2 office = (Inr (), snd (disable_admin_user 2 office))" by (metis prod.collapse)+
  have "ag_owner clerk_agent = 2" by (simp add: clerk_agent_def)
  then show ?thesis using deletion_keeps_agents [OF runs(1) _ runs(2)] agents by simp
qed

section \<open>What the checks let through\<close>

text \<open>The password is lowered before it is compared with a list that has capitals in it.\<close>

lemma weak_password_accepted: "check_new_password ''P@ssw0rd123'' = Inr () \<and> ''P@ssw0rd123'' \<in> set weak_admin_passwords"
  by code_simp

text \<open>White space around the name of a blocked board: the action is resolved, the policy is not.\<close>

lemma padded_board_drafts:
  assumes "dget (pr_policy p) ''schedule_task'' = Some Blocked" and "dget (pr_policy p) '' schedule_task'' = None"
    and "has_permission p ''schedule_task:create''"
  shows "assert_board_allowed p ''schedule_task'' ''create'' = Inl (PermissionError ''blocked'') \<and>
    fst (run_agent_action service p '' schedule_task'' ''create'' w) = Inr Drafted"
proof -
  have r: "resolve_action ''schedule_task'' ''create'' =
      Inr \<lparr>ba_board = ''schedule_task'', ba_action = ''create'', ba_kind = WriteAction, ba_permission = ''schedule_task:create''\<rparr>"
    "resolve_action '' schedule_task'' ''create'' = resolve_action ''schedule_task'' ''create''"
    by code_simp+
  show ?thesis
    using assms by (simp add: run_agent_action_def assert_board_allowed_def r automation_level_for_def is_write_def requires_draft_def)
qed

end
