(* ===== verification/Tool_Inventory.thy ===== *)
theory Tool_Inventory
  imports Db_Base Py_Base
begin

text \<open>
  Tools as the governance sees them: identifiers, metadata and their normalization
  (\<^verbatim>\<open>entity/tool_inventory_entity.py\<close>), the policy filter (\<^verbatim>\<open>service/tool_inventory_service.py\<close>) and the
  tools inside a composite tool (\<^verbatim>\<open>service/composite_tool_resolver.py\<close>).  Of the metadata the fields
  that decide about a tool are kept; tags, capabilities, rates and latencies are left out.  The ids in
  JSON columns are canonical texts, and the columns that hold lists hold lists.
\<close>

section \<open>Identifiers\<close>

definition build_tool_id :: "string \<Rightarrow> string list \<Rightarrow> string" where
  "build_tool_id source parts = join '':'' (source # parts)"

definition parse_tool_id :: "string \<Rightarrow> string \<times> string" where
  "parse_tool_id t = (case split_first CHR '':'' t of (a, None) \<Rightarrow> ([], t) | (a, Some b) \<Rightarrow> (a, b))"

section \<open>Metadata\<close>

definition risk_levels :: "string list" where
  "risk_levels = [''safe'', ''low'', ''medium'', ''high'', ''sensitive'', ''dangerous'']"

definition sensitive_risk_levels :: "string list" where
  "sensitive_risk_levels = [''sensitive'', ''dangerous'']"

record tool_meta =
  tm_pool :: string
  tm_risk :: string
  tm_scope :: string
  tm_cost :: string
  tm_health :: string
  tm_owner :: string
  tm_user_scope :: string
  tm_confirm :: bool
  tm_agent_pools :: "string list"
  tm_enabled :: bool

definition default_tool_metadata :: "(string \<times> pyval) list" where
  "default_tool_metadata =
     [(''tool_pool'', PStr ''general''), (''risk_level'', PStr ''medium''), (''permission_scope'', PStr ''user''),
      (''cost_level'', PStr ''medium''), (''health_status'', PStr ''healthy''), (''owner'', PStr ''system''),
      (''user_scope'', PStr ''owner''), (''requires_confirmation'', PBool False), (''allowed_agent_pools'', PList []),
      (''enabled'', PBool True)]"

definition normalize_string :: "pyval \<Rightarrow> string \<Rightarrow> string" where
  "normalize_string v d = (case v of PStr s \<Rightarrow> (if strip s = [] then d else strip s) | _ \<Rightarrow> d)"

definition normalize_choice :: "pyval \<Rightarrow> string list \<Rightarrow> string \<Rightarrow> string" where
  "normalize_choice v choices d = (case v of PStr s \<Rightarrow> (if strip s \<in> set choices then strip s else d) | _ \<Rightarrow> d)"

definition normalize_bool :: "pyval \<Rightarrow> bool" where
  "normalize_bool v =
     (case v of
        PBool b \<Rightarrow> b
      | PStr s \<Rightarrow> lower_text (strip s) \<in> {''1'', ''true'', ''yes'', ''on''}
      | _ \<Rightarrow> truthy v)"

fun string_list_step :: "string list \<Rightarrow> pyval list \<Rightarrow> string list" where
  "string_list_step acc [] = acc"
| "string_list_step acc (PStr s # xs) =
     string_list_step (if strip s \<noteq> [] \<and> strip s \<notin> set acc then acc @ [strip s] else acc) xs"
| "string_list_step acc (x # xs) = string_list_step acc xs"

definition normalize_string_list :: "pyval \<Rightarrow> string list" where
  "normalize_string_list v = (case v of PList xs \<Rightarrow> string_list_step [] xs | _ \<Rightarrow> [])"

definition normalize_tool_metadata :: "pyval \<Rightarrow> tool_meta" where
  "normalize_tool_metadata v =
     (let n = (case v of
                 PDict d \<Rightarrow> dmerge default_tool_metadata (filter (\<lambda>q. fst q \<in> set (dkeys default_tool_metadata)) d)
               | _ \<Rightarrow> default_tool_metadata);
          field = (\<lambda>k. opt_none (dget n k))
      in \<lparr>tm_pool = normalize_string (field ''tool_pool'') ''general'',
          tm_risk = normalize_choice (field ''risk_level'') risk_levels ''medium'',
          tm_scope = normalize_choice (field ''permission_scope'') [''system'', ''tenant'', ''project'', ''user'', ''public''] ''user'',
          tm_cost = normalize_choice (field ''cost_level'') [''low'', ''medium'', ''high''] ''medium'',
          tm_health = normalize_choice (field ''health_status'') [''healthy'', ''degraded'', ''unhealthy''] ''healthy'',
          tm_owner = normalize_string (field ''owner'') ''system'',
          tm_user_scope = normalize_choice (field ''user_scope'') [''owner'', ''shared'', ''public''] ''owner'',
          tm_confirm = normalize_bool (field ''requires_confirmation''),
          tm_agent_pools = normalize_string_list (field ''allowed_agent_pools''),
          tm_enabled = normalize_bool (field ''enabled'')\<rparr>)"

text \<open>The metadata of a tool as the dictionary it is.\<close>

definition meta_dict :: "tool_meta \<Rightarrow> pyval" where
  "meta_dict m = PDict
     [(''tool_pool'', PStr (tm_pool m)), (''risk_level'', PStr (tm_risk m)), (''permission_scope'', PStr (tm_scope m)),
      (''cost_level'', PStr (tm_cost m)), (''health_status'', PStr (tm_health m)), (''owner'', PStr (tm_owner m)),
      (''user_scope'', PStr (tm_user_scope m)), (''requires_confirmation'', PBool (tm_confirm m)),
      (''allowed_agent_pools'', PList (map PStr (tm_agent_pools m))), (''enabled'', PBool (tm_enabled m))]"

section \<open>The policy filter\<close>

record tool_candidate =
  tc_id :: string
  tc_name :: string
  tc_meta :: tool_meta

record tool_caller =
  cl_account :: "string option"
  cl_pool :: "string option"
  cl_budget :: string
  cl_confirmation :: bool

definition knowledge_tool_pools :: "string list" where
  "knowledge_tool_pools =
     [''knowledge'', ''system_knowledge_retriever'', ''user_memory_retriever'', ''user_content_retriever'',
      ''tenant_knowledge_retriever'', ''project_knowledge_retriever'']"

definition owner_allowed :: "tool_meta \<Rightarrow> string option \<Rightarrow> bool" where
  "owner_allowed m account = (tm_user_scope m \<noteq> ''owner'' \<or> tm_owner m = ''system'' \<or> Some (tm_owner m) = account)"

definition cost_order :: "string \<Rightarrow> nat" where
  "cost_order c = (if c = ''low'' then 1 else if c = ''high'' then 3 else 2)"

definition cost_allowed :: "string \<Rightarrow> string \<Rightarrow> bool" where
  "cost_allowed cost budget = (cost_order cost \<le> cost_order budget)"

definition reject_reason :: "tool_meta \<Rightarrow> tool_caller \<Rightarrow> string option" where
  "reject_reason m c =
     (if \<not> tm_enabled m then Some ''tool_disabled''
      else if tm_health m = ''unhealthy'' then Some ''tool_unhealthy''
      else if tm_risk m = ''dangerous'' then Some ''dangerous_tool_not_allowed''
      else if tm_pool m \<in> set knowledge_tool_pools \<and> \<not> owner_allowed m (cl_account c) then Some ''knowledge_scope_denied''
      else if tm_scope m = ''system'' then Some ''permission_scope_denied''
      else if \<not> owner_allowed m (cl_account c) then Some ''user_scope_denied''
      else if tm_risk m \<in> {''high'', ''sensitive''} \<and> tm_confirm m \<and> \<not> cl_confirmation c
      then Some ''high_risk_requires_confirmation''
      else if \<not> cost_allowed (tm_cost m) (cl_budget c) then Some ''cost_level_exceeds_budget''
      else if (case cl_pool c of None \<Rightarrow> False | Some p \<Rightarrow> p \<noteq> [] \<and> tm_agent_pools m \<noteq> [] \<and> p \<notin> set (tm_agent_pools m))
      then Some ''agent_pool_not_allowed''
      else None)"

text \<open>The filter normalizes the candidates in place; the answer are those accepted and those filtered out.\<close>

definition renormalized :: "tool_candidate \<Rightarrow> tool_candidate" where
  "renormalized c = c\<lparr>tc_meta := normalize_tool_metadata (meta_dict (tc_meta c))\<rparr>"

record filtered_tool =
  ft_id :: string
  ft_name :: string
  ft_reason :: string

definition policy_filter :: "tool_caller \<Rightarrow> tool_candidate list \<Rightarrow> tool_candidate list \<times> filtered_tool list" where
  "policy_filter caller cs =
     (filter (\<lambda>c. reject_reason (tc_meta c) caller = None) (map renormalized cs),
      List.map_filter (\<lambda>c. map_option (\<lambda>r. \<lparr>ft_id = tc_id c, ft_name = tc_name c, ft_reason = r\<rparr>) (reject_reason (tc_meta c) caller))
        (map renormalized cs))"

section \<open>The tools inside a tool\<close>

record component_ref =
  ref_tool :: string
  ref_source :: string
  ref_path :: string
  ref_recursive :: bool

record app_config =
  cf_tools :: "pyval list"
  cf_mcp :: "pyval list"
  cf_skills :: "pyval list"
  cf_knowledge :: "pyval list"
  cf_workflows :: "pyval list"
  cf_agents :: "pyval list"

record tool_app =
  app_public :: bool
  app_config_of :: "app_config option"

record tool_policy =
  tp_tool :: string
  tp_risk :: string
  tp_pools :: pyval
  tp_enabled :: bool
  tp_confirm :: bool

text \<open>Workflows by their id with the nodes of their graph, applications, and the policies.\<close>

record tool_world =
  tw_workflows :: "(string \<times> pyval list) list"
  tw_apps :: "(string \<times> tool_app) list"
  tw_policies :: "tool_policy list"

text \<open>\<open>str(d.get(k, "") or "")\<close>, and the first of two such that is not empty.\<close>

definition text_field :: "(string \<times> pyval) list \<Rightarrow> string \<Rightarrow> string" where
  "text_field d k = (let v = opt_none (dget d k) in if truthy v then py_str v else [])"

definition indexed_path :: "string \<Rightarrow> nat \<Rightarrow> string \<Rightarrow> string" where
  "indexed_path a i b = a @ ''['' @ nat_str i @ '']'' @ b"

definition atom :: "string \<Rightarrow> string list \<Rightarrow> string \<Rightarrow> component_ref option" where
  "atom source parts path =
     Some \<lparr>ref_tool = build_tool_id source parts, ref_source = source, ref_path = path, ref_recursive = False\<rparr>"

definition composite :: "string \<Rightarrow> string \<Rightarrow> string \<Rightarrow> component_ref" where
  "composite source i path = \<lparr>ref_tool = build_tool_id source [i], ref_source = source, ref_path = path, ref_recursive = True\<rparr>"

definition build_workflow_tool_ref :: "(string \<times> pyval) list \<Rightarrow> nat \<Rightarrow> component_ref option" where
  "build_workflow_tool_ref node i =
     (let kind = text_field node ''tool_type''; provider = text_field node ''provider_id''; tool = text_field node ''tool_id'';
          path = indexed_path ''workflow.nodes'' i ''.tool'' in
      if kind = ''builtin_tool'' then (if provider = [] \<or> tool = [] then None else atom ''builtin'' [provider, tool] path)
      else if kind = ''api_tool'' then (if tool = [] then None else atom ''api_tool'' [tool] path)
      else if kind = ''mcp'' then (if provider = [] \<or> tool = [] then None else atom ''mcp'' [provider, tool] path)
      else if kind = ''knowledge'' then (if tool = [] then None else atom ''knowledge'' [tool] path)
      else if kind = ''skill'' then (if tool = [] then None else atom ''skill'' [tool] path)
      else if kind = ''workflow'' then (if tool = [] then None else Some (composite ''workflow'' tool path))
      else if kind = ''agent_binding'' then (if tool = [] then None else Some (composite ''agent_binding'' tool path))
      else None)"

definition build_workflow_dataset_refs :: "(string \<times> pyval) list \<Rightarrow> nat \<Rightarrow> component_ref list" where
  "build_workflow_dataset_refs node i =
     (case dget node ''knowledge_base_ids'' of
        Some (PList ids) \<Rightarrow>
          List.map_filter (\<lambda>v. let t = strip (py_str v) in
              if t = [] then None else atom ''knowledge'' [t] (indexed_path ''workflow.nodes'' i ''.dataset_retrieval'')) ids
      | _ \<Rightarrow> [])"

definition node_kind_of :: "(string \<times> pyval) list \<Rightarrow> pyval" where
  "node_kind_of node =
     (let v = opt_none (dget node ''node_type'') in
      if truthy v then v else (case dget node ''type'' of None \<Rightarrow> PStr [] | Some x \<Rightarrow> x))"

definition node_refs :: "nat \<Rightarrow> pyval \<Rightarrow> component_ref list" where
  "node_refs i node =
     (case node of
        PDict d \<Rightarrow>
          if node_kind_of d = PStr ''tool'' then (case build_workflow_tool_ref d i of None \<Rightarrow> [] | Some r \<Rightarrow> [r])
          else if node_kind_of d = PStr ''dataset_retrieval'' then build_workflow_dataset_refs d i
          else []
      | _ \<Rightarrow> [])"

definition build_tools_field_ref :: "nat \<Rightarrow> pyval \<Rightarrow> component_ref list" where
  "build_tools_field_ref i item =
     (case item of
        PDict d \<Rightarrow>
          (let kind = text_field d ''type''; provider = text_field d ''provider_id''; tool = text_field d ''tool_id'';
               path = indexed_path ''agent_binding.app_config.tools'' i [] in
           if kind = ''builtin_tool'' \<and> provider \<noteq> [] \<and> tool \<noteq> []
           then [\<lparr>ref_tool = build_tool_id ''builtin'' [provider, tool], ref_source = ''builtin'', ref_path = path, ref_recursive = False\<rparr>]
           else if kind = ''api_tool'' \<and> tool \<noteq> []
           then [\<lparr>ref_tool = build_tool_id ''api_tool'' [tool], ref_source = ''api_tool'', ref_path = path, ref_recursive = False\<rparr>]
           else [])
      | _ \<Rightarrow> [])"

text \<open>\<open>d.get(a) or d.get(b) or \<dots> or ""\<close> as text.\<close>

fun first_text :: "(string \<times> pyval) list \<Rightarrow> string list \<Rightarrow> string" where
  "first_text d [] = []"
| "first_text d (k # ks) = (if truthy (opt_none (dget d k)) then py_str (opt_none (dget d k)) else first_text d ks)"

definition item_text :: "string list \<Rightarrow> pyval \<Rightarrow> string" where
  "item_text keys v =
     (case v of PDict d \<Rightarrow> strip (first_text d keys) | _ \<Rightarrow> if truthy v then strip (py_str v) else [])"

definition mcp_ref :: "nat \<Rightarrow> pyval \<Rightarrow> component_ref list" where
  "mcp_ref i item =
     (case item of
        PDict d \<Rightarrow>
          (let key = first_text d [''provider_key'', ''name''] in
           if key = [] then []
           else [\<lparr>ref_tool = build_tool_id ''mcp'' [key], ref_source = ''mcp'',
                  ref_path = indexed_path ''agent_binding.app_config.mcp_bindings'' i [], ref_recursive = False\<rparr>])
      | _ \<Rightarrow> [])"

definition skill_ref :: "nat \<Rightarrow> pyval \<Rightarrow> component_ref list" where
  "skill_ref i item =
     (let s = item_text [''skill_id'', ''id'', ''name''] item in
      if s = [] then []
      else [\<lparr>ref_tool = build_tool_id ''skill'' [s], ref_source = ''skill'',
             ref_path = indexed_path ''agent_binding.app_config.skills'' i [], ref_recursive = False\<rparr>])"

definition knowledge_ids :: "pyval list \<Rightarrow> string list" where
  "knowledge_ids ids = filter (\<lambda>t. t \<noteq> []) (map (\<lambda>v. if truthy v then strip (py_str v) else []) ids)"

definition knowledge_ref :: "nat \<Rightarrow> string \<Rightarrow> component_ref list" where
  "knowledge_ref i k =
     [\<lparr>ref_tool = build_tool_id ''knowledge'' [k], ref_source = ''knowledge'',
       ref_path = indexed_path ''agent_binding.app_config.knowledge_base_ids'' i [], ref_recursive = False\<rparr>]"

definition workflow_ref :: "nat \<Rightarrow> pyval \<Rightarrow> component_ref list" where
  "workflow_ref i item =
     (let w = item_text [''id'', ''workflow_id''] item in
      if w = [] then [] else [composite ''workflow'' w (indexed_path ''agent_binding.app_config.workflows'' i [])])"

definition agent_ref :: "nat \<Rightarrow> pyval \<Rightarrow> component_ref list" where
  "agent_ref i item =
     (case item of
        PDict d \<Rightarrow>
          (let a = strip (text_field d ''app_id'') in
           if a = [] then [] else [composite ''agent_binding'' a (indexed_path ''agent_binding.app_config.agent_bindings'' i [])])
      | _ \<Rightarrow> [])"

definition enumerated :: "(nat \<Rightarrow> 'a \<Rightarrow> component_ref list) \<Rightarrow> 'a list \<Rightarrow> component_ref list" where
  "enumerated f xs = concat (map (\<lambda>q. f (fst q) (snd q)) (List.enumerate 0 xs))"

text \<open>The references a composite tool makes itself, in the order the resolver meets them.\<close>

definition direct_refs :: "tool_world \<Rightarrow> string \<Rightarrow> component_ref list" where
  "direct_refs w t =
     (case parse_tool_id t of (source, i) \<Rightarrow>
        if source = ''workflow'' then (case dget (tw_workflows w) i of None \<Rightarrow> [] | Some nodes \<Rightarrow> enumerated node_refs nodes)
        else if source = ''agent_binding''
        then (case dget (tw_apps w) i of
                None \<Rightarrow> []
              | Some a \<Rightarrow>
                  if app_public a then []
                  else (case app_config_of a of
                          None \<Rightarrow> []
                        | Some c \<Rightarrow>
                            enumerated build_tools_field_ref (cf_tools c) @ enumerated mcp_ref (cf_mcp c) @
                            enumerated skill_ref (cf_skills c) @ enumerated knowledge_ref (knowledge_ids (cf_knowledge c)) @
                            enumerated workflow_ref (cf_workflows c) @ enumerated agent_ref (cf_agents c)))
        else [])"

fun expand_refs ::
  "(string \<Rightarrow> string list \<Rightarrow> component_ref list \<times> string list) \<Rightarrow> component_ref list \<Rightarrow> string list \<Rightarrow> component_ref list \<times> string list" where
  "expand_refs inner [] visited = ([], visited)"
| "expand_refs inner (r # rs) visited =
     (case (if ref_recursive r then inner (ref_tool r) visited else ([], visited)) of (cs, v1) \<Rightarrow>
      case expand_refs inner rs v1 of (ds, v2) \<Rightarrow> (r # cs @ ds, v2))"

text \<open>The first argument is the depth that is left.\<close>

primrec resolve_recursive :: "tool_world \<Rightarrow> nat \<Rightarrow> string \<Rightarrow> string list \<Rightarrow> component_ref list \<times> string list" where
  "resolve_recursive w 0 = (\<lambda>t visited. ([], visited))"
| "resolve_recursive w (Suc n) = (\<lambda>t visited.
     if t \<in> set visited then ([], visited)
     else expand_refs (resolve_recursive w n) (direct_refs w t) (t # visited))"

definition max_resolve_depth :: nat where "max_resolve_depth = 8"

definition resolve_composite :: "tool_world \<Rightarrow> string \<Rightarrow> component_ref list" where
  "resolve_composite w t = fst (resolve_recursive w max_resolve_depth t [])"

end
