(* ===== verification/Tool_Gate.thy ===== *)
theory Tool_Gate
  imports Tool_Inventory
begin

text \<open>
  The governance gate in front of the tools of an agent: its stages
  (\<^verbatim>\<open>service/governance_mode_resolver.py\<close>), the gate (\<^verbatim>\<open>service/runtime_tool_governance_gate.py\<close>) and its use
  when the tools of an application are built (\<^verbatim>\<open>service/app_runtime_service.py\<close>).  Policies have no column
  for the health of a tool, so the gate reads the default.  Counts and copies of arguments in the audit
  are left out.
\<close>

section \<open>Stages\<close>

datatype governance_stage = Disabled | ObserveOnly | BlockSensitive | BlockAll

text \<open>The flags that were found, or nothing when the query failed.\<close>

definition query_flags :: "(string \<times> bool) list option \<Rightarrow> (string \<times> bool) list" where
  "query_flags rows = (case rows of None \<Rightarrow> [] | Some r \<Rightarrow> r)"

definition resolve_mode :: "(string \<times> bool) list option \<Rightarrow> governance_stage" where
  "resolve_mode rows =
     (let flags = query_flags rows in
      if dget_or flags ''ENABLE_POOL_GOVERNANCE_BLOCK_ALL'' False then BlockAll
      else if dget_or flags ''ENABLE_POOL_GOVERNANCE_BLOCK_SENSITIVE'' False then BlockSensitive
      else if \<not> dget_or flags ''ENABLE_POOL_GOVERNANCE_OBSERVE_ONLY'' True then Disabled
      else ObserveOnly)"

section \<open>The identity of a tool\<close>

record runtime_tool =
  rt_name :: string
  rt_metadata :: pyval

definition name_prefixes :: "(string \<times> string) list" where
  "name_prefixes = [(''wf_'', ''workflow''), (''skill__'', ''skill''), (''agent_app_'', ''agent_binding'')]"

definition unresolved_id :: "string \<Rightarrow> string \<Rightarrow> string" where
  "unresolved_id source name = source @ '':__unresolved__'' @ name"

definition resolve_tool_id_and_source_type :: "(string \<times> string) list \<Rightarrow> runtime_tool \<Rightarrow> string \<times> string" where
  "resolve_tool_id_and_source_type hints tool =
     (let name = strip (rt_name tool) in
      case (if name = [] then None else dget hints name) of
        Some t \<Rightarrow> (t, fst (parse_tool_id t))
      | None \<Rightarrow>
          (case (case rt_metadata tool of PDict d \<Rightarrow> opt_none (dget d ''tool_id'') | _ \<Rightarrow> PNone) of
             PStr (c # cs) \<Rightarrow> (c # cs, fst (parse_tool_id (c # cs)))
           | _ \<Rightarrow>
               (case (if name = [] then None else find (\<lambda>q. starts_with name (fst q)) name_prefixes) of
                  Some q \<Rightarrow> (unresolved_id (snd q) name, snd q)
                | None \<Rightarrow> (unresolved_id ''unknown'' name, ''unknown''))))"

text \<open>The hints: only bound agents have a name that is known beforehand.\<close>

definition build_tool_id_hints :: "pyval list \<Rightarrow> (string \<times> string) list" where
  "build_tool_id_hints bindings =
     foldl (\<lambda>hints item.
       (case item of
          PDict d \<Rightarrow>
            (let a = strip (text_field d ''app_id'') in
             if a = [] then hints
             else dset (''agent_app_'' @ filter (\<lambda>c. c \<noteq> CHR ''-'') a) (build_tool_id ''agent_binding'' [a]) hints)
        | _ \<Rightarrow> hints)) [] bindings"

section \<open>Policies\<close>

definition query_policy :: "tool_world \<Rightarrow> string \<Rightarrow> exn + tool_policy option" where
  "query_policy w t = one_or_none (filter (\<lambda>p. tp_tool p = t) (tw_policies w))"

definition metadata_from_policy :: "tool_policy option \<Rightarrow> string \<Rightarrow> tool_meta" where
  "metadata_from_policy policy source =
     (let pool = (''tool_pool'', PStr (if source = [] then ''general'' else source)) in
      normalize_tool_metadata (PDict
        (case policy of
           None \<Rightarrow> [pool, (''enabled'', PBool True)]
         | Some p \<Rightarrow>
             [pool, (''risk_level'', PStr (tp_risk p)), (''enabled'', PBool (tp_enabled p)),
              (''requires_confirmation'', PBool (tp_confirm p)),
              (''allowed_agent_pools'', if truthy (tp_pools p) then tp_pools p else PList []),
              (''health_status'', PStr ''healthy'')])))"

definition load_governance_metadata :: "tool_world \<Rightarrow> component_ref \<Rightarrow> exn + tool_meta" where
  "load_governance_metadata w r =
     (case query_policy w (ref_tool r) of Inl e \<Rightarrow> Inl e | Inr p \<Rightarrow> Inr (metadata_from_policy p (ref_source r)))"

fun map_sum_list :: "('a \<Rightarrow> exn + 'b) \<Rightarrow> 'a list \<Rightarrow> exn + 'b list" where
  "map_sum_list f [] = Inr []"
| "map_sum_list f (x # xs) =
     (case f x of Inl e \<Rightarrow> Inl e | Inr y \<Rightarrow> (case map_sum_list f xs of Inl e \<Rightarrow> Inl e | Inr ys \<Rightarrow> Inr (y # ys)))"

definition risk_order :: "string \<Rightarrow> nat" where
  "risk_order r =
     (case find (\<lambda>q. snd q = r) (List.enumerate 0 risk_levels) of None \<Rightarrow> 2 | Some q \<Rightarrow> fst q)"

text \<open>\<open>max\<close> by the order of risks: the first of the greatest.\<close>

fun max_risk :: "string \<Rightarrow> string list \<Rightarrow> string" where
  "max_risk r [] = r"
| "max_risk r (x # xs) = max_risk (if risk_order r < risk_order x then x else r) xs"

section \<open>Composite tools\<close>

definition is_public_app :: "tool_world \<Rightarrow> string \<Rightarrow> bool" where
  "is_public_app w t =
     (case parse_tool_id t of (source, i) \<Rightarrow>
        source = ''agent_binding'' \<and> i \<noteq> [] \<and>
        (case dget (tw_apps w) i of None \<Rightarrow> False | Some a \<Rightarrow> app_public a))"

datatype member_view =
    BlackBox
  | NoMembers
  | Members "component_ref list" string bool "tool_meta list"

definition resolve_composite_risk :: "tool_world \<Rightarrow> string \<Rightarrow> tool_policy option \<Rightarrow> exn + member_view" where
  "resolve_composite_risk w t policy =
     (if is_public_app w t then Inr BlackBox
      else (case resolve_composite w t of
          [] \<Rightarrow> Inr NoMembers
        | r # rs \<Rightarrow>
            (case map_sum_list (load_governance_metadata w) (r # rs) of
               Inl e \<Rightarrow> Inl e
             | Inr ms \<Rightarrow>
                 (let worst = max_risk (tm_risk (hd ms)) (map tm_risk (tl ms));
                      risk = (case policy of None \<Rightarrow> worst | Some p \<Rightarrow> max_risk (tp_risk p) [worst]);
                      confirm = ((case policy of None \<Rightarrow> False | Some p \<Rightarrow> tp_confirm p) \<or> list_ex tm_confirm ms)
                  in Inr (Members (r # rs) risk confirm ms)))))"

record blocking =
  bl_block :: bool
  bl_reason :: string
  bl_confirm :: bool
  bl_confirm_reason :: string
  bl_risks :: "string list"

definition evaluate_composite_blocking :: "tool_meta list \<Rightarrow> blocking" where
  "evaluate_composite_blocking ms =
     (let verdict = (\<lambda>b r c cr. \<lparr>bl_block = b, bl_reason = r, bl_confirm = c, bl_confirm_reason = cr, bl_risks = map tm_risk ms\<rparr>) in
      if list_ex (\<lambda>m. tm_risk m = ''dangerous'') ms then verdict True ''member_dangerous'' False []
      else if list_ex (\<lambda>m. \<not> tm_enabled m) ms then verdict True ''member_disabled'' False []
      else if list_ex (\<lambda>m. tm_health m = ''unhealthy'') ms then verdict True ''member_unhealthy'' False []
      else if list_ex (\<lambda>m. tm_risk m = ''sensitive'') ms then verdict False [] True ''member_sensitive''
      else verdict False [] False [])"

section \<open>The gate\<close>

text \<open>What the gate finds out about one tool.\<close>

record judged_tool =
  jt_tool :: runtime_tool
  jt_id :: string
  jt_view :: "member_view option"
  jt_meta :: tool_meta

definition view_blocking :: "member_view option \<Rightarrow> blocking option" where
  "view_blocking v = (case v of Some (Members rs risk confirm ms) \<Rightarrow> Some (evaluate_composite_blocking ms) | _ \<Rightarrow> None)"

definition judged_metadata :: "tool_meta \<Rightarrow> member_view option \<Rightarrow> tool_meta" where
  "judged_metadata m v =
     (case v of
        Some (Members rs risk confirm ms) \<Rightarrow>
          m\<lparr>tm_risk := risk, tm_confirm := confirm \<or> bl_confirm (evaluate_composite_blocking ms)\<rparr>
      | _ \<Rightarrow> m)"

definition judge_id :: "tool_world \<Rightarrow> string \<Rightarrow> string \<Rightarrow> exn + member_view option \<times> tool_meta" where
  "judge_id w t source =
     (case query_policy w t of Inl e \<Rightarrow> Inl e | Inr policy \<Rightarrow>
       (let m = metadata_from_policy policy source in
        if source \<in> {''workflow'', ''agent_binding''}
        then (case resolve_composite_risk w t policy of
                Inl e \<Rightarrow> Inl e
              | Inr v \<Rightarrow> Inr (Some v, judged_metadata m (Some v)))
        else Inr (None, m)))"

definition judge_tool :: "tool_world \<Rightarrow> (string \<times> string) list \<Rightarrow> runtime_tool \<Rightarrow> exn + judged_tool" where
  "judge_tool w hints tool =
     (case resolve_tool_id_and_source_type hints tool of (t, source) \<Rightarrow>
      case judge_id w t source of
        Inl e \<Rightarrow> Inl e
      | Inr (v, m) \<Rightarrow> Inr \<lparr>jt_tool = tool, jt_id = t, jt_view = v, jt_meta = m\<rparr>)"

definition candidate_of :: "judged_tool \<Rightarrow> tool_candidate" where
  "candidate_of j =
     \<lparr>tc_id = jt_id j, tc_name = (let n = strip (rt_name (jt_tool j)) in if n = [] then jt_id j else n), tc_meta = jt_meta j\<rparr>"

definition must_block :: "judged_tool \<Rightarrow> bool" where
  "must_block j = (case view_blocking (jt_view j) of None \<Rightarrow> False | Some b \<Rightarrow> bl_block b)"

text \<open>The last candidate with an id gives its risk.\<close>

definition risk_by_tool_id :: "tool_candidate list \<Rightarrow> string \<Rightarrow> string option" where
  "risk_by_tool_id cs t = dget (rev (map (\<lambda>c. (tc_id c, tm_risk (tc_meta c))) cs)) t"

record gate_audit =
  ga_accepted :: "(string \<times> string) list"
  ga_filtered_out :: "filtered_tool list"
  ga_composite :: "(string \<times> member_view) list"

definition blocked_reasons :: "judged_tool list \<Rightarrow> filtered_tool list \<Rightarrow> filtered_tool list" where
  "blocked_reasons js out =
     foldl (\<lambda>items j. if must_block j
         then filter (\<lambda>x. ft_id x \<noteq> jt_id j) items @
           [\<lparr>ft_id = jt_id j, ft_name = strip (rt_name (jt_tool j)), ft_reason = bl_reason (the (view_blocking (jt_view j)))\<rparr>]
         else items) out js"

definition composite_audit :: "judged_tool list \<Rightarrow> (string \<times> member_view) list" where
  "composite_audit js =
     foldl (\<lambda>d j. case jt_view j of None \<Rightarrow> d | Some v \<Rightarrow> dset (jt_id j) v d) [] js"

definition apply_gate ::
  "tool_world \<Rightarrow> tool_caller \<Rightarrow> (string \<times> string) list \<Rightarrow> bool \<Rightarrow> bool \<Rightarrow> runtime_tool list \<Rightarrow>
     exn + runtime_tool list \<times> gate_audit" where
  "apply_gate w caller hints observe sensitive_only tools =
     (if tools = [] then Inr ([], \<lparr>ga_accepted = [], ga_filtered_out = [], ga_composite = []\<rparr>)
      else (case map_sum_list (judge_tool w hints) tools of
          Inl e \<Rightarrow> Inl e
        | Inr js \<Rightarrow>
            (let cs = map candidate_of js; (kept, out) = policy_filter caller cs;
                 blocked = (if observe then [] else map jt_id (filter must_block js));
                 accepted = filter (\<lambda>t. t \<notin> set blocked) (map tc_id kept);
                 out' = (if observe then out else blocked_reasons js out);
                 risk = risk_by_tool_id (map renormalized cs);
                 pass = (\<lambda>j. if observe then True
                   else if sensitive_only
                   then jt_id j \<notin> set blocked \<and> (jt_id j \<in> set accepted \<or> the (risk (jt_id j)) \<notin> set sensitive_risk_levels)
                   else jt_id j \<in> set accepted)
             in Inr (map jt_tool (filter pass js),
                  \<lparr>ga_accepted = map (\<lambda>j. (jt_id j, strip (rt_name (jt_tool j)))) (filter (\<lambda>j. jt_id j \<in> set accepted) js),
                    ga_filtered_out = out', ga_composite = composite_audit js\<rparr>))))"

text \<open>The tools of an application pass the gate in the stage the flags give.\<close>

definition govern :: "tool_world \<Rightarrow> tool_caller \<Rightarrow> (string \<times> bool) list option \<Rightarrow> pyval list \<Rightarrow> runtime_tool list \<Rightarrow> exn + runtime_tool list" where
  "govern w caller flags bindings tools =
     (let stage = resolve_mode flags in
      if stage = Disabled then Inr tools
      else map_sum id fst (apply_gate w caller (build_tool_id_hints bindings) (stage = ObserveOnly) (stage = BlockSensitive) tools))"

end
