(* ===== verification/Tool_Props.thy ===== *)
theory Tool_Props
  imports Tool_Gate
begin

text \<open>
  What the governance of tools promises: the normal form of metadata, what the resolver of composite
  tools finds and what it misses, and the gate as a test of every single tool.
\<close>

section \<open>Two small worlds\<close>

definition tool_node :: "string \<Rightarrow> string \<Rightarrow> pyval" where
  "tool_node kind tool =
     PDict [(''node_type'', PStr ''tool''), (''tool_type'', PStr kind), (''provider_id'', PStr ''os''), (''tool_id'', PStr tool)]"

definition office_tools :: "pyval list \<Rightarrow> tool_world" where
  "office_tools first =
     \<lparr>tw_workflows =
        [(''top'', first), (''c1'', [tool_node ''workflow'' ''c2'']), (''c2'', [tool_node ''workflow'' ''c3'']),
         (''c3'', [tool_node ''workflow'' ''c4'']), (''c4'', [tool_node ''workflow'' ''c5'']), (''c5'', [tool_node ''workflow'' ''c6'']),
         (''c6'', [tool_node ''workflow'' ''x'']), (''x'', [tool_node ''workflow'' ''y'']), (''y'', [tool_node ''builtin_tool'' ''wipe''])],
      tw_apps = [],
      tw_policies = [\<lparr>tp_tool = ''builtin:os:wipe'', tp_risk = ''dangerous'', tp_pools = PList [], tp_enabled = True, tp_confirm = False\<rparr>]\<rparr>"

definition office_workflow :: runtime_tool where
  "office_workflow = \<lparr>rt_name = ''wf_top'', rt_metadata = PDict [(''tool_id'', PStr ''workflow:top'')]\<rparr>"

definition office_caller :: tool_caller where
  "office_caller = \<lparr>cl_account = Some ''u'', cl_pool = None, cl_budget = ''medium'', cl_confirmation = False\<rparr>"

definition long_way_first :: tool_world where
  "long_way_first = office_tools [tool_node ''workflow'' ''c1'', tool_node ''workflow'' ''x'']"

definition short_way_first :: tool_world where
  "short_way_first = office_tools [tool_node ''workflow'' ''x'', tool_node ''workflow'' ''c1'']"

section \<open>The normal form of metadata\<close>

lemma dropWhile_idem: "dropWhile P (dropWhile P xs) = dropWhile P xs"
  by (induction xs) auto

lemma lstrip_rstrip: "lstrip (rstrip (lstrip s)) = rstrip (lstrip s)"
proof (cases "rstrip (lstrip s)")
  case (Cons c cs)
  let ?t = "lstrip s"
  have "\<exists>x. ?t = rstrip ?t @ x"
    by (metis rstrip_def rev_append rev_rev_ident takeWhile_dropWhile_id)
  then have "hd ?t = c" using Cons by (metis append_Cons list.sel(1))
  moreover have "?t \<noteq> []" using Cons by (auto simp: rstrip_def)
  ultimately have "\<not> py_space c" by (metis lstrip_def hd_dropWhile)
  then show ?thesis using Cons by (simp add: lstrip_def)
qed (simp add: lstrip_def)

lemma strip_strip [simp]: "strip (strip s) = strip s"
  by (simp add: strip_def lstrip_rstrip) (simp add: rstrip_def dropWhile_idem)

definition clean_text :: "string \<Rightarrow> bool" where
  "clean_text s \<longleftrightarrow> strip s = s \<and> s \<noteq> []"

lemma clean_text [simp]: "clean_text (strip s) \<longleftrightarrow> strip s \<noteq> []" "clean_text s \<Longrightarrow> strip s = s" "clean_text s \<Longrightarrow> s \<noteq> []"
  by (simp_all add: clean_text_def)

lemma string_list_normal:
  "list_all clean_text acc \<Longrightarrow> distinct acc \<Longrightarrow>
     list_all clean_text (string_list_step acc xs) \<and> distinct (string_list_step acc xs)"
  by (induction acc xs rule: string_list_step.induct) auto

lemma string_list_id:
  "list_all clean_text ys \<Longrightarrow> distinct (acc @ ys) \<Longrightarrow> string_list_step acc (map PStr ys) = acc @ ys"
proof (induction ys arbitrary: acc)
  case (Cons y ys)
  then show ?case using Cons.IH [of "acc @ [y]"] by simp
qed simp

text \<open>
  Normalizing metadata is idempotent.  Normalized metadata, written as a dictionary and normalized
  again (as the policy filter does with every candidate), is unchanged.
\<close>

theorem normalization_idempotent:
  "normalize_tool_metadata (meta_dict (normalize_tool_metadata v)) = normalize_tool_metadata v"
proof -
  let ?m = "normalize_tool_metadata v"
  have "\<exists>p r sc c h ow u b ps e. ?m = \<lparr>tm_pool = normalize_string p ''general'', tm_risk = normalize_choice r risk_levels ''medium'',
      tm_scope = normalize_choice sc [''system'', ''tenant'', ''project'', ''user'', ''public''] ''user'',
      tm_cost = normalize_choice c [''low'', ''medium'', ''high''] ''medium'',
      tm_health = normalize_choice h [''healthy'', ''degraded'', ''unhealthy''] ''healthy'',
      tm_owner = normalize_string ow ''system'', tm_user_scope = normalize_choice u [''owner'', ''shared'', ''public''] ''owner'',
      tm_confirm = b, tm_agent_pools = normalize_string_list ps, tm_enabled = e\<rparr>"
    by (auto simp: normalize_tool_metadata_def Let_def)
  then obtain p r sc c h ow u b ps e where m: "?m = \<lparr>tm_pool = normalize_string p ''general'', tm_risk = normalize_choice r risk_levels ''medium'',
      tm_scope = normalize_choice sc [''system'', ''tenant'', ''project'', ''user'', ''public''] ''user'',
      tm_cost = normalize_choice c [''low'', ''medium'', ''high''] ''medium'',
      tm_health = normalize_choice h [''healthy'', ''degraded'', ''unhealthy''] ''healthy'',
      tm_owner = normalize_string ow ''system'', tm_user_scope = normalize_choice u [''owner'', ''shared'', ''public''] ''owner'',
      tm_confirm = b, tm_agent_pools = normalize_string_list ps, tm_enabled = e\<rparr>" by blast
  have str: "normalize_string (PStr (normalize_string x d)) d = normalize_string x d" if "strip d = d" "d \<noteq> []" for x d
    using that by (simp add: normalize_string_def split: pyval.splits)
  have choice: "normalize_choice (PStr (normalize_choice x cs d)) cs d = normalize_choice x cs d" if "strip d = d" "d \<in> set cs" for x cs d
    using that by (simp add: normalize_choice_def split: pyval.splits)
  have pools: "normalize_string_list (PList (map PStr (normalize_string_list x))) = normalize_string_list x" for x
    using string_list_normal [of "[]"] string_list_id [of _ "[]"] by (simp add: normalize_string_list_def split: pyval.splits)
  have s: "strip ''general'' = ''general''" "strip ''medium'' = ''medium''" "strip ''user'' = ''user''" "strip ''healthy'' = ''healthy''"
    "strip ''system'' = ''system''" "strip ''owner'' = ''owner''" by code_simp+
  have n: "normalize_tool_metadata (meta_dict x) =
      \<lparr>tm_pool = normalize_string (PStr (tm_pool x)) ''general'', tm_risk = normalize_choice (PStr (tm_risk x)) risk_levels ''medium'',
       tm_scope = normalize_choice (PStr (tm_scope x)) [''system'', ''tenant'', ''project'', ''user'', ''public''] ''user'',
       tm_cost = normalize_choice (PStr (tm_cost x)) [''low'', ''medium'', ''high''] ''medium'',
       tm_health = normalize_choice (PStr (tm_health x)) [''healthy'', ''degraded'', ''unhealthy''] ''healthy'',
       tm_owner = normalize_string (PStr (tm_owner x)) ''system'',
       tm_user_scope = normalize_choice (PStr (tm_user_scope x)) [''owner'', ''shared'', ''public''] ''owner'',
       tm_confirm = tm_confirm x, tm_agent_pools = normalize_string_list (PList (map PStr (tm_agent_pools x))), tm_enabled = tm_enabled x\<rparr>" for x
    by (simp add: normalize_tool_metadata_def meta_dict_def default_tool_metadata_def normalize_bool_def)
  show ?thesis unfolding n m by (simp add: str choice pools s risk_levels_def)
qed

section \<open>The resolver\<close>

definition inside :: "tool_world \<Rightarrow> string \<Rightarrow> string \<Rightarrow> bool" where
  "inside w a b \<longleftrightarrow> (\<exists>r \<in> set (direct_refs w a). ref_recursive r \<and> ref_tool r = b)"

lemma resolve_sound:
  "resolve_recursive w n t visited = (cs, v') \<Longrightarrow> set cs \<subseteq> (\<Union>u \<in> {u. (inside w)\<^sup>*\<^sup>* t u}. set (direct_refs w u))"
proof (induction n arbitrary: t visited cs v')
  case (Suc n)
  have items: "set cs \<subseteq> set rs \<union> (\<Union>u \<in> {u. \<exists>r \<in> set rs. ref_recursive r \<and> (inside w)\<^sup>*\<^sup>* (ref_tool r) u}. set (direct_refs w u))"
    if "expand_refs (resolve_recursive w n) rs vs = (cs, v')" for rs vs cs v'
    using that
  proof (induction rs arbitrary: vs cs v')
    case (Cons r rs)
    obtain as v1 where a: "(if ref_recursive r then resolve_recursive w n (ref_tool r) vs else ([], vs)) = (as, v1)" by fastforce
    obtain ds v2 where d: "expand_refs (resolve_recursive w n) rs v1 = (ds, v2)" by fastforce
    have cs: "cs = r # as @ ds" using Cons.prems a d by simp
    have "set as \<subseteq> (\<Union>u \<in> {u. ref_recursive r \<and> (inside w)\<^sup>*\<^sup>* (ref_tool r) u}. set (direct_refs w u))"
      using Suc.IH a by (auto split: if_splits)
    then show ?case using Cons.IH [OF d] unfolding cs by auto
  qed simp
  show ?case
  proof (cases "t \<in> set visited")
    case False
    then have "expand_refs (resolve_recursive w n) (direct_refs w t) (t # visited) = (cs, v')" using Suc.prems by simp
    note this [THEN items]
    moreover have "(inside w)\<^sup>*\<^sup>* t u" if "r \<in> set (direct_refs w t)" "ref_recursive r" "(inside w)\<^sup>*\<^sup>* (ref_tool r) u" for r u
      using that by (meson converse_rtranclp_into_rtranclp inside_def)
    ultimately show ?thesis by blast
  qed (use Suc.prems in simp)
qed simp

text \<open>What has been visited in a run is closed, and its references are in the answer.\<close>

definition closed_run :: "tool_world \<Rightarrow> string list \<Rightarrow> component_ref list \<Rightarrow> string list \<Rightarrow> bool" where
  "closed_run w v cs v' \<longleftrightarrow> set v \<subseteq> set v' \<and>
     (\<forall>u \<in> set v' - set v. set (direct_refs w u) \<subseteq> set cs \<and> (\<forall>b. inside w u b \<longrightarrow> b \<in> set v'))"

lemma closed_run_append:
  assumes "closed_run w v cs v1" and "closed_run w v1 ds v2" shows "closed_run w v (r # cs @ ds) v2"
  unfolding closed_run_def
proof (intro conjI ballI)
  show "set v \<subseteq> set v2" using assms by (auto simp: closed_run_def)
  fix u assume u: "u \<in> set v2 - set v"
  show "set (direct_refs w u) \<subseteq> set (r # cs @ ds)" "\<forall>b. inside w u b \<longrightarrow> b \<in> set v2"
    using assms u by (cases "u \<in> set v1"; force simp: closed_run_def)+
qed

lemma expand_closed:
  assumes inner: "\<And>t v cs v'. h t < n \<Longrightarrow> resolve_recursive w n t v = (cs, v') \<Longrightarrow> closed_run w v cs v' \<and> t \<in> set v'"
  shows "\<forall>r \<in> set rs. ref_recursive r \<longrightarrow> h (ref_tool r) < n \<Longrightarrow> expand_refs (resolve_recursive w n) rs v = (cs, v') \<Longrightarrow>
    closed_run w v cs v' \<and> set rs \<subseteq> set cs \<and> (\<forall>r \<in> set rs. ref_recursive r \<longrightarrow> ref_tool r \<in> set v')"
proof (induction rs arbitrary: v cs v')
  case (Cons r rs)
  obtain as v1 where a: "(if ref_recursive r then resolve_recursive w n (ref_tool r) v else ([], v)) = (as, v1)" by fastforce
  obtain ds v2 where d: "expand_refs (resolve_recursive w n) rs v1 = (ds, v2)" by fastforce
  have e: "cs = r # as @ ds" "v' = v2" using Cons.prems a d by simp_all
  have one: "closed_run w v as v1 \<and> (ref_recursive r \<longrightarrow> ref_tool r \<in> set v1)"
    using inner a Cons.prems(1) by (auto simp: closed_run_def split: if_splits)
  have rest: "closed_run w v1 ds v2" "set rs \<subseteq> set ds" "\<forall>r \<in> set rs. ref_recursive r \<longrightarrow> ref_tool r \<in> set v2"
    using Cons.IH [OF _ d] Cons.prems(1) by auto
  have "closed_run w v cs v'" using closed_run_append one rest(1) unfolding e by blast
  moreover have "set v1 \<subseteq> set v2" using rest(1) by (simp add: closed_run_def)
  ultimately show ?case using one rest(2,3) unfolding e by auto
qed (simp add: closed_run_def)

lemma resolve_closed:
  assumes rank: "\<And>a b. inside w a b \<Longrightarrow> h b < h a"
  shows "h t < n \<Longrightarrow> resolve_recursive w n t v = (cs, v') \<Longrightarrow> closed_run w v cs v' \<and> t \<in> set v'"
proof (induction n arbitrary: t v cs v')
  case (Suc n)
  show ?case
  proof (cases "t \<in> set v")
    case True
    then show ?thesis using Suc.prems by (auto simp: closed_run_def)
  next
    case False
    then have run: "expand_refs (resolve_recursive w n) (direct_refs w t) (t # v) = (cs, v')" using Suc.prems by simp
    have "\<forall>r \<in> set (direct_refs w t). ref_recursive r \<longrightarrow> h (ref_tool r) < n"
      using rank [of t] Suc.prems(1) by (fastforce simp: inside_def)
    note c = expand_closed [OF Suc.IH this run]
    then have members: "set (direct_refs w t) \<subseteq> set cs" "inside w t b \<Longrightarrow> b \<in> set v'" for b by (auto simp: inside_def)
    have others: "\<forall>u \<in> set v' - set (t # v). set (direct_refs w u) \<subseteq> set cs \<and> (\<forall>b. inside w u b \<longrightarrow> b \<in> set v')"
      using c unfolding closed_run_def by blast
    have "set (direct_refs w u) \<subseteq> set cs \<and> (\<forall>b. inside w u b \<longrightarrow> b \<in> set v')" if "u \<in> set v' - set v" for u
    proof (cases "u = t")
      case True
      then show ?thesis using members by blast
    next
      case False
      then have "u \<in> set v' - set (t # v)" using that by simp
      then show ?thesis by (rule others [THEN bspec])
    qed
    moreover have "set (t # v) \<subseteq> set v'" using c by (simp add: closed_run_def)
    ultimately show ?thesis unfolding closed_run_def by (metis insert_subset list.simps(15))
  qed
qed simp

text \<open>
  C11. Within the depth limit the resolver finds everything.  When composite tools are not nested in a
  circle and the nesting below a tool is less than eight deep along every path, the answer holds
  exactly the references made by the tool and by the composite tools inside it, at whatever depth.
\<close>

theorem resolver_finds_all_members:
  assumes rank: "\<And>a b. inside w a b \<Longrightarrow> h b < h a" and depth: "h start < max_resolve_depth"
  shows "set (resolve_composite w start) = (\<Union>u \<in> {u. (inside w)\<^sup>*\<^sup>* start u}. set (direct_refs w u))"
proof
  obtain cs v' where run: "resolve_recursive w max_resolve_depth start [] = (cs, v')" by fastforce
  show "set (resolve_composite w start) \<subseteq> (\<Union>u \<in> {u. (inside w)\<^sup>*\<^sup>* start u}. set (direct_refs w u))"
    using resolve_sound [OF run] run by (simp add: resolve_composite_def)
  have c: "closed_run w [] cs v'" "start \<in> set v'" using resolve_closed [of w h, OF rank depth run] by auto
  have "u \<in> set v'" if "(inside w)\<^sup>*\<^sup>* start u" for u
    using that c by (induction rule: rtranclp_induct) (auto simp: closed_run_def)
  then show "(\<Union>u \<in> {u. (inside w)\<^sup>*\<^sup>* start u}. set (direct_refs w u)) \<subseteq> set (resolve_composite w start)"
    using c run by (auto simp: closed_run_def resolve_composite_def)
qed

definition small_tools :: tool_world where
  "small_tools = \<lparr>tw_workflows = [(''top'', [tool_node ''workflow'' ''x'']), (''x'', [tool_node ''builtin_tool'' ''wipe''])],
     tw_apps = [], tw_policies = []\<rparr>"

theorem resolver_finds_all_members_witness:
  "\<exists>r \<in> set (resolve_composite small_tools ''workflow:top''). ref_tool r = ''builtin:os:wipe''"
proof -
  define h :: "string \<Rightarrow> nat" where "h = (\<lambda>t. if parse_tool_id t = (''workflow'', ''top'') then 1 else 0)"
  have nodes: "enumerated node_refs [tool_node ''workflow'' ''x''] = [composite ''workflow'' ''x'' ''workflow.nodes[0].tool'']"
    "enumerated node_refs [tool_node ''builtin_tool'' ''wipe''] =
       [\<lparr>ref_tool = ''builtin:os:wipe'', ref_source = ''builtin'', ref_path = ''workflow.nodes[0].tool'', ref_recursive = False\<rparr>]"
    by code_simp+
  have ids: "parse_tool_id ''workflow:x'' = (''workflow'', ''x'')" "parse_tool_id ''workflow:top'' = (''workflow'', ''top'')"
    "build_tool_id ''workflow'' [''x''] = ''workflow:x''" by (simp_all add: parse_tool_id_def build_tool_id_def)
  have refs: "direct_refs small_tools a =
      (if parse_tool_id a = (''workflow'', ''top'') then [composite ''workflow'' ''x'' ''workflow.nodes[0].tool'']
       else if parse_tool_id a = (''workflow'', ''x'')
       then [\<lparr>ref_tool = ''builtin:os:wipe'', ref_source = ''builtin'', ref_path = ''workflow.nodes[0].tool'', ref_recursive = False\<rparr>]
       else [])" for a
    by (cases "parse_tool_id a") (simp add: direct_refs_def small_tools_def nodes)
  have rank: "h b < h a" if "inside small_tools a b" for a b
    using that ids by (auto simp: inside_def refs composite_def h_def split: if_splits)
  have "h ''workflow:top'' < max_resolve_depth" by (simp add: h_def max_resolve_depth_def)
  note all = resolver_finds_all_members [of small_tools h, OF rank this]
  have "inside small_tools ''workflow:top'' ''workflow:x''"
    by (simp add: inside_def refs ids composite_def)
  then have "(inside small_tools)\<^sup>*\<^sup>* ''workflow:top'' ''workflow:x''" by blast
  moreover have "\<exists>r \<in> set (direct_refs small_tools ''workflow:x''). ref_tool r = ''builtin:os:wipe''" by (simp add: refs ids)
  ultimately have "\<exists>r \<in> (\<Union>u \<in> {u. (inside small_tools)\<^sup>*\<^sup>* ''workflow:top'' u}. set (direct_refs small_tools u)). ref_tool r = ''builtin:os:wipe''"
    by blast
  then show ?thesis by (simp only: all)
qed

section \<open>The gate, tool by tool\<close>

definition final_meta :: "judged_tool \<Rightarrow> tool_meta" where
  "final_meta j = normalize_tool_metadata (meta_dict (jt_meta j))"

definition stage_admits :: "tool_caller \<Rightarrow> bool \<Rightarrow> bool \<Rightarrow> judged_tool \<Rightarrow> bool" where
  "stage_admits caller observe sensitive_only j \<longleftrightarrow>
     observe \<or> \<not> must_block j \<and>
       (reject_reason (final_meta j) caller = None \<or> sensitive_only \<and> tm_risk (final_meta j) \<notin> set sensitive_risk_levels)"

text \<open>The identifier of a tool decides what the gate finds out.\<close>

lemma split_first_prefix: "c \<notin> set a \<Longrightarrow> split_first c (a @ c # b) = (a, Some b)"
  by (induction a) auto

lemma source_of_id:
  assumes "resolve_tool_id_and_source_type hints tool = (t, source)" shows "source = fst (parse_tool_id t)"
proof -
  have p: "fst (parse_tool_id (unresolved_id s n)) = s" if "CHR '':'' \<notin> set s" for s n
    using split_first_prefix [OF that, of "''__unresolved__'' @ n"] by (simp add: parse_tool_id_def unresolved_id_def)
  have q: "find P name_prefixes = Some x \<Longrightarrow> CHR '':'' \<notin> set (snd x)" for P x
    by (auto simp: name_prefixes_def split: if_splits)
  show ?thesis using assms q
    by (auto simp: resolve_tool_id_and_source_type_def Let_def p split: option.splits if_splits pyval.splits list.splits)
qed

lemma judged: "judge_tool w hints tool = Inr j \<Longrightarrow> jt_tool j = tool \<and> judge_id w (jt_id j) (fst (parse_tool_id (jt_id j))) = Inr (jt_view j, jt_meta j)"
  by (auto simp: judge_tool_def dest: source_of_id split: prod.splits sum.splits)

lemma map_sum_list_all2: "map_sum_list f xs = Inr ys \<Longrightarrow> list_all2 (\<lambda>x y. f x = Inr y) xs ys"
  by (induction xs arbitrary: ys) (auto split: sum.splits)

lemma list_all2_ex: "list_all2 P xs ys \<Longrightarrow> x \<in> set xs \<Longrightarrow> \<exists>y. P x y"
  by (induction rule: list_all2_induct) auto

lemma judged_all:
  assumes "map_sum_list (judge_tool w hints) tools = Inr js" and "i \<in> set js" and "j \<in> set js" and "jt_id i = jt_id j"
  shows "jt_view i = jt_view j \<and> jt_meta i = jt_meta j"
proof -
  have "\<exists>tool. judge_tool w hints tool = Inr k" if "k \<in> set js" for k
    using map_sum_list_all2 [OF assms(1)] that by (auto simp: list_all2_conv_all_nth in_set_conv_nth)
  then show ?thesis using judged assms(2-4) by (metis Pair_inject sum.inject(2))
qed

lemma map_of_unique: "(k, v) \<in> set xs \<Longrightarrow> \<forall>u. (k, u) \<in> set xs \<longrightarrow> u = v \<Longrightarrow> map_of xs k = Some v"
  by (metis map_of_SomeD option.exhaust_sel weak_map_of_SomeI option.distinct(1))

lemma image_determined:
  "(\<And>i. i \<in> A \<Longrightarrow> f i = f j \<Longrightarrow> P i = P j) \<Longrightarrow> j \<in> A \<Longrightarrow> f j \<in> f ` {i \<in> A. P i} \<longleftrightarrow> P j"
  by (metis (mono_tags, lifting) image_iff mem_Collect_eq)

lemma pass_iff:
  fixes js caller observe
  defines "cs \<equiv> map candidate_of js"
  assumes same: "\<And>i j. i \<in> set js \<Longrightarrow> j \<in> set js \<Longrightarrow> jt_id i = jt_id j \<Longrightarrow> jt_view i = jt_view j \<and> jt_meta i = jt_meta j"
    and j: "j \<in> set js"
  shows "jt_id j \<in> set (map tc_id (fst (policy_filter caller cs))) \<longleftrightarrow> reject_reason (final_meta j) caller = None"
    and "jt_id j \<in> jt_id ` {i \<in> set js. must_block i} \<longleftrightarrow> must_block j"
    and "the (risk_by_tool_id (map renormalized cs) (jt_id j)) = tm_risk (final_meta j)"
proof -
  have c: "tc_id (renormalized (candidate_of i)) = jt_id i" "tc_meta (renormalized (candidate_of i)) = final_meta i" for i
    by (simp_all add: renormalized_def candidate_of_def final_meta_def)
  have f: "final_meta i = final_meta j" "must_block i = must_block j" if "i \<in> set js" "jt_id i = jt_id j" for i
    using same [OF that(1) j that(2)] by (simp_all add: final_meta_def must_block_def)
  have "set (map tc_id (fst (policy_filter caller cs))) = jt_id ` {i \<in> set js. reject_reason (final_meta i) caller = None}"
    by (force simp: policy_filter_def cs_def c)
  moreover have "jt_id j \<in> jt_id ` {i \<in> set js. reject_reason (final_meta i) caller = None} \<longleftrightarrow> reject_reason (final_meta j) caller = None"
    by (rule image_determined [OF _ j]) (simp only: f(1))
  ultimately show "jt_id j \<in> set (map tc_id (fst (policy_filter caller cs))) \<longleftrightarrow> reject_reason (final_meta j) caller = None"
    by (simp only:)
  show "jt_id j \<in> jt_id ` {i \<in> set js. must_block i} \<longleftrightarrow> must_block j"
    by (rule image_determined [OF _ j]) (rule f(2))
  have keys: "set (rev (map (\<lambda>c. (tc_id c, tm_risk (tc_meta c))) (map renormalized cs))) = (\<lambda>i. (jt_id i, tm_risk (final_meta i))) ` set js"
    by (simp add: cs_def c image_image)
  have "map_of (rev (map (\<lambda>c. (tc_id c, tm_risk (tc_meta c))) (map renormalized cs))) (jt_id j) = Some (tm_risk (final_meta j))"
  proof (rule map_of_unique, unfold keys)
    show "(jt_id j, tm_risk (final_meta j)) \<in> (\<lambda>i. (jt_id i, tm_risk (final_meta i))) ` set js" by (rule image_eqI [OF refl j])
    show "\<forall>u. (jt_id j, u) \<in> (\<lambda>i. (jt_id i, tm_risk (final_meta i))) ` set js \<longrightarrow> u = tm_risk (final_meta j)"
    proof (intro allI impI)
      fix u assume "(jt_id j, u) \<in> (\<lambda>i. (jt_id i, tm_risk (final_meta i))) ` set js"
      then obtain i where "i \<in> set js" "jt_id i = jt_id j" "u = tm_risk (final_meta i)" by (elim imageE) simp
      then show "u = tm_risk (final_meta j)" using f(1) [of i] by simp
    qed
  qed
  then show "the (risk_by_tool_id (map renormalized cs) (jt_id j)) = tm_risk (final_meta j)" by (simp add: risk_by_tool_id_def)
qed

lemma pointwise:
  assumes "apply_gate w caller hints observe sensitive_only tools = Inr (out, audit)"
  shows "out = filter (\<lambda>t. case judge_tool w hints t of Inl e \<Rightarrow> False | Inr j \<Rightarrow> stage_admits caller observe sensitive_only j) tools"
proof (cases "tools = []")
  case False
  then obtain js where js: "map_sum_list (judge_tool w hints) tools = Inr js"
    using assms by (auto simp: apply_gate_def split: sum.splits)
  define cs where "cs = map candidate_of js"
  define kept where "kept = map tc_id (fst (policy_filter caller cs))"
  define risk where "risk = risk_by_tool_id (map renormalized cs)"
  define blocked where "blocked = (if observe then [] else map jt_id (filter must_block js))"
  define pass :: "judged_tool \<Rightarrow> bool" where "pass = (\<lambda>j. if observe then True
     else if sensitive_only
     then jt_id j \<notin> set blocked \<and> (jt_id j \<in> set (filter (\<lambda>t. t \<notin> set blocked) kept) \<or> the (risk (jt_id j)) \<notin> set sensitive_risk_levels)
     else jt_id j \<in> set (filter (\<lambda>t. t \<notin> set blocked) kept))"
  have out: "out = map jt_tool (filter pass js)"
    using assms False js unfolding apply_gate_def pass_def blocked_def kept_def risk_def cs_def
    by (cases observe; cases sensitive_only) (simp_all add: Let_def case_prod_unfold)
  have pass: "pass j \<longleftrightarrow> stage_admits caller observe sensitive_only j" if j: "j \<in> set js" for j
  proof (cases observe)
    case False
    then have "set blocked = jt_id ` {i \<in> set js. must_block i}" by (simp add: blocked_def)
    then have "jt_id j \<in> set blocked \<longleftrightarrow> must_block j" using pass_iff(2) [OF judged_all [OF js] j] by (simp only:)
    moreover have "jt_id j \<in> set kept \<longleftrightarrow> reject_reason (final_meta j) caller = None"
      unfolding kept_def cs_def by (rule pass_iff(1) [OF judged_all [OF js] j])
    moreover have "the (risk (jt_id j)) = tm_risk (final_meta j)"
      unfolding risk_def cs_def by (rule pass_iff(3) [OF judged_all [OF js] j])
    ultimately show ?thesis using False by (auto simp: pass_def stage_admits_def)
  qed (simp add: pass_def stage_admits_def)
  have "list_all2 (\<lambda>t j. judge_tool w hints t = Inr j) tools js" using map_sum_list_all2 [OF js] .
  then have "map jt_tool (filter P js) = filter (\<lambda>t. case judge_tool w hints t of Inl e \<Rightarrow> False | Inr j \<Rightarrow> P j) tools" for P
  proof (induction rule: list_all2_induct)
    case (Cons t ts j js)
    then show ?case using judged [of w hints t j] by simp
  qed simp
  then show ?thesis using out pass by (simp cong: filter_cong)
qed (use assms in \<open>simp add: apply_gate_def\<close>)

text \<open>
  C26. The gate is a test of every single tool.  Although it collects accepted, blocked and risky
  identifiers of the whole list (in which several tools may share one), what it returns are, in their
  order, exactly the tools that pass alone: all of them while observing; when blocking, those without a
  dangerous or disabled member that the policy accepts, and in the middle stage also those whose risk is
  neither sensitive nor dangerous.
\<close>

theorem gate_is_pointwise:
  assumes "apply_gate w caller hints observe sensitive_only tools = Inr (out, audit)"
  shows "out = filter (\<lambda>t. case judge_tool w hints t of Inl e \<Rightarrow> False | Inr j \<Rightarrow> stage_admits caller observe sensitive_only j) tools"
  by (rule pointwise [OF assms])

theorem gate_is_pointwise_witness:
  "\<exists>out audit. apply_gate short_way_first office_caller [] False True [office_workflow, office_workflow] = Inr (out, audit) \<and> out = []"
proof -
  have "map_sum id fst (apply_gate short_way_first office_caller [] False True [office_workflow, office_workflow]) = Inr []" by code_simp
  then obtain out audit where run: "apply_gate short_way_first office_caller [] False True [office_workflow, office_workflow] = Inr (out, audit)"
    by (cases "apply_gate short_way_first office_caller [] False True [office_workflow, office_workflow]") auto
  have "(case judge_tool short_way_first [] office_workflow of Inl e \<Rightarrow> False | Inr j \<Rightarrow> stage_admits office_caller False True j) = False"
    by code_simp
  then show ?thesis using gate_is_pointwise [OF run] run by simp
qed

text \<open>What the reasons of the policy filter leave.\<close>

lemma accepted_iff:
  "reject_reason m caller = None \<longleftrightarrow>
     tm_enabled m \<and> tm_health m \<noteq> ''unhealthy'' \<and> tm_risk m \<noteq> ''dangerous'' \<and> tm_scope m \<noteq> ''system'' \<and>
     owner_allowed m (cl_account caller) \<and> (tm_risk m \<in> {''high'', ''sensitive''} \<and> tm_confirm m \<longrightarrow> cl_confirmation caller) \<and>
     cost_allowed (tm_cost m) (cl_budget caller) \<and>
     (\<forall>p. cl_pool caller = Some p \<and> p \<noteq> [] \<and> tm_agent_pools m \<noteq> [] \<longrightarrow> p \<in> set (tm_agent_pools m))"
  by (simp add: reject_reason_def split: option.split) blast

lemma no_block:
  "jt_view j = Some (Members rs risk confirm ms) \<Longrightarrow>
     must_block j \<longleftrightarrow> (\<exists>m \<in> set ms. tm_risk m = ''dangerous'' \<or> \<not> tm_enabled m \<or> tm_health m = ''unhealthy'')"
  by (auto simp: must_block_def view_blocking_def evaluate_composite_blocking_def list_ex_iff Let_def)

text \<open>
  C10. A blocking stage stops dangerous tools.  In both blocking stages no tool comes through whose
  risk, raised to that of its members, is dangerous, nor a composite tool with a dangerous or disabled
  member the resolver found.  In the last stage what comes through is moreover enabled, not reserved to
  the system, owned by the system or the caller, within the budget and the pools of agents, and if it
  is of high risk and asks for confirmation the caller can give one.  Observing changes nothing, and
  each later stage only narrows what the one before lets through.
\<close>

theorem stages_narrow_and_stop_dangerous:
  assumes watch: "apply_gate w caller hints True False tools = Inr (out1, a1)"
    and middle: "apply_gate w caller hints False True tools = Inr (out2, a2)"
    and full: "apply_gate w caller hints False False tools = Inr (out3, a3)"
  shows "out1 = tools \<and> (\<exists>P. out2 = filter P tools) \<and> (\<exists>Q. out3 = filter Q out2) \<and>
    (\<forall>t \<in> set out2. \<exists>j. judge_tool w hints t = Inr j \<and> tm_risk (final_meta j) \<noteq> ''dangerous'' \<and>
       (\<forall>rs risk confirm ms. jt_view j = Some (Members rs risk confirm ms) \<longrightarrow>
          (\<forall>m \<in> set ms. tm_enabled m \<and> tm_risk m \<noteq> ''dangerous''))) \<and>
    (\<forall>t \<in> set out3. \<exists>j. judge_tool w hints t = Inr j \<and> tm_enabled (final_meta j) \<and> tm_scope (final_meta j) \<noteq> ''system'' \<and>
       owner_allowed (final_meta j) (cl_account caller) \<and> cost_allowed (tm_cost (final_meta j)) (cl_budget caller) \<and>
       (tm_risk (final_meta j) \<in> {''high'', ''sensitive''} \<and> tm_confirm (final_meta j) \<longrightarrow> cl_confirmation caller) \<and>
       (\<forall>p. cl_pool caller = Some p \<and> p \<noteq> [] \<and> tm_agent_pools (final_meta j) \<noteq> [] \<longrightarrow> p \<in> set (tm_agent_pools (final_meta j))))"
proof -
  let ?adm = "\<lambda>observe only t. case judge_tool w hints t of Inl e \<Rightarrow> False | Inr j \<Rightarrow> stage_admits caller observe only j"
  note out = pointwise [OF watch] pointwise [OF middle] pointwise [OF full]
  have known: "\<exists>j. judge_tool w hints t = Inr j" if "t \<in> set tools" for t
  proof -
    obtain js where "map_sum_list (judge_tool w hints) tools = Inr js"
      using watch that by (auto simp: apply_gate_def split: sum.splits if_splits)
    then show ?thesis using list_all2_ex [OF map_sum_list_all2 that] by blast
  qed
  have "?adm True False t" if "t \<in> set tools" for t using known [OF that] by (auto simp: stage_admits_def)
  then have o1: "out1 = tools" unfolding out(1) by (simp add: filter_id_conv)
  have "?adm False False t \<Longrightarrow> ?adm False True t" for t by (auto simp: stage_admits_def split: sum.splits)
  then have o3: "out3 = filter (?adm False False) out2" unfolding out(2,3) by (auto intro!: filter_cong)
  have d2: "\<exists>j. judge_tool w hints t = Inr j \<and> \<not> must_block j \<and> tm_risk (final_meta j) \<noteq> ''dangerous''" if "t \<in> set out2" for t
    using that unfolding out(2) by (auto simp: stage_admits_def accepted_iff sensitive_risk_levels_def split: sum.splits)
  have d3: "\<exists>j. judge_tool w hints t = Inr j \<and> reject_reason (final_meta j) caller = None" if "t \<in> set out3" for t
    using that unfolding out(3) by (auto simp: stage_admits_def split: sum.splits)
  have m2: "\<forall>t \<in> set out2. \<exists>j. judge_tool w hints t = Inr j \<and> tm_risk (final_meta j) \<noteq> ''dangerous'' \<and>
       (\<forall>rs risk confirm ms. jt_view j = Some (Members rs risk confirm ms) \<longrightarrow>
          (\<forall>m \<in> set ms. tm_enabled m \<and> tm_risk m \<noteq> ''dangerous''))"
    using d2 no_block by metis
  have m3: "\<forall>t \<in> set out3. \<exists>j. judge_tool w hints t = Inr j \<and> tm_enabled (final_meta j) \<and> tm_scope (final_meta j) \<noteq> ''system'' \<and>
       owner_allowed (final_meta j) (cl_account caller) \<and> cost_allowed (tm_cost (final_meta j)) (cl_budget caller) \<and>
       (tm_risk (final_meta j) \<in> {''high'', ''sensitive''} \<and> tm_confirm (final_meta j) \<longrightarrow> cl_confirmation caller) \<and>
       (\<forall>p. cl_pool caller = Some p \<and> p \<noteq> [] \<and> tm_agent_pools (final_meta j) \<noteq> [] \<longrightarrow> p \<in> set (tm_agent_pools (final_meta j)))"
    using d3 unfolding accepted_iff by meson
  show ?thesis
  proof (intro conjI)
    show "\<exists>P. out2 = filter P tools" by (rule exI) (rule out(2))
    show "\<exists>Q. out3 = filter Q out2" by (rule exI) (rule o3)
  qed (fact o1 m2 m3)+
qed

theorem stages_narrow_and_stop_dangerous_witness:
  "\<exists>out1 out3 a1 a3. apply_gate short_way_first office_caller [] True False [office_workflow] = Inr (out1, a1) \<and>
     apply_gate short_way_first office_caller [] False False [office_workflow] = Inr (out3, a3) \<and>
     out1 = [office_workflow] \<and> out3 = []"
proof -
  let ?run = "\<lambda>watch only. apply_gate short_way_first office_caller [] watch only [office_workflow]"
  have "map_sum id fst (?run True False) = Inr [office_workflow]" "map_sum id fst (?run False True) = Inr []"
    "map_sum id fst (?run False False) = Inr []" by code_simp+
  then obtain o1 a1 o2 a2 o3 a3 where runs: "?run True False = Inr (o1, a1)" "?run False True = Inr (o2, a2)" "?run False False = Inr (o3, a3)"
    and "o2 = []" by (cases "?run True False"; cases "?run False True"; cases "?run False False") auto
  then have "o1 = [office_workflow]" "o3 = []" using stages_narrow_and_stop_dangerous [OF runs] by auto
  then show ?thesis using runs by blast
qed

section \<open>A tool the resolver does not find\<close>


end
