(* ===== verification/Spec2Isabelle.thy ===== *)
theory Spec2Isabelle
  imports Variable_Parser Node_Props Pricing_Props Peak_Windows Credit_Props V4A_Print Queue_Props Todo_Props Budget_Gate Refund_Props Renewal_Props
    Withdrawals Redeem_Props Task_Flow Admin_Props Tool_Props
begin

text \<open>
  This library models the deterministic core of the yuxin-ai backend (\<^verbatim>\<open>src/api/internal\<close>): the workflow
  engine that runs the graphs users draw, the billing that charges for what they run, the shop that sells
  it, the administration of the platform, and the parts of the agents that are programs of their own.

  \<^bold>\<open>The program and its parts.\<close>  A workflow is validated when it is saved
  (\<^verbatim>\<open>core/workflow/entities/workflow_entity.py\<close>), turned into layers and executed by the graph engine
  (\<^verbatim>\<open>core/workflow/graph_engine.py\<close>), whose nodes read and write a variable pool
  (\<^verbatim>\<open>variable_pool.py\<close>, \<^verbatim>\<open>variable_parser.py\<close>) and may be retried (\<^verbatim>\<open>utils/retry_executor.py\<close>).  The use
  of a model is priced (\<^verbatim>\<open>core/billing/pricing_engine.py\<close>) with prices an administrator saved through
  a guard (\<^verbatim>\<open>core/billing/pricing_guard.py\<close>), and charged to a credit account
  (\<^verbatim>\<open>service/credit_service.py\<close>) whose quota depends on the membership in force
  (\<^verbatim>\<open>service/membership_resolver.py\<close>, rows in \<^verbatim>\<open>model/billing.py\<close>).  Memberships and credits are
  bought with orders (\<^verbatim>\<open>service/order_service.py\<close>) paid from a wallet (\<^verbatim>\<open>service/balance_service.py\<close>) or
  through a payment channel; a paid order delivers its rights and earns a commission for the buyer's
  superior (\<^verbatim>\<open>service/distribution_service.py\<close>), it can be refunded (\<^verbatim>\<open>service/refund_service.py\<close>), and a
  renewal repeats it (\<^verbatim>\<open>service/auto_renewal_service.py\<close>).  Money leaves the wallet by withdrawals
  (\<^verbatim>\<open>service/withdrawal_service.py\<close>), and plans are also sold as codes that a user redeems
  (\<^verbatim>\<open>service/redeem_code_service.py\<close>, \<^verbatim>\<open>service/admin_redeem_code_service.py\<close>).
  Agents edit files with patches in a text format of their own
  (\<^verbatim>\<open>core/agent/adapters/hermes/v4a_patch.py\<close>), and what they think reaches the reader through a queue
  manager (\<^verbatim>\<open>core/agent/agents/agent_queue_manager.py\<close>).  The platform is run by administrators with roles
  and sessions of their own (\<^verbatim>\<open>service/admin_user_service.py\<close>, \<^verbatim>\<open>service/admin_rbac_service.py\<close>, permissions in
  \<^verbatim>\<open>core/rbac.py\<close>), and by agents they grant a part of their permissions (\<^verbatim>\<open>service/admin_agent_service.py\<close>),
  whose actions pass a gate (\<^verbatim>\<open>service/admin_agent_board_tools.py\<close>,
  \<^verbatim>\<open>service/admin_agent_execution_service.py\<close>) and a budget (\<^verbatim>\<open>core/admin_agent_budget.py\<close>).
  The tools an application gives its agent pass a gate of their own
  (\<^verbatim>\<open>service/runtime_tool_governance_gate.py\<close>), which looks into tools made of tools
  (\<^verbatim>\<open>service/composite_tool_resolver.py\<close>).

  \<^bold>\<open>Theories.\<close>
  \<^item> \<open>Py_Base\<close>: dictionaries as insertion-ordered association lists, the universe \<open>pyval\<close> of values,
    string operations, \<^verbatim>\<open>str\<close>, \<^verbatim>\<open>repr\<close> and \<^verbatim>\<open>int(text)\<close>.  \<open>Py_Float\<close>: binary64 rounding on rationals, the
    locale \<open>rounding\<close> and its interpretation.  \<open>Kv_Store\<close>: the locale of keyed stores.  \<open>Db_Base\<close>: queries for one row and the
    clock of the database.
  \<^item> \<open>Variable_Pool\<close>, \<open>Variable_Parser\<close>: the pool with its path language, and the templates over it.
  \<^item> \<open>Retry\<close>: exceptions as values (\<open>exn\<close>) and both retry executors.
  \<^item> \<open>Graph_Order\<close>: degrees, layers, breadth-first and depth-first search on association lists, with
    their specifications.  \<open>Workflow_Entities\<close>, \<open>Workflow_Config\<close>: node, edge and variable data and the
    validator, against the specification \<open>wf_config\<close>.
  \<^item> \<open>Graph_Engine\<close>: the engine, thread-pool and asyncio versions.  \<open>Engine_Facts\<close>: the invariant of a
    run.  \<open>Engine_Props\<close>: what a run promises.  \<open>Workflow_Nodes\<close>, \<open>Node_Props\<close>: the nodes and adapters.
  \<^item> \<open>Pricing_Engine\<close>, \<open>Pricing_Guard\<close>: prices, tiers, charges, and the checks on them.
    \<open>Pricing_Props\<close>: charges are monotone, never lost to rounding, and never below cost for guarded
    prices.  \<open>Peak_Windows\<close>: the guard's reading of the windows is the engine's.
  \<^item> \<open>Membership\<close>: the order of memberships, expiry, activation.  \<open>Credit\<close>, \<open>Credit_Props\<close>: accounts,
    charges and adjustments, their exactness, and the books of every reachable ledger.
  \<^item> \<open>V4A_Patch\<close>: the patch parser and the application of operations to files.  \<open>V4A_Props\<close>: hunks,
    frames and repeated application.  \<open>V4A_Print\<close>: a printer, the round trip, and the lost edits.
  \<^item> \<open>Agent_Queue\<close>: publishing and listening over the thread queue, the asyncio queue and Redis.
    \<open>Queue_Props\<close>: each of the three refines one channel, on which order, end and liveness are proved.
  \<^item> \<open>Todo_Board\<close>, \<open>Todo_Props\<close>: the boards, the meaning of a merge and the invariant of every board.
    \<open>Budget_Gate\<close>: the gate and its bound.

  \<^item> \<open>Balance\<close>: the wallet and its books.  \<open>Shop\<close>: the tables around orders, their unique constraints and
    the session's unit of work.  \<open>Distribution\<close>, \<open>Orders\<close>, \<open>Refunds\<close>, \<open>Auto_Renewal\<close>: the services.
    \<open>Shop_Frame\<close>: what their parts may change, by the locale \<open>step_order\<close>.  \<open>Shop_Props\<close>: the outcome of
    every operation.  \<open>Shop_Reach\<close>: requests as steps, and the invariant that ties orders to money and
    rights.  \<open>Shop_Money\<close>, \<open>Refund_Props\<close>, \<open>Renewal_Props\<close>: the exact effect of a purchase, a refund and a
    renewal, and where the code gives or takes too much.
  \<^item> \<open>Withdrawals\<close>: requests for money, the invariant that ties them to the wallet, and the race between
    two reviewers.  \<open>Redeem\<close>, \<open>Redeem_Props\<close>: codes from their drawing to their redemption, at most once and
    exactly, and the end of a quota.  \<open>Task_Flow\<close>: the flow of credits as a grouping, its totals and pages.
  \<^item> \<open>Admin_Rbac\<close>: permissions, default roles, what an agent may be given.  \<open>Admin_Users\<close>: administrators, roles,
    passwords and sessions.  \<open>Admin_Agents\<close>: agents, their principals, the gate and the drafts.
    \<open>Admin_History\<close>: requests as steps; the locale \<open>admin_history\<close> of preorders that every request respects is
    interpreted for the one super administrator, for ended sessions and for system roles.  \<open>Admin_Props\<close>: what
    follows for every history, the reach of an agent, and what the checks let through.
  \<^item> \<open>Tool_Inventory\<close>: identifiers, metadata, the policy filter and the resolver of composite tools.  \<open>Tool_Gate\<close>:
    the stages and the gate.  \<open>Tool_Props\<close>: the gate as a test of every single tool, what the resolver finds
    and what its depth limit hides.

  \<^bold>\<open>Correspondence.\<close>  A class is a record, an enumeration a datatype, a method a definition of the same
  name; a raising method returns \<open>exn + _\<close>; the event generator of the engine is the list of events of
  the run; a database table is the list of its rows and a session's answers are data.  Loops are
  recursions on their lists.  A service method that commits is a function on a session, which holds what
  is saved and what the request sees; \<open>serve\<close> is a whole request, after which only what was saved
  remains.  A query flushes pending rows, so constraints are checked there and at the commit.  Of the other loops, \<open>next_reset\<close>, \<open>field_tokens\<close>, \<open>remove_all\<close> and \<open>bits\<close> recurse on measures, and
  no fuel is used anywhere except the iteration counts the code itself bounds.

  \<^bold>\<open>Assumptions.\<close>  Text is Latin-1; Chinese messages are constructors.  Floats do not overflow, and NaN,
  infinities and signed zeros are left out; decimal arithmetic is exact (columns of twelve digits).
  Ids inside JSON columns are
  canonical, and columns of lists hold lists.  Recursion depth, integer-text limits and memory are unbounded.  One billing call reads the clock
  once, and so does one request of the shop.  Amounts of money are rationals rounded to cents; the ids of
  new orders are fresh.  A request of the administration saves all it did or nothing, when it commits at
  its end; what fails before is rolled back with its session.  The parameters of the model are code outside the repository or outside the modelled part:
  the field parsing of pydantic, \<^verbatim>\<open>json.loads\<close>, \<^verbatim>\<open>float\<close>, the code sandbox, the time zone database, UUID
  generation, the digest of a password and the signature of a token, the services behind the actions of an
  agent, the answers of the database, node classes that are not modelled, and the automatic
  renewal that follows a charge.

  \<^bold>\<open>Concurrency.\<close>  The execution of one node is one step; the order in which the nodes of a layer take
  effect is a parameter \<open>sched\<close> of the run, and the properties hold for all of them.  Finer interleavings
  inside a node are not modelled.  A publish and a turn of a listener are one step each; the properties
  of streams hold for every sequence of them.  Requests of the shop are steps of the database in any
  order; two confirmations that both read an order while it was pending are treated by letting an
  operation take the row as it was read.

  \<^bold>\<open>Not modelled.\<close>  Nodes that call language models, tools, HTTP, retrieval or templates; the agents that
  drive them; the adapters of the payment channels; services around
  conversations and assistants; the HTTP layer, schemas, migrations and the front ends.  Listings,
  descriptions and notes of the shop are left out.
\<close>

end
